(* ===== verification/Plate_Prelude.thy ===== *)
theory Plate_Prelude
  imports Main "HOL-Library.Sublist" "HOL-Library.List_Lexorder" "HOL-Library.Char_ord"
    "HOL-Library.Word" "HOL-Library.Multiset"
begin

text \<open>
  Shared vocabulary of the development.

  The store is modelled over SQL tables held as lists of rows. This theory has the
  handful of relational operations the queries use (scoped lookup, UPDATE .. WHERE,
  DELETE .. WHERE, INSERT .. ON CONFLICT, ORDER BY), their algebra, and the interface of a
  table whose rows belong to a tenant account.
\<close>

named_theorems table_simps \<open>how the relational operations commute with views of a table\<close>
named_theorems result_simps \<open>case analysis on fallible results\<close>

section \<open>Results\<close>

text \<open>A fallible Go call returns a value or an error: \<open>Inl\<close> is the error.\<close>

definition is_ok :: "'e + 'a \<Rightarrow> bool" where
  "is_ok r = (case r of Inl _ \<Rightarrow> False | Inr _ \<Rightarrow> True)"

lemma is_ok_simps [simp]: "is_ok (Inr x)" "\<not> is_ok (Inl e)"
  by (simp_all add: is_ok_def)

lemma is_ok_iff: "is_ok r \<longleftrightarrow> (\<exists>x. r = Inr x)"
  by (cases r) (simp_all add: is_ok_def)

section \<open>Tables\<close>

definition get_row :: "('r \<Rightarrow> bool) \<Rightarrow> 'r list \<Rightarrow> 'r option" where
  "get_row p t = find p t"

definition has_row :: "('r \<Rightarrow> bool) \<Rightarrow> 'r list \<Rightarrow> bool" where
  "has_row p t = list_ex p t"

definition update_where :: "('r \<Rightarrow> bool) \<Rightarrow> ('r \<Rightarrow> 'r) \<Rightarrow> 'r list \<Rightarrow> 'r list" where
  "update_where p f t = map (\<lambda>r. if p r then f r else r) t"

definition delete_where :: "('r \<Rightarrow> bool) \<Rightarrow> 'r list \<Rightarrow> 'r list" where
  "delete_where p t = filter (\<lambda>r. \<not> p r) t"

definition insert_row :: "'r \<Rightarrow> 'r list \<Rightarrow> 'r list" where
  "insert_row r t = t @ [r]"

text \<open>\<open>INSERT .. ON CONFLICT (key) DO UPDATE\<close>: the row with the same key is replaced by
  \<open>f old\<close>, otherwise the new row is added.\<close>

definition upsert_row :: "('r \<Rightarrow> bool) \<Rightarrow> ('r \<Rightarrow> 'r) \<Rightarrow> 'r \<Rightarrow> 'r list \<Rightarrow> 'r list" where
  "upsert_row p f r t = (if has_row p t then update_where p f t else insert_row r t)"

definition insert_if_absent :: "('r \<Rightarrow> bool) \<Rightarrow> 'r \<Rightarrow> 'r list \<Rightarrow> 'r list" where
  "insert_if_absent p r t = (if has_row p t then t else insert_row r t)"

lemmas table_defs = get_row_def has_row_def update_where_def delete_where_def insert_row_def
  upsert_row_def insert_if_absent_def

lemma has_row_iff: "has_row p t \<longleftrightarrow> (\<exists>r\<in>set t. p r)"
  by (simp add: has_row_def list_ex_iff)

lemma get_row_Some_iff: "get_row p t = Some r \<Longrightarrow> r \<in> set t \<and> p r"
  by (auto simp: get_row_def find_Some_iff)

lemma get_row_None_iff: "get_row p t = None \<longleftrightarrow> (\<forall>r\<in>set t. \<not> p r)"
  by (auto simp: get_row_def find_None_iff)

lemma get_row_append: "get_row p (s @ t) = (case get_row p s of Some r \<Rightarrow> Some r | None \<Rightarrow> get_row p t)"
  by (induction s) (auto simp: get_row_def)

lemma get_row_cong_filter:
  assumes "\<And>r. p r \<Longrightarrow> q r"
  shows "get_row p (filter q t) = get_row p t"
  using assms by (induction t) (auto simp: get_row_def)

lemma has_row_cong_filter:
  assumes "\<And>r. p r \<Longrightarrow> q r"
  shows "has_row p (filter q t) = has_row p t"
  using assms by (induction t) (auto simp: has_row_def)

lemma set_update_where: "set (update_where p f t) = f ` {r \<in> set t. p r} \<union> {r \<in> set t. \<not> p r}"
  by (auto simp: update_where_def)

lemma update_where_idle [simp]: "(\<And>r. r \<in> set t \<Longrightarrow> \<not> p r) \<Longrightarrow> update_where p f t = t"
  by (induction t) (auto simp: update_where_def)

lemma delete_where_idle [simp]: "(\<And>r. r \<in> set t \<Longrightarrow> \<not> p r) \<Longrightarrow> delete_where p t = t"
  by (induction t) (auto simp: delete_where_def)

lemma length_update_where [simp]: "length (update_where p f t) = length t"
  by (simp add: update_where_def)

lemma map_update_where:
  assumes "\<And>r. k (f r) = k r"
  shows "map k (update_where p f t) = map k t"
  using assms by (simp add: update_where_def)

text \<open>A view \<open>q\<close> of a table is untouched by writes to rows outside it.\<close>

lemma filter_update_where_other [table_simps]:
  assumes "\<And>r. r \<in> set t \<Longrightarrow> p r \<Longrightarrow> \<not> q r" "\<And>r. r \<in> set t \<Longrightarrow> p r \<Longrightarrow> \<not> q (f r)"
  shows "filter q (update_where p f t) = filter q t"
  using assms by (induction t) (auto simp: update_where_def)

lemma filter_delete_where_other [table_simps]:
  assumes "\<And>r. r \<in> set t \<Longrightarrow> p r \<Longrightarrow> \<not> q r"
  shows "filter q (delete_where p t) = filter q t"
  using assms by (induction t) (auto simp: delete_where_def)

lemma filter_insert_row_other [table_simps]: "\<not> q r \<Longrightarrow> filter q (insert_row r t) = filter q t"
  by (simp add: insert_row_def)

lemma filter_upsert_row_other [table_simps]:
  assumes "\<And>r. r \<in> set t \<Longrightarrow> p r \<Longrightarrow> \<not> q r" "\<And>r. r \<in> set t \<Longrightarrow> p r \<Longrightarrow> \<not> q (f r)" "\<not> q r"
  shows "filter q (upsert_row p f r t) = filter q t"
  using assms by (simp add: upsert_row_def filter_update_where_other filter_insert_row_other)

lemma filter_insert_if_absent_other [table_simps]:
  "\<not> q r \<Longrightarrow> filter q (insert_if_absent p r t) = filter q t"
  by (simp add: insert_if_absent_def filter_insert_row_other)

lemma filter_update_where_same [table_simps]:
  assumes "\<And>r. q (f r) = q r"
  shows "filter q (update_where p f t) = update_where p f (filter q t)"
  using assms by (induction t) (auto simp: update_where_def)

lemma get_row_update_where:
  assumes "\<And>r. p (f r) = p r"
  shows "get_row p (update_where p f t) = map_option f (get_row p t)"
  using assms by (induction t) (auto simp: update_where_def get_row_def)

lemma get_row_update_where_other:
  assumes "\<And>r. p r \<Longrightarrow> \<not> q r" "\<And>r. p r \<Longrightarrow> \<not> q (f r)"
  shows "get_row q (update_where p f t) = get_row q t"
  using assms by (induction t) (auto simp: update_where_def get_row_def)

lemma has_row_update_where:
  assumes "\<And>r. q (f r) = q r"
  shows "has_row q (update_where p f t) = has_row q t"
  using assms by (auto simp: update_where_def has_row_def list_ex_iff)

lemma has_row_insert_row [simp]: "has_row p (insert_row r t) \<longleftrightarrow> p r \<or> has_row p t"
  by (auto simp: insert_row_def has_row_def)

lemma get_row_insert_row:
  "get_row p (insert_row r t) = (case get_row p t of Some s \<Rightarrow> Some s | None \<Rightarrow> if p r then Some r else None)"
  by (auto simp: insert_row_def get_row_def get_row_append[unfolded get_row_def] split: option.splits)

text \<open>Lookups by a unique key.\<close>

lemma distinct_key_eq:
  "distinct (map k t) \<Longrightarrow> r \<in> set t \<Longrightarrow> s \<in> set t \<Longrightarrow> k r = k s \<Longrightarrow> r = s"
  by (meson distinct_map inj_onD)

lemma get_row_by_key:
  assumes "distinct (map k t)" "r \<in> set t" "p r" "\<And>x. p x \<Longrightarrow> k x = k r"
  shows "get_row p t = Some r"
proof (cases "get_row p t")
  case None
  then show ?thesis using assms(2,3) by (auto simp: get_row_None_iff)
next
  case (Some s)
  then have "s \<in> set t" "p s" by (auto dest: get_row_Some_iff)
  then have "s = r" using distinct_key_eq [OF assms(1) _ assms(2)] assms(4) by blast
  then show ?thesis using Some by simp
qed

section \<open>Tenant tables\<close>

text \<open>
  Every table of the store but the rendition rows carries an account column. A tenant table
  is known by its key and its account; a column update must keep both. The isolation of one
  account's rows from another account's writes is proved here once.
\<close>

locale tenant_table =
  fixes rid :: "'r \<Rightarrow> string"
    and owner :: "'r \<Rightarrow> string"
    and touch :: "'r \<Rightarrow> 'r"
  assumes touch_id: "rid (touch r) = rid r"
    and touch_owner: "owner (touch r) = owner r"
begin

lemma scoped_update_keeps_others:
  assumes "A \<noteq> B"
  shows "filter (\<lambda>r. owner r = A) (update_where (\<lambda>r. owner r = B \<and> rid r = i) touch t)
         = filter (\<lambda>r. owner r = A) t"
  using assms by (intro filter_update_where_other) (auto simp: touch_owner)

lemma scoped_get_from_view:
  "get_row (\<lambda>r. owner r = A \<and> rid r = i) (filter (\<lambda>r. owner r = A) t)
   = get_row (\<lambda>r. owner r = A \<and> rid r = i) t"
  by (rule get_row_cong_filter) simp

lemma scoped_get_after_touch:
  "get_row (\<lambda>r. owner r = A \<and> rid r = i) (update_where (\<lambda>r. owner r = A \<and> rid r = i) touch t)
   = map_option touch (get_row (\<lambda>r. owner r = A \<and> rid r = i) t)"
  by (rule get_row_update_where) (simp add: touch_id touch_owner)

lemma keys_after_touch: "map rid (update_where p touch t) = map rid t"
  by (rule map_update_where) (rule touch_id)

lemma owners_after_touch: "map owner (update_where p touch t) = map owner t"
  by (rule map_update_where) (rule touch_owner)

end

section \<open>Lists in key order\<close>

text \<open>\<open>SELECT DISTINCT .. ORDER BY\<close> over text: strings compare bytewise.\<close>

definition distinct_sorted :: "string list \<Rightarrow> string list" where
  "distinct_sorted xs = remdups (sort xs)"

lemma set_distinct_sorted [simp]: "set (distinct_sorted xs) = set xs"
  by (simp add: distinct_sorted_def)

lemma sorted_distinct_sorted [simp]: "sorted (distinct_sorted xs)"
  by (simp add: distinct_sorted_def sorted_remdups)

lemma distinct_distinct_sorted [simp]: "distinct (distinct_sorted xs)"
  by (simp add: distinct_sorted_def)

text \<open>\<open>ORDER BY k LIMIT 1\<close>: the first row of a stable sort.\<close>

lemma sort_key_head_in: "sort_key k xs = r # rs \<Longrightarrow> r \<in> set xs"
  by (metis list.set_intros(1) set_sort)

lemma sort_key_head_le: "sort_key k xs = r # rs \<Longrightarrow> x \<in> set xs \<Longrightarrow> k r \<le> k x"
proof -
  assume h: "sort_key k xs = r # rs" and x: "x \<in> set xs"
  have "sorted (map k (r # rs))" by (metis h sorted_sort_key)
  moreover have "x \<in> set (r # rs)" using h x by (metis set_sort)
  ultimately show ?thesis by auto
qed

lemma sort_key_empty_iff: "sort_key k xs = [] \<longleftrightarrow> xs = []"
  by (metis length_sort length_0_conv)

lemma map_sort_key: "map k (sort_key k xs) = sort (map k xs)"
  by (rule sym, rule properties_for_sort) simp_all

text \<open>A stable sort by a second key, then by a first one, is the lexicographic sort.\<close>

lemma stable_sort_head:
  assumes "sort_key k1 (sort_key k2 xs) = r # rs" "x \<in> set xs"
  shows "k1 r < k1 x \<or> (k1 r = k1 x \<and> k2 r \<le> k2 x)"
proof (cases "k1 x = k1 r")
  case True
  have "filter (\<lambda>y. k1 y = k1 r) (sort_key k1 (sort_key k2 xs)) = filter (\<lambda>y. k1 y = k1 r) (sort_key k2 xs)"
    by (rule sort_key_stable)
  also have "\<dots> = sort_key k2 (filter (\<lambda>y. k1 y = k1 r) xs)" by (rule filter_sort)
  finally have "sort_key k2 (filter (\<lambda>y. k1 y = k1 r) xs) = r # filter (\<lambda>y. k1 y = k1 r) rs"
    by (simp add: assms(1))
  then have "k2 r \<le> k2 x" by (rule sort_key_head_le) (use True assms(2) in simp)
  with True show ?thesis by simp
next
  case False
  have "k1 r \<le> k1 x" using sort_key_head_le [OF assms(1)] assms(2) by simp
  with False show ?thesis by simp
qed

text \<open>Keep the first occurrence of each element, in order (the \<open>seen\<close> loop of the code).\<close>

fun dedup_seen :: "'a list \<Rightarrow> 'a list \<Rightarrow> 'a list" where
  "dedup_seen seen [] = []"
| "dedup_seen seen (x # xs) =
     (if x \<in> set seen then dedup_seen seen xs else x # dedup_seen (x # seen) xs)"

lemma set_dedup_seen: "set (dedup_seen seen xs) = set xs - set seen"
  by (induction seen xs rule: dedup_seen.induct) auto

lemma distinct_dedup_seen: "distinct (dedup_seen seen xs)"
  by (induction seen xs rule: dedup_seen.induct) (auto simp: set_dedup_seen)

lemma dedup_seen_subseq: "subseq (dedup_seen seen xs) xs"
  by (induction seen xs rule: dedup_seen.induct) auto

lemma string_less_append_same_length:
  fixes xs ys :: "'a::order list"
  assumes "xs < ys" "length xs = length ys"
  shows "xs @ us < ys @ vs"
  using assms
proof (induction xs arbitrary: ys)
  case Nil then show ?case by simp
next
  case (Cons x xs)
  then obtain y ys' where "ys = y # ys'" by (cases ys) auto
  with Cons show ?case by auto
qed

lemma string_less_append_left:
  fixes us vs :: "'a::order list"
  shows "us < vs \<Longrightarrow> xs @ us < xs @ vs"
  by (induction xs) auto

end
