(* ===== verification/Go_Strings.thy ===== *)
theory Go_Strings
  imports Plate_Prelude
begin

text \<open>
  The functions of Go's \<open>strings\<close> package the program uses, on byte strings. \<open>TrimSpace\<close> is
  modelled on ASCII white space (the multi-byte Unicode spaces are not trimmed here), \<open>Split\<close>
  and \<open>Cut\<close> on one-byte separators, which is how the program calls them.
\<close>

definition has_prefix :: "string \<Rightarrow> string \<Rightarrow> bool" where
  "has_prefix s p = (take (length p) s = p)"

definition has_suffix :: "string \<Rightarrow> string \<Rightarrow> bool" where
  "has_suffix s p = (length p \<le> length s \<and> drop (length s - length p) s = p)"

definition trim_prefix :: "string \<Rightarrow> string \<Rightarrow> string" where
  "trim_prefix s p = (if has_prefix s p then drop (length p) s else s)"

definition trim_suffix :: "string \<Rightarrow> string \<Rightarrow> string" where
  "trim_suffix s p = (if has_suffix s p then take (length s - length p) s else s)"

definition contains_char :: "string \<Rightarrow> char \<Rightarrow> bool" where
  "contains_char s c = (c \<in> set s)"

definition is_space :: "char \<Rightarrow> bool" where
  "is_space c = (of_char c \<in> {9, 10, 11, 12, 13, 32 :: nat})"

definition trim_space :: "string \<Rightarrow> string" where
  "trim_space s = rev (dropWhile is_space (rev (dropWhile is_space s)))"

fun split_char :: "char \<Rightarrow> string \<Rightarrow> string list" where
  "split_char c [] = [[]]"
| "split_char c (x # xs) =
     (if x = c then [] # split_char c xs
      else (case split_char c xs of [] \<Rightarrow> [[x]] | w # ws \<Rightarrow> (x # w) # ws))"

text \<open>\<open>strings.Cut\<close>: before and after the first separator.\<close>

fun cut_char :: "char \<Rightarrow> string \<Rightarrow> (string \<times> string) option" where
  "cut_char c [] = None"
| "cut_char c (x # xs) =
     (if x = c then Some ([], xs)
      else (case cut_char c xs of None \<Rightarrow> None | Some (k, v) \<Rightarrow> Some (x # k, v)))"

definition lower_char :: "char \<Rightarrow> char" where
  "lower_char c = (if CHR ''A'' \<le> c \<and> c \<le> CHR ''Z'' then char_of (of_char c + 32 :: nat) else c)"

definition to_lower :: "string \<Rightarrow> string" where
  "to_lower s = map lower_char s"

definition is_digit :: "char \<Rightarrow> bool" where
  "is_digit c = (CHR ''0'' \<le> c \<and> c \<le> CHR ''9'')"

definition is_alnum :: "char \<Rightarrow> bool" where
  "is_alnum c = (is_digit c \<or> (CHR ''A'' \<le> c \<and> c \<le> CHR ''Z'') \<or> (CHR ''a'' \<le> c \<and> c \<le> CHR ''z''))"

lemma has_prefix_iff: "has_prefix s p \<longleftrightarrow> (\<exists>t. s = p @ t)"
  unfolding has_prefix_def by (metis append_eq_conv_conj append_take_drop_id)

lemma has_prefix_append [simp]: "has_prefix (p @ t) p"
  by (simp add: has_prefix_def)

lemma trim_prefix_append [simp]: "trim_prefix (p @ t) p = t"
  by (simp add: trim_prefix_def)

lemma has_suffix_iff: "has_suffix s p \<longleftrightarrow> (\<exists>t. s = t @ p)"
proof
  assume "has_suffix s p"
  then have "s = take (length s - length p) s @ p"
    unfolding has_suffix_def by (metis append_take_drop_id)
  then show "\<exists>t. s = t @ p" by blast
qed (auto simp: has_suffix_def)

lemma has_suffix_append [simp]: "has_suffix (t @ p) p"
  by (auto simp: has_suffix_iff)

lemma trim_suffix_append [simp]: "trim_suffix (t @ p) p = t"
  by (simp add: trim_suffix_def)

lemma split_char_nonempty [simp]: "split_char c s \<noteq> []"
  by (induction s) (auto split: list.splits)

lemma split_char_no_sep: "c \<notin> set s \<Longrightarrow> split_char c s = [s]"
  by (induction s) auto

lemma split_char_append:
  "c \<notin> set s \<Longrightarrow> split_char c (s @ c # t) = s # split_char c t"
  by (induction s) auto

lemma split_char_no_sep_in: "w \<in> set (split_char c s) \<Longrightarrow> c \<notin> set w"
  by (induction s arbitrary: w) (auto split: list.splits if_splits)

lemma cut_char_append: "c \<notin> set k \<Longrightarrow> cut_char c (k @ c # v) = Some (k, v)"
  by (induction k) auto

lemma cut_char_Some: "cut_char c s = Some (k, v) \<Longrightarrow> s = k @ c # v \<and> c \<notin> set k"
  by (induction s arbitrary: k v) (auto split: if_splits option.splits)

lemma cut_char_None: "cut_char c s = None \<longleftrightarrow> c \<notin> set s"
  by (induction s) (auto split: option.splits)

lemma is_digit_alnum: "is_digit c \<Longrightarrow> is_alnum c"
  by (simp add: is_alnum_def)

end
