(* ===== verification/Auth_Binding.thy ===== *)
theory Auth_Binding
  imports Go_Strings "HOL-Library.AList"
begin

text \<open>
  Key to account binding (internal/auth/binding.go): the account id shape, the patterns a
  trusted key may be narrowed to, and the construction of a verifier with a binding table.
  Go maps are association lists (their keys are distinct wherever the code builds them).
\<close>

named_theorems auth_simps \<open>matching and parsing of account patterns\<close>

definition LegacyKeyName :: string where
  "LegacyKeyName = ''@legacy''"

section \<open>Account ids and patterns\<close>

definition account_char :: "char \<Rightarrow> bool" where
  "account_char c = (is_alnum c \<or> c = CHR ''_'' \<or> c = CHR ''.'' \<or> c = CHR ''-'')"

text \<open>The regular expression \<open>^[0-9A-Za-z][0-9A-Za-z_.-]{1,127}$\<close>.\<close>

definition ValidAccountID :: "string \<Rightarrow> bool" where
  "ValidAccountID s = (case s of [] \<Rightarrow> False
     | c # cs \<Rightarrow> is_alnum c \<and> 1 \<le> length cs \<and> length cs \<le> 127 \<and> list_all account_char cs)"

record account_pattern =
  ap_value :: string
  ap_prefix :: bool

datatype pattern_error =
  PE_Empty | PE_EmptyPrefix | PE_InnerStar | PE_BadPrefix | PE_BadAccount

definition ParseAccountPattern :: "string \<Rightarrow> pattern_error + account_pattern" where
  "ParseAccountPattern s =
     (if s = [] then Inl PE_Empty
      else if has_suffix s ''*'' then
        (let p = trim_suffix s ''*'' in
         if p = [] then Inl PE_EmptyPrefix
         else if contains_char p CHR ''*'' then Inl PE_InnerStar
         else if \<not> ValidAccountID (p @ ''x'') \<or> length p > 127 then Inl PE_BadPrefix
         else Inr \<lparr>ap_value = p, ap_prefix = True\<rparr>)
      else if contains_char s CHR ''*'' then Inl PE_InnerStar
      else if \<not> ValidAccountID s then Inl PE_BadAccount
      else Inr \<lparr>ap_value = s, ap_prefix = False\<rparr>)"

definition Matches :: "account_pattern \<Rightarrow> string \<Rightarrow> bool" where
  "Matches p account =
     (if \<not> ap_prefix p then account = ap_value p
      else length account > length (ap_value p) \<and> has_prefix account (ap_value p) \<and> ValidAccountID account)"

definition IsPrefix :: "account_pattern \<Rightarrow> bool" where
  "IsPrefix p = ap_prefix p"

definition pattern_String :: "account_pattern \<Rightarrow> string" where
  "pattern_String p = (if ap_prefix p then ap_value p @ ''*'' else ap_value p)"

section \<open>Verifiers and their binding tables\<close>

text \<open>\<open>'k\<close> is the type of Ed25519 public keys; \<open>None\<close> is the nil legacy key.\<close>

record 'k verifier =
  v_pub :: "'k option"
  v_keys :: "(string \<times> 'k) list"
  v_bindings :: "(string \<times> account_pattern) list"
  v_issuer :: string
  v_audience :: string
  v_methods :: "string list"

definition DenyAllVerifier :: "'k verifier" where
  "DenyAllVerifier = \<lparr>v_pub = None, v_keys = [], v_bindings = [], v_issuer = [], v_audience = [],
     v_methods = []\<rparr>"

definition NewKeysetVerifier :: "'k option \<Rightarrow> (string \<times> 'k) list \<Rightarrow> string \<Rightarrow> string \<Rightarrow> 'k verifier" where
  "NewKeysetVerifier legacy keys issuer audience =
     \<lparr>v_pub = legacy, v_keys = keys, v_bindings = [], v_issuer = issuer, v_audience = audience,
      v_methods = [''EdDSA'']\<rparr>"

definition NewVerifier :: "'k \<Rightarrow> string \<Rightarrow> string \<Rightarrow> 'k verifier" where
  "NewVerifier pub issuer audience = NewKeysetVerifier (Some pub) [] issuer audience"

definition Configured :: "'k verifier \<Rightarrow> bool" where
  "Configured v = (v_pub v \<noteq> None \<or> length (v_keys v) > 0)"

datatype binding_error = BE_NoLegacyKey | BE_UnknownKid string | BE_EmptyPattern string

fun check_bindings :: "'k option \<Rightarrow> (string \<times> 'k) list \<Rightarrow> (string \<times> account_pattern) list
    \<Rightarrow> (string \<times> account_pattern) list \<Rightarrow> binding_error + (string \<times> account_pattern) list" where
  "check_bindings legacy keys [] b = Inr b"
| "check_bindings legacy keys ((name, p) # rest) b =
     (if name = LegacyKeyName \<and> legacy = None then Inl BE_NoLegacyKey
      else if name \<noteq> LegacyKeyName \<and> map_of keys name = None then Inl (BE_UnknownKid name)
      else if ap_value p = [] then Inl (BE_EmptyPattern name)
      else check_bindings legacy keys rest (AList.update name p b))"

definition NewBoundKeysetVerifier :: "'k option \<Rightarrow> (string \<times> 'k) list \<Rightarrow> (string \<times> account_pattern) list
    \<Rightarrow> string \<Rightarrow> string \<Rightarrow> binding_error + 'k verifier" where
  "NewBoundKeysetVerifier legacy keys bindings issuer audience =
     (let v = NewKeysetVerifier legacy keys issuer audience in
      if length bindings = 0 then Inr v
      else (case check_bindings legacy keys bindings [] of
              Inl e \<Rightarrow> Inl e
            | Inr b \<Rightarrow> Inr (v\<lparr>v_bindings := b\<rparr>)))"

definition UnboundKeys :: "'k verifier \<Rightarrow> string list" where
  "UnboundKeys v = sort
     ((if v_pub v \<noteq> None \<and> map_of (v_bindings v) LegacyKeyName = None then [LegacyKeyName] else [])
      @ filter (\<lambda>kid. map_of (v_bindings v) kid = None) (map fst (v_keys v)))"

definition BoundKeys :: "'k verifier \<Rightarrow> string list" where
  "BoundKeys v = sort (map fst (v_bindings v))"

definition Binding :: "'k verifier \<Rightarrow> string \<Rightarrow> account_pattern option" where
  "Binding v name = map_of (v_bindings v) name"

section \<open>Account ids\<close>

lemma is_alnum_not_special:
  "is_alnum c \<Longrightarrow> c \<noteq> CHR ''*'' \<and> c \<noteq> CHR ''/'' \<and> c \<noteq> CHR ''@'' \<and> of_char c \<noteq> (0::nat)"
  by (auto simp: is_alnum_def is_digit_def less_eq_char_def)

lemma account_char_not_special:
  "account_char c \<Longrightarrow> c \<noteq> CHR ''*'' \<and> c \<noteq> CHR ''/'' \<and> c \<noteq> CHR ''@'' \<and> of_char c \<noteq> (0::nat)"
  using is_alnum_not_special [of c] by (auto simp: account_char_def)

lemma valid_account_chars: "ValidAccountID s \<Longrightarrow> c \<in> set s \<Longrightarrow> account_char c"
  by (auto simp: ValidAccountID_def account_char_def list_all_iff split: list.splits)

lemma valid_account_no_slash: "ValidAccountID s \<Longrightarrow> CHR ''/'' \<notin> set s"
  using valid_account_chars account_char_not_special by blast

lemma valid_account_no_star: "ValidAccountID s \<Longrightarrow> CHR ''*'' \<notin> set s"
  using valid_account_chars account_char_not_special by blast

lemma valid_account_length: "ValidAccountID s \<Longrightarrow> 2 \<le> length s \<and> length s \<le> 128"
  by (auto simp: ValidAccountID_def split: list.splits)

section \<open>Patterns\<close>

text \<open>A pattern a parse returned: what every binding in force satisfies.\<close>

definition pattern_ok :: "account_pattern \<Rightarrow> bool" where
  "pattern_ok p = (if ap_prefix p then ap_value p \<noteq> [] \<and> ValidAccountID (ap_value p @ ''x'')
                   else ValidAccountID (ap_value p))"

lemma parse_pattern_ok: "ParseAccountPattern s = Inr p \<Longrightarrow> pattern_ok p"
  by (auto simp: ParseAccountPattern_def pattern_ok_def Let_def split: if_splits)

lemma parse_pattern_string: "ParseAccountPattern s = Inr p \<Longrightarrow> pattern_String p = s"
  by (auto simp: ParseAccountPattern_def pattern_String_def Let_def has_suffix_iff split: if_splits)

lemma pattern_ok_value_no_star: "pattern_ok p \<Longrightarrow> CHR ''*'' \<notin> set (ap_value p)"
  using valid_account_no_star [of "ap_value p @ ''x''"] valid_account_no_star [of "ap_value p"]
  by (auto simp: pattern_ok_def split: if_splits)

lemma parse_pattern_of_string: "pattern_ok p \<Longrightarrow> ParseAccountPattern (pattern_String p) = Inr p"
proof -
  assume ok: "pattern_ok p"
  note star = pattern_ok_value_no_star [OF ok]
  show ?thesis
  proof (cases "ap_prefix p")
    case True
    with ok have "ap_value p \<noteq> []" "ValidAccountID (ap_value p @ ''x'')" by (auto simp: pattern_ok_def)
    then show ?thesis
      using True star valid_account_length [of "ap_value p @ ''x''"]
      by (simp add: ParseAccountPattern_def pattern_String_def contains_char_def)
  next
    case False
    then have v: "ValidAccountID (ap_value p)" using ok by (simp add: pattern_ok_def)
    then have "ap_value p \<noteq> []" by (auto simp: ValidAccountID_def)
    moreover have "\<not> has_suffix (ap_value p) ''*''" using star by (auto simp: has_suffix_iff)
    ultimately show ?thesis
      using False v star by (simp add: ParseAccountPattern_def pattern_String_def contains_char_def)
  qed
qed

lemma matches_valid: "pattern_ok p \<Longrightarrow> Matches p a \<Longrightarrow> ValidAccountID a"
  by (auto simp: Matches_def pattern_ok_def split: if_splits)

lemma matches_exact [auth_simps]: "\<not> ap_prefix p \<Longrightarrow> Matches p a \<longleftrightarrow> a = ap_value p"
  by (simp add: Matches_def)

lemma matches_prefix [auth_simps]:
  "ap_prefix p \<Longrightarrow> Matches p a \<longleftrightarrow> (\<exists>c cs. a = ap_value p @ c # cs) \<and> ValidAccountID a"
  by (auto simp: Matches_def has_prefix_iff neq_Nil_conv)

text \<open>A namespace is never empty and never everything.\<close>

lemma namespace_nonempty: "pattern_ok p \<Longrightarrow> \<exists>a. Matches p a"
proof (cases "ap_prefix p")
  case True
  assume "pattern_ok p"
  with True have "Matches p (ap_value p @ ''x'')" by (auto simp: matches_prefix pattern_ok_def)
  then show ?thesis ..
qed (auto simp: Matches_def)

lemma namespace_proper: "pattern_ok p \<Longrightarrow> \<exists>a. ValidAccountID a \<and> \<not> Matches p a"
proof -
  assume ok: "pattern_ok p"
  obtain c cs where v: "ap_value p = c # cs"
    using ok by (cases "ap_value p") (auto simp: pattern_ok_def ValidAccountID_def split: if_splits)
  let ?a = "(if c = CHR ''a'' then ''bb'' else ''aa'')"
  have "ValidAccountID ?a"
    by (simp add: ValidAccountID_def account_char_def is_alnum_def is_digit_def less_eq_char_def)
  moreover have "\<not> Matches p ?a" using v by (auto simp: Matches_def has_prefix_def)
  ultimately show ?thesis by blast
qed

section \<open>Headline properties\<close>

text \<open>Parsing and printing of account patterns are inverse: a string parses to a pattern exactly
  when the pattern is well formed and prints as that string. In particular a bare star, an inner
  star, the empty string and anything outside the account alphabet never become a binding.\<close>
theorem pattern_parse_print:
  "ParseAccountPattern s = Inr p \<longleftrightarrow> pattern_ok p \<and> pattern_String p = s"
  using parse_pattern_ok parse_pattern_string parse_pattern_of_string by blast

text \<open>What a configured namespace binding admits: exactly the well-formed accounts that extend
  the prefix by at least one character; never the namespace root, never every account.\<close>
theorem namespace_pattern_admits:
  assumes "ParseAccountPattern (pre @ ''*'') = Inr p"
  shows "(Matches p a = (ValidAccountID a \<and> has_prefix a pre \<and> a \<noteq> pre))
    \<and> \<not> Matches p pre \<and> (\<exists>b. ValidAccountID b \<and> \<not> Matches p b)"
proof -
  have ok: "pattern_ok p" and st: "pattern_String p = pre @ ''*''"
    using assms parse_pattern_ok parse_pattern_string by blast+
  have v: "ap_prefix p \<and> ap_value p = pre"
    using st ok pattern_ok_value_no_star [OF ok] by (auto simp: pattern_String_def split: if_splits)
  have "Matches p x = (ValidAccountID x \<and> has_prefix x pre \<and> x \<noteq> pre)" for x
    using v by (auto simp: matches_prefix has_prefix_iff neq_Nil_conv)
  then show ?thesis using namespace_proper [OF ok] by blast
qed

lemma namespace_pattern_admits_witness:
  "Matches \<lparr>ap_value = ''reg_'', ap_prefix = True\<rparr> ''reg_abc''"
proof -
  have p: "ParseAccountPattern (''reg_'' @ ''*'') = Inr \<lparr>ap_value = ''reg_'', ap_prefix = True\<rparr>" by code_simp
  show ?thesis using namespace_pattern_admits [OF p, of "''reg_abc''"]
    by (simp add: ValidAccountID_def account_char_def is_alnum_def is_digit_def less_eq_char_def has_prefix_def)
qed

end
