(* ===== verification/Auth_Token.thy ===== *)
theory Auth_Token
  imports Auth_Binding
begin

text \<open>
  Token verification (internal/auth/token.go): key selection, the account binding and the HTTP
  middleware that is the only place a request acquires its account.

  The JWT library is a parameter, a record of what the verifier relies on: decoding a token
  into its header and body, the signature check under one key, and the validation of the
  registered claims (expiry, issuer, audience). \<open>ParseWithClaims\<close> decodes, refuses a method
  outside the valid ones, asks the key function for the key, checks the signature and then the
  claims.
\<close>

section \<open>Claims\<close>

record claims =
  cl_account :: string
  cl_scope :: "string list"
  cl_keyName :: string
  cl_binding :: "account_pattern option"

definition KeyName :: "claims \<Rightarrow> string" where
  "KeyName c = cl_keyName c"

definition NamespaceIssuer :: "claims \<Rightarrow> bool" where
  "NamespaceIssuer c = (case cl_binding c of None \<Rightarrow> False | Some p \<Rightarrow> IsPrefix p)"

fun scope_loop :: "string list \<Rightarrow> string \<Rightarrow> bool" where
  "scope_loop [] s = False"
| "scope_loop (have # rest) s = (if have = s then True else scope_loop rest s)"

definition HasScope :: "claims \<Rightarrow> string \<Rightarrow> bool" where
  "HasScope c s = scope_loop (cl_scope c) s"

section \<open>The JWT library\<close>

record jwt_token =
  jt_alg :: string
  jt_ed25519 :: bool
  jt_kid :: "string option"
  jt_account :: string
  jt_scope :: "string list"

record 'k jwt_lib =
  jl_decode :: "string \<Rightarrow> jwt_token option"
  jl_sig_ok :: "string \<Rightarrow> 'k \<Rightarrow> bool"
  jl_claims_ok :: "string \<Rightarrow> string \<Rightarrow> string \<Rightarrow> bool"

datatype verify_error =
  VE_Malformed | VE_MethodNotValid | VE_UnexpectedMethod string | VE_UnknownKid string
  | VE_NoLegacyKey | VE_BadSignature | VE_InvalidClaims | VE_NoAccount | VE_AccountNotBound

definition parse_with_claims :: "'k jwt_lib \<Rightarrow> 'k verifier \<Rightarrow> string
    \<Rightarrow> (jwt_token \<Rightarrow> verify_error + (string \<times> 'k)) \<Rightarrow> verify_error + (jwt_token \<times> string)" where
  "parse_with_claims lib v tok keyfunc =
     (case jl_decode lib tok of
        None \<Rightarrow> Inl VE_Malformed
      | Some t \<Rightarrow>
          if v_methods v \<noteq> [] \<and> jt_alg t \<notin> set (v_methods v) then Inl VE_MethodNotValid
          else (case keyfunc t of
                  Inl e \<Rightarrow> Inl e
                | Inr (name, key) \<Rightarrow>
                    if \<not> jl_sig_ok lib tok key then Inl VE_BadSignature
                    else if \<not> jl_claims_ok lib (v_issuer v) (v_audience v) tok then Inl VE_InvalidClaims
                    else Inr (t, name)))"

section \<open>Verify\<close>

definition select_key :: "'k verifier \<Rightarrow> jwt_token \<Rightarrow> verify_error + (string \<times> 'k)" where
  "select_key v t =
     (if \<not> jt_ed25519 t then Inl (VE_UnexpectedMethod (jt_alg t))
      else (case jt_kid t of
              Some kid \<Rightarrow>
                if kid \<noteq> [] then
                  (case map_of (v_keys v) kid of None \<Rightarrow> Inl (VE_UnknownKid kid) | Some key \<Rightarrow> Inr (kid, key))
                else (case v_pub v of None \<Rightarrow> Inl VE_NoLegacyKey | Some key \<Rightarrow> Inr (LegacyKeyName, key))
            | None \<Rightarrow> (case v_pub v of None \<Rightarrow> Inl VE_NoLegacyKey | Some key \<Rightarrow> Inr (LegacyKeyName, key))))"

definition Verify :: "'k jwt_lib \<Rightarrow> 'k verifier \<Rightarrow> string \<Rightarrow> verify_error + claims" where
  "Verify lib v tok =
     (case parse_with_claims lib v tok (select_key v) of
        Inl e \<Rightarrow> Inl e
      | Inr (t, keyName) \<Rightarrow>
          if jt_account t = [] then Inl VE_NoAccount
          else let c = \<lparr>cl_account = jt_account t, cl_scope = jt_scope t, cl_keyName = keyName,
                        cl_binding = None\<rparr> in
               (case map_of (v_bindings v) keyName of
                  Some p \<Rightarrow> if \<not> Matches p (cl_account c) then Inl VE_AccountNotBound
                            else Inr (c\<lparr>cl_binding := Some p\<rparr>)
                | None \<Rightarrow> Inr c))"

section \<open>The middleware\<close>

definition bearer :: "string \<Rightarrow> string" where
  "bearer h = (let p = ''Bearer '' in
     if length h > length p \<and> to_lower (take (length p) h) = to_lower p
     then trim_space (drop (length p) h) else [])"

datatype auth_outcome = AO_Missing | AO_Invalid | AO_Next claims

definition Middleware :: "'k jwt_lib \<Rightarrow> 'k verifier \<Rightarrow> string \<Rightarrow> auth_outcome" where
  "Middleware lib v h =
     (let tok = bearer h in
      if tok = [] then AO_Missing
      else (case Verify lib v tok of Inl _ \<Rightarrow> AO_Invalid | Inr c \<Rightarrow> AO_Next c))"

text \<open>The status of the two refusals.\<close>

fun auth_status :: "auth_outcome \<Rightarrow> nat option" where
  "auth_status AO_Missing = Some 401"
| "auth_status AO_Invalid = Some 401"
| "auth_status (AO_Next c) = None"

section \<open>What a verified token proves\<close>

lemma HasScope_iff: "HasScope c s \<longleftrightarrow> s \<in> set (cl_scope c)"
proof -
  have "scope_loop xs s \<longleftrightarrow> s \<in> set xs" for xs by (induction xs) auto
  then show ?thesis by (simp add: HasScope_def)
qed

text \<open>The key a verifier trusts under a name, the legacy key included.\<close>

definition trusted_key :: "'k verifier \<Rightarrow> jwt_token \<Rightarrow> string \<Rightarrow> 'k \<Rightarrow> bool" where
  "trusted_key v t name key =
     (case jt_kid t of
        Some kid \<Rightarrow> (if kid \<noteq> [] then name = kid \<and> map_of (v_keys v) kid = Some key
                     else name = LegacyKeyName \<and> v_pub v = Some key)
      | None \<Rightarrow> name = LegacyKeyName \<and> v_pub v = Some key)"

lemma select_key_trusted: "select_key v t = Inr (name, key) \<longleftrightarrow> jt_ed25519 t \<and> trusted_key v t name key"
  by (auto simp: select_key_def trusted_key_def split: option.splits if_splits)

text \<open>A verifier built by this package carries no \<open>none\<close>-style method.\<close>

definition verified :: "'k jwt_lib \<Rightarrow> 'k verifier \<Rightarrow> string \<Rightarrow> jwt_token \<Rightarrow> string \<Rightarrow> bool" where
  "verified lib v tok t name =
     (jl_decode lib tok = Some t \<and> jt_ed25519 t \<and> (v_methods v = [] \<or> jt_alg t \<in> set (v_methods v))
      \<and> (\<exists>key. trusted_key v t name key \<and> jl_sig_ok lib tok key)
      \<and> jl_claims_ok lib (v_issuer v) (v_audience v) tok)"

lemma parse_with_claims_verified:
  "parse_with_claims lib v tok (select_key v) = Inr (t, name) \<longleftrightarrow> verified lib v tok t name"
proof -
  have uniq: "trusted_key v t name key \<Longrightarrow> trusted_key v t name' key' \<Longrightarrow> name = name' \<and> key = key'"
    for t name key name' key' by (auto simp: trusted_key_def split: option.splits if_splits)
  show ?thesis
  proof (cases "jl_decode lib tok")
    case None then show ?thesis by (simp add: parse_with_claims_def verified_def)
  next
    case (Some u)
    show ?thesis
    proof (cases "select_key v u")
      case (Inl e)
      then have "\<not> (jt_ed25519 u \<and> trusted_key v u n k)" for n k
        using select_key_trusted [of v u n k] by simp
      then show ?thesis using Some Inl by (auto simp: parse_with_claims_def verified_def)
    next
      case (Inr nk)
      obtain n k where nk: "nk = (n, k)" by (cases nk)
      then have "jt_ed25519 u" "trusted_key v u n k"
        using Inr select_key_trusted [of v u n k] by auto
      note u = this
      let ?M = "v_methods v = [] \<or> jt_alg u \<in> set (v_methods v)"
      let ?C = "jl_claims_ok lib (v_issuer v) (v_audience v) tok"
      have E: "(\<exists>key. trusted_key v u name key \<and> jl_sig_ok lib tok key)
          \<longleftrightarrow> name = n \<and> jl_sig_ok lib tok k"
        using u(2) by (blast dest: uniq)
      have "parse_with_claims lib v tok (select_key v) = Inr (t, name)
          \<longleftrightarrow> t = u \<and> ?M \<and> (name = n \<and> jl_sig_ok lib tok k) \<and> ?C"
        using Some Inr nk by (auto simp: parse_with_claims_def)
      moreover have "verified lib v tok t name \<longleftrightarrow> t = u \<and> ?M
          \<and> (\<exists>key. trusted_key v u name key \<and> jl_sig_ok lib tok key) \<and> ?C"
        using Some u(1) by (auto simp: verified_def)
      ultimately show ?thesis by (simp only: E)
    qed
  qed
qed

lemma verify_ok_iff:
  "Verify lib v tok = Inr c \<longleftrightarrow>
     (\<exists>t. verified lib v tok t (cl_keyName c) \<and> jt_account t \<noteq> []
        \<and> cl_account c = jt_account t \<and> cl_scope c = jt_scope t
        \<and> cl_binding c = map_of (v_bindings v) (cl_keyName c)
        \<and> (\<forall>p. cl_binding c = Some p \<longrightarrow> Matches p (cl_account c)))"
  (is "?L \<longleftrightarrow> ?R")
proof
  assume ?L
  then obtain t name where p: "parse_with_claims lib v tok (select_key v) = Inr (t, name)"
    and c: "jt_account t \<noteq> []" "cl_account c = jt_account t" "cl_scope c = jt_scope t"
      "cl_keyName c = name" "cl_binding c = map_of (v_bindings v) name"
      "\<forall>q. cl_binding c = Some q \<longrightarrow> Matches q (cl_account c)"
    by (auto simp: Verify_def Let_def split: sum.splits option.splits if_splits)
  then show ?R by (auto simp: parse_with_claims_verified)
next
  assume ?R
  then obtain t where t: "parse_with_claims lib v tok (select_key v) = Inr (t, cl_keyName c)"
    "jt_account t \<noteq> []" "cl_account c = jt_account t" "cl_scope c = jt_scope t"
    "cl_binding c = map_of (v_bindings v) (cl_keyName c)"
    "\<forall>p. cl_binding c = Some p \<longrightarrow> Matches p (cl_account c)"
    by (auto simp: parse_with_claims_verified)
  then show ?L
    by (cases c) (auto simp: Verify_def Let_def split: option.splits)
qed

lemma verify_account_nonempty: "Verify lib v tok = Inr c \<Longrightarrow> cl_account c \<noteq> []"
  by (auto simp: verify_ok_iff)

text \<open>Bindings only remove access.\<close>

lemma bindings_narrow:
  assumes "Verify lib v tok = Inr c"
  shows "Verify lib (v\<lparr>v_bindings := []\<rparr>) tok = Inr (c\<lparr>cl_binding := None\<rparr>)"
  using assms
  by (auto simp: verify_ok_iff verified_def trusted_key_def split: option.splits)

section \<open>Construction of bound verifiers\<close>

lemma check_bindings_ok:
  "check_bindings legacy keys bs acc = Inr b \<longleftrightarrow>
     (\<forall>(name, p) \<in> set bs. (name = LegacyKeyName \<longrightarrow> legacy \<noteq> None)
        \<and> (name \<noteq> LegacyKeyName \<longrightarrow> map_of keys name \<noteq> None) \<and> ap_value p \<noteq> [])
     \<and> b = foldl (\<lambda>a (n, p). AList.update n p a) acc bs"
  by (induction legacy keys bs acc rule: check_bindings.induct) auto

lemma map_of_foldl_update:
  "distinct (map fst bs) \<Longrightarrow>
   map_of (foldl (\<lambda>a (n, p). AList.update n p a) acc bs) = map_of acc ++ map_of bs"
proof (induction bs arbitrary: acc)
  case (Cons b bs)
  obtain n p where b: "b = (n, p)" by (cases b)
  have "map_of bs n = None" using Cons.prems b by (auto simp: map_of_eq_None_iff)
  then show ?case using Cons b by (auto simp: update_conv' map_add_def fun_eq_iff split: option.splits)
qed simp

lemma bound_verifier_bindings:
  assumes "NewBoundKeysetVerifier legacy keys bs iss aud = Inr v" "distinct (map fst bs)"
  shows "map_of (v_bindings v) = map_of bs" "v_keys v = keys" "v_pub v = legacy"
    "v_methods v = [''EdDSA'']"
  using assms
  by (auto simp: NewBoundKeysetVerifier_def NewKeysetVerifier_def check_bindings_ok map_of_foldl_update
      Let_def split: if_splits sum.splits)

section \<open>Headline properties\<close>

text \<open>C11: What a token accepted by a bound key set proves: it decodes, its method is EdDSA, its
  signature verifies under exactly the key its kid names (the legacy key when it has none), its
  registered claims hold, its account is not empty, and the account is in the binding of that key
  when the key has one. The converse holds too: nothing else is refused.\<close>
theorem verify_accepts_iff:
  assumes "NewBoundKeysetVerifier legacy keys bs iss aud = Inr v" "distinct (map fst bs)"
  shows "Verify lib v tok = Inr c \<longleftrightarrow>
     (\<exists>t. jl_decode lib tok = Some t \<and> jt_ed25519 t \<and> jt_alg t = ''EdDSA''
        \<and> (case jt_kid t of
             Some kid \<Rightarrow> (if kid \<noteq> [] then cl_keyName c = kid \<and> (\<exists>key. map_of keys kid = Some key \<and> jl_sig_ok lib tok key)
                         else cl_keyName c = LegacyKeyName \<and> (\<exists>key. legacy = Some key \<and> jl_sig_ok lib tok key))
           | None \<Rightarrow> cl_keyName c = LegacyKeyName \<and> (\<exists>key. legacy = Some key \<and> jl_sig_ok lib tok key))
        \<and> jl_claims_ok lib iss aud tok
        \<and> jt_account t \<noteq> [] \<and> cl_account c = jt_account t \<and> cl_scope c = jt_scope t
        \<and> cl_binding c = map_of bs (cl_keyName c)
        \<and> (case cl_binding c of None \<Rightarrow> True | Some p \<Rightarrow> Matches p (cl_account c)))"
proof -
  have "v_issuer v = iss" "v_audience v = aud"
    using assms by (auto simp: NewBoundKeysetVerifier_def NewKeysetVerifier_def Let_def
        split: if_splits sum.splits)
  moreover have "(\<exists>key. trusted_key v t name key \<and> jl_sig_ok lib tok key) \<longleftrightarrow>
     (case jt_kid t of
        Some kid \<Rightarrow> (if kid \<noteq> [] then name = kid \<and> (\<exists>key. map_of keys kid = Some key \<and> jl_sig_ok lib tok key)
                    else name = LegacyKeyName \<and> (\<exists>key. legacy = Some key \<and> jl_sig_ok lib tok key))
      | None \<Rightarrow> name = LegacyKeyName \<and> (\<exists>key. legacy = Some key \<and> jl_sig_ok lib tok key))" for t name
    using bound_verifier_bindings [OF assms] by (cases "jt_kid t") (auto simp: trusted_key_def)
  ultimately show ?thesis
    using bound_verifier_bindings [OF assms]
    by (auto simp: verify_ok_iff verified_def split: option.splits)
qed

text \<open>Retiring a kid is a real revocation and touches nothing else: after the kid is removed
  from the key set every token that names it is refused (there is no fallback to the legacy key),
  and every other token gets exactly the answer it got before.\<close>
theorem retire_kid:
  assumes "kid \<noteq> []"
  shows "if (case jl_decode lib tok of None \<Rightarrow> False | Some t \<Rightarrow> jt_kid t = Some kid)
         then \<not> is_ok (Verify lib (v\<lparr>v_keys := AList.delete kid (v_keys v)\<rparr>) tok)
         else Verify lib (v\<lparr>v_keys := AList.delete kid (v_keys v)\<rparr>) tok = Verify lib v tok"
proof (cases "jl_decode lib tok")
  case None
  then show ?thesis by (simp add: Verify_def parse_with_claims_def)
next
  case (Some t)
  define v' where "v' = v\<lparr>v_keys := AList.delete kid (v_keys v)\<rparr>"
  have "if (case jl_decode lib tok of None \<Rightarrow> False | Some t \<Rightarrow> jt_kid t = Some kid)
        then \<not> is_ok (Verify lib v' tok) else Verify lib v' tok = Verify lib v tok"
  proof (cases "jt_kid t = Some kid")
    case True
    then show ?thesis
      using Some assms unfolding v'_def
      by (auto simp: is_ok_iff verify_ok_iff verified_def trusted_key_def delete_conv')
  next
    case False
    then have "select_key v' t = select_key v t"
      unfolding v'_def by (auto simp: select_key_def delete_conv' split: option.splits)
    moreover have "v_methods v' = v_methods v" "v_bindings v' = v_bindings v"
      "v_issuer v' = v_issuer v" "v_audience v' = v_audience v" by (simp_all add: v'_def)
    ultimately have "parse_with_claims lib v' tok (select_key v') = parse_with_claims lib v tok (select_key v)"
      using Some by (simp add: parse_with_claims_def split: sum.splits)
    then show ?thesis using Some False \<open>v_bindings v' = v_bindings v\<close> by (simp add: Verify_def split: sum.splits)
  qed
  then show ?thesis by (simp only: v'_def)
qed

lemma retire_kid_witness:
  "\<exists>lib tok (v :: nat verifier). is_ok (Verify lib v tok)
     \<and> \<not> is_ok (Verify lib (v\<lparr>v_keys := AList.delete ''ops'' (v_keys v)\<rparr>) tok)"
proof -
  let ?t = "\<lparr>jt_alg = ''EdDSA'', jt_ed25519 = True, jt_kid = Some ''ops'', jt_account = ''uri'', jt_scope = []\<rparr>"
  let ?lib = "\<lparr>jl_decode = \<lambda>_. Some ?t, jl_sig_ok = \<lambda>_ k. k = (7::nat), jl_claims_ok = \<lambda>_ _ _. True\<rparr>"
  let ?v = "NewKeysetVerifier (Some 7) [(''ops'', 7)] [] [] :: nat verifier"
  have "is_ok (Verify ?lib ?v ''t'')"
    by (simp add: Verify_def parse_with_claims_def select_key_def NewKeysetVerifier_def)
  moreover have "\<not> is_ok (Verify ?lib (?v\<lparr>v_keys := AList.delete ''ops'' (v_keys ?v)\<rparr>) ''t'')"
    using retire_kid [of "''ops''" ?lib "''t''" ?v] by simp
  ultimately show ?thesis by blast
qed

lemma verify_accepts_iff_witness:
  "\<exists>lib (v :: nat verifier) c. Verify lib v ''t'' = Inr c \<and> cl_account c = ''reg_a''
     \<and> cl_keyName c = ''registry''"
proof -
  let ?p = "\<lparr>ap_value = ''reg_'', ap_prefix = True\<rparr>"
  let ?t = "\<lparr>jt_alg = ''EdDSA'', jt_ed25519 = True, jt_kid = Some ''registry'', jt_account = ''reg_a'', jt_scope = []\<rparr>"
  let ?lib = "\<lparr>jl_decode = \<lambda>_. Some ?t, jl_sig_ok = \<lambda>_ k. k = (7::nat), jl_claims_ok = \<lambda>_ _ _. True\<rparr>"
  let ?c = "\<lparr>cl_account = ''reg_a'', cl_scope = [], cl_keyName = ''registry'', cl_binding = Some ?p\<rparr>"
  obtain v where v: "NewBoundKeysetVerifier None [(''registry'', 7::nat)] [(''registry'', ?p)] [] [] = Inr v"
    by (simp add: NewBoundKeysetVerifier_def LegacyKeyName_def)
  have "Matches ?p ''reg_a''"
    by (simp add: Matches_def has_prefix_def ValidAccountID_def account_char_def is_alnum_def is_digit_def less_eq_char_def)
  then have "Verify ?lib v ''t'' = Inr ?c"
    by (subst verify_accepts_iff [OF v]) simp_all
  then show ?thesis by (intro exI [of _ ?lib] exI [of _ v] exI [of _ ?c]) simp
qed

text \<open>Absence of keys denies: a verifier that trusts no key, the deny-all one included, answers
  every request 401 and lets none through to a handler.\<close>
theorem unconfigured_denies:
  assumes "\<not> Configured v"
  shows "auth_status (Middleware lib v header) = Some 401"
proof -
  have "v_pub v = None" "v_keys v = []" using assms by (simp_all add: Configured_def)
  then have "\<not> verified lib v tok t name" for tok t name
    by (auto simp: verified_def trusted_key_def split: option.splits)
  then have "Verify lib v tok \<noteq> Inr c" for tok c by (simp add: verify_ok_iff)
  then show ?thesis by (auto simp: Middleware_def Let_def split: sum.splits)
qed

lemma unconfigured_denies_witness:
  "auth_status (Middleware \<lparr>jl_decode = \<lambda>_. None, jl_sig_ok = \<lambda>_ _. True, jl_claims_ok = \<lambda>_ _ _. True\<rparr>
     (DenyAllVerifier :: nat verifier) ''Bearer x'') = Some 401"
  by (rule unconfigured_denies) (simp add: Configured_def DenyAllVerifier_def)

end
