(* ===== verification/Media_Types.thy ===== *)
theory Media_Types
  imports Go_Strings Complex_Main
begin

text \<open>
  The contract's types (internal/plate/plate.gen.go). An enum is a datatype with the string
  each constant has; \<open>Valid\<close> of a raw string is that it names a constant. A struct is a record
  with one field per struct field; a pointer field is an option. Times are integers (nanoseconds
  since the epoch), float64 values are rationals, int32 and int64 fields are integers in range.
\<close>

type_synonym time = int
type_synonym float64 = rat

section \<open>Enums\<close>

datatype delivery_mode = Granted | Public | Signed

datatype device_class = Desktop | Mobile

datatype health_status = Degraded | Down | Ok

datatype intent =
  Detail | Grid | Lightbox | Loop | Original | Poster | Thumbnail | Zoom1 | Zoom2 | Zoom3

datatype job_status = JobFailed | JobQueued | JobRunning | JobSucceeded

datatype media_kind = Audio | Document | Image | Video

datatype reason_code =
  RC_AuthoredBitrateExceeded | RC_AuthoredCodecUnsupported | RC_AuthoredLoopTooLong
| RC_AuthoredResolutionExceeded | RC_AuthoredTooLarge | RC_Deleted | RC_ExceededDurationCeiling
| RC_ExceededSizeCeiling | RC_Failed | RC_NotDerived | RC_Pending | RC_Unauthorized
| RC_UnsupportedFormat

datatype rendition_status = RS_Failed | RS_NotDerived | RS_Pending | RS_Ready

fun mode_str :: "delivery_mode \<Rightarrow> string" where
  "mode_str Granted = ''granted''"
| "mode_str Public = ''public''"
| "mode_str Signed = ''signed''"

fun device_str :: "device_class \<Rightarrow> string" where
  "device_str Desktop = ''desktop''"
| "device_str Mobile = ''mobile''"

fun health_str :: "health_status \<Rightarrow> string" where
  "health_str Degraded = ''degraded''"
| "health_str Down = ''down''"
| "health_str Ok = ''ok''"

fun intent_str :: "intent \<Rightarrow> string" where
  "intent_str Detail = ''detail''"
| "intent_str Grid = ''grid''"
| "intent_str Lightbox = ''lightbox''"
| "intent_str Loop = ''loop''"
| "intent_str Original = ''original''"
| "intent_str Poster = ''poster''"
| "intent_str Thumbnail = ''thumbnail''"
| "intent_str Zoom1 = ''zoom_1''"
| "intent_str Zoom2 = ''zoom_2''"
| "intent_str Zoom3 = ''zoom_3''"

fun kind_str :: "media_kind \<Rightarrow> string" where
  "kind_str Audio = ''audio''"
| "kind_str Document = ''document''"
| "kind_str Image = ''image''"
| "kind_str Video = ''video''"

fun reason_str :: "reason_code \<Rightarrow> string" where
  "reason_str RC_AuthoredBitrateExceeded = ''authored_bitrate_exceeded''"
| "reason_str RC_AuthoredCodecUnsupported = ''authored_codec_unsupported''"
| "reason_str RC_AuthoredLoopTooLong = ''authored_loop_too_long''"
| "reason_str RC_AuthoredResolutionExceeded = ''authored_resolution_exceeded''"
| "reason_str RC_AuthoredTooLarge = ''authored_too_large''"
| "reason_str RC_Deleted = ''deleted''"
| "reason_str RC_ExceededDurationCeiling = ''exceeded_duration_ceiling''"
| "reason_str RC_ExceededSizeCeiling = ''exceeded_size_ceiling''"
| "reason_str RC_Failed = ''failed''"
| "reason_str RC_NotDerived = ''not_derived''"
| "reason_str RC_Pending = ''pending''"
| "reason_str RC_Unauthorized = ''unauthorized''"
| "reason_str RC_UnsupportedFormat = ''unsupported_format''"

definition all_intents :: "intent list" where
  "all_intents = [Detail, Grid, Lightbox, Loop, Original, Poster, Thumbnail, Zoom1, Zoom2, Zoom3]"

definition intent_of :: "string \<Rightarrow> intent option" where
  "intent_of s = find (\<lambda>i. intent_str i = s) all_intents"

definition intent_Valid :: "string \<Rightarrow> bool" where
  "intent_Valid s = (intent_of s \<noteq> None)"

definition device_of :: "string \<Rightarrow> device_class option" where
  "device_of s = find (\<lambda>d. device_str d = s) [Desktop, Mobile]"

text \<open>Severity of a health status: readiness reports the worst.\<close>

fun severity :: "health_status \<Rightarrow> nat" where
  "severity Ok = 0"
| "severity Degraded = 1"
| "severity Down = 2"

lemma severity_inj: "severity a = severity b \<Longrightarrow> a = b"
  by (cases a; cases b) simp_all

instantiation health_status :: linorder
begin

definition less_eq_health_status :: "health_status \<Rightarrow> health_status \<Rightarrow> bool" where
  "less_eq_health_status a b = (severity a \<le> severity b)"

definition less_health_status :: "health_status \<Rightarrow> health_status \<Rightarrow> bool" where
  "less_health_status a b = (severity a < severity b)"

instance
  by standard (auto simp: less_eq_health_status_def less_health_status_def intro: severity_inj)

end

text \<open>Intents compare as the strings the database sorts them by.\<close>

lemma intent_str_inj: "intent_str a = intent_str b \<longleftrightarrow> a = b"
  by (cases a; cases b) simp_all

instantiation intent :: linorder
begin

definition less_eq_intent :: "intent \<Rightarrow> intent \<Rightarrow> bool" where
  "less_eq_intent a b = (intent_str a \<le> intent_str b)"

definition less_intent :: "intent \<Rightarrow> intent \<Rightarrow> bool" where
  "less_intent a b = (intent_str a < intent_str b)"

instance
proof
  fix a b c :: intent
  show "(a < b) = (a \<le> b \<and> \<not> b \<le> a)" by (auto simp: less_eq_intent_def less_intent_def)
  show "a \<le> a" by (simp add: less_eq_intent_def)
  show "a \<le> b \<Longrightarrow> b \<le> c \<Longrightarrow> a \<le> c" unfolding less_eq_intent_def by (rule order_trans)
  show "a \<le> b \<Longrightarrow> b \<le> a \<Longrightarrow> a = b"
    unfolding less_eq_intent_def using intent_str_inj by (blast intro: antisym)
  show "a \<le> b \<or> b \<le> a" unfolding less_eq_intent_def by (rule linear)
qed

end

lemma intent_of_str [simp]: "intent_of (intent_str i) = Some i"
  by (cases i) (simp_all add: intent_of_def all_intents_def)

lemma intent_of_Some: "intent_of s = Some i \<longleftrightarrow> s = intent_str i"
  by (auto simp: intent_of_def find_Some_iff)
     (metis intent_of_def intent_of_str find_Some_iff)

lemma set_all_intents [simp]: "set all_intents = UNIV"
proof -
  have "i \<in> set all_intents" for i by (cases i) (simp_all add: all_intents_def)
  then show ?thesis by auto
qed

lemma intent_str_no_slash: "CHR ''/'' \<notin> set (intent_str i)"
  by (cases i) simp_all

lemma intent_str_no_nul: "c \<in> set (intent_str i) \<Longrightarrow> of_char c \<noteq> (0::nat)"
  by (cases i) auto

lemma intent_str_nonempty [simp]: "intent_str i \<noteq> []"
  by (cases i) simp_all

lemma device_of_str [simp]: "device_of (device_str d) = Some d"
  by (cases d) (simp_all add: device_of_def)

section \<open>Structs\<close>

record account =
  acct_Created :: time
  acct_Id :: string

record account_provisioning =
  ap_Account :: account
  ap_Created :: bool

record vault_object =
  vo_Checksum :: string
  vo_ChecksumVerified :: bool
  vo_Codec :: "string option"
  vo_Container :: "string option"
  vo_DurationS :: "float64 option"
  vo_Height :: "int option"
  vo_Key :: string
  vo_SizeBytes :: int
  vo_Width :: "int option"

record rendition =
  rend_DurationS :: "float64 option"
  rend_HasAudio :: "bool option"
  rend_Height :: "int option"
  rend_Intent :: intent
  rend_Reason :: "reason_code option"
  rend_Status :: rendition_status
  rend_Width :: "int option"

record asset =
  asset_Account :: string
  asset_ContentType :: "string option"
  asset_Created :: time
  asset_DeletedAt :: "time option"
  asset_Filename :: "string option"
  asset_Id :: string
  asset_Kind :: media_kind
  asset_Renditions :: "rendition list"
  asset_Vault :: vault_object

record asset_page =
  page_Items :: "asset list"
  page_NextCursor :: "string option"

record delivery =
  dl_Expires :: "time option"
  dl_Height :: "int option"
  dl_Mode :: delivery_mode
  dl_Url :: string
  dl_Width :: "int option"

record refusal_detail =
  rd_CeilingBytes :: "int option"
  rd_CeilingS :: "float64 option"
  rd_Codec :: "string option"
  rd_Container :: "string option"
  rd_DurationS :: "float64 option"
  rd_SizeBytes :: "int option"

record delivery_resolution =
  dr_Delivery :: "delivery option"
  dr_Detail :: "refusal_detail option"
  dr_Intent :: intent
  dr_Reason :: "reason_code option"

record export_download =
  ed_Asset :: string
  ed_Expires :: time
  ed_Url :: string

record export =
  ex_Account :: string
  ex_Assets :: "string list"
  ex_Created :: time
  ex_Downloads :: "export_download list option"
  ex_Expires :: time
  ex_GoneAssets :: "string list option"
  ex_Id :: string
  ex_Note :: "string option"
  ex_RevokedAt :: "time option"

record export_request =
  exr_Assets :: "string list"
  exr_Expires :: time
  exr_Note :: "string option"

record grant =
  gr_Account :: string
  gr_Assets :: "string list"
  gr_Created :: time
  gr_Expires :: time
  gr_GoneAssets :: "string list option"
  gr_Id :: string
  gr_Recipient :: "string option"
  gr_RevokedAt :: "time option"

record grant_request =
  grr_Assets :: "string list"
  grr_Expires :: time
  grr_Recipient :: "string option"

record job =
  job_Asset :: string
  job_Created :: "time option"
  job_Id :: string
  job_Intent :: intent
  job_Progress :: "float64 option"
  job_Reason :: "reason_code option"
  job_Retries :: int
  job_Status :: job_status
  job_Updated :: "time option"

record authored_rendition_binding =
  arb_AssetId :: string
  arb_Intent :: string

record upload_request =
  ur_ContentType :: string
  ur_Filename :: "string option"
  ur_Rendition :: "authored_rendition_binding option"
  ur_SizeBytes :: int
  ur_SkipDerivations :: "bool option"

record upload_ticket =
  ut_Expires :: time
  ut_Headers :: "(string \<times> string) list"
  ut_Method :: string
  ut_UploadId :: string
  ut_Url :: string

record health_check =
  hc_Detail :: "string option"
  hc_Ok :: bool

record health_checks =
  hcs_Db :: "health_check option"
  hcs_Queue :: "health_check option"
  hcs_Storage :: "health_check option"
  hcs_Worker :: "health_check option"

record health =
  he_Checks :: "health_checks option"
  he_Status :: health_status
  he_Version :: "string option"

end
