(* ===== verification/Db.thy ===== *)
theory Db
  imports Media_Types
begin

text \<open>
  The database: the tables of internal/store/migrations as lists of rows, one record field per
  column, in insertion order. Primary keys and foreign keys are checked by the inserts that can
  violate them. \<open>now\<close> is an argument of every statement that reads the clock, and identifiers
  the code draws with \<open>id.New\<close> are arguments too. Connection failures are not modelled: a
  statement fails only for the reasons the schema and the query give.
\<close>

section \<open>Rows\<close>

record account_row =
  cw_id :: string
  cw_bucket :: string
  cw_prefix :: string
  cw_created :: time

record asset_row =
  ar_id :: string
  ar_account :: string
  ar_kind :: media_kind
  ar_filename :: "string option"
  ar_vault_key :: string
  ar_checksum :: string
  ar_size :: int
  ar_width :: "int option"
  ar_height :: "int option"
  ar_dur :: "float64 option"
  ar_codec :: "string option"
  ar_container :: "string option"
  ar_created :: time
  ar_deleted :: "time option"
  ar_probe :: string
  ar_verified :: bool
  ar_checked_at :: "time option"

record rendition_row =
  rr_asset :: string
  rr_intent :: intent
  rr_status :: rendition_status
  rr_width :: "int option"
  rr_height :: "int option"
  rr_dur :: "float64 option"
  rr_audio :: "bool option"
  rr_reason :: "reason_code option"
  rr_key :: "string option"
  rr_mode :: "string option"

datatype job_mode = Derive | Remux

record job_row =
  jr_id :: string
  jr_account :: string
  jr_asset :: string
  jr_intent :: intent
  jr_status :: job_status
  jr_progress :: "float64 option"
  jr_retries :: int
  jr_reason :: "reason_code option"
  jr_created :: time
  jr_updated :: time
  jr_locked_at :: "time option"
  jr_heartbeat_at :: "time option"
  jr_last_error :: "string option"
  jr_mode :: job_mode
  jr_source_key :: "string option"

record grant_row =
  gw_id :: string
  gw_account :: string
  gw_assets :: "string list"
  gw_recipient :: "string option"
  gw_created :: time
  gw_expires :: time
  gw_revoked :: "time option"

record export_row =
  xw_id :: string
  xw_account :: string
  xw_assets :: "string list"
  xw_note :: "string option"
  xw_created :: time
  xw_expires :: time
  xw_revoked :: "time option"

record upload_row =
  uw_id :: string
  uw_account :: string
  uw_key :: string
  uw_ctype :: string
  uw_size :: int
  uw_filename :: "string option"
  uw_created :: time
  uw_finalized :: "time option"
  uw_swept :: "time option"
  uw_skip :: bool
  uw_rasset :: "string option"
  uw_rintent :: "string option"

record heartbeat_row =
  hb_worker :: string
  hb_last_seen :: time
  hb_last_sweep :: "time option"
  hb_version :: string

record db =
  db_accounts :: "account_row list"
  db_assets :: "asset_row list"
  db_renditions :: "rendition_row list"
  db_jobs :: "job_row list"
  db_grants :: "grant_row list"
  db_exports :: "export_row list"
  db_uploads :: "upload_row list"
  db_heartbeats :: "heartbeat_row list"

definition empty_db :: db where
  "empty_db = \<lparr>db_accounts = [], db_assets = [], db_renditions = [], db_jobs = [], db_grants = [],
     db_exports = [], db_uploads = [], db_heartbeats = []\<rparr>"

datatype store_error =
  ErrNotFound | ErrForeignAsset | ErrAssetsGone | ErrUnknownAccount | ErrUploadGone
| ErrNoJob | ErrNoChecksumPending | ErrChecksumMismatch | ErrBadChecksum
| ErrJobNotRunning string | ErrUniqueViolation | ErrForeignKey | ErrNoRows

text \<open>A write returns the new database and its result; a failing statement changes nothing.\<close>

type_synonym 'a effect = "store_error + db \<times> 'a"

section \<open>Row selectors the queries share\<close>

definition asset_is :: "string \<Rightarrow> string \<Rightarrow> asset_row \<Rightarrow> bool" where
  "asset_is account i r = (ar_account r = account \<and> ar_id r = i)"

definition has_account :: "db \<Rightarrow> string \<Rightarrow> bool" where
  "has_account d account = has_row (\<lambda>r. cw_id r = account) (db_accounts d)"

definition has_asset_id :: "db \<Rightarrow> string \<Rightarrow> bool" where
  "has_asset_id d i = has_row (\<lambda>r. ar_id r = i) (db_assets d)"

text \<open>The account's own original upload of that id: the row an asset grew from.\<close>

definition own_upload :: "string \<Rightarrow> string \<Rightarrow> upload_row \<Rightarrow> bool" where
  "own_upload account i u = (uw_account u = account \<and> uw_id u = i \<and> uw_rasset u = None)"

text \<open>\<open>greatest\<close> of nullable times ignores nulls.\<close>

fun greatest :: "time option list \<Rightarrow> time option" where
  "greatest [] = None"
| "greatest (None # xs) = greatest xs"
| "greatest (Some x # xs) = (case greatest xs of None \<Rightarrow> Some x | Some y \<Rightarrow> Some (max x y))"

lemma greatest_ge: "Some x \<in> set xs \<Longrightarrow> \<exists>y. greatest xs = Some y \<and> x \<le> y"
  by (induction xs rule: greatest.induct) (auto split: option.splits)

lemma greatest_in: "greatest xs = Some y \<Longrightarrow> Some y \<in> set xs"
  by (induction xs arbitrary: y rule: greatest.induct) (auto split: option.splits simp: max_def if_splits)

end
