(* ===== verification/Store_Read.thy ===== *)
theory Store_Read
  imports Db
begin

text \<open>
  The account-scoped reads of the store (internal/store/postgres.go, store.go): projections of
  rows to contract types, lookups, pagination, the classification of an id set a capability is
  issued over, and the two capability resolutions, which are by id alone.
\<close>

section \<open>Projections\<close>

definition rendition_of_row :: "rendition_row \<Rightarrow> rendition" where
  "rendition_of_row r = \<lparr>rend_DurationS = rr_dur r, rend_HasAudio = rr_audio r,
     rend_Height = rr_height r, rend_Intent = rr_intent r, rend_Reason = rr_reason r,
     rend_Status = rr_status r, rend_Width = rr_width r\<rparr>"

definition renditionsFor :: "db \<Rightarrow> string \<Rightarrow> rendition list" where
  "renditionsFor d assetID =
     map rendition_of_row (sort_key rr_intent (filter (\<lambda>r. rr_asset r = assetID) (db_renditions d)))"

definition content_type_of :: "db \<Rightarrow> asset_row \<Rightarrow> string option" where
  "content_type_of d a = map_option uw_ctype (get_row (own_upload (ar_account a) (ar_id a)) (db_uploads d))"

definition scanAssetRow :: "db \<Rightarrow> asset_row \<Rightarrow> asset" where
  "scanAssetRow d a = \<lparr>asset_Account = ar_account a, asset_ContentType = content_type_of d a,
     asset_Created = ar_created a, asset_DeletedAt = ar_deleted a, asset_Filename = ar_filename a,
     asset_Id = ar_id a, asset_Kind = ar_kind a, asset_Renditions = [],
     asset_Vault = \<lparr>vo_Checksum = ar_checksum a, vo_ChecksumVerified = ar_verified a,
       vo_Codec = ar_codec a, vo_Container = ar_container a, vo_DurationS = ar_dur a,
       vo_Height = ar_height a, vo_Key = ar_vault_key a, vo_SizeBytes = ar_size a,
       vo_Width = ar_width a\<rparr>\<rparr>"

definition scanAsset :: "db \<Rightarrow> asset_row option \<Rightarrow> store_error + asset" where
  "scanAsset d row = (case row of None \<Rightarrow> Inl ErrNotFound
     | Some r \<Rightarrow> (let a = scanAssetRow d r in Inr (a\<lparr>asset_Renditions := renditionsFor d (asset_Id a)\<rparr>)))"

definition job_of_row :: "job_row \<Rightarrow> job" where
  "job_of_row r = \<lparr>job_Asset = jr_asset r, job_Created = Some (jr_created r), job_Id = jr_id r,
     job_Intent = jr_intent r, job_Progress = jr_progress r, job_Reason = jr_reason r,
     job_Retries = jr_retries r, job_Status = jr_status r, job_Updated = Some (jr_updated r)\<rparr>"

definition scanGrantRow :: "grant_row option \<Rightarrow> store_error + grant" where
  "scanGrantRow row = (case row of None \<Rightarrow> Inl ErrNotFound
     | Some r \<Rightarrow> Inr \<lparr>gr_Account = gw_account r, gr_Assets = gw_assets r, gr_Created = gw_created r,
         gr_Expires = gw_expires r, gr_GoneAssets = None, gr_Id = gw_id r,
         gr_Recipient = gw_recipient r, gr_RevokedAt = gw_revoked r\<rparr>)"

definition scanExportRow :: "export_row option \<Rightarrow> store_error + export" where
  "scanExportRow row = (case row of None \<Rightarrow> Inl ErrNotFound
     | Some r \<Rightarrow> Inr \<lparr>ex_Account = xw_account r, ex_Assets = xw_assets r, ex_Created = xw_created r,
         ex_Downloads = None, ex_Expires = xw_expires r, ex_GoneAssets = None, ex_Id = xw_id r,
         ex_Note = xw_note r, ex_RevokedAt = xw_revoked r\<rparr>)"

section \<open>Lookups\<close>

definition GetAsset :: "db \<Rightarrow> string \<Rightarrow> string \<Rightarrow> store_error + asset" where
  "GetAsset d account assetID = scanAsset d (get_row (asset_is account assetID) (db_assets d))"

definition ListAssets :: "db \<Rightarrow> string \<Rightarrow> string \<Rightarrow> int \<Rightarrow> asset_page" where
  "ListAssets d account cursor limit0 =
     (let limit = (if limit0 \<le> 0 \<or> limit0 > 200 then 50 else limit0);
          rows = take (nat (limit + 1)) (sort_key ar_id
                   (filter (\<lambda>r. ar_account r = account \<and> (cursor = [] \<or> ar_id r > cursor)) (db_assets d)));
          items = map (scanAssetRow d) rows;
          next = (if int (length items) > limit then Some (asset_Id (items ! nat (limit - 1))) else None);
          items = (if int (length items) > limit then take (nat limit) items else items)
      in \<lparr>page_Items = map (\<lambda>a. a\<lparr>asset_Renditions := renditionsFor d (asset_Id a)\<rparr>) items,
          page_NextCursor = next\<rparr>)"

definition GetJob :: "db \<Rightarrow> string \<Rightarrow> string \<Rightarrow> store_error + job" where
  "GetJob d account jobID =
     (case get_row (\<lambda>r. jr_account r = account \<and> jr_id r = jobID) (db_jobs d) of
        None \<Rightarrow> Inl ErrNotFound | Some r \<Rightarrow> Inr (job_of_row r))"

definition GetGrant :: "db \<Rightarrow> string \<Rightarrow> string \<Rightarrow> store_error + grant" where
  "GetGrant d account grantID =
     scanGrantRow (get_row (\<lambda>r. gw_account r = account \<and> gw_id r = grantID) (db_grants d))"

definition GetExport :: "db \<Rightarrow> string \<Rightarrow> string \<Rightarrow> store_error + export" where
  "GetExport d account exportID =
     scanExportRow (get_row (\<lambda>r. xw_account r = account \<and> xw_id r = exportID) (db_exports d))"

definition AssetOwnedBy :: "db \<Rightarrow> string \<Rightarrow> string \<Rightarrow> bool" where
  "AssetOwnedBy d account assetID = has_row (asset_is account assetID) (db_assets d)"

definition RenditionStatusFor :: "db \<Rightarrow> string \<Rightarrow> intent \<Rightarrow> rendition_status option" where
  "RenditionStatusFor d assetID i =
     map_option rr_status (get_row (\<lambda>r. rr_asset r = assetID \<and> rr_intent r = i) (db_renditions d))"

record upload =
  u_ID :: string
  u_Account :: string
  u_Key :: string
  u_ContentType :: string
  u_SizeBytes :: int
  u_Filename :: string
  u_SkipDerivations :: bool
  u_RenditionAsset :: string
  u_RenditionIntent :: string
  u_SweptAt :: "time option"

definition str_of :: "string option \<Rightarrow> string" where
  "str_of s = (case s of None \<Rightarrow> [] | Some x \<Rightarrow> x)"

definition nullStr :: "string \<Rightarrow> string option" where
  "nullStr s = (if s = [] then None else Some s)"

definition upload_of_row :: "upload_row \<Rightarrow> upload" where
  "upload_of_row r = \<lparr>u_ID = uw_id r, u_Account = uw_account r, u_Key = uw_key r,
     u_ContentType = uw_ctype r, u_SizeBytes = uw_size r, u_Filename = str_of (uw_filename r),
     u_SkipDerivations = uw_skip r, u_RenditionAsset = str_of (uw_rasset r),
     u_RenditionIntent = str_of (uw_rintent r), u_SweptAt = uw_swept r\<rparr>"

definition GetUpload :: "db \<Rightarrow> string \<Rightarrow> string \<Rightarrow> store_error + upload" where
  "GetUpload d account uploadID =
     (case get_row (\<lambda>r. uw_account r = account \<and> uw_id r = uploadID) (db_uploads d) of
        None \<Rightarrow> Inl ErrNotFound | Some r \<Rightarrow> Inr (upload_of_row r))"

section \<open>Classifying an id set\<close>

datatype asset_class = ClassRefused | ClassLive | ClassGone

definition AssetPurged :: "db \<Rightarrow> string \<Rightarrow> string \<Rightarrow> bool" where
  "AssetPurged d account i =
     (\<not> has_asset_id d i
      \<and> has_row (\<lambda>u. uw_account u = account \<and> uw_id u = i \<and> uw_finalized u \<noteq> None \<and> uw_rasset u = None)
          (db_uploads d))"

definition classify :: "db \<Rightarrow> string \<Rightarrow> string \<Rightarrow> asset_class" where
  "classify d account i =
     (let row = get_row (asset_is account i) (db_assets d);
          owned = (row \<noteq> None);
          deleted = (case row of None \<Rightarrow> False | Some r \<Rightarrow> ar_deleted r \<noteq> None);
          purged = AssetPurged d account i
      in if (owned \<and> deleted) \<or> purged then ClassGone
         else if owned then ClassLive
         else ClassRefused)"

definition classifyAssetSet :: "db \<Rightarrow> string \<Rightarrow> string list \<Rightarrow> (string \<times> asset_class) list" where
  "classifyAssetSet d account ids = map (\<lambda>i. (i, classify d account i)) (distinct_sorted ids)"

section \<open>Capability verdicts\<close>

text \<open>\<open>GrantVerdict\<close> and \<open>ExportVerdict\<close> have the same fields.\<close>

record verdict =
  vd_Found :: bool
  vd_Covers :: bool
  vd_Revoked :: bool
  vd_Expired :: bool
  vd_Account :: string

definition Live :: "verdict \<Rightarrow> bool" where
  "Live v = (vd_Found v \<and> vd_Covers v \<and> \<not> vd_Revoked v \<and> \<not> vd_Expired v)"

definition not_found_verdict :: verdict where
  "not_found_verdict = \<lparr>vd_Found = False, vd_Covers = False, vd_Revoked = False, vd_Expired = False,
     vd_Account = []\<rparr>"

definition ResolveGrantForDelivery :: "db \<Rightarrow> time \<Rightarrow> string \<Rightarrow> string \<Rightarrow> verdict" where
  "ResolveGrantForDelivery d now grantID assetID =
     (case get_row (\<lambda>r. gw_id r = grantID) (db_grants d) of
        None \<Rightarrow> not_found_verdict
      | Some r \<Rightarrow> \<lparr>vd_Found = True, vd_Covers = (assetID \<in> set (gw_assets r)),
          vd_Revoked = (gw_revoked r \<noteq> None), vd_Expired = (gw_expires r \<le> now),
          vd_Account = gw_account r\<rparr>)"

definition ResolveExportForDelivery :: "db \<Rightarrow> time \<Rightarrow> string \<Rightarrow> string \<Rightarrow> verdict" where
  "ResolveExportForDelivery d now exportID assetID =
     (case get_row (\<lambda>r. xw_id r = exportID) (db_exports d) of
        None \<Rightarrow> not_found_verdict
      | Some r \<Rightarrow> \<lparr>vd_Found = True, vd_Covers = (assetID \<in> set (xw_assets r)),
          vd_Revoked = (xw_revoked r \<noteq> None), vd_Expired = (xw_expires r \<le> now),
          vd_Account = xw_account r\<rparr>)"

end
