(* ===== verification/Store_Write.thy ===== *)
theory Store_Write
  imports Store_Read
begin

text \<open>
  The writes of the store outside the job queue (internal/store/postgres.go): asset deletion
  marks, grants, exports, accounts, uploads and finalize, and the upload half of the sweep. Each
  is one transaction: on an error the database is the one before the call.
\<close>

section \<open>Assets\<close>

definition set_deleted :: "time \<Rightarrow> asset_row \<Rightarrow> asset_row" where
  "set_deleted now r = r\<lparr>ar_deleted := Some now\<rparr>"

definition MarkAssetDeleted :: "db \<Rightarrow> time \<Rightarrow> string \<Rightarrow> string \<Rightarrow> asset effect" where
  "MarkAssetDeleted d now account assetID =
     (let d' = d\<lparr>db_assets := update_where (asset_is account assetID) (set_deleted now) (db_assets d)\<rparr> in
      case scanAsset d' (get_row (asset_is account assetID) (db_assets d')) of
        Inl e \<Rightarrow> Inl e | Inr a \<Rightarrow> Inr (d', a))"

section \<open>Grants and exports\<close>

definition revoke_grant_row :: "time \<Rightarrow> grant_row \<Rightarrow> grant_row" where
  "revoke_grant_row now r = r\<lparr>gw_revoked := (case gw_revoked r of None \<Rightarrow> Some now | Some t \<Rightarrow> Some t)\<rparr>"

definition RevokeGrant :: "db \<Rightarrow> time \<Rightarrow> string \<Rightarrow> string \<Rightarrow> grant effect" where
  "RevokeGrant d now account grantID =
     (let p = (\<lambda>r. gw_account r = account \<and> gw_id r = grantID);
          d' = d\<lparr>db_grants := update_where p (revoke_grant_row now) (db_grants d)\<rparr> in
      case scanGrantRow (get_row p (db_grants d')) of Inl e \<Rightarrow> Inl e | Inr g \<Rightarrow> Inr (d', g))"

definition revoke_export_row :: "time \<Rightarrow> export_row \<Rightarrow> export_row" where
  "revoke_export_row now r = r\<lparr>xw_revoked := (case xw_revoked r of None \<Rightarrow> Some now | Some t \<Rightarrow> Some t)\<rparr>"

definition RevokeExport :: "db \<Rightarrow> time \<Rightarrow> string \<Rightarrow> string \<Rightarrow> export effect" where
  "RevokeExport d now account exportID =
     (let p = (\<lambda>r. xw_account r = account \<and> xw_id r = exportID);
          d' = d\<lparr>db_exports := update_where p (revoke_export_row now) (db_exports d)\<rparr> in
      case scanExportRow (get_row p (db_exports d')) of Inl e \<Rightarrow> Inl e | Inr g \<Rightarrow> Inr (d', g))"

text \<open>The loop over the classes: refuse on the first refused id, collect the gone ones.\<close>

fun grant_gone :: "(string \<times> asset_class) list \<Rightarrow> string list \<Rightarrow> store_error + string list" where
  "grant_gone [] gone = Inr gone"
| "grant_gone ((i, c) # rest) gone =
     (case c of ClassRefused \<Rightarrow> Inl ErrForeignAsset
              | ClassGone \<Rightarrow> grant_gone rest (gone @ [i])
              | ClassLive \<Rightarrow> grant_gone rest gone)"

definition CreateGrant :: "db \<Rightarrow> time \<Rightarrow> string \<Rightarrow> string \<Rightarrow> grant_request \<Rightarrow> grant effect" where
  "CreateGrant d now gid account req =
     (case grant_gone (classifyAssetSet d account (grr_Assets req)) [] of
        Inl e \<Rightarrow> Inl e
      | Inr gone \<Rightarrow>
          if has_row (\<lambda>r. gw_id r = gid) (db_grants d) then Inl ErrUniqueViolation
          else if \<not> has_account d account then Inl ErrForeignKey
          else let row = \<lparr>gw_id = gid, gw_account = account, gw_assets = grr_Assets req,
                          gw_recipient = grr_Recipient req, gw_created = now,
                          gw_expires = grr_Expires req, gw_revoked = None\<rparr>;
                   d' = d\<lparr>db_grants := insert_row row (db_grants d)\<rparr> in
               (case scanGrantRow (Some row) of
                  Inl e \<Rightarrow> Inl e
                | Inr g \<Rightarrow> Inr (d', if gone \<noteq> [] then g\<lparr>gr_GoneAssets := Some gone\<rparr> else g)))"

definition CreateExport :: "db \<Rightarrow> time \<Rightarrow> string \<Rightarrow> string \<Rightarrow> export_request \<Rightarrow> export effect" where
  "CreateExport d now eid account req =
     (let classes = classifyAssetSet d account (exr_Assets req) in
      if list_ex (\<lambda>(i, c). c = ClassRefused) classes then Inl ErrForeignAsset
      else let ids = dedup_seen [] (exr_Assets req);
               live = filter (\<lambda>i. map_of classes i = Some ClassLive) ids;
               gone = filter (\<lambda>i. map_of classes i \<noteq> Some ClassLive) ids in
        if length live = 0 then Inl ErrAssetsGone
        else if has_row (\<lambda>r. xw_id r = eid) (db_exports d) then Inl ErrUniqueViolation
        else if \<not> has_account d account then Inl ErrForeignKey
        else let row = \<lparr>xw_id = eid, xw_account = account, xw_assets = live,
                        xw_note = exr_Note req, xw_created = now,
                        xw_expires = exr_Expires req, xw_revoked = None\<rparr>;
                 d' = d\<lparr>db_exports := insert_row row (db_exports d)\<rparr> in
             (case scanExportRow (Some row) of
                Inl e \<Rightarrow> Inl e
              | Inr x \<Rightarrow> Inr (d', if length gone > 0 then x\<lparr>ex_GoneAssets := Some gone\<rparr> else x)))"

section \<open>Accounts\<close>

definition CreateAccount :: "db \<Rightarrow> time \<Rightarrow> string \<Rightarrow> string \<Rightarrow> string \<Rightarrow> db" where
  "CreateAccount d now accountID bucket pfx =
     d\<lparr>db_accounts := upsert_row (\<lambda>r. cw_id r = accountID)
        (\<lambda>r. r\<lparr>cw_bucket := bucket, cw_prefix := pfx\<rparr>)
        \<lparr>cw_id = accountID, cw_bucket = bucket, cw_prefix = pfx, cw_created = now\<rparr> (db_accounts d)\<rparr>"

definition ProvisionAccount :: "db \<Rightarrow> time \<Rightarrow> string \<Rightarrow> (account \<times> bool) effect" where
  "ProvisionAccount d now acct =
     (let d' = d\<lparr>db_accounts := insert_if_absent (\<lambda>r. cw_id r = acct)
                  \<lparr>cw_id = acct, cw_bucket = [], cw_prefix = [], cw_created = now\<rparr> (db_accounts d)\<rparr> in
      if \<not> has_account d acct
      then Inr (d', \<lparr>acct_Created = now, acct_Id = acct\<rparr>, True)
      else (case get_row (\<lambda>r. cw_id r = acct) (db_accounts d') of
              None \<Rightarrow> Inl ErrNoRows
            | Some r \<Rightarrow> Inr (d', \<lparr>acct_Created = cw_created r, acct_Id = cw_id r\<rparr>, False)))"

section \<open>Uploads\<close>

definition CreateUpload :: "db \<Rightarrow> time \<Rightarrow> string \<Rightarrow> upload \<Rightarrow> unit effect" where
  "CreateUpload d now account u =
     (if has_row (\<lambda>r. uw_id r = u_ID u) (db_uploads d) then Inl ErrUniqueViolation
      else if \<not> has_account d account then Inl ErrUnknownAccount
      else Inr (d\<lparr>db_uploads := insert_row
             \<lparr>uw_id = u_ID u, uw_account = account, uw_key = u_Key u, uw_ctype = u_ContentType u,
              uw_size = u_SizeBytes u, uw_filename = nullStr (u_Filename u), uw_created = now,
              uw_finalized = None, uw_swept = None, uw_skip = u_SkipDerivations u,
              uw_rasset = nullStr (u_RenditionAsset u), uw_rintent = nullStr (u_RenditionIntent u)\<rparr>
             (db_uploads d)\<rparr>, ()))"

record vault_record =
  vr_Kind :: media_kind
  vr_Checksum :: string
  vr_SizeBytes :: int
  vr_Width :: "int option"
  vr_Height :: "int option"
  vr_DurationS :: "float64 option"
  vr_Codec :: "string option"
  vr_Container :: "string option"
  vr_ProbeStatus :: string
  vr_ChecksumVerified :: bool

text \<open>\<open>getAssetTx\<close>: the asset read inside the finalize transaction, renditions left empty.\<close>

definition getAssetTx :: "db \<Rightarrow> string \<Rightarrow> string \<Rightarrow> store_error + asset" where
  "getAssetTx d account assetID =
     (case get_row (asset_is account assetID) (db_assets d) of
        None \<Rightarrow> Inl ErrNotFound | Some r \<Rightarrow> Inr (scanAssetRow d r))"

definition asset_of_upload :: "time \<Rightarrow> string \<Rightarrow> upload_row \<Rightarrow> vault_record \<Rightarrow> asset_row" where
  "asset_of_upload now account u v =
     \<lparr>ar_id = uw_id u, ar_account = account, ar_kind = vr_Kind v, ar_filename = uw_filename u,
      ar_vault_key = uw_key u, ar_checksum = vr_Checksum v, ar_size = vr_SizeBytes v,
      ar_width = vr_Width v, ar_height = vr_Height v, ar_dur = vr_DurationS v,
      ar_codec = vr_Codec v, ar_container = vr_Container v, ar_created = now, ar_deleted = None,
      ar_probe = (if vr_ProbeStatus v = [] then ''ready'' else vr_ProbeStatus v),
      ar_verified = vr_ChecksumVerified v, ar_checked_at = None\<rparr>"

definition finalize_row :: "time \<Rightarrow> upload_row \<Rightarrow> upload_row" where
  "finalize_row now u = u\<lparr>uw_finalized := Some now\<rparr>"

definition FinalizeUpload :: "db \<Rightarrow> time \<Rightarrow> string \<Rightarrow> string \<Rightarrow> vault_record \<Rightarrow> asset effect" where
  "FinalizeUpload d now account uploadID v =
     (let p = (\<lambda>r. uw_account r = account \<and> uw_id r = uploadID) in
      case get_row p (db_uploads d) of
        None \<Rightarrow> Inl ErrNotFound
      | Some u \<Rightarrow>
          if uw_swept u \<noteq> None then Inl ErrUploadGone
          else if uw_finalized u \<noteq> None then
            (case getAssetTx d account uploadID of Inl e \<Rightarrow> Inl e | Inr a \<Rightarrow> Inr (d, a))
          else if has_asset_id d uploadID then Inl ErrUniqueViolation
          else if \<not> has_account d account then Inl ErrForeignKey
          else let d' = d\<lparr>db_assets := insert_row (asset_of_upload now account u v) (db_assets d),
                          db_uploads := update_where p (finalize_row now) (db_uploads d)\<rparr> in
               (case getAssetTx d' account uploadID of Inl e \<Rightarrow> Inl e | Inr a \<Rightarrow> Inr (d', a)))"

definition ReclaimableUploads :: "db \<Rightarrow> time \<Rightarrow> int \<Rightarrow> upload list" where
  "ReclaimableUploads d olderThan limit0 =
     (let limit = (if limit0 \<le> 0 then 100 else limit0) in
      map (\<lambda>r. \<lparr>u_ID = uw_id r, u_Account = uw_account r, u_Key = uw_key r,
               u_ContentType = uw_ctype r, u_SizeBytes = uw_size r, u_Filename = str_of (uw_filename r),
               u_SkipDerivations = False, u_RenditionAsset = [], u_RenditionIntent = [],
               u_SweptAt = None\<rparr>)
        (take (nat limit) (sort_key uw_created
           (filter (\<lambda>r. uw_finalized r = None \<and> uw_swept r = None \<and> uw_created r < olderThan)
              (db_uploads d)))))"

definition MarkUploadSwept :: "db \<Rightarrow> time \<Rightarrow> string \<Rightarrow> db" where
  "MarkUploadSwept d now uploadID =
     d\<lparr>db_uploads := update_where (\<lambda>r. uw_id r = uploadID) (\<lambda>r. r\<lparr>uw_swept := Some now\<rparr>) (db_uploads d)\<rparr>"

end
