(* ===== verification/Queue.thy ===== *)
theory Queue
  imports Store_Write
begin

text \<open>
  The job queue and the worker's store operations (internal/store/queue.go), and the checksum
  claims (internal/store/checksum.go). A statement with \<open>FOR UPDATE SKIP LOCKED\<close> is atomic.
\<close>

section \<open>Enqueueing\<close>

text \<open>\<open>ORDER BY created DESC LIMIT 1\<close> over the jobs of one account, asset and intent.\<close>

definition latest_job :: "db \<Rightarrow> string \<Rightarrow> string \<Rightarrow> intent \<Rightarrow> job_row option" where
  "latest_job d account assetID i =
     (case sort_key (\<lambda>r. - jr_created r)
        (filter (\<lambda>r. jr_account r = account \<and> jr_asset r = assetID \<and> jr_intent r = i) (db_jobs d)) of
        [] \<Rightarrow> None | r # _ \<Rightarrow> Some r)"

text \<open>The reused job is returned without its progress, reason and times: the code scans five columns.\<close>

definition reused_job :: "job_row \<Rightarrow> job" where
  "reused_job r = \<lparr>job_Asset = jr_asset r, job_Created = None, job_Id = jr_id r,
     job_Intent = jr_intent r, job_Progress = None, job_Reason = None,
     job_Retries = jr_retries r, job_Status = jr_status r, job_Updated = None\<rparr>"

definition scanJobBasic :: "job_row \<Rightarrow> job" where
  "scanJobBasic r = \<lparr>job_Asset = jr_asset r, job_Created = Some (jr_created r), job_Id = jr_id r,
     job_Intent = jr_intent r, job_Progress = None, job_Reason = None,
     job_Retries = jr_retries r, job_Status = jr_status r, job_Updated = Some (jr_updated r)\<rparr>"

definition queued_row :: "time \<Rightarrow> string \<Rightarrow> string \<Rightarrow> string \<Rightarrow> intent \<Rightarrow> job_mode \<Rightarrow> string option \<Rightarrow> job_row" where
  "queued_row now jobID account assetID i m src =
     \<lparr>jr_id = jobID, jr_account = account, jr_asset = assetID, jr_intent = i, jr_status = JobQueued,
      jr_progress = None, jr_retries = 0, jr_reason = None, jr_created = now, jr_updated = now,
      jr_locked_at = None, jr_heartbeat_at = None, jr_last_error = None, jr_mode = m,
      jr_source_key = src\<rparr>"

definition insert_job :: "db \<Rightarrow> job_row \<Rightarrow> job effect" where
  "insert_job d r =
     (if has_row (\<lambda>x. jr_id x = jr_id r) (db_jobs d) then Inl ErrUniqueViolation
      else if \<not> has_account d (jr_account r) \<or> \<not> has_asset_id d (jr_asset r) then Inl ErrForeignKey
      else Inr (d\<lparr>db_jobs := insert_row r (db_jobs d)\<rparr>, scanJobBasic r))"

definition EnqueueJob :: "db \<Rightarrow> time \<Rightarrow> string \<Rightarrow> string \<Rightarrow> string \<Rightarrow> intent \<Rightarrow> job effect" where
  "EnqueueJob d now jobID account assetID i =
     (case latest_job d account assetID i of
        Some r \<Rightarrow> if jr_status r \<noteq> JobFailed then Inr (d, reused_job r)
                  else insert_job d (queued_row now jobID account assetID i Derive None)
      | None \<Rightarrow> insert_job d (queued_row now jobID account assetID i Derive None))"

definition repoint :: "time \<Rightarrow> string \<Rightarrow> job_row \<Rightarrow> job_row" where
  "repoint now sourceKey r = r\<lparr>jr_source_key := Some sourceKey, jr_mode := Remux, jr_updated := now\<rparr>"

definition EnqueueRemuxJob :: "db \<Rightarrow> time \<Rightarrow> string \<Rightarrow> string \<Rightarrow> string \<Rightarrow> intent \<Rightarrow> string \<Rightarrow> job effect" where
  "EnqueueRemuxJob d now jobID account assetID i sourceKey =
     (case latest_job d account assetID i of
        Some r \<Rightarrow>
          if jr_status r \<noteq> JobFailed then
            Inr (d\<lparr>db_jobs := update_where (\<lambda>x. jr_id x = jr_id r) (repoint now sourceKey) (db_jobs d)\<rparr>,
                 (reused_job r)\<lparr>job_Status := JobQueued\<rparr>)
          else insert_job d (queued_row now jobID account assetID i Remux (Some sourceKey))
      | None \<Rightarrow> insert_job d (queued_row now jobID account assetID i Remux (Some sourceKey)))"

section \<open>Claiming\<close>

record claimed_job =
  cj_ID :: string
  cj_Account :: string
  cj_Asset :: string
  cj_Intent :: intent
  cj_VaultKey :: string
  cj_VaultSize :: int
  cj_Attempts :: int
  cj_Mode :: job_mode
  cj_SourceKey :: string

definition tier :: "job_row \<Rightarrow> nat" where
  "tier r = (if jr_mode r = Remux then 0 else if jr_intent r = Poster then 0
             else if jr_intent r = Loop then 1 else 2)"

text \<open>\<open>heartbeat_at < stale\<close> is not true of a null heart beat.\<close>

definition runnable :: "time \<Rightarrow> job_row \<Rightarrow> bool" where
  "runnable stale r = (jr_status r = JobQueued
     \<or> (jr_status r = JobRunning \<and> (case jr_heartbeat_at r of None \<Rightarrow> False | Some h \<Rightarrow> h < stale)))"

definition claim_row :: "time \<Rightarrow> job_row \<Rightarrow> job_row" where
  "claim_row now r = r\<lparr>jr_status := JobRunning, jr_locked_at := Some now, jr_heartbeat_at := Some now,
     jr_retries := jr_retries r + 1, jr_updated := now\<rparr>"

definition pick_job :: "db \<Rightarrow> time \<Rightarrow> job_row option" where
  "pick_job d stale =
     (case sort_key tier (sort_key jr_created (filter (runnable stale) (db_jobs d))) of
        [] \<Rightarrow> None | r # _ \<Rightarrow> Some r)"

text \<open>
  The claim is committed before the vault key is read, so a claim whose asset is missing leaves
  the job running and returns an error: the database is returned either way.
\<close>

definition ClaimNextJob :: "db \<Rightarrow> time \<Rightarrow> time \<Rightarrow> db \<times> (store_error + claimed_job)" where
  "ClaimNextJob d now leaseTTL =
     (let stale = now - leaseTTL in
      case pick_job d stale of
        None \<Rightarrow> (d, Inl ErrNoJob)
      | Some r0 \<Rightarrow>
          let d' = d\<lparr>db_jobs := update_where (\<lambda>x. jr_id x = jr_id r0) (claim_row now) (db_jobs d)\<rparr>;
              r = claim_row now r0 in
          (case get_row (asset_is (jr_account r) (jr_asset r)) (db_assets d') of
             None \<Rightarrow> (d', Inl ErrNoRows)
           | Some a \<Rightarrow> (d', Inr \<lparr>cj_ID = jr_id r, cj_Account = jr_account r, cj_Asset = jr_asset r,
               cj_Intent = jr_intent r, cj_VaultKey = ar_vault_key a, cj_VaultSize = ar_size a,
               cj_Attempts = jr_retries r, cj_Mode = jr_mode r,
               cj_SourceKey = str_of (jr_source_key r)\<rparr>)))"

definition beat_row :: "time \<Rightarrow> float64 \<Rightarrow> job_row \<Rightarrow> job_row" where
  "beat_row now progress r =
     r\<lparr>jr_heartbeat_at := Some now, jr_progress := Some progress, jr_updated := now\<rparr>"

definition Heartbeat :: "db \<Rightarrow> time \<Rightarrow> string \<Rightarrow> float64 \<Rightarrow> db" where
  "Heartbeat d now jobID progress =
     d\<lparr>db_jobs := update_where (\<lambda>r. jr_id r = jobID \<and> jr_status r = JobRunning) (beat_row now progress) (db_jobs d)\<rparr>"

section \<open>Completing and failing\<close>

record rendition_record =
  rc_Key :: string
  rc_Mode :: string
  rc_Width :: "int option"
  rc_Height :: "int option"
  rc_DurationS :: "float64 option"
  rc_HasAudio :: "bool option"

definition succeed_row :: "time \<Rightarrow> job_row \<Rightarrow> job_row" where
  "succeed_row now r = r\<lparr>jr_status := JobSucceeded, jr_progress := Some 1, jr_updated := now\<rparr>"

definition ready_row :: "string \<Rightarrow> intent \<Rightarrow> rendition_record \<Rightarrow> rendition_row" where
  "ready_row assetID i c =
     \<lparr>rr_asset = assetID, rr_intent = i, rr_status = RS_Ready, rr_width = rc_Width c,
      rr_height = rc_Height c, rr_dur = rc_DurationS c, rr_audio = rc_HasAudio c, rr_reason = None,
      rr_key = Some (rc_Key c), rr_mode = Some (rc_Mode c)\<rparr>"

definition rend_is :: "string \<Rightarrow> intent \<Rightarrow> rendition_row \<Rightarrow> bool" where
  "rend_is assetID i r = (rr_asset r = assetID \<and> rr_intent r = i)"

definition CompleteJob :: "db \<Rightarrow> time \<Rightarrow> string \<Rightarrow> rendition_record \<Rightarrow> unit effect" where
  "CompleteJob d now jobID c =
     (case get_row (\<lambda>r. jr_id r = jobID \<and> jr_status r = JobRunning) (db_jobs d) of
        None \<Rightarrow> Inl (ErrJobNotRunning jobID)
      | Some r \<Rightarrow>
          Inr (d\<lparr>db_renditions := upsert_row (rend_is (jr_asset r) (jr_intent r))
                   (\<lambda>x. x\<lparr>rr_status := RS_Ready, rr_width := rc_Width c, rr_height := rc_Height c,
                          rr_dur := rc_DurationS c, rr_audio := rc_HasAudio c, rr_key := Some (rc_Key c),
                          rr_mode := Some (rc_Mode c), rr_reason := None\<rparr>)
                   (ready_row (jr_asset r) (jr_intent r) c) (db_renditions d),
                 db_jobs := update_where (\<lambda>x. jr_id x = jobID) (succeed_row now) (db_jobs d)\<rparr>, ()))"

definition CompleteJobNoRendition :: "db \<Rightarrow> time \<Rightarrow> string \<Rightarrow> db" where
  "CompleteJobNoRendition d now jobID =
     d\<lparr>db_jobs := update_where (\<lambda>x. jr_id x = jobID) (succeed_row now) (db_jobs d)\<rparr>"

definition requeue_row :: "time \<Rightarrow> string \<Rightarrow> job_row \<Rightarrow> job_row" where
  "requeue_row now msg r = r\<lparr>jr_status := JobQueued, jr_locked_at := None, jr_heartbeat_at := None,
     jr_last_error := Some msg, jr_updated := now\<rparr>"

definition fail_row :: "time \<Rightarrow> reason_code \<Rightarrow> string \<Rightarrow> job_row \<Rightarrow> job_row" where
  "fail_row now reason msg r = r\<lparr>jr_status := JobFailed, jr_reason := Some reason,
     jr_last_error := Some msg, jr_updated := now\<rparr>"

definition FailJob :: "db \<Rightarrow> time \<Rightarrow> string \<Rightarrow> int \<Rightarrow> reason_code \<Rightarrow> string \<Rightarrow> unit effect" where
  "FailJob d now jobID maxAttempts reason msg =
     (case get_row (\<lambda>r. jr_id r = jobID) (db_jobs d) of
        None \<Rightarrow> Inl ErrNoRows
      | Some r \<Rightarrow>
          if jr_retries r < maxAttempts
          then Inr (d\<lparr>db_jobs := update_where (\<lambda>x. jr_id x = jobID) (requeue_row now msg) (db_jobs d)\<rparr>, ())
          else Inr (d\<lparr>db_jobs := update_where (\<lambda>x. jr_id x = jobID) (fail_row now reason msg) (db_jobs d)\<rparr>, ()))"

section \<open>Purging, probes and refusals\<close>

record deleted_asset =
  da_ID :: string
  da_Account :: string
  da_VaultKey :: string

definition ReclaimableDeletedAssets :: "db \<Rightarrow> time \<Rightarrow> int \<Rightarrow> deleted_asset list" where
  "ReclaimableDeletedAssets d olderThan limit0 =
     (let limit = (if limit0 \<le> 0 then 100 else limit0) in
      map (\<lambda>r. \<lparr>da_ID = ar_id r, da_Account = ar_account r, da_VaultKey = ar_vault_key r\<rparr>)
        (take (nat limit) (sort_key (\<lambda>r. case ar_deleted r of None \<Rightarrow> 0 | Some t \<Rightarrow> t)
           (filter (\<lambda>r. case ar_deleted r of None \<Rightarrow> False | Some t \<Rightarrow> t < olderThan) (db_assets d)))))"

text \<open>The foreign keys of renditions and jobs cascade.\<close>

definition PurgeDeletedAsset :: "db \<Rightarrow> string \<Rightarrow> db" where
  "PurgeDeletedAsset d assetID =
     (if has_row (\<lambda>r. ar_id r = assetID \<and> ar_deleted r \<noteq> None) (db_assets d)
      then d\<lparr>db_assets := delete_where (\<lambda>r. ar_id r = assetID \<and> ar_deleted r \<noteq> None) (db_assets d),
             db_renditions := delete_where (\<lambda>r. rr_asset r = assetID) (db_renditions d),
             db_jobs := delete_where (\<lambda>r. jr_asset r = assetID) (db_jobs d)\<rparr>
      else d)"

definition backfill_row :: "vault_record \<Rightarrow> asset_row \<Rightarrow> asset_row" where
  "backfill_row v r = r\<lparr>ar_width := vr_Width v, ar_height := vr_Height v, ar_dur := vr_DurationS v,
     ar_codec := vr_Codec v, ar_container := vr_Container v, ar_probe := ''ready''\<rparr>"

definition BackfillVaultProbe :: "db \<Rightarrow> string \<Rightarrow> vault_record \<Rightarrow> db" where
  "BackfillVaultProbe d assetID v =
     d\<lparr>db_assets := update_where (\<lambda>r. ar_id r = assetID) (backfill_row v) (db_assets d)\<rparr>"

definition MarkProbeFailed :: "db \<Rightarrow> string \<Rightarrow> db" where
  "MarkProbeFailed d assetID =
     d\<lparr>db_assets := update_where (\<lambda>r. ar_id r = assetID) (\<lambda>r. r\<lparr>ar_probe := ''failed''\<rparr>) (db_assets d)\<rparr>"

definition bare_rendition :: "string \<Rightarrow> intent \<Rightarrow> rendition_status \<Rightarrow> reason_code option \<Rightarrow> rendition_row" where
  "bare_rendition assetID i s reason =
     \<lparr>rr_asset = assetID, rr_intent = i, rr_status = s, rr_width = None, rr_height = None, rr_dur = None,
      rr_audio = None, rr_reason = reason, rr_key = None, rr_mode = None\<rparr>"

definition FailedRenditionForCeiling :: "db \<Rightarrow> string \<Rightarrow> intent \<Rightarrow> reason_code \<Rightarrow> unit effect" where
  "FailedRenditionForCeiling d assetID i reason =
     (if \<not> has_asset_id d assetID then Inl ErrForeignKey
      else Inr (d\<lparr>db_renditions := upsert_row (rend_is assetID i)
                   (\<lambda>x. x\<lparr>rr_status := RS_Failed, rr_reason := Some reason\<rparr>)
                   (bare_rendition assetID i RS_Failed (Some reason)) (db_renditions d)\<rparr>, ()))"

definition MarkNotDerived :: "db \<Rightarrow> string \<Rightarrow> intent \<Rightarrow> unit effect" where
  "MarkNotDerived d assetID i =
     (if \<not> has_row (rend_is assetID i) (db_renditions d) \<and> \<not> has_asset_id d assetID then Inl ErrForeignKey
      else Inr (d\<lparr>db_renditions := insert_if_absent (rend_is assetID i)
                   (bare_rendition assetID i RS_NotDerived None) (db_renditions d)\<rparr>, ()))"

end
