(* ===== verification/Checksum_Store.thy ===== *)
theory Checksum_Store
  imports Queue
begin

text \<open>
  The store half of the server-side checksums and of the worker's health
  (internal/store/checksum.go, internal/store/health.go).
\<close>

section \<open>Checksum claims\<close>

definition ChecksumPrefix :: string where
  "ChecksumPrefix = ''sha256:''"

definition verified_sha256 :: "asset_row \<Rightarrow> bool" where
  "verified_sha256 r = (ar_verified r \<and> has_prefix (ar_checksum r) ChecksumPrefix)"

definition pending_checksum :: "asset_row \<Rightarrow> bool" where
  "pending_checksum r = (ar_deleted r = None \<and> \<not> verified_sha256 r)"

definition derive_in_flight :: "db \<Rightarrow> string \<Rightarrow> bool" where
  "derive_in_flight d i =
     has_row (\<lambda>j. jr_asset j = i \<and> jr_mode j = Derive \<and> jr_status j \<in> {JobQueued, JobRunning}) (db_jobs d)"

definition checksum_candidate :: "db \<Rightarrow> time \<Rightarrow> asset_row \<Rightarrow> bool" where
  "checksum_candidate d retryBefore r =
     (pending_checksum r
      \<and> (case ar_checked_at r of None \<Rightarrow> True | Some t \<Rightarrow> t < retryBefore)
      \<and> \<not> derive_in_flight d (ar_id r))"

text \<open>\<open>ORDER BY checksum_checked_at NULLS FIRST, created DESC, id\<close>.\<close>

definition checked_rank :: "asset_row \<Rightarrow> nat \<times> time" where
  "checked_rank r = (case ar_checked_at r of None \<Rightarrow> (0, 0) | Some t \<Rightarrow> (1, t))"

definition pick_candidate :: "db \<Rightarrow> time \<Rightarrow> asset_row option" where
  "pick_candidate d retryBefore =
     (case sort_key (\<lambda>r. fst (checked_rank r)) (sort_key (\<lambda>r. snd (checked_rank r))
             (sort_key (\<lambda>r. - ar_created r) (sort_key ar_id
               (filter (checksum_candidate d retryBefore) (db_assets d))))) of
        [] \<Rightarrow> None | r # _ \<Rightarrow> Some r)"

record checksum_claim =
  cc_ID :: string
  cc_Account :: string
  cc_VaultKey :: string
  cc_SizeBytes :: int

definition ClaimChecksumCandidate :: "db \<Rightarrow> time \<Rightarrow> time \<Rightarrow> checksum_claim effect" where
  "ClaimChecksumCandidate d now retryBefore =
     (case pick_candidate d retryBefore of
        None \<Rightarrow> Inl ErrNoChecksumPending
      | Some r \<Rightarrow>
          Inr (d\<lparr>db_assets := update_where (\<lambda>x. ar_id x = ar_id r) (\<lambda>x. x\<lparr>ar_checked_at := Some now\<rparr>) (db_assets d)\<rparr>,
               \<lparr>cc_ID = ar_id r, cc_Account = ar_account r, cc_VaultKey = ar_vault_key r, cc_SizeBytes = ar_size r\<rparr>))"

definition ReleaseChecksumClaim :: "db \<Rightarrow> string \<Rightarrow> db" where
  "ReleaseChecksumClaim d assetID =
     d\<lparr>db_assets := update_where (\<lambda>r. ar_id r = assetID) (\<lambda>r. r\<lparr>ar_checked_at := None\<rparr>) (db_assets d)\<rparr>"

definition set_checksum :: "string \<Rightarrow> asset_row \<Rightarrow> asset_row" where
  "set_checksum c r = r\<lparr>ar_checksum := c, ar_verified := True\<rparr>"

definition MarkChecksumVerified :: "db \<Rightarrow> string \<Rightarrow> string \<Rightarrow> unit effect" where
  "MarkChecksumVerified d assetID checksum =
     (if length checksum \<noteq> length ChecksumPrefix + 64 \<or> take (length ChecksumPrefix) checksum \<noteq> ChecksumPrefix
      then Inl ErrBadChecksum
      else let p = (\<lambda>r. ar_id r = assetID \<and> \<not> (verified_sha256 r \<and> ar_checksum r \<noteq> checksum));
               updated = has_row p (db_assets d);
               exists = has_asset_id d assetID in
        if \<not> updated \<and> exists then Inl ErrChecksumMismatch
        else Inr (d\<lparr>db_assets := update_where p (set_checksum checksum) (db_assets d)\<rparr>, ()))"

record checksum_backlog =
  cb_Live :: int
  cb_Verified :: int
  cb_Pending :: int
  cb_PendingBytes :: int
  cb_Attempted :: int

definition count_where :: "('r \<Rightarrow> bool) \<Rightarrow> 'r list \<Rightarrow> int" where
  "count_where p t = int (length (filter p t))"

definition ChecksumBacklogStatus :: "db \<Rightarrow> checksum_backlog" where
  "ChecksumBacklogStatus d = (let t = db_assets d in
     \<lparr>cb_Live = count_where (\<lambda>r. ar_deleted r = None) t,
      cb_Verified = count_where (\<lambda>r. ar_deleted r = None \<and> \<not> pending_checksum r) t,
      cb_Pending = count_where pending_checksum t,
      cb_PendingBytes = sum_list (map ar_size (filter pending_checksum t)),
      cb_Attempted = count_where (\<lambda>r. pending_checksum r \<and> ar_checked_at r \<noteq> None) t\<rparr>)"

section \<open>Worker liveness and queue lag\<close>

record worker_liveness =
  wl_Seen :: bool
  wl_WorkerID :: string
  wl_Version :: string
  wl_LastSeen :: time
  wl_LastSweep :: "time option"

definition WorkerLiveness :: "db \<Rightarrow> worker_liveness" where
  "WorkerLiveness d =
     (case sort_key (\<lambda>r. - hb_last_seen r) (db_heartbeats d) of
        [] \<Rightarrow> \<lparr>wl_Seen = False, wl_WorkerID = [], wl_Version = [], wl_LastSeen = 0, wl_LastSweep = None\<rparr>
      | r # _ \<Rightarrow> \<lparr>wl_Seen = True, wl_WorkerID = hb_worker r, wl_Version = hb_version r,
                  wl_LastSeen = hb_last_seen r, wl_LastSweep = hb_last_sweep r\<rparr>)"

record queue_lag =
  ql_Queued :: int
  ql_OldestQueued :: "time option"
  ql_LastProgress :: "time option"

fun least_time :: "time list \<Rightarrow> time option" where
  "least_time [] = None"
| "least_time (x # xs) = (case least_time xs of None \<Rightarrow> Some x | Some y \<Rightarrow> Some (min x y))"

definition progress_time :: "job_row \<Rightarrow> time option" where
  "progress_time r = greatest [jr_locked_at r, jr_heartbeat_at r, Some (jr_updated r)]"

definition QueueLag :: "db \<Rightarrow> queue_lag" where
  "QueueLag d =
     (let q = filter (\<lambda>r. jr_status r = JobQueued) (db_jobs d) in
      \<lparr>ql_Queued = int (length q), ql_OldestQueued = least_time (map jr_created q),
       ql_LastProgress = greatest (map progress_time (db_jobs d))\<rparr>)"

definition UpsertWorkerHeartbeat :: "db \<Rightarrow> time \<Rightarrow> string \<Rightarrow> string \<Rightarrow> time option \<Rightarrow> db" where
  "UpsertWorkerHeartbeat d now workerID version lastSweep =
     d\<lparr>db_heartbeats := upsert_row (\<lambda>r. hb_worker r = workerID)
        (\<lambda>r. r\<lparr>hb_last_seen := now, hb_version := version,
               hb_last_sweep := (case lastSweep of None \<Rightarrow> hb_last_sweep r | Some t \<Rightarrow> Some t)\<rparr>)
        \<lparr>hb_worker = workerID, hb_last_seen = now, hb_last_sweep = lastSweep, hb_version = version\<rparr>
        (db_heartbeats d)\<rparr>"

end
