(* ===== verification/Plate_Id.thy ===== *)
theory Plate_Id
  imports Go_Strings
begin

text \<open>
  Identifiers and storage keys (internal/id/id.go) and the two parsers of storage keys the
  delivery handlers use (internal/service/handlers.go).

  An identifier is 16 bytes, a 48-bit millisecond time stamp and 80 random bits, written in
  Crockford's base 32. The random bytes are an argument (\<open>None\<close> is a failing
  \<open>crypto/rand\<close>, on which the code panics). The encoder is proved equal to positional
  notation, hence injective and monotone in the time stamp.
\<close>

unbundle bit_operations_syntax

named_theorems key_simps \<open>storage keys and their parsers\<close>

section \<open>The encoder\<close>

definition crockford :: string where
  "crockford = ''0123456789ABCDEFGHJKMNPQRSTVWXYZ''"

definition be_uint64 :: "8 word list \<Rightarrow> 64 word" where
  "be_uint64 bs = foldl (\<lambda>w b. push_bit 8 w OR ucast b) 0 bs"

text \<open>The loop of \<open>encode\<close>: \<open>n\<close> characters to go, the low five bits first, filled from the right.\<close>

fun encode_loop :: "nat \<Rightarrow> 64 word \<Rightarrow> 64 word \<Rightarrow> string \<Rightarrow> string" where
  "encode_loop 0 high low out = out"
| "encode_loop (Suc n) high low out =
     encode_loop n (drop_bit 5 high) (drop_bit 5 low OR push_bit 59 high)
       (crockford ! unat (low AND 0x1f) # out)"

definition encode :: "8 word list \<Rightarrow> string" where
  "encode b = encode_loop 26 (be_uint64 (take 8 b)) (be_uint64 (drop 8 b)) []"

definition ts_bytes :: "64 word \<Rightarrow> 8 word list" where
  "ts_bytes ms = [ucast (drop_bit 40 ms), ucast (drop_bit 32 ms), ucast (drop_bit 24 ms),
                  ucast (drop_bit 16 ms), ucast (drop_bit 8 ms), ucast ms]"

definition new_id :: "64 word \<Rightarrow> 8 word list option \<Rightarrow> string option" where
  "new_id ms rnd = (case rnd of None \<Rightarrow> None | Some r \<Rightarrow> Some (encode (ts_bytes ms @ r)))"

section \<open>Storage keys\<close>

definition VaultPrefix :: string where "VaultPrefix = ''vault/''"
definition DeliveryPrefix :: string where "DeliveryPrefix = ''delivery/''"
definition StagingPrefix :: string where "StagingPrefix = ''staging/''"

definition VaultKey :: "string \<Rightarrow> string \<Rightarrow> string" where
  "VaultKey account assetID = VaultPrefix @ account @ ''/'' @ assetID"

definition RenditionKey :: "string \<Rightarrow> string \<Rightarrow> string" where
  "RenditionKey vaultKey intent =
     (let rel = trim_prefix vaultKey VaultPrefix in DeliveryPrefix @ rel @ ''/'' @ intent)"

definition StagingKey :: "string \<Rightarrow> string \<Rightarrow> string \<Rightarrow> string" where
  "StagingKey account assetID intent = StagingPrefix @ account @ ''/'' @ assetID @ ''/'' @ intent"

section \<open>Key parsers of the delivery handlers\<close>

definition assetIDFromRenditionKey :: "string \<Rightarrow> string" where
  "assetIDFromRenditionKey key =
     (let parts = split_char CHR ''/'' key in
      if length parts = 4 \<and> parts ! 0 = butlast DeliveryPrefix then parts ! 2
      else if length parts = 3 \<and> parts ! 0 = butlast VaultPrefix then parts ! 2
      else [])"

definition vaultKeyParts :: "string \<Rightarrow> (string \<times> string) option" where
  "vaultKeyParts key =
     (let parts = split_char CHR ''/'' key in
      if length parts \<noteq> 3 \<or> parts ! 0 @ ''/'' \<noteq> VaultPrefix \<or> parts ! 1 = [] \<or> parts ! 2 = []
      then None else Some (parts ! 1, parts ! 2))"

section \<open>The encoder is positional notation\<close>

fun digits32 :: "nat \<Rightarrow> nat \<Rightarrow> string" where
  "digits32 0 v = []"
| "digits32 (Suc n) v = digits32 n (v div 32) @ [crockford ! (v mod 32)]"

definition bytes_value :: "8 word list \<Rightarrow> nat" where
  "bytes_value bs = foldl (\<lambda>a b. a * 256 + unat b) 0 bs"

lemma unat_byte_less: "unat (b :: 8 word) < 256"
  by (rule order_less_le_trans [OF unsigned_less]) simp

lemma unat_or_shifted:
  fixes w :: "64 word" and b :: "8 word"
  assumes "unat w < 2 ^ 56"
  shows "unat (push_bit 8 w OR ucast b) = unat w * 256 + unat b"
proof -
  have "(push_bit 8 w OR ucast b) = push_bit 8 w + ucast b"
    by (rule disjunctive_add_eq_or [symmetric]) (auto simp: bit_eq_iff bit_simps dest: bit_imp_le_length)
  moreover have "unat (push_bit 8 w) = unat w * 256"
    using assms by (simp add: push_bit_eq_mult unat_word_ariths)
  moreover have "unat (ucast b :: 64 word) = unat b"
    using unat_byte_less [of b] by (simp add: unsigned_ucast_eq take_bit_nat_eq_self_iff)
  moreover have "unat b < 256" by (rule unat_byte_less)
  ultimately show ?thesis using assms by (simp add: unat_word_ariths)
qed

lemma be_foldl_value:
  fixes w :: "64 word" and bs :: "8 word list"
  assumes "unat w < 2 ^ (64 - 8 * length bs)" "length bs \<le> 8"
  shows "unat (foldl (\<lambda>w b. push_bit 8 w OR ucast b) w bs) = foldl (\<lambda>a b. a * 256 + unat b) (unat w) bs"
  using assms
proof (induction bs arbitrary: w)
  case Nil then show ?case by simp
next
  case (Cons b bs)
  have "unat w < 2 ^ (64 - 8 * Suc (length bs))" using Cons.prems by simp
  moreover have "(2::nat) ^ (64 - 8 * Suc (length bs)) \<le> 2 ^ 56" by (rule power_increasing) auto
  ultimately have lt: "unat w < 2 ^ 56" by simp
  have "unat w * 256 + unat b < 2 ^ (64 - 8 * length bs)"
  proof -
    have "64 - 8 * length bs = (64 - 8 * Suc (length bs)) + 8" using Cons.prems by simp
    then have e: "(2::nat) ^ (64 - 8 * length bs) = 2 ^ (64 - 8 * Suc (length bs)) * 256"
      by (simp only: power_add) simp
    have "unat b < 256" by (rule unat_byte_less)
    then have "unat w * 256 + unat b < (unat w + 1) * 256" by simp
    also have "\<dots> \<le> 2 ^ (64 - 8 * Suc (length bs)) * 256"
      using Cons.prems(1) by (intro mult_right_mono) (simp_all only: list.size Suc_eq_plus1 add_0 Suc_leI)
    finally show ?thesis by (simp only: e)
  qed
  moreover have "length bs \<le> 8" using Cons.prems by simp
  ultimately show ?case
    using Cons.IH [of "push_bit 8 w OR ucast b"] unat_or_shifted [OF lt, of b]
    by (simp only: foldl_Cons)
qed

lemma be_uint64_value: "length bs \<le> 8 \<Longrightarrow> unat (be_uint64 bs) = bytes_value bs"
  unfolding be_uint64_def bytes_value_def by (subst be_foldl_value) auto

lemma nat_split_div:
  fixes h l :: nat
  shows "h div 32 * 2 ^ 64 + (l div 32 + h mod 32 * 2 ^ 59) = (h * 2 ^ 64 + l) div 32"
proof -
  have "(h * 2 ^ 64 + l) div 32 = h * 2 ^ 59 + l div 32" by simp
  also have "h * 2 ^ 59 = (h div 32 * 32 + h mod 32) * 2 ^ 59" by (simp only: div_mult_mod_eq)
  also have "\<dots> = h div 32 * 2 ^ 64 + h mod 32 * 2 ^ 59"
    by (simp only: distrib_right mult.assoc) simp
  finally show ?thesis by simp
qed

lemma nat_split_mod:
  fixes h l :: nat
  shows "(h * 2 ^ 64 + l) mod 32 = l mod 32"
proof -
  have "(h * 2 ^ 64 + l) = (32 * (h * 2 ^ 59) + l)" by simp
  then show ?thesis by (simp only: mod_mult_self4)
qed

text \<open>One step of the loop divides the 128-bit value by 32.\<close>

lemma shift_step:
  fixes high low :: "64 word"
  shows "unat (drop_bit 5 high) * 2 ^ 64 + unat (drop_bit 5 low OR push_bit 59 high)
         = (unat high * 2 ^ 64 + unat low) div 32"
proof -
  have "drop_bit 5 low OR push_bit 59 high = drop_bit 5 low + push_bit 59 high"
    by (rule disjunctive_add_eq_or [symmetric]) (auto simp: bit_eq_iff bit_simps dest: bit_imp_le_length)
  moreover have d: "unat (drop_bit 5 low) = unat low div 32" "unat (drop_bit 5 high) = unat high div 32"
    by (simp_all only: unat_drop_bit_eq) (simp_all add: drop_bit_eq_div)
  moreover have p: "unat (push_bit 59 high) = (unat high mod 32) * 2 ^ 59"
  proof -
    have "unat (push_bit 59 high) = (unat high * 2 ^ 59) mod 2 ^ 64"
      by (simp add: push_bit_eq_mult unat_word_ariths)
    also have "\<dots> = (unat high * 2 ^ 59) mod (32 * 2 ^ 59)" by simp
    also have "\<dots> = (unat high mod 32) * 2 ^ 59" by (rule mod_mult_mult2)
    finally show ?thesis .
  qed
  moreover have "unat low < 2 ^ 64" using unsigned_less [of low, where ?'a = nat] by simp
  then have "unat low div 32 < 2 ^ 59" by simp
  moreover have "(unat high mod 32) * 2 ^ 59 \<le> 31 * 2 ^ 59" by simp
  ultimately have l: "unat (drop_bit 5 low OR push_bit 59 high)
      = unat low div 32 + (unat high mod 32) * 2 ^ 59"
    by (simp add: unat_word_ariths)
  show ?thesis by (simp only: l d nat_split_div)
qed

lemma low_five_bits:
  fixes high low :: "64 word"
  shows "unat (low AND 0x1f) = (unat high * 2 ^ 64 + unat low) mod 32"
proof -
  have "(0x1f :: 64 word) = mask 5" by (simp add: mask_eq_exp_minus_1)
  then have "unat (low AND 0x1f) = unat low mod 32"
    by (simp only: flip: take_bit_eq_mask) (simp add: take_bit_eq_mod unat_mod_distrib)
  then show ?thesis by (simp only: nat_split_mod)
qed

lemma encode_loop_digits:
  "encode_loop n high low out = digits32 n (unat high * 2 ^ 64 + unat low) @ out"
proof (induction n arbitrary: high low out)
  case 0 then show ?case by simp
next
  case (Suc n)
  show ?case by (simp only: encode_loop.simps Suc shift_step low_five_bits [of low high]) simp
qed

lemma bytes_value_append:
  "bytes_value (xs @ ys) = bytes_value xs * 256 ^ length ys + bytes_value ys"
proof -
  define F :: "nat \<Rightarrow> 8 word list \<Rightarrow> nat" where "F = foldl (\<lambda>a b. a * 256 + unat b)"
  have step: "F v (y # ys) = F (v * 256 + unat y) ys" and nil: "F v [] = v" for v y ys
    by (simp_all add: F_def)
  have "F v ys = v * 256 ^ length ys + F 0 ys" for v and ys :: "8 word list"
  proof (induction ys arbitrary: v)
    case (Cons y ys)
    have "F v (y # ys) = (v * 256 + unat y) * 256 ^ length ys + F 0 ys"
      by (simp only: step) (rule Cons)
    moreover have "F 0 (y # ys) = unat y * 256 ^ length ys + F 0 ys"
      by (simp only: step mult_0 add_0_left) (rule Cons)
    ultimately show ?case by (simp add: algebra_simps)
  qed (simp add: nil)
  then have "F (F 0 xs) ys = F 0 xs * 256 ^ length ys + F 0 ys" .
  then show ?thesis by (simp add: bytes_value_def F_def)
qed

lemma bytes_value_less: "bytes_value bs < 256 ^ length bs"
proof (induction bs rule: rev_induct)
  case Nil then show ?case by (simp add: bytes_value_def)
next
  case (snoc b bs)
  have "bytes_value (bs @ [b]) = bytes_value bs * 256 + unat b" by (simp add: bytes_value_def)
  then show ?case using snoc unat_byte_less [of b] by simp
qed

lemma bytes_value_inj: "length xs = length ys \<Longrightarrow> bytes_value xs = bytes_value ys \<Longrightarrow> xs = ys"
proof (induction xs ys rule: rev_induct2)
  case (4 x xs y ys)
  have e: "bytes_value xs * 256 + unat x = bytes_value ys * 256 + unat y"
    using 4 by (simp add: bytes_value_def)
  then have "(bytes_value xs * 256 + unat x) mod 256 = (bytes_value ys * 256 + unat y) mod 256" by simp
  then have "unat x = unat y" using unat_byte_less [of x] unat_byte_less [of y] by simp
  moreover with e have "bytes_value xs = bytes_value ys" by simp
  ultimately show ?case using 4 by (simp add: word_unat_eq_iff)
qed simp_all

lemma encode_digits: "length b = 16 \<Longrightarrow> encode b = digits32 26 (bytes_value b)"
proof -
  assume b: "length b = 16"
  then have "bytes_value (take 8 b @ drop 8 b)
     = bytes_value (take 8 b) * 256 ^ length (drop 8 b) + bytes_value (drop 8 b)"
    by (simp only: bytes_value_append)
  with b show ?thesis
    by (simp add: encode_def encode_loop_digits be_uint64_value)
qed

section \<open>Properties of identifiers\<close>

lemma length_digits32 [simp]: "length (digits32 n v) = n"
  by (induction n arbitrary: v) auto

lemma crockford_nth_in: "v < 32 \<Longrightarrow> crockford ! v \<in> set crockford"
  by (rule nth_mem) (simp add: crockford_def)

lemma set_digits32: "set (digits32 n v) \<subseteq> set crockford"
  by (induction n arbitrary: v) (auto intro: crockford_nth_in)

text \<open>The alphabet is strictly increasing, so digit order is character order.\<close>

lemma crockford_sorted: "sorted_wrt (<) crockford"
  by (simp add: crockford_def)

lemma crockford_mono: "a < b \<Longrightarrow> b < 32 \<Longrightarrow> crockford ! a < crockford ! b"
  by (rule sorted_wrt_nth_less [OF crockford_sorted]) (simp_all add: crockford_def)

lemma digits32_mono:
  assumes "v < w" "w < 32 ^ n"
  shows "digits32 n v < digits32 n w"
  using assms
proof (induction n arbitrary: v w)
  case 0 then show ?case by simp
next
  case (Suc n)
  have w: "w div 32 < 32 ^ n" using Suc.prems by (simp add: less_mult_imp_div_less mult.commute)
  have le: "v div 32 \<le> w div 32" using Suc.prems by (simp add: div_le_mono)
  show ?case
  proof (cases "v div 32 = w div 32")
    case True
    then have "v mod 32 < w mod 32"
      using Suc.prems(1) by (metis mult_div_mod_eq nat_add_left_cancel_less)
    then show ?thesis using True by (simp add: crockford_mono string_less_append_left)
  next
    case False
    then show ?thesis using Suc.IH [of "v div 32" "w div 32"] le w
      by (simp add: string_less_append_same_length)
  qed
qed

lemma digits32_inj: "v < 32 ^ n \<Longrightarrow> w < 32 ^ n \<Longrightarrow> digits32 n v = digits32 n w \<Longrightarrow> v = w"
  by (metis digits32_mono less_irrefl linorder_neqE_nat)

lemma id_value_bound: "length b = 16 \<Longrightarrow> bytes_value b < 32 ^ 26"
  by (rule order_less_le_trans [OF bytes_value_less]) simp

lemma encode_slash_free: "length b = 16 \<Longrightarrow> CHR ''/'' \<notin> set (encode b)"
  using set_digits32 [of 26 "bytes_value b"] by (auto simp: encode_digits crockford_def)

lemma encode_nonempty: "length b = 16 \<Longrightarrow> encode b \<noteq> []"
  by (metis encode_digits length_digits32 length_0_conv zero_neq_numeral)

lemma ts_byte:
  fixes ms :: "64 word"
  shows "unat (ucast (drop_bit k ms) :: 8 word) = unat ms div 2 ^ k mod 256"
proof -
  have "unat (drop_bit k ms) = unat ms div 2 ^ k"
    by (simp only: unat_drop_bit_eq) (simp add: drop_bit_eq_div)
  then show ?thesis by (simp add: unsigned_ucast_eq take_bit_eq_mod)
qed

lemma ts_bytes_value: "bytes_value (ts_bytes ms) = unat ms mod 2 ^ 48"
proof -
  have t: "unat (ucast ms :: 8 word) = unat ms mod 256" using ts_byte [of 0 ms] by simp
  have "(((((m div 2^40 mod 256 * 256 + m div 2^32 mod 256) * 256 + m div 2^24 mod 256) * 256
      + m div 2^16 mod 256) * 256) + m div 2^8 mod 256) * 256 + m mod 256 = m mod 2^48" for m :: nat
  proof -
    have s: "(m div 2 ^ (k + 8) mod 2 ^ n) * 256 + m div 2 ^ k mod 256 = m div 2 ^ k mod 2 ^ (n + 8)"
      for k n :: nat
    proof -
      have "m div 2 ^ (k + 8) = m div 2 ^ k div 256" by (simp add: power_add div_mult2_eq)
      then show ?thesis
        using mod_mult2_eq [of "m div 2 ^ k" 256 "2 ^ n"] by (simp add: power_add mult.commute)
    qed
    show ?thesis using s [of 32 8] s [of 24 16] s [of 16 24] s [of 8 32] s [of 0 40] by simp
  qed
  then show ?thesis
    by (simp add: bytes_value_def ts_bytes_def ts_byte t)
qed

lemma new_id_value:
  assumes "length r = 10"
  shows "bytes_value (ts_bytes ms @ r) = (unat ms mod 2 ^ 48) * 2 ^ 80 + bytes_value r"
  using assms by (simp add: bytes_value_append ts_bytes_value)

section \<open>Properties of keys\<close>

lemma split_vault_key:
  "CHR ''/'' \<notin> set a \<Longrightarrow> CHR ''/'' \<notin> set i \<Longrightarrow> split_char CHR ''/'' (VaultKey a i) = [''vault'', a, i]"
  using split_char_append [of "CHR ''/''" "''vault''"] split_char_append [of "CHR ''/''" a i]
  by (simp add: VaultKey_def VaultPrefix_def split_char_no_sep)

lemma vault_key_parts_vault_key [key_simps]:
  "CHR ''/'' \<notin> set a \<Longrightarrow> CHR ''/'' \<notin> set i \<Longrightarrow> a \<noteq> [] \<Longrightarrow> i \<noteq> []
   \<Longrightarrow> vaultKeyParts (VaultKey a i) = Some (a, i)"
  by (simp add: vaultKeyParts_def split_vault_key VaultPrefix_def)

lemma rendition_key_of_vault_key [key_simps]:
  "RenditionKey (VaultKey a i) intent = DeliveryPrefix @ a @ ''/'' @ i @ ''/'' @ intent"
  by (simp add: RenditionKey_def VaultKey_def)

lemma asset_id_from_rendition_key [key_simps]:
  assumes "CHR ''/'' \<notin> set a" "CHR ''/'' \<notin> set i" "CHR ''/'' \<notin> set n"
  shows "assetIDFromRenditionKey (RenditionKey (VaultKey a i) n) = i"
proof -
  have "split_char CHR ''/'' (RenditionKey (VaultKey a i) n) = [''delivery'', a, i, n]"
    using assms split_char_append [of "CHR ''/''" a "i @ ''/'' @ n"] split_char_append [of "CHR ''/''" i n]
      split_char_append [of "CHR ''/''" "''delivery''"]
    by (simp add: rendition_key_of_vault_key DeliveryPrefix_def split_char_no_sep)
  then show ?thesis by (simp add: assetIDFromRenditionKey_def DeliveryPrefix_def)
qed

lemma asset_id_from_vault_key [key_simps]:
  "CHR ''/'' \<notin> set a \<Longrightarrow> CHR ''/'' \<notin> set i \<Longrightarrow> assetIDFromRenditionKey (VaultKey a i) = i"
  by (simp add: assetIDFromRenditionKey_def split_vault_key VaultPrefix_def)

lemma vault_key_inj:
  assumes "CHR ''/'' \<notin> set a" "CHR ''/'' \<notin> set b" "VaultKey a i = VaultKey b j"
  shows "a = b \<and> i = j"
proof -
  from assms(3) have "a @ CHR ''/'' # i = b @ CHR ''/'' # j" by (simp add: VaultKey_def)
  then have "cut_char CHR ''/'' (a @ CHR ''/'' # i) = cut_char CHR ''/'' (b @ CHR ''/'' # j)" by simp
  then show ?thesis using assms by (simp add: cut_char_append)
qed

text \<open>The three key spaces are disjoint: the wall between sources and public objects.\<close>

lemma wall_vault_delivery: "VaultKey a i \<noteq> RenditionKey (VaultKey b j) n"
  by (simp add: VaultKey_def RenditionKey_def VaultPrefix_def DeliveryPrefix_def)

lemma rendition_key_public: "has_prefix (RenditionKey k n) DeliveryPrefix"
  by (simp add: RenditionKey_def)

lemma vault_key_not_public: "\<not> has_prefix (VaultKey a i) DeliveryPrefix"
  by (simp add: VaultKey_def VaultPrefix_def DeliveryPrefix_def has_prefix_def)

lemma staging_key_not_public: "\<not> has_prefix (StagingKey a i n) DeliveryPrefix"
  by (simp add: StagingKey_def StagingPrefix_def DeliveryPrefix_def has_prefix_def)

lemma vault_staging_disjoint: "VaultKey a i \<noteq> StagingKey b j n"
  by (simp add: VaultKey_def StagingKey_def VaultPrefix_def StagingPrefix_def)

section \<open>Headline properties\<close>

text \<open>An identifier is the 128-bit big-endian value of its 16 bytes in 26 base-32 digits, so two
  different byte strings never get the same identifier.\<close>
theorem encode_is_base32:
  assumes "length b = 16" "length c = 16"
  shows "encode b = digits32 26 (bytes_value b) \<and> length (encode b) = 26
    \<and> (encode b = encode c) = (b = c)"
  using assms digits32_inj [OF id_value_bound [OF assms(1)] id_value_bound [OF assms(2)]]
    bytes_value_inj [of b c]
  by (auto simp: encode_digits)

lemma encode_is_base32_witness:
  "encode (replicate 15 0 @ [255]) = digits32 26 (bytes_value (replicate 15 0 @ [255]))"
  using encode_is_base32 [of "replicate 15 0 @ [255]" "replicate 16 0"] by simp

text \<open>Identifiers sort by creation time: an id made in an earlier millisecond is
  lexicographically smaller than any id made in a later one, whatever the random bytes are (for
  the 48 bits of time the layout holds).\<close>
theorem new_id_ordered_by_time:
  assumes "unat ms < unat ms'" "unat ms' < 2 ^ 48" "length r = 10" "length r' = 10"
    "new_id ms (Some r) = Some i" "new_id ms' (Some r') = Some i'"
  shows "i < i'"
proof -
  have r: "bytes_value r < 2 ^ 80" using bytes_value_less [of r] assms(3) by simp
  have ln: "length (ts_bytes x @ q) = 16" if "length q = 10" for x q
    using that by (simp add: ts_bytes_def)
  have "bytes_value (ts_bytes ms @ r) < bytes_value (ts_bytes ms' @ r')"
    using assms r by (simp add: new_id_value)
  then have "digits32 26 (bytes_value (ts_bytes ms @ r)) < digits32 26 (bytes_value (ts_bytes ms' @ r'))"
    by (rule digits32_mono) (rule id_value_bound [OF ln [OF assms(4)]])
  then show ?thesis using assms ln by (auto simp: new_id_def encode_digits)
qed

lemma new_id_ordered_by_time_witness:
  "encode (ts_bytes 1 @ replicate 10 255) < encode (ts_bytes 2 @ replicate 10 0)"
  by (rule new_id_ordered_by_time [of 1 2 "replicate 10 255" "replicate 10 0"])
     (simp_all add: new_id_def)

text \<open>The storage layout is a wall. For slash-free account and asset ids the vault key parses
  back to exactly its account and asset, the rendition key derived from it names the same asset,
  rendition keys are under the public prefix, and neither an original nor a staged file is.\<close>
theorem storage_wall:
  assumes "CHR ''/'' \<notin> set a" "a \<noteq> []" "CHR ''/'' \<notin> set i" "i \<noteq> []" "CHR ''/'' \<notin> set n"
  shows "vaultKeyParts (VaultKey a i) = Some (a, i)
    \<and> assetIDFromRenditionKey (VaultKey a i) = i
    \<and> assetIDFromRenditionKey (RenditionKey (VaultKey a i) n) = i
    \<and> has_prefix (RenditionKey (VaultKey a i) n) DeliveryPrefix
    \<and> \<not> has_prefix (VaultKey a i) DeliveryPrefix
    \<and> \<not> has_prefix (StagingKey a i n) DeliveryPrefix"
  using assms by (simp add: vault_key_parts_vault_key asset_id_from_vault_key
      asset_id_from_rendition_key rendition_key_public vault_key_not_public staging_key_not_public)

lemma storage_wall_witness:
  "vaultKeyParts (VaultKey ''uri'' ''01J'') = Some (''uri'', ''01J'')"
  using storage_wall [of "''uri''" "''01J''" "''loop''"] by simp

end
