(* ===== verification/Store_Machine.thy ===== *)
theory Store_Machine
  imports Checksum_Store Plate_Id
begin

text \<open>
  The store as a state machine. A step is one committed transaction: an account-scoped request
  with the guard its handler has established, a worker operation, or the operator's account
  command. The invariant of the reachable databases is proved here once, table by table: keys
  stay unique, foreign keys hold, every asset grew from its own account's finalized upload, and
  every storage key lies in the key space of the account that owns the row.
\<close>

named_theorems step_simps \<open>the operations, unfolded\<close>

section \<open>Tenant tables of the schema\<close>

interpretation assets_deleted: tenant_table ar_id ar_account "set_deleted now" for now
  by unfold_locales (simp_all add: set_deleted_def)

interpretation grants_revoked: tenant_table gw_id gw_account "revoke_grant_row now" for now
  by unfold_locales (simp_all add: revoke_grant_row_def)

interpretation exports_revoked: tenant_table xw_id xw_account "revoke_export_row now" for now
  by unfold_locales (simp_all add: revoke_export_row_def)

interpretation uploads_finalized: tenant_table uw_id uw_account "finalize_row now" for now
  by unfold_locales (simp_all add: finalize_row_def)

interpretation jobs_repointed: tenant_table jr_id jr_account "repoint now src" for now src
  by unfold_locales (simp_all add: repoint_def)

datatype request =
  R_MarkAssetDeleted string | R_CreateGrant string grant_request | R_RevokeGrant string
| R_CreateExport string export_request | R_RevokeExport string | R_ProvisionAccount
| R_CreateUpload upload | R_FinalizeUpload string vault_record
| R_EnqueueJob string string intent | R_EnqueueRemuxJob string string intent string
| R_MarkNotDerived string intent

definition commit :: "db \<Rightarrow> 'a effect \<Rightarrow> db" where
  "commit d e = (case e of Inl _ \<Rightarrow> d | Inr (d', _) \<Rightarrow> d')"

fun run_request :: "time \<Rightarrow> string \<Rightarrow> request \<Rightarrow> db \<Rightarrow> db" where
  "run_request now A (R_MarkAssetDeleted i) d = commit d (MarkAssetDeleted d now A i)"
| "run_request now A (R_CreateGrant gid req) d = commit d (CreateGrant d now gid A req)"
| "run_request now A (R_RevokeGrant i) d = commit d (RevokeGrant d now A i)"
| "run_request now A (R_CreateExport eid req) d = commit d (CreateExport d now eid A req)"
| "run_request now A (R_RevokeExport i) d = commit d (RevokeExport d now A i)"
| "run_request now A R_ProvisionAccount d = commit d (ProvisionAccount d now A)"
| "run_request now A (R_CreateUpload u) d = commit d (CreateUpload d now A u)"
| "run_request now A (R_FinalizeUpload i v) d = commit d (FinalizeUpload d now A i v)"
| "run_request now A (R_EnqueueJob jid i n) d = commit d (EnqueueJob d now jid A i n)"
| "run_request now A (R_EnqueueRemuxJob jid i n src) d = commit d (EnqueueRemuxJob d now jid A i n src)"
| "run_request now A (R_MarkNotDerived i n) d = commit d (MarkNotDerived d i n)"

lemma commit_simps [simp]: "commit d (Inl e) = d" "commit d (Inr (d', x)) = d'"
  by (simp_all add: commit_def)


section \<open>Worker and operator operations\<close>

datatype worker_op =
  W_Claim time | W_Heartbeat string float64 | W_Complete string rendition_record
| W_CompleteNoRendition string | W_Fail string int reason_code string
| W_Purge string | W_Backfill string vault_record | W_ProbeFailed string
| W_Ceiling string intent reason_code | W_ChecksumClaim time | W_ChecksumRelease string
| W_ChecksumVerified string string | W_MarkSwept string
| W_Beat string string "time option"

fun run_worker :: "time \<Rightarrow> worker_op \<Rightarrow> db \<Rightarrow> db" where
  "run_worker now (W_Claim ttl) d = fst (ClaimNextJob d now ttl)"
| "run_worker now (W_Heartbeat j p) d = Heartbeat d now j p"
| "run_worker now (W_Complete j c) d = commit d (CompleteJob d now j c)"
| "run_worker now (W_CompleteNoRendition j) d = CompleteJobNoRendition d now j"
| "run_worker now (W_Fail j m r msg) d = commit d (FailJob d now j m r msg)"
| "run_worker now (W_Purge i) d = PurgeDeletedAsset d i"
| "run_worker now (W_Backfill i v) d = BackfillVaultProbe d i v"
| "run_worker now (W_ProbeFailed i) d = MarkProbeFailed d i"
| "run_worker now (W_Ceiling i n r) d = commit d (FailedRenditionForCeiling d i n r)"
| "run_worker now (W_ChecksumClaim b) d = commit d (ClaimChecksumCandidate d now b)"
| "run_worker now (W_ChecksumRelease i) d = ReleaseChecksumClaim d i"
| "run_worker now (W_ChecksumVerified i c) d = commit d (MarkChecksumVerified d i c)"
| "run_worker now (W_MarkSwept i) d = MarkUploadSwept d now i"
| "run_worker now (W_Beat w ver s) d = UpsertWorkerHeartbeat d now w ver s"

text \<open>
  What the handlers check or establish before the store call: fresh ids for new uploads with the
  key of the caller's own key space, ownership of the asset a job or a mark is for, and that
  only an original upload is finalized into an asset.
\<close>

fun request_ok :: "db \<Rightarrow> string \<Rightarrow> request \<Rightarrow> bool" where
  "request_ok d A (R_CreateUpload u) \<longleftrightarrow> \<not> has_asset_id d (u_ID u)
     \<and> (if u_RenditionAsset u = [] then u_Key u = VaultKey A (u_ID u)
        else AssetOwnedBy d A (u_RenditionAsset u)
          \<and> u_Key u = StagingKey A (u_RenditionAsset u) (u_RenditionIntent u))"
| "request_ok d A (R_FinalizeUpload i v) \<longleftrightarrow>
     (\<forall>u \<in> set (db_uploads d). uw_account u = A \<and> uw_id u = i \<longrightarrow> uw_rasset u = None)"
| "request_ok d A (R_EnqueueJob jid i n) \<longleftrightarrow> AssetOwnedBy d A i"
| "request_ok d A (R_EnqueueRemuxJob jid i n src) \<longleftrightarrow> AssetOwnedBy d A i"
| "request_ok d A (R_MarkNotDerived i n) \<longleftrightarrow> AssetOwnedBy d A i"
| "request_ok d A _ \<longleftrightarrow> True"

inductive store_step :: "db \<Rightarrow> db \<Rightarrow> bool" where
  request: "request_ok d A r \<Longrightarrow> store_step d (run_request now A r d)"
| worker: "store_step d (run_worker now w d)"
| operator: "store_step d (CreateAccount d now a bucket pre)"

inductive reachable :: "db \<Rightarrow> bool" where
  init: "reachable empty_db"
| step: "reachable d \<Longrightarrow> store_step d d' \<Longrightarrow> reachable d'"

section \<open>The invariant\<close>

text \<open>
  What the primary keys of the schema give, and that an asset and an upload of the same id are
  of one account (finalize turns the upload id into the asset id).
\<close>

definition keys_ok :: "db \<Rightarrow> bool" where
  "keys_ok d \<longleftrightarrow> distinct (map cw_id (db_accounts d)) \<and> distinct (map ar_id (db_assets d))
     \<and> distinct (map (\<lambda>r. (rr_asset r, rr_intent r)) (db_renditions d))
     \<and> distinct (map jr_id (db_jobs d)) \<and> distinct (map gw_id (db_grants d))
     \<and> distinct (map xw_id (db_exports d)) \<and> distinct (map uw_id (db_uploads d))"

definition origins_ok :: "db \<Rightarrow> bool" where
  "origins_ok d \<longleftrightarrow> (\<forall>a \<in> set (db_assets d). \<forall>u \<in> set (db_uploads d).
     uw_id u = ar_id a \<longrightarrow> uw_account u = ar_account a)"

lemma latest_job_Some:
  assumes "latest_job d a i n = Some r"
  shows "r \<in> set (db_jobs d) \<and> jr_account r = a \<and> jr_asset r = i \<and> jr_intent r = n"
  using assms sort_key_head_in unfolding latest_job_def by (fastforce split: list.splits)


section \<open>The skeleton machine\<close>

text \<open>
  The abstract specification the invariant is proved on: the keys of every table and who owns
  what, nothing else. The store refines it, most operations as stuttering steps.
\<close>

record skeleton =
  sk_accounts :: "string list"
  sk_assets :: "(string \<times> string \<times> string) list"
  sk_renditions :: "(string \<times> intent) list"
  sk_jobs :: "(string \<times> string \<times> string) list"
  sk_grants :: "(string \<times> string) list"
  sk_exports :: "(string \<times> string) list"
  sk_uploads :: "(string \<times> string \<times> string \<times> string option \<times> bool) list"

definition asset_key :: "asset_row \<Rightarrow> string \<times> string \<times> string" where
  "asset_key r = (ar_id r, ar_account r, ar_vault_key r)"

definition job_key :: "job_row \<Rightarrow> string \<times> string \<times> string" where
  "job_key r = (jr_id r, jr_account r, jr_asset r)"

definition rendition_key_of :: "rendition_row \<Rightarrow> string \<times> intent" where
  "rendition_key_of r = (rr_asset r, rr_intent r)"

definition grant_key :: "grant_row \<Rightarrow> string \<times> string" where
  "grant_key r = (gw_id r, gw_account r)"

definition export_key :: "export_row \<Rightarrow> string \<times> string" where
  "export_key r = (xw_id r, xw_account r)"

definition upload_key :: "upload_row \<Rightarrow> string \<times> string \<times> string \<times> string option \<times> bool" where
  "upload_key r = (uw_id r, uw_account r, uw_key r, uw_rasset r, uw_finalized r \<noteq> None)"

definition abs_store :: "db \<Rightarrow> skeleton" where
  "abs_store d = \<lparr>sk_accounts = map cw_id (db_accounts d), sk_assets = map asset_key (db_assets d),
     sk_renditions = map rendition_key_of (db_renditions d), sk_jobs = map job_key (db_jobs d),
     sk_grants = map grant_key (db_grants d), sk_exports = map export_key (db_exports d),
     sk_uploads = map upload_key (db_uploads d)\<rparr>"

definition mark_finalized :: "string \<Rightarrow> string \<Rightarrow> string \<times> string \<times> string \<times> string option \<times> bool
    \<Rightarrow> string \<times> string \<times> string \<times> string option \<times> bool" where
  "mark_finalized a i u = (case u of (j, b, k, r, f) \<Rightarrow> (j, b, k, r, f \<or> (b = a \<and> j = i)))"

inductive sk_step :: "skeleton \<Rightarrow> skeleton \<Rightarrow> bool" where
  idle: "sk_step s s"
| account: "a \<notin> set (sk_accounts s) \<Longrightarrow> sk_step s (s\<lparr>sk_accounts := sk_accounts s @ [a]\<rparr>)"
| upload: "i \<notin> fst ` set (sk_uploads s) \<Longrightarrow> i \<notin> fst ` set (sk_assets s) \<Longrightarrow> a \<in> set (sk_accounts s) \<Longrightarrow>
    (ra = None \<and> k = VaultKey a i) \<or> (\<exists>b n. ra = Some b \<and> k = StagingKey a b n) \<Longrightarrow>
    sk_step s (s\<lparr>sk_uploads := sk_uploads s @ [(i, a, k, ra, False)]\<rparr>)"
| finalize: "(i, a, k, None, f) \<in> set (sk_uploads s) \<Longrightarrow> i \<notin> fst ` set (sk_assets s) \<Longrightarrow>
    a \<in> set (sk_accounts s) \<Longrightarrow>
    sk_step s (s\<lparr>sk_assets := sk_assets s @ [(i, a, k)],
                 sk_uploads := map (mark_finalized a i) (sk_uploads s)\<rparr>)"
| job: "j \<notin> fst ` set (sk_jobs s) \<Longrightarrow> (i, a, k) \<in> set (sk_assets s) \<Longrightarrow>
    sk_step s (s\<lparr>sk_jobs := sk_jobs s @ [(j, a, i)]\<rparr>)"
| rendition: "(i, n) \<notin> set (sk_renditions s) \<Longrightarrow> i \<in> fst ` set (sk_assets s) \<Longrightarrow>
    sk_step s (s\<lparr>sk_renditions := sk_renditions s @ [(i, n)]\<rparr>)"
| grant: "g \<notin> fst ` set (sk_grants s) \<Longrightarrow> a \<in> set (sk_accounts s) \<Longrightarrow>
    sk_step s (s\<lparr>sk_grants := sk_grants s @ [(g, a)]\<rparr>)"
| export: "g \<notin> fst ` set (sk_exports s) \<Longrightarrow> a \<in> set (sk_accounts s) \<Longrightarrow>
    sk_step s (s\<lparr>sk_exports := sk_exports s @ [(g, a)]\<rparr>)"
| purge: "sk_step s (s\<lparr>sk_assets := filter (\<lambda>(j, _). j \<noteq> i) (sk_assets s),
    sk_renditions := filter (\<lambda>(j, _). j \<noteq> i) (sk_renditions s),
    sk_jobs := filter (\<lambda>(_, _, j). j \<noteq> i) (sk_jobs s)\<rparr>)"

definition sk_keys :: "skeleton \<Rightarrow> bool" where
  "sk_keys s \<longleftrightarrow>
     distinct (sk_accounts s) \<and> distinct (map fst (sk_assets s)) \<and> distinct (sk_renditions s)
   \<and> distinct (map fst (sk_jobs s)) \<and> distinct (map fst (sk_grants s))
   \<and> distinct (map fst (sk_exports s)) \<and> distinct (map fst (sk_uploads s))"

definition sk_origins :: "skeleton \<Rightarrow> bool" where
  "sk_origins s \<longleftrightarrow> (\<forall>(i, a, k) \<in> set (sk_assets s). (i, a, k, None, True) \<in> set (sk_uploads s))"

definition sk_layout :: "skeleton \<Rightarrow> bool" where
  "sk_layout s \<longleftrightarrow> (\<forall>(i, a, k, ra, f) \<in> set (sk_uploads s). a \<in> set (sk_accounts s)
     \<and> (case ra of None \<Rightarrow> k = VaultKey a i | Some b \<Rightarrow> \<exists>n. k = StagingKey a b n))"

definition sk_refs :: "skeleton \<Rightarrow> bool" where
  "sk_refs s \<longleftrightarrow>
     (\<forall>(i, n) \<in> set (sk_renditions s). i \<in> fst ` set (sk_assets s))
   \<and> (\<forall>(j, a, i) \<in> set (sk_jobs s). \<exists>k. (i, a, k) \<in> set (sk_assets s))
   \<and> (\<forall>(g, a) \<in> set (sk_grants s). a \<in> set (sk_accounts s))
   \<and> (\<forall>(g, a) \<in> set (sk_exports s). a \<in> set (sk_accounts s))"

definition sk_inv :: "skeleton \<Rightarrow> bool" where
  "sk_inv s \<longleftrightarrow> sk_keys s \<and> sk_origins s \<and> sk_layout s \<and> sk_refs s"

lemma fst_mark [simp]: "fst \<circ> mark_finalized a i = fst" "fst (mark_finalized a i u) = fst u"
  by (auto simp: mark_finalized_def split: prod.splits)

lemma map_fst_mark [simp]: "map fst (map (mark_finalized a i) us) = map fst us"
  by (simp add: mark_finalized_def case_prod_unfold comp_def)

lemma mark_finalized_keeps: "(j, b, k, r, True) \<in> set us \<Longrightarrow> (j, b, k, r, True) \<in> mark_finalized a i ` set us"
  by (rule image_eqI [of _ _ "(j, b, k, r, True)"]) (simp_all add: mark_finalized_def)

lemma mark_finalized_sets: "(i, a, k, r, f) \<in> set us \<Longrightarrow> (i, a, k, r, True) \<in> mark_finalized a i ` set us"
  by (rule image_eqI [of _ _ "(i, a, k, r, f)"]) (simp_all add: mark_finalized_def)

lemma distinct_map_fst_filter: "distinct (map fst xs) \<Longrightarrow> distinct (map fst (filter p xs))"
  by (simp add: distinct_map_filter)

lemma sk_keys_step: "sk_step s s' \<Longrightarrow> sk_keys s \<Longrightarrow> sk_keys s'"
  by (induction rule: sk_step.induct) (auto simp: sk_keys_def distinct_map_fst_filter)

lemma sk_origins_step: "sk_step s s' \<Longrightarrow> sk_origins s \<Longrightarrow> sk_origins s'"
  by (induction rule: sk_step.induct)
     (auto simp: sk_origins_def intro: mark_finalized_sets mark_finalized_keeps)

lemma sk_layout_step: "sk_step s s' \<Longrightarrow> sk_layout s \<Longrightarrow> sk_layout s'"
proof (induction rule: sk_step.induct)
  case (finalize i a k f s)
  then show ?case by (fastforce simp: sk_layout_def mark_finalized_def)
qed (auto simp: sk_layout_def)

lemma sk_refs_step: "sk_step s s' \<Longrightarrow> sk_refs s \<Longrightarrow> sk_refs s'"
proof (induction rule: sk_step.induct)
  case (job j s i a k)
  then show ?case by (auto simp: sk_refs_def)
next
  case (purge s i)
  then show ?case by (fastforce simp: sk_refs_def image_iff)
qed (auto simp: sk_refs_def)

lemma sk_inv_step: "sk_step s s' \<Longrightarrow> sk_inv s \<Longrightarrow> sk_inv s'"
  unfolding sk_inv_def
  using sk_keys_step sk_origins_step sk_layout_step sk_refs_step by blast

section \<open>The store refines the skeleton\<close>

lemmas key_defs = asset_key_def job_key_def rendition_key_of_def grant_key_def export_key_def upload_key_def

text \<open>Column updates that leave the keys alone are stuttering steps.\<close>

lemma touch_assets:
  assumes "\<And>r. asset_key (f r) = asset_key r"
  shows "abs_store (d\<lparr>db_assets := update_where p f (db_assets d)\<rparr>) = abs_store d"
  using assms by (simp add: abs_store_def map_update_where)

lemma touch_jobs:
  assumes "\<And>r. job_key (f r) = job_key r"
  shows "abs_store (d\<lparr>db_jobs := update_where p f (db_jobs d)\<rparr>) = abs_store d"
  using assms by (simp add: abs_store_def map_update_where)

lemma touch_grants:
  assumes "\<And>r. grant_key (f r) = grant_key r"
  shows "abs_store (d\<lparr>db_grants := update_where p f (db_grants d)\<rparr>) = abs_store d"
  using assms by (simp add: abs_store_def map_update_where)

lemma touch_exports:
  assumes "\<And>r. export_key (f r) = export_key r"
  shows "abs_store (d\<lparr>db_exports := update_where p f (db_exports d)\<rparr>) = abs_store d"
  using assms by (simp add: abs_store_def map_update_where)

lemma touch_uploads:
  assumes "\<And>r. upload_key (f r) = upload_key r"
  shows "abs_store (d\<lparr>db_uploads := update_where p f (db_uploads d)\<rparr>) = abs_store d"
  using assms by (simp add: abs_store_def map_update_where)

lemmas touch_simps = touch_assets touch_jobs touch_grants touch_exports touch_uploads

lemma abs_has_account: "has_account d a \<longleftrightarrow> a \<in> set (sk_accounts (abs_store d))"
  by (auto simp: has_account_def has_row_iff abs_store_def)

lemma abs_has_asset: "has_asset_id d i \<longleftrightarrow> i \<in> fst ` set (sk_assets (abs_store d))"
  by (auto simp: has_asset_id_def has_row_iff abs_store_def asset_key_def image_iff)

lemma abs_owned: "AssetOwnedBy d a i \<longleftrightarrow> (\<exists>k. (i, a, k) \<in> set (sk_assets (abs_store d)))"
  by (auto simp: AssetOwnedBy_def has_row_iff abs_store_def asset_key_def asset_is_def image_iff)

lemma abs_owned_has: "AssetOwnedBy d a i \<Longrightarrow> has_asset_id d i"
  by (force simp: abs_owned abs_has_asset)

lemma insert_job_refines:
  assumes "AssetOwnedBy d (jr_account r) (jr_asset r)" "insert_job d r = Inr (d', j)"
  shows "sk_step (abs_store d) (abs_store d')"
proof -
  have d': "d' = d\<lparr>db_jobs := insert_row r (db_jobs d)\<rparr>"
    and new: "jr_id r \<notin> fst ` set (sk_jobs (abs_store d))"
    using assms(2) by (auto simp: insert_job_def has_row_iff abs_store_def job_key_def split: if_splits)
  obtain k where "(jr_asset r, jr_account r, k) \<in> set (sk_assets (abs_store d))"
    using assms(1) by (auto simp: abs_owned)
  with new have "sk_step (abs_store d) (abs_store d\<lparr>sk_jobs := sk_jobs (abs_store d) @ [(jr_id r, jr_account r, jr_asset r)]\<rparr>)"
    by (rule sk_step.job)
  then show ?thesis by (simp add: d' abs_store_def insert_row_def job_key_def)
qed

lemma put_rendition_refines:
  assumes "has_asset_id d i" "rendition_key_of r = (i, n)" "\<And>x. rendition_key_of (f x) = rendition_key_of x"
  shows "sk_step (abs_store d) (abs_store (d\<lparr>db_renditions := upsert_row (rend_is i n) f r (db_renditions d)\<rparr>))"
proof (cases "has_row (rend_is i n) (db_renditions d)")
  case True
  then have "abs_store (d\<lparr>db_renditions := upsert_row (rend_is i n) f r (db_renditions d)\<rparr>) = abs_store d"
    using assms(3) by (simp add: abs_store_def upsert_row_def map_update_where)
  then show ?thesis by (simp add: sk_step.idle)
next
  case False
  then have "(i, n) \<notin> set (sk_renditions (abs_store d))"
    by (auto simp: has_row_iff abs_store_def rend_is_def rendition_key_of_def)
  moreover have "i \<in> fst ` set (sk_assets (abs_store d))" using assms(1) by (simp add: abs_has_asset)
  ultimately have "sk_step (abs_store d) (abs_store d\<lparr>sk_renditions := sk_renditions (abs_store d) @ [(i, n)]\<rparr>)"
    by (rule sk_step.rendition)
  then show ?thesis using False assms(2) by (simp add: abs_store_def upsert_row_def insert_row_def)
qed

lemma insert_if_absent_upsert: "insert_if_absent p r t = upsert_row p (\<lambda>x. x) r t"
  by (simp add: insert_if_absent_def upsert_row_def update_where_def)

lemma finalize_refines:
  assumes ok: "request_ok d A (R_FinalizeUpload i v)" and fin: "FinalizeUpload d now A i v = Inr (d', a)"
  shows "sk_step (abs_store d) (abs_store d')"
proof -
  let ?p = "\<lambda>r. uw_account r = A \<and> uw_id r = i"
  obtain u where u: "get_row ?p (db_uploads d) = Some u"
    using fin by (auto simp: FinalizeUpload_def Let_def split: option.splits)
  show ?thesis
  proof (cases "uw_finalized u = None")
    case False
    then have "d' = d" using fin u by (auto simp: FinalizeUpload_def Let_def split: if_splits sum.splits)
    then show ?thesis by (simp add: sk_step.idle)
  next
    case True
    have d': "d' = d\<lparr>db_assets := insert_row (asset_of_upload now A u v) (db_assets d),
        db_uploads := update_where ?p (finalize_row now) (db_uploads d)\<rparr>"
      and na: "\<not> has_asset_id d i" and ac: "has_account d A"
      using fin u True by (auto simp: FinalizeUpload_def Let_def split: if_splits sum.splits)
    have mem: "u \<in> set (db_uploads d)" "uw_account u = A" "uw_id u = i"
      using get_row_Some_iff [OF u] by auto
    then have ra: "uw_rasset u = None" using ok by auto
    have "(i, A, uw_key u, None, uw_finalized u \<noteq> None) \<in> set (sk_uploads (abs_store d))"
      using mem ra by (auto simp: abs_store_def upload_key_def image_iff intro!: bexI [of _ u])
    then have step: "sk_step (abs_store d) (abs_store d\<lparr>sk_assets := sk_assets (abs_store d) @ [(i, A, uw_key u)],
        sk_uploads := map (mark_finalized A i) (sk_uploads (abs_store d))\<rparr>)"
      using na ac by (intro sk_step.finalize) (auto simp: abs_has_asset abs_has_account)
    have "map upload_key (update_where ?p (finalize_row now) us) = map (mark_finalized A i \<circ> upload_key) us" for us
      by (auto simp: update_where_def upload_key_def mark_finalized_def finalize_row_def)
    then show ?thesis using step mem
      by (simp add: d' abs_store_def insert_row_def asset_of_upload_def asset_key_def)
  qed
qed

lemma create_upload_refines:
  assumes ok: "request_ok d A (R_CreateUpload u)" and c: "CreateUpload d now A u = Inr (d', x)"
  shows "sk_step (abs_store d) (abs_store d')"
proof -
  have new: "u_ID u \<notin> fst ` set (sk_uploads (abs_store d))" and ac: "A \<in> set (sk_accounts (abs_store d))"
    using c by (auto simp: CreateUpload_def has_row_iff abs_store_def upload_key_def
        abs_has_account [unfolded abs_store_def] split: if_splits)
  have na: "u_ID u \<notin> fst ` set (sk_assets (abs_store d))" using ok by (simp add: abs_has_asset)
  have k: "(nullStr (u_RenditionAsset u) = None \<and> u_Key u = VaultKey A (u_ID u))
      \<or> (\<exists>b n. nullStr (u_RenditionAsset u) = Some b \<and> u_Key u = StagingKey A b n)"
    using ok by (auto simp: nullStr_def)
  show ?thesis
    using sk_step.upload [OF new na ac k] c
    by (auto simp: CreateUpload_def abs_store_def insert_row_def upload_key_def split: if_splits)
qed

lemma enqueue_refines:
  assumes "AssetOwnedBy d A i" "EnqueueJob d now jid A i n = Inr (d', j)"
  shows "sk_step (abs_store d) (abs_store d')"
  using assms insert_job_refines [of d "queued_row now jid A i n Derive None" d' j]
  by (auto simp: EnqueueJob_def queued_row_def sk_step.idle split: option.splits if_splits)

lemma enqueue_remux_refines:
  assumes "AssetOwnedBy d A i" "EnqueueRemuxJob d now jid A i n src = Inr (d', j)"
  shows "sk_step (abs_store d) (abs_store d')"
  using assms insert_job_refines [of d "queued_row now jid A i n Remux (Some src)" d' j]
  by (auto simp: EnqueueRemuxJob_def queued_row_def sk_step.idle touch_jobs repoint_def job_key_def
      split: option.splits if_splits)

lemma grant_refines:
  assumes "CreateGrant d now g A req = Inr (d', x)"
  shows "sk_step (abs_store d) (abs_store d')"
proof -
  have new: "g \<notin> fst ` set (sk_grants (abs_store d))" and ac: "A \<in> set (sk_accounts (abs_store d))"
    using assms by (auto simp: CreateGrant_def Let_def has_row_iff abs_store_def grant_key_def
        abs_has_account [unfolded abs_store_def] split: if_splits sum.splits)
  show ?thesis using sk_step.grant [OF new ac] assms
    by (auto simp: CreateGrant_def Let_def abs_store_def insert_row_def grant_key_def split: if_splits sum.splits)
qed

lemma export_refines:
  assumes "CreateExport d now g A req = Inr (d', x)"
  shows "sk_step (abs_store d) (abs_store d')"
proof -
  have new: "g \<notin> fst ` set (sk_exports (abs_store d))" and ac: "A \<in> set (sk_accounts (abs_store d))"
    using assms by (auto simp: CreateExport_def Let_def has_row_iff abs_store_def export_key_def
        abs_has_account [unfolded abs_store_def] split: if_splits sum.splits)
  show ?thesis using sk_step.export [OF new ac] assms
    by (auto simp: CreateExport_def Let_def abs_store_def insert_row_def export_key_def split: if_splits sum.splits)
qed

lemma accounts_refine:
  assumes "cw_id r = a" "\<And>x. cw_id (f x) = cw_id x"
  shows "sk_step (abs_store d) (abs_store (d\<lparr>db_accounts := upsert_row (\<lambda>r. cw_id r = a) f r (db_accounts d)\<rparr>))"
proof (cases "has_account d a")
  case True
  then show ?thesis using assms(2) sk_step.idle
    by (simp add: has_account_def upsert_row_def abs_store_def map_update_where)
next
  case False
  then have "a \<notin> set (sk_accounts (abs_store d))" by (simp add: abs_has_account)
  then have "sk_step (abs_store d) (abs_store d\<lparr>sk_accounts := sk_accounts (abs_store d) @ [a]\<rparr>)"
    by (rule sk_step.account)
  then show ?thesis using False assms(1)
    by (simp add: has_account_def upsert_row_def insert_row_def abs_store_def)
qed

theorem request_refines:
  assumes ok: "request_ok d A r"
  shows "sk_step (abs_store d) (abs_store (run_request now A r d))"
proof (cases r)
  case (R_MarkAssetDeleted i)
  then show ?thesis
    by (auto simp: MarkAssetDeleted_def Let_def commit_def touch_simps set_deleted_def key_defs sk_step.idle
        split: sum.splits)
next
  case (R_RevokeGrant i)
  then show ?thesis
    by (auto simp: RevokeGrant_def Let_def commit_def touch_simps revoke_grant_row_def key_defs sk_step.idle
        split: sum.splits)
next
  case (R_RevokeExport i)
  then show ?thesis
    by (auto simp: RevokeExport_def Let_def commit_def touch_simps revoke_export_row_def key_defs sk_step.idle
        split: sum.splits)
next
  case (R_CreateGrant g req)
  then show ?thesis using grant_refines sk_step.idle by (auto simp: commit_def split: sum.splits)
next
  case (R_CreateExport g req)
  then show ?thesis using export_refines sk_step.idle by (auto simp: commit_def split: sum.splits)
next
  case R_ProvisionAccount
  let ?r = "\<lparr>cw_id = A, cw_bucket = [], cw_prefix = [], cw_created = now\<rparr>"
  have "sk_step (abs_store d)
      (abs_store (d\<lparr>db_accounts := insert_if_absent (\<lambda>r. cw_id r = A) ?r (db_accounts d)\<rparr>))"
    unfolding insert_if_absent_upsert by (rule accounts_refine) simp_all
  then show ?thesis using R_ProvisionAccount sk_step.idle [of "abs_store d"]
    by (auto simp: ProvisionAccount_def Let_def commit_def split: sum.splits option.splits)
next
  case (R_CreateUpload u)
  then show ?thesis using ok create_upload_refines [of d A u now] sk_step.idle
    by (auto simp: commit_def split: sum.splits simp del: request_ok.simps)
next
  case (R_FinalizeUpload i v)
  then show ?thesis using ok finalize_refines [of d A i v now] sk_step.idle
    by (auto simp: commit_def split: sum.splits simp del: request_ok.simps)
next
  case (R_EnqueueJob jid i n)
  then show ?thesis using ok enqueue_refines sk_step.idle by (auto simp: commit_def split: sum.splits)
next
  case (R_EnqueueRemuxJob jid i n src)
  then show ?thesis using ok enqueue_remux_refines sk_step.idle by (auto simp: commit_def split: sum.splits)
next
  case (R_MarkNotDerived i n)
  have "sk_step (abs_store d) (abs_store (d\<lparr>db_renditions := upsert_row (rend_is i n) (\<lambda>x. x)
      (bare_rendition i n RS_NotDerived None) (db_renditions d)\<rparr>))"
    using ok R_MarkNotDerived
    by (intro put_rendition_refines) (auto simp: abs_owned_has bare_rendition_def rendition_key_of_def)
  then show ?thesis using R_MarkNotDerived sk_step.idle
    by (auto simp: commit_def MarkNotDerived_def insert_if_absent_upsert split: sum.splits)
qed

lemma complete_refines:
  assumes "sk_inv (abs_store d)" "CompleteJob d now j c = Inr (d', x)"
  shows "sk_step (abs_store d) (abs_store d')"
proof -
  obtain r where r: "get_row (\<lambda>r. jr_id r = j \<and> jr_status r = JobRunning) (db_jobs d) = Some r"
    using assms(2) by (auto simp: CompleteJob_def split: option.splits)
  have "job_key r \<in> set (sk_jobs (abs_store d))"
    using get_row_Some_iff [OF r] by (simp add: abs_store_def)
  moreover have "sk_refs (abs_store d)" using assms(1) by (simp add: sk_inv_def)
  ultimately obtain k where "(jr_asset r, jr_account r, k) \<in> set (sk_assets (abs_store d))"
    unfolding sk_refs_def job_key_def by blast
  then have i: "has_asset_id d (jr_asset r)" unfolding abs_has_asset by (rule rev_image_eqI) simp
  let ?f = "\<lambda>x. x\<lparr>rr_status := RS_Ready, rr_width := rc_Width c, rr_height := rc_Height c,
      rr_dur := rc_DurationS c, rr_audio := rc_HasAudio c, rr_key := Some (rc_Key c),
      rr_mode := Some (rc_Mode c), rr_reason := None\<rparr>"
  have "sk_step (abs_store d) (abs_store (d\<lparr>db_renditions := upsert_row (rend_is (jr_asset r) (jr_intent r)) ?f
      (ready_row (jr_asset r) (jr_intent r) c) (db_renditions d)\<rparr>))"
    using i by (rule put_rendition_refines) (simp_all add: ready_row_def rendition_key_of_def)
  moreover have "map job_key (update_where p (succeed_row now) t) = map job_key t" for p t
    by (rule map_update_where) (simp add: succeed_row_def job_key_def)
  ultimately show ?thesis using assms(2) r
    by (auto simp: CompleteJob_def abs_store_def)
qed

lemma ceiling_refines:
  assumes "FailedRenditionForCeiling d i n reason = Inr (d', x)"
  shows "sk_step (abs_store d) (abs_store d')"
proof -
  let ?r = "bare_rendition i n RS_Failed (Some reason)"
  let ?f = "\<lambda>x. x\<lparr>rr_status := RS_Failed, rr_reason := Some reason\<rparr>"
  have "has_asset_id d i" and d': "d' = d\<lparr>db_renditions := upsert_row (rend_is i n) ?f ?r (db_renditions d)\<rparr>"
    using assms by (auto simp: FailedRenditionForCeiling_def split: if_splits)
  then show ?thesis unfolding d'
    by (intro put_rendition_refines) (auto simp: bare_rendition_def rendition_key_of_def)
qed

lemma purge_refines:
  assumes "sk_keys (abs_store d)"
  shows "sk_step (abs_store d) (abs_store (PurgeDeletedAsset d i))"
proof (cases "has_row (\<lambda>r. ar_id r = i \<and> ar_deleted r \<noteq> None) (db_assets d)")
  case False
  then show ?thesis by (simp add: PurgeDeletedAsset_def sk_step.idle)
next
  case True
  then obtain r where r: "r \<in> set (db_assets d)" "ar_id r = i" "ar_deleted r \<noteq> None"
    by (auto simp: has_row_iff)
  have "map fst (sk_assets (abs_store d)) = map ar_id (db_assets d)"
    by (simp add: abs_store_def asset_key_def comp_def)
  then have "distinct (map ar_id (db_assets d))" using assms by (simp add: sk_keys_def)
  then have all: "ar_deleted x \<noteq> None" if "x \<in> set (db_assets d)" "ar_id x = i" for x
    using that r by (metis distinct_map inj_onD)
  have del: "delete_where (\<lambda>r. ar_id r = i \<and> ar_deleted r \<noteq> None) (db_assets d)
      = delete_where (\<lambda>r. ar_id r = i) (db_assets d)"
    unfolding delete_where_def by (intro filter_cong refl) (use all in blast)
  have "map asset_key (delete_where (\<lambda>r. ar_id r = i) t) = filter (\<lambda>(j, _). j \<noteq> i) (map asset_key t)" for t
    by (induction t) (auto simp: delete_where_def asset_key_def)
  moreover have "map rendition_key_of (delete_where (\<lambda>r. rr_asset r = i) t)
      = filter (\<lambda>(j, _). j \<noteq> i) (map rendition_key_of t)" for t
    by (induction t) (auto simp: delete_where_def rendition_key_of_def)
  moreover have "map job_key (delete_where (\<lambda>r. jr_asset r = i) t) = filter (\<lambda>(_, _, j). j \<noteq> i) (map job_key t)" for t
    by (induction t) (auto simp: delete_where_def job_key_def)
  ultimately have "abs_store (PurgeDeletedAsset d i) = abs_store d
     \<lparr>sk_assets := filter (\<lambda>(j, _). j \<noteq> i) (sk_assets (abs_store d)),
      sk_renditions := filter (\<lambda>(j, _). j \<noteq> i) (sk_renditions (abs_store d)),
      sk_jobs := filter (\<lambda>(_, _, j). j \<noteq> i) (sk_jobs (abs_store d))\<rparr>"
    using True del by (simp add: PurgeDeletedAsset_def abs_store_def)
  then show ?thesis by (simp only: sk_step.purge)
qed

theorem worker_refines:
  assumes inv: "sk_inv (abs_store d)"
  shows "sk_step (abs_store d) (abs_store (run_worker now w d))"
proof (cases w)
  case (W_Complete j c)
  then show ?thesis using complete_refines [OF inv] sk_step.idle by (auto simp: commit_def split: sum.splits)
next
  case (W_Ceiling i n reason)
  then show ?thesis using ceiling_refines sk_step.idle by (auto simp: commit_def split: sum.splits)
next
  case (W_Purge i)
  then show ?thesis using purge_refines inv by (simp add: sk_inv_def)
next
  case (W_Beat wid ver s)
  then show ?thesis by (simp add: UpsertWorkerHeartbeat_def abs_store_def sk_step.idle)
qed (auto simp: ClaimNextJob_def Heartbeat_def CompleteJobNoRendition_def FailJob_def BackfillVaultProbe_def
      MarkProbeFailed_def ClaimChecksumCandidate_def ReleaseChecksumClaim_def MarkChecksumVerified_def
      MarkUploadSwept_def Let_def commit_def touch_simps key_defs claim_row_def beat_row_def succeed_row_def
      requeue_row_def fail_row_def backfill_row_def set_checksum_def sk_step.idle
      split: option.splits sum.splits)

lemma operator_refines: "sk_step (abs_store d) (abs_store (CreateAccount d now a b p))"
  unfolding CreateAccount_def by (rule accounts_refine) simp_all

lemma store_step_refines: "store_step d d' \<Longrightarrow> sk_inv (abs_store d) \<Longrightarrow> sk_step (abs_store d) (abs_store d')"
  by (induction rule: store_step.induct)
     (auto intro: request_refines worker_refines operator_refines simp del: run_request.simps request_ok.simps run_worker.simps)

lemma reachable_inv: "reachable d \<Longrightarrow> sk_inv (abs_store d)"
proof (induction rule: reachable.induct)
  case init
  then show ?case
    by (simp add: abs_store_def empty_db_def sk_inv_def sk_keys_def sk_origins_def sk_layout_def sk_refs_def)
next
  case (step d d')
  then show ?case using store_step_refines sk_inv_step by blast
qed

section \<open>What the invariant says of the tables\<close>

lemma inv_keys: "sk_keys (abs_store d) \<longleftrightarrow> keys_ok d"
  unfolding keys_ok_def rendition_key_of_def [symmetric]
  by (simp add: sk_keys_def abs_store_def asset_key_def job_key_def grant_key_def export_key_def
      upload_key_def comp_def)

lemma reachable_keys: "reachable d \<Longrightarrow> keys_ok d"
  using reachable_inv inv_keys by (simp add: sk_inv_def)

lemma reachable_asset_upload:
  assumes "reachable d" "a \<in> set (db_assets d)"
  shows "\<exists>u \<in> set (db_uploads d). own_upload (ar_account a) (ar_id a) u \<and> uw_finalized u \<noteq> None
    \<and> uw_key u = ar_vault_key a"
proof -
  have "sk_origins (abs_store d)" using reachable_inv [OF assms(1)] by (simp add: sk_inv_def)
  moreover have "asset_key a \<in> set (sk_assets (abs_store d))" using assms(2) by (simp add: abs_store_def)
  ultimately have "(ar_id a, ar_account a, ar_vault_key a, None, True) \<in> set (sk_uploads (abs_store d))"
    unfolding sk_origins_def asset_key_def by blast
  then show ?thesis by (auto simp: abs_store_def upload_key_def own_upload_def)
qed

lemma reachable_upload_key:
  assumes "reachable d" "u \<in> set (db_uploads d)"
  shows "case uw_rasset u of None \<Rightarrow> uw_key u = VaultKey (uw_account u) (uw_id u)
    | Some b \<Rightarrow> \<exists>n. uw_key u = StagingKey (uw_account u) b n"
proof -
  have "sk_layout (abs_store d)" using reachable_inv [OF assms(1)] by (simp add: sk_inv_def)
  moreover have "upload_key u \<in> set (sk_uploads (abs_store d))" using assms(2) by (simp add: abs_store_def)
  ultimately show ?thesis unfolding sk_layout_def upload_key_def by blast
qed

lemma reachable_vault_key:
  assumes "reachable d" "a \<in> set (db_assets d)"
  shows "ar_vault_key a = VaultKey (ar_account a) (ar_id a)"
  using reachable_asset_upload [OF assms] reachable_upload_key [OF assms(1)]
  by (force simp: own_upload_def)

lemma reachable_origins: "reachable d \<Longrightarrow> origins_ok d"
  unfolding origins_ok_def
proof (intro ballI impI)
  fix a u assume d: "reachable d" and a: "a \<in> set (db_assets d)" and u: "u \<in> set (db_uploads d)"
    and eq: "uw_id u = ar_id a"
  obtain v where v: "v \<in> set (db_uploads d)" "own_upload (ar_account a) (ar_id a) v"
    using reachable_asset_upload [OF d a] by blast
  have "distinct (map uw_id (db_uploads d))" using reachable_keys [OF d] by (simp add: keys_ok_def)
  then have "u = v" using u v eq by (auto simp: own_upload_def dest: distinct_key_eq)
  then show "uw_account u = ar_account a" using v by (simp add: own_upload_def)
qed

lemma reachable_job_asset:
  assumes "reachable d" "j \<in> set (db_jobs d)"
  shows "\<exists>a \<in> set (db_assets d). asset_is (jr_account j) (jr_asset j) a"
proof -
  have "sk_refs (abs_store d)" using reachable_inv [OF assms(1)] by (simp add: sk_inv_def)
  moreover have "job_key j \<in> set (sk_jobs (abs_store d))" using assms(2) by (simp add: abs_store_def)
  ultimately obtain k where "(jr_asset j, jr_account j, k) \<in> set (sk_assets (abs_store d))"
    unfolding sk_refs_def job_key_def by blast
  then show ?thesis by (auto simp: abs_store_def asset_key_def asset_is_def)
qed

lemma get_asset_row:
  assumes "keys_ok d" "a \<in> set (db_assets d)"
  shows "get_row (asset_is (ar_account a) (ar_id a)) (db_assets d) = Some a"
  by (rule get_row_by_key [of ar_id]) (use assms in \<open>simp_all add: keys_ok_def asset_is_def\<close>)

section \<open>A small concrete database\<close>

text \<open>One account, one uploaded and finalized image: used to show that hypotheses can hold.\<close>

definition demo_upload :: upload where
  "demo_upload = \<lparr>u_ID = ''A1'', u_Account = ''alice'', u_Key = VaultKey ''alice'' ''A1'',
     u_ContentType = ''image/png'', u_SizeBytes = 10, u_Filename = [], u_SkipDerivations = False,
     u_RenditionAsset = [], u_RenditionIntent = [], u_SweptAt = None\<rparr>"

definition demo_vault :: vault_record where
  "demo_vault = \<lparr>vr_Kind = Image, vr_Checksum = [], vr_SizeBytes = 10, vr_Width = None, vr_Height = None,
     vr_DurationS = None, vr_Codec = None, vr_Container = None, vr_ProbeStatus = [], vr_ChecksumVerified = False\<rparr>"

definition demo_db0 :: db where
  "demo_db0 = CreateAccount (CreateAccount empty_db 10 ''alice'' [] []) 11 ''bob'' [] []"

definition demo_db1 :: db where
  "demo_db1 = run_request 20 ''alice'' (R_CreateUpload demo_upload) demo_db0"

definition demo_db :: db where
  "demo_db = run_request 30 ''alice'' (R_FinalizeUpload ''A1'' demo_vault) demo_db1"

lemma demo_db0_eval: "demo_db0 = empty_db\<lparr>db_accounts :=
    [\<lparr>cw_id = ''alice'', cw_bucket = [], cw_prefix = [], cw_created = 10\<rparr>,
     \<lparr>cw_id = ''bob'', cw_bucket = [], cw_prefix = [], cw_created = 11\<rparr>]\<rparr>"
  by (simp add: demo_db0_def CreateAccount_def empty_db_def table_defs)

lemma demo_db1_eval: "demo_db1 = demo_db0\<lparr>db_uploads :=
    [\<lparr>uw_id = ''A1'', uw_account = ''alice'', uw_key = VaultKey ''alice'' ''A1'', uw_ctype = ''image/png'',
      uw_size = 10, uw_filename = None, uw_created = 20, uw_finalized = None, uw_swept = None, uw_skip = False,
      uw_rasset = None, uw_rintent = None\<rparr>]\<rparr>"
  by (simp add: demo_db1_def demo_db0_eval CreateUpload_def empty_db_def table_defs has_account_def
      demo_upload_def nullStr_def)

definition demo_asset :: asset_row where
  "demo_asset = \<lparr>ar_id = ''A1'', ar_account = ''alice'', ar_kind = Image, ar_filename = None,
      ar_vault_key = VaultKey ''alice'' ''A1'', ar_checksum = [], ar_size = 10, ar_width = None,
      ar_height = None, ar_dur = None, ar_codec = None, ar_container = None, ar_created = 30,
      ar_deleted = None, ar_probe = ''ready'', ar_verified = False, ar_checked_at = None\<rparr>"

lemma demo_db_eval: "demo_db = demo_db0\<lparr>
    db_assets := [demo_asset],
    db_uploads :=
    [\<lparr>uw_id = ''A1'', uw_account = ''alice'', uw_key = VaultKey ''alice'' ''A1'', uw_ctype = ''image/png'',
      uw_size = 10, uw_filename = None, uw_created = 20, uw_finalized = Some 30, uw_swept = None, uw_skip = False,
      uw_rasset = None, uw_rintent = None\<rparr>]\<rparr>"
  by (simp add: demo_db_def demo_db1_eval demo_db0_eval FinalizeUpload_def empty_db_def table_defs
      has_account_def has_asset_id_def asset_of_upload_def demo_vault_def finalize_row_def getAssetTx_def
      asset_is_def demo_asset_def Let_def)

lemma demo_reachable0: "reachable demo_db0"
  unfolding demo_db0_def
  by (rule reachable.step [OF reachable.step [OF reachable.init store_step.operator] store_step.operator])

lemma demo_reachable1: "reachable demo_db1"
  unfolding demo_db1_def
  by (rule reachable.step [OF demo_reachable0 store_step.request])
     (simp add: demo_db0_eval empty_db_def demo_upload_def has_asset_id_def table_defs)

lemma demo_step: "store_step demo_db1 demo_db"
  unfolding demo_db_def by (rule store_step.request) (simp add: demo_db1_eval)

lemma demo_reachable: "reachable demo_db"
  by (rule reachable.step [OF demo_reachable1 demo_step])

end
