(* ===== verification/Tenant.thy ===== *)
theory Tenant
  imports Store_Machine
begin

text \<open>
  Account isolation of the store. The view of an account is what the database holds of it; the
  store's account-scoped reads depend on the view alone, and an account-scoped write of another
  account leaves it as it is. Every method of the \<open>Store\<close> interface that takes an account is a
  constructor of \<open>query\<close> or \<open>request\<close>.
\<close>

section \<open>The view of an account\<close>

definition owned_ids :: "string \<Rightarrow> db \<Rightarrow> string set" where
  "owned_ids A d = ar_id ` {r \<in> set (db_assets d). ar_account r = A}"

definition tenant_view :: "string \<Rightarrow> db \<Rightarrow> db" where
  "tenant_view A d =
     \<lparr>db_accounts = filter (\<lambda>r. cw_id r = A) (db_accounts d),
      db_assets = filter (\<lambda>r. ar_account r = A) (db_assets d),
      db_renditions = filter (\<lambda>r. rr_asset r \<in> owned_ids A d) (db_renditions d),
      db_jobs = filter (\<lambda>r. jr_account r = A) (db_jobs d),
      db_grants = filter (\<lambda>r. gw_account r = A) (db_grants d),
      db_exports = filter (\<lambda>r. xw_account r = A) (db_exports d),
      db_uploads = filter (\<lambda>r. uw_account r = A) (db_uploads d),
      db_heartbeats = []\<rparr>"

section \<open>Queries\<close>

datatype query =
  Q_GetAsset string | Q_ListAssets string int | Q_GetJob string | Q_GetGrant string
| Q_GetExport string | Q_GetUpload string | Q_AssetOwnedBy string | Q_AssetPurged string
| Q_Classify "string list"

datatype answer =
  A_Asset "store_error + asset" | A_Page asset_page | A_Job "store_error + job"
| A_Grant "store_error + grant" | A_Export "store_error + export"
| A_Upload "store_error + upload" | A_Bool bool | A_Classes "(string \<times> asset_class) list"

fun run_query :: "db \<Rightarrow> string \<Rightarrow> query \<Rightarrow> answer" where
  "run_query d A (Q_GetAsset i) = A_Asset (GetAsset d A i)"
| "run_query d A (Q_ListAssets c l) = A_Page (ListAssets d A c l)"
| "run_query d A (Q_GetJob i) = A_Job (GetJob d A i)"
| "run_query d A (Q_GetGrant i) = A_Grant (GetGrant d A i)"
| "run_query d A (Q_GetExport i) = A_Export (GetExport d A i)"
| "run_query d A (Q_GetUpload i) = A_Upload (GetUpload d A i)"
| "run_query d A (Q_AssetOwnedBy i) = A_Bool (AssetOwnedBy d A i)"
| "run_query d A (Q_AssetPurged i) = A_Bool (AssetPurged d A i)"
| "run_query d A (Q_Classify ids) = A_Classes (classifyAssetSet d A ids)"

section \<open>Reads depend on the view alone\<close>

lemma asset_row_view:
  "get_row (asset_is A i) (db_assets (tenant_view A d)) = get_row (asset_is A i) (db_assets d)"
  unfolding tenant_view_def by simp (rule get_row_cong_filter, simp add: asset_is_def)

lemma content_type_view:
  "ar_account r = A \<Longrightarrow> content_type_of (tenant_view A d) r = content_type_of d r"
proof -
  assume r: "ar_account r = A"
  have "get_row (own_upload A i) (filter (\<lambda>u. uw_account u = A) t) = get_row (own_upload A i) t" for i t
    by (rule get_row_cong_filter) (simp add: own_upload_def)
  with r show ?thesis by (simp add: content_type_of_def tenant_view_def)
qed

lemma renditions_view:
  "i \<in> owned_ids A d \<Longrightarrow> renditionsFor (tenant_view A d) i = renditionsFor d i"
proof -
  assume "i \<in> owned_ids A d"
  then have f: "filter (\<lambda>r. rr_asset r \<in> owned_ids A d \<and> rr_asset r = i) xs
      = filter (\<lambda>r. rr_asset r = i) xs" for xs
    by (induction xs) auto
  show ?thesis by (simp add: renditionsFor_def tenant_view_def f)
qed

lemma scan_row_view: "ar_account r = A \<Longrightarrow> scanAssetRow (tenant_view A d) r = scanAssetRow d r"
  by (simp add: scanAssetRow_def content_type_view)

lemma get_asset_view: "GetAsset (tenant_view A d) A i = GetAsset d A i"
proof (cases "get_row (asset_is A i) (db_assets d)")
  case None
  then show ?thesis by (simp add: GetAsset_def asset_row_view scanAsset_def)
next
  case (Some r)
  then have r: "ar_account r = A" "ar_id r \<in> owned_ids A d"
    by (auto dest!: get_row_Some_iff simp: asset_is_def owned_ids_def)
  then show ?thesis
    using Some by (simp add: GetAsset_def asset_row_view scanAsset_def scan_row_view)
      (simp add: scanAssetRow_def renditions_view)
qed

lemma list_assets_view: "ListAssets (tenant_view A d) A c l = ListAssets d A c l"
proof -
  let ?p = "\<lambda>r. ar_account r = A \<and> (c = [] \<or> ar_id r > c)"
  have f: "filter ?p (db_assets (tenant_view A d)) = filter ?p (db_assets d)"
    by (simp add: tenant_view_def conj_commute)
  define rows where "rows n = take n (sort_key ar_id (filter ?p (db_assets d)))" for n
  have own: "ar_account r = A \<and> ar_id r \<in> owned_ids A d" if "r \<in> set (rows n)" for r n
    using that by (auto simp: rows_def owned_ids_def dest: in_set_takeD)
  have m: "map (scanAssetRow (tenant_view A d)) (rows n) = map (scanAssetRow d) (rows n)" for n
    using own by (auto simp: scan_row_view)
  have id: "asset_Id (scanAssetRow d r) = ar_id r" for r by (simp add: scanAssetRow_def)
  have "renditionsFor (tenant_view A d) (asset_Id a) = renditionsFor d (asset_Id a)"
    if "a \<in> set (map (scanAssetRow d) (rows n))" for a n
    using that own id renditions_view by fastforce
  then have items: "map (\<lambda>a. a\<lparr>asset_Renditions := renditionsFor (tenant_view A d) (asset_Id a)\<rparr>)
        (if b then take k (map (scanAssetRow d) (rows n)) else map (scanAssetRow d) (rows n))
      = map (\<lambda>a. a\<lparr>asset_Renditions := renditionsFor d (asset_Id a)\<rparr>)
        (if b then take k (map (scanAssetRow d) (rows n)) else map (scanAssetRow d) (rows n))" for b k n
    by (intro map_cong refl) (auto split: if_splits dest!: in_set_takeD)
  show ?thesis
    unfolding ListAssets_def Let_def f rows_def [symmetric] m items ..
qed

lemma purged_view:
  assumes "origins_ok d"
  shows "AssetPurged (tenant_view A d) A i = AssetPurged d A i"
proof -
  let ?u = "\<lambda>u. uw_account u = A \<and> uw_id u = i \<and> uw_finalized u \<noteq> None \<and> uw_rasset u = None"
  have u: "has_row ?u (db_uploads (tenant_view A d)) = has_row ?u (db_uploads d)"
    unfolding tenant_view_def by (simp only: db.simps) (rule has_row_cong_filter, simp)
  have "has_asset_id (tenant_view A d) i = has_asset_id d i" if "has_row ?u (db_uploads d)"
    using that assms
    by (auto simp: has_asset_id_def has_row_iff tenant_view_def origins_ok_def)
  then show ?thesis unfolding AssetPurged_def u by blast
qed

lemma classify_view: "origins_ok d \<Longrightarrow> classify (tenant_view A d) A i = classify d A i"
  by (simp add: classify_def asset_row_view purged_view)

lemma query_view: "origins_ok d \<Longrightarrow> run_query (tenant_view A d) A q = run_query d A q"
proof (cases q)
  case (Q_GetJob i)
  then show ?thesis by (simp add: GetJob_def tenant_view_def jobs_repointed.scoped_get_from_view)
next
  case (Q_GetGrant i)
  then show ?thesis by (simp add: GetGrant_def tenant_view_def grants_revoked.scoped_get_from_view)
next
  case (Q_GetExport i)
  then show ?thesis by (simp add: GetExport_def tenant_view_def exports_revoked.scoped_get_from_view)
next
  case (Q_GetUpload i)
  then show ?thesis by (simp add: GetUpload_def tenant_view_def uploads_finalized.scoped_get_from_view)
next
  case (Q_AssetOwnedBy i)
  have "has_row (asset_is A i) (filter (\<lambda>r. ar_account r = A) t) = has_row (asset_is A i) t" for t
    by (rule has_row_cong_filter) (simp add: asset_is_def)
  then show ?thesis using Q_AssetOwnedBy by (simp add: AssetOwnedBy_def tenant_view_def)
qed (simp_all add: get_asset_view list_assets_view purged_view classify_view classifyAssetSet_def)

section \<open>Writes keep the views of other accounts\<close>

lemma tenant_view_eqI:
  assumes "filter (\<lambda>r. cw_id r = A) (db_accounts d') = filter (\<lambda>r. cw_id r = A) (db_accounts d)"
    "filter (\<lambda>r. ar_account r = A) (db_assets d') = filter (\<lambda>r. ar_account r = A) (db_assets d)"
    "filter (\<lambda>r. rr_asset r \<in> owned_ids A d) (db_renditions d')
       = filter (\<lambda>r. rr_asset r \<in> owned_ids A d) (db_renditions d)"
    "filter (\<lambda>r. jr_account r = A) (db_jobs d') = filter (\<lambda>r. jr_account r = A) (db_jobs d)"
    "filter (\<lambda>r. gw_account r = A) (db_grants d') = filter (\<lambda>r. gw_account r = A) (db_grants d)"
    "filter (\<lambda>r. xw_account r = A) (db_exports d') = filter (\<lambda>r. xw_account r = A) (db_exports d)"
    "filter (\<lambda>r. uw_account r = A) (db_uploads d') = filter (\<lambda>r. uw_account r = A) (db_uploads d)"
  shows "tenant_view A d' = tenant_view A d"
proof -
  have "owned_ids A x = ar_id ` set (filter (\<lambda>r. ar_account r = A) (db_assets x))" for x
    by (simp add: owned_ids_def)
  then have "owned_ids A d' = owned_ids A d" by (simp only: assms(2))
  then show ?thesis using assms by (simp add: tenant_view_def)
qed

lemma insert_job_view:
  "jr_account r = B \<Longrightarrow> B \<noteq> A \<Longrightarrow> insert_job d r = Inr (d', j) \<Longrightarrow> tenant_view A d' = tenant_view A d"
  by (rule tenant_view_eqI) (auto simp: insert_job_def filter_insert_row_other split: if_splits)

lemma enqueue_view:
  assumes "B \<noteq> A" "EnqueueJob d now jid B i n = Inr (d', j)"
  shows "tenant_view A d' = tenant_view A d"
  using assms insert_job_view [of "queued_row now jid B i n Derive None" B A d d' j]
  by (auto simp: EnqueueJob_def queued_row_def split: option.splits if_splits)

lemma enqueue_remux_view:
  assumes "keys_ok d" "B \<noteq> A" "EnqueueRemuxJob d now jid B i n src = Inr (d', j)"
  shows "tenant_view A d' = tenant_view A d"
proof (cases "\<exists>r. latest_job d B i n = Some r \<and> jr_status r \<noteq> JobFailed")
  case True
  then obtain r where r: "latest_job d B i n = Some r" "jr_status r \<noteq> JobFailed" by blast
  have same: "x = r" if "x \<in> set (db_jobs d)" "jr_id x = jr_id r" for x
    using that assms(1) latest_job_Some [OF r(1)] distinct_key_eq [of jr_id "db_jobs d" x r]
    by (simp add: keys_ok_def)
  have "jr_account r = B" using latest_job_Some [OF r(1)] by simp
  then have "filter (\<lambda>x. jr_account x = A) (update_where (\<lambda>x. jr_id x = jr_id r) (repoint now src) (db_jobs d))
      = filter (\<lambda>x. jr_account x = A) (db_jobs d)"
    using assms(2) same by (intro filter_update_where_other) (auto simp: jobs_repointed.touch_owner)
  then show ?thesis using assms r by (intro tenant_view_eqI) (auto simp: EnqueueRemuxJob_def)
next
  case False
  then have "insert_job d (queued_row now jid B i n Remux (Some src)) = Inr (d', j)"
    using assms(3) by (auto simp: EnqueueRemuxJob_def split: option.splits if_splits)
  then show ?thesis
    using assms(2) insert_job_view [of "queued_row now jid B i n Remux (Some src)" B A d d' j]
    by (simp add: queued_row_def)
qed

lemma finalize_view:
  assumes "B \<noteq> A" "FinalizeUpload d now B i v = Inr (d', a)"
  shows "tenant_view A d' = tenant_view A d"
  using assms
  by (intro tenant_view_eqI)
     (auto simp: FinalizeUpload_def Let_def asset_of_upload_def filter_insert_row_other
        uploads_finalized.scoped_update_keeps_others split: option.splits if_splits sum.splits)

lemma not_derived_view:
  assumes "keys_ok d" "B \<noteq> A" "AssetOwnedBy d B i" "MarkNotDerived d i n = Inr (d', x)"
  shows "tenant_view A d' = tenant_view A d"
proof -
  obtain b where b: "b \<in> set (db_assets d)" "ar_account b = B" "ar_id b = i"
    using assms(3) by (auto simp: AssetOwnedBy_def has_row_iff asset_is_def)
  have dist: "distinct (map ar_id (db_assets d))" using assms(1) by (simp add: keys_ok_def)
  have "i \<notin> owned_ids A d"
  proof
    assume "i \<in> owned_ids A d"
    then obtain a where a: "a \<in> set (db_assets d)" "ar_account a = A" "ar_id a = i"
      by (auto simp: owned_ids_def)
    then have "a = b" using distinct_key_eq [OF dist a(1) b(1)] b(3) by simp
    then show False using a b assms(2) by simp
  qed
  then have "filter (\<lambda>r. rr_asset r \<in> owned_ids A d)
      (insert_if_absent (rend_is i n) (bare_rendition i n RS_NotDerived None) (db_renditions d))
     = filter (\<lambda>r. rr_asset r \<in> owned_ids A d) (db_renditions d)"
    by (intro filter_insert_if_absent_other) (simp add: bare_rendition_def)
  moreover have "d' = d\<lparr>db_renditions := insert_if_absent (rend_is i n)
      (bare_rendition i n RS_NotDerived None) (db_renditions d)\<rparr>"
    using assms(4) by (auto simp: MarkNotDerived_def split: if_splits)
  ultimately show ?thesis by (intro tenant_view_eqI) simp_all
qed

lemma other_request_view:
  assumes "keys_ok d" "B \<noteq> A" "request_ok d B r"
  shows "tenant_view A (run_request now B r d) = tenant_view A d"
proof (cases r)
  case (R_MarkAssetDeleted i)
  have "filter (\<lambda>r. ar_account r = A) (update_where (asset_is B i) (set_deleted now) (db_assets d))
      = filter (\<lambda>r. ar_account r = A) (db_assets d)"
    using assms(1,2) by (intro filter_update_where_other) (auto simp: asset_is_def set_deleted_def)
  then show ?thesis using R_MarkAssetDeleted
    by (intro tenant_view_eqI) (auto simp: MarkAssetDeleted_def Let_def commit_def split: sum.splits)
next
  case (R_RevokeGrant i)
  then show ?thesis using assms(1,2) grants_revoked.scoped_update_keeps_others [of A B i now "db_grants d"]
    by (intro tenant_view_eqI) (auto simp: RevokeGrant_def Let_def commit_def split: sum.splits)
next
  case (R_RevokeExport i)
  then show ?thesis using assms(1,2) exports_revoked.scoped_update_keeps_others [of A B i now "db_exports d"]
    by (intro tenant_view_eqI) (auto simp: RevokeExport_def Let_def commit_def split: sum.splits)
next
  case (R_CreateGrant gid req)
  then show ?thesis using assms(1,2)
    by (intro tenant_view_eqI)
       (auto simp: CreateGrant_def Let_def commit_def filter_insert_row_other split: sum.splits)
next
  case (R_CreateExport eid req)
  then show ?thesis using assms(1,2)
    by (intro tenant_view_eqI)
       (auto simp: CreateExport_def Let_def commit_def filter_insert_row_other split: sum.splits)
next
  case R_ProvisionAccount
  then show ?thesis using assms(1,2)
    by (intro tenant_view_eqI)
       (auto simp: ProvisionAccount_def Let_def commit_def filter_insert_if_absent_other
          split: sum.splits option.splits)
next
  case (R_CreateUpload u)
  then show ?thesis using assms(1,2)
    by (intro tenant_view_eqI) (auto simp: CreateUpload_def commit_def filter_insert_row_other)
next
  case (R_FinalizeUpload i v)
  then show ?thesis using assms(1,2) finalize_view by (auto simp: commit_def split: sum.splits)
next
  case (R_EnqueueJob jid i n)
  then show ?thesis using assms(1,2) enqueue_view by (auto simp: commit_def split: sum.splits)
next
  case (R_EnqueueRemuxJob jid i n src)
  then show ?thesis using assms(1,2) enqueue_remux_view by (auto simp: commit_def split: sum.splits)
next
  case (R_MarkNotDerived i n)
  then show ?thesis using assms not_derived_view by (auto simp: commit_def split: sum.splits)
qed

section \<open>Non-interference\<close>

text \<open>Runs of guarded requests of accounts other than \<open>A\<close>.\<close>

inductive others_run :: "string \<Rightarrow> db \<Rightarrow> db \<Rightarrow> bool" for A where
  others_none: "others_run A d d"
| others_next: "others_run A d d' \<Longrightarrow> B \<noteq> A \<Longrightarrow> request_ok d' B r \<Longrightarrow> others_run A d (run_request now B r d')"

lemma others_run_reachable: "others_run A d d' \<Longrightarrow> reachable d \<Longrightarrow> reachable d'"
  by (induction rule: others_run.induct) (auto intro: reachable.step store_step.request simp del: run_request.simps)

lemma others_run_view: "others_run A d d' \<Longrightarrow> reachable d \<Longrightarrow> tenant_view A d' = tenant_view A d"
proof (induction rule: others_run.induct)
  case (others_next d d' B r now)
  then show ?case
    using other_request_view [of d' B A r now] reachable_keys others_run_reachable by metis
qed simp

text \<open>Account isolation of the store: in every reachable database, no sequence of requests of
  other accounts, whatever they name, changes the answer of any of account A's reads (assets and
  their renditions, pages, jobs, grants, exports, uploads, ownership, and the classification of
  the id sets grants and exports are issued over).\<close>
theorem tenant_noninterference:
  assumes "reachable d" "others_run A d d'"
  shows "run_query d' A q = run_query d A q"
proof -
  have "run_query d' A q = run_query (tenant_view A d') A q"
    by (rule query_view [symmetric]) (rule reachable_origins [OF others_run_reachable [OF assms(2,1)]])
  also have "\<dots> = run_query (tenant_view A d) A q" using others_run_view [OF assms(2,1)] by simp
  also have "\<dots> = run_query d A q" by (rule query_view) (rule reachable_origins [OF assms(1)])
  finally show ?thesis .
qed

lemma tenant_noninterference_witness:
  "run_query (run_request 5 ''bob'' R_ProvisionAccount (CreateAccount empty_db 0 ''alice'' [] []))
     ''alice'' (Q_ListAssets [] 0)
   = run_query (CreateAccount empty_db 0 ''alice'' [] []) ''alice'' (Q_ListAssets [] 0)"
proof (rule tenant_noninterference)
  show "reachable (CreateAccount empty_db 0 ''alice'' [] [])"
    by (rule reachable.step [OF reachable.init store_step.operator])
  show "others_run ''alice'' (CreateAccount empty_db 0 ''alice'' [] [])
     (run_request 5 ''bob'' R_ProvisionAccount (CreateAccount empty_db 0 ''alice'' [] []))"
    by (rule others_run.others_next [OF others_run.others_none]) simp_all
qed

end
