(* ===== verification/Capabilities.thy ===== *)
theory Capabilities
  imports Tenant
begin

text \<open>
  Grants and exports as capabilities: the interface both share, the classification of the id
  sets they are issued over, and what a capability keeps for its whole life.
\<close>

section \<open>The interface of a capability\<close>

locale capability =
  fixes resolve :: "db \<Rightarrow> time \<Rightarrow> string \<Rightarrow> string \<Rightarrow> verdict"
    and revoke :: "db \<Rightarrow> time \<Rightarrow> string \<Rightarrow> string \<Rightarrow> 'c effect"
  assumes revoke_sets: "keys_ok d \<Longrightarrow> revoke d now A c = Inr (d', x) \<Longrightarrow> vd_Revoked (resolve d' t c i)"
    and revoke_others: "revoke d now A c = Inr (d', x) \<Longrightarrow> c' \<noteq> c \<Longrightarrow> resolve d' t c' i = resolve d t c' i"
    and revoke_own: "keys_ok d \<Longrightarrow> revoke d now A c = Inr (d', x)
      \<Longrightarrow> vd_Found (resolve d t c i) \<and> vd_Account (resolve d t c i) = A"
    and ages: "t \<le> t' \<Longrightarrow> Live (resolve d t' c i) \<Longrightarrow> Live (resolve d t c i)"
begin

lemma revoke_kills: "keys_ok d \<Longrightarrow> revoke d now A c = Inr (d', x) \<Longrightarrow> \<not> Live (resolve d' t c i)"
  using revoke_sets by (simp add: Live_def)

lemma revoke_exact:
  assumes "keys_ok d" "revoke d now A c = Inr (d', x)"
  shows "Live (resolve d' t c' i) \<longleftrightarrow> c' \<noteq> c \<and> Live (resolve d t c' i)"
  using assms revoke_kills revoke_others by (cases "c' = c") auto

lemma foreign_revoke:
  assumes "keys_ok d" "vd_Account (resolve d t c i) \<noteq> A"
  shows "\<not> is_ok (revoke d now A c)"
  using assms revoke_own by (auto simp: is_ok_iff)

lemma dead_stays_dead: "t \<le> t' \<Longrightarrow> \<not> Live (resolve d t c i) \<Longrightarrow> \<not> Live (resolve d t' c i)"
  using ages by blast

end

section \<open>Grants and exports provide it\<close>

lemma get_by_id:
  "distinct (map k t) \<Longrightarrow> r \<in> set t \<Longrightarrow> k r = i \<Longrightarrow> get_row (\<lambda>x. k x = i) t = Some r"
  by (rule get_row_by_key [of k]) auto

lemma revoke_grant_result:
  assumes "RevokeGrant d now A c = Inr (d', x)"
  obtains r where "r \<in> set (db_grants d)" "gw_account r = A" "gw_id r = c"
    "d' = d\<lparr>db_grants := update_where (\<lambda>r. gw_account r = A \<and> gw_id r = c) (revoke_grant_row now) (db_grants d)\<rparr>"
proof -
  let ?p = "\<lambda>r. gw_account r = A \<and> gw_id r = c"
  have d': "d' = d\<lparr>db_grants := update_where ?p (revoke_grant_row now) (db_grants d)\<rparr>"
    and "get_row ?p (update_where ?p (revoke_grant_row now) (db_grants d)) \<noteq> None"
    using assms by (auto simp: RevokeGrant_def Let_def scanGrantRow_def split: option.splits)
  then have "get_row ?p (db_grants d) \<noteq> None" by (simp add: grants_revoked.scoped_get_after_touch)
  then show thesis using that d' by (auto dest!: get_row_Some_iff)
qed

lemma revoke_export_result:
  assumes "RevokeExport d now A c = Inr (d', x)"
  obtains r where "r \<in> set (db_exports d)" "xw_account r = A" "xw_id r = c"
    "d' = d\<lparr>db_exports := update_where (\<lambda>r. xw_account r = A \<and> xw_id r = c) (revoke_export_row now) (db_exports d)\<rparr>"
proof -
  let ?p = "\<lambda>r. xw_account r = A \<and> xw_id r = c"
  have d': "d' = d\<lparr>db_exports := update_where ?p (revoke_export_row now) (db_exports d)\<rparr>"
    and "get_row ?p (update_where ?p (revoke_export_row now) (db_exports d)) \<noteq> None"
    using assms by (auto simp: RevokeExport_def Let_def scanExportRow_def split: option.splits)
  then have "get_row ?p (db_exports d) \<noteq> None" by (simp add: exports_revoked.scoped_get_after_touch)
  then show thesis using that d' by (auto dest!: get_row_Some_iff)
qed

text \<open>With unique keys, the scoped update is an update by id.\<close>

lemma scoped_update_by_id:
  assumes "distinct (map k t)" "r \<in> set t" "own r = A" "k r = c"
  shows "update_where (\<lambda>x. own x = A \<and> k x = c) f t = update_where (\<lambda>x. k x = c) f t"
proof -
  have "own x = A" if "x \<in> set t" "k x = c" for x
    using that assms distinct_key_eq [OF assms(1) that(1) assms(2)] by simp
  then show ?thesis unfolding update_where_def by (intro map_cong refl) auto
qed

interpretation grants: capability ResolveGrantForDelivery RevokeGrant
proof
  fix d now A c d' x t i
  assume k: "keys_ok d" and rv: "RevokeGrant d now A c = Inr (d', x)"
  obtain r where r: "r \<in> set (db_grants d)" "gw_account r = A" "gw_id r = c"
    and d': "d' = d\<lparr>db_grants := update_where (\<lambda>r. gw_account r = A \<and> gw_id r = c) (revoke_grant_row now) (db_grants d)\<rparr>"
    using revoke_grant_result [OF rv] .
  have dist: "distinct (map gw_id (db_grants d))" using k by (simp add: keys_ok_def)
  have g: "get_row (\<lambda>x. gw_id x = c) (db_grants d) = Some r" using get_by_id [OF dist r(1,3)] .
  then have "get_row (\<lambda>x. gw_id x = c) (db_grants d') = Some (revoke_grant_row now r)"
    unfolding d' by (simp add: scoped_update_by_id [where k = gw_id and own = gw_account, OF dist r] get_row_update_where
        grants_revoked.touch_id)
  then show "vd_Revoked (ResolveGrantForDelivery d' t c i)"
    by (simp add: ResolveGrantForDelivery_def revoke_grant_row_def split: option.splits)
  show "vd_Found (ResolveGrantForDelivery d t c i) \<and> vd_Account (ResolveGrantForDelivery d t c i) = A"
    using g r by (simp add: ResolveGrantForDelivery_def)
next
  fix d now A c d' x c' t i
  assume rv: "RevokeGrant d now A c = Inr (d', x)" and ne: "c' \<noteq> c"
  obtain r where "r \<in> set (db_grants d)" "gw_account r = A" "gw_id r = c"
    and d': "d' = d\<lparr>db_grants := update_where (\<lambda>r. gw_account r = A \<and> gw_id r = c) (revoke_grant_row now) (db_grants d)\<rparr>"
    using revoke_grant_result [OF rv] .
  have "get_row (\<lambda>x. gw_id x = c') (db_grants d') = get_row (\<lambda>x. gw_id x = c') (db_grants d)"
    unfolding d' by simp (rule get_row_update_where_other, use ne in \<open>auto simp: revoke_grant_row_def\<close>)
  then show "ResolveGrantForDelivery d' t c' i = ResolveGrantForDelivery d t c' i"
    by (simp add: ResolveGrantForDelivery_def)
next
  fix t t' d c i
  assume "(t :: time) \<le> t'" "Live (ResolveGrantForDelivery d t' c i)"
  then show "Live (ResolveGrantForDelivery d t c i)"
    by (cases "get_row (\<lambda>x. gw_id x = c) (db_grants d)")
       (simp_all add: ResolveGrantForDelivery_def Live_def not_found_verdict_def)
qed

interpretation exports: capability ResolveExportForDelivery RevokeExport
proof
  fix d now A c d' x t i
  assume k: "keys_ok d" and rv: "RevokeExport d now A c = Inr (d', x)"
  obtain r where r: "r \<in> set (db_exports d)" "xw_account r = A" "xw_id r = c"
    and d': "d' = d\<lparr>db_exports := update_where (\<lambda>r. xw_account r = A \<and> xw_id r = c) (revoke_export_row now) (db_exports d)\<rparr>"
    using revoke_export_result [OF rv] .
  have dist: "distinct (map xw_id (db_exports d))" using k by (simp add: keys_ok_def)
  have g: "get_row (\<lambda>x. xw_id x = c) (db_exports d) = Some r" using get_by_id [OF dist r(1,3)] .
  then have "get_row (\<lambda>x. xw_id x = c) (db_exports d') = Some (revoke_export_row now r)"
    unfolding d' by (simp add: scoped_update_by_id [where k = xw_id and own = xw_account, OF dist r] get_row_update_where
        exports_revoked.touch_id)
  then show "vd_Revoked (ResolveExportForDelivery d' t c i)"
    by (simp add: ResolveExportForDelivery_def revoke_export_row_def split: option.splits)
  show "vd_Found (ResolveExportForDelivery d t c i) \<and> vd_Account (ResolveExportForDelivery d t c i) = A"
    using g r by (simp add: ResolveExportForDelivery_def)
next
  fix d now A c d' x c' t i
  assume rv: "RevokeExport d now A c = Inr (d', x)" and ne: "c' \<noteq> c"
  obtain r where "r \<in> set (db_exports d)" "xw_account r = A" "xw_id r = c"
    and d': "d' = d\<lparr>db_exports := update_where (\<lambda>r. xw_account r = A \<and> xw_id r = c) (revoke_export_row now) (db_exports d)\<rparr>"
    using revoke_export_result [OF rv] .
  have "get_row (\<lambda>x. xw_id x = c') (db_exports d') = get_row (\<lambda>x. xw_id x = c') (db_exports d)"
    unfolding d' by simp (rule get_row_update_where_other, use ne in \<open>auto simp: revoke_export_row_def\<close>)
  then show "ResolveExportForDelivery d' t c' i = ResolveExportForDelivery d t c' i"
    by (simp add: ResolveExportForDelivery_def)
next
  fix t t' d c i
  assume "(t :: time) \<le> t'" "Live (ResolveExportForDelivery d t' c i)"
  then show "Live (ResolveExportForDelivery d t c i)"
    by (cases "get_row (\<lambda>x. xw_id x = c) (db_exports d)")
       (simp_all add: ResolveExportForDelivery_def Live_def not_found_verdict_def)
qed

section \<open>Classification\<close>

definition ever_owned :: "db \<Rightarrow> string \<Rightarrow> string \<Rightarrow> bool" where
  "ever_owned d A i \<longleftrightarrow> (\<exists>u \<in> set (db_uploads d). own_upload A i u \<and> uw_finalized u \<noteq> None)"

lemma owned_row: "AssetOwnedBy d A i \<longleftrightarrow> get_row (asset_is A i) (db_assets d) \<noteq> None"
  by (auto simp: AssetOwnedBy_def has_row_iff get_row_None_iff)

lemma purged_ever_owned: "AssetPurged d A i \<longleftrightarrow> \<not> has_asset_id d i \<and> ever_owned d A i"
  by (auto simp: AssetPurged_def ever_owned_def has_row_iff own_upload_def)

lemma owned_ever_owned:
  assumes "reachable d" "AssetOwnedBy d A i"
  shows "ever_owned d A i"
  using assms reachable_asset_upload [OF assms(1)]
  by (fastforce simp: AssetOwnedBy_def has_row_iff asset_is_def ever_owned_def)

lemma ever_owned_cases:
  assumes "reachable d" "ever_owned d A i" "has_asset_id d i"
  shows "AssetOwnedBy d A i"
  using assms reachable_origins [OF assms(1)]
  by (force simp: ever_owned_def has_asset_id_def has_row_iff origins_ok_def own_upload_def
      AssetOwnedBy_def asset_is_def)

lemma classify_refused_iff:
  assumes "reachable d"
  shows "classify d A i = ClassRefused \<longleftrightarrow> \<not> ever_owned d A i"
  using owned_ever_owned [OF assms, of A i] ever_owned_cases [OF assms, of A i]
  by (cases "get_row (asset_is A i) (db_assets d)")
     (auto simp: classify_def Let_def purged_ever_owned owned_row)

lemma classify_live_iff:
  assumes "reachable d"
  shows "classify d A i = ClassLive \<longleftrightarrow>
    (\<exists>a \<in> set (db_assets d). asset_is A i a \<and> ar_deleted a = None)"
proof -
  have row: "get_row (asset_is A i) (db_assets d) = Some a" if "a \<in> set (db_assets d)" "asset_is A i a" for a
    using get_asset_row [OF reachable_keys [OF assms] that(1)] that(2) by (simp add: asset_is_def)
  have np: "\<not> AssetPurged d A i" if "a \<in> set (db_assets d)" "asset_is A i a" for a
    using that by (auto simp: AssetPurged_def has_asset_id_def has_row_iff asset_is_def)
  show ?thesis
  proof
    assume "classify d A i = ClassLive"
    then obtain r where "get_row (asset_is A i) (db_assets d) = Some r" "ar_deleted r = None"
      by (auto simp: classify_def Let_def split: option.splits if_splits)
    then show "\<exists>a \<in> set (db_assets d). asset_is A i a \<and> ar_deleted a = None"
      by (auto dest: get_row_Some_iff)
  next
    assume "\<exists>a \<in> set (db_assets d). asset_is A i a \<and> ar_deleted a = None"
    then show "classify d A i = ClassLive" using row np by (auto simp: classify_def)
  qed
qed

lemma sk_uploads_keep:
  "sk_step s s' \<Longrightarrow> (i, a, k, r, True) \<in> set (sk_uploads s) \<Longrightarrow> (i, a, k, r, True) \<in> set (sk_uploads s')"
  by (induction rule: sk_step.induct) (auto intro: mark_finalized_keeps)

lemma ever_owned_abs: "ever_owned d A i \<longleftrightarrow> (\<exists>k. (i, A, k, None, True) \<in> set (sk_uploads (abs_store d)))"
  (is "?L \<longleftrightarrow> ?R")
proof
  assume ?L
  then obtain u where u: "u \<in> set (db_uploads d)" "own_upload A i u" "uw_finalized u \<noteq> None"
    by (auto simp: ever_owned_def)
  then have "(i, A, uw_key u, None, True) \<in> upload_key ` set (db_uploads d)"
    by (intro image_eqI [of _ _ u]) (auto simp: upload_key_def own_upload_def)
  then show ?R by (auto simp: abs_store_def)
next
  assume ?R
  then obtain u where "u \<in> set (db_uploads d)" "upload_key u = (i, A, uw_key u, None, True)"
    by (auto simp: abs_store_def upload_key_def)
  then show ?L unfolding ever_owned_def by (intro bexI [of _ u]) (auto simp: upload_key_def own_upload_def)
qed

lemma ever_owned_step: "reachable d \<Longrightarrow> store_step d d' \<Longrightarrow> ever_owned d A i \<Longrightarrow> ever_owned d' A i"
proof -
  assume d: "reachable d" and st: "store_step d d'" and ev: "ever_owned d A i"
  have "sk_step (abs_store d) (abs_store d')" by (rule store_step_refines [OF st reachable_inv [OF d]])
  with ev show "ever_owned d' A i" unfolding ever_owned_abs by (metis sk_uploads_keep)
qed

text \<open>The classification every capability is issued over is stable: an id that was ever one of
  the account's assets (live, deleted, or purged by the sweep) is never refused as foreign
  afterwards, whatever steps the store takes, and it counts as live exactly while its row exists
  unmarked.\<close>
theorem classification_stable:
  assumes "reachable d" "store_step\<^sup>*\<^sup>* d d'" "classify d A i \<noteq> ClassRefused"
  shows "classify d' A i = (if \<exists>a \<in> set (db_assets d'). asset_is A i a \<and> ar_deleted a = None
     then ClassLive else ClassGone)"
proof -
  have "reachable d' \<and> ever_owned d' A i"
    using assms(2) assms(1,3) classify_refused_iff [OF assms(1)]
    by (induction rule: rtranclp_induct) (auto intro: reachable.step ever_owned_step)
  then show ?thesis using classify_live_iff [of d' A i] classify_refused_iff [of d' A i]
    by (cases "classify d' A i") auto
qed

lemma classification_stable_witness:
  "classify (run_request 40 ''alice'' (R_MarkAssetDeleted ''A1'') demo_db) ''alice'' ''A1'' = ClassGone"
proof -
  have cl: "classify demo_db ''alice'' ''A1'' \<noteq> ClassRefused"
    by (simp add: demo_db_eval demo_db0_eval empty_db_def classify_def AssetPurged_def has_asset_id_def
        table_defs asset_is_def demo_asset_def)
  have st: "store_step\<^sup>*\<^sup>* demo_db (run_request 40 ''alice'' (R_MarkAssetDeleted ''A1'') demo_db)"
    by (rule r_into_rtranclp, rule store_step.request) simp
  have a: "db_assets (run_request 40 ''alice'' (R_MarkAssetDeleted ''A1'') demo_db) = [set_deleted 40 demo_asset]"
    by (simp add: demo_db_eval MarkAssetDeleted_def scanAsset_def set_deleted_def
        table_defs asset_is_def demo_asset_def Let_def)
  show ?thesis
    by (subst classification_stable [OF demo_reachable st cl]) (simp only: a, simp add: set_deleted_def)
qed

section \<open>Issuing capabilities\<close>

lemma grant_gone_eval:
  "grant_gone cs acc = (if \<exists>(i, c) \<in> set cs. c = ClassRefused then Inl ErrForeignAsset
     else Inr (acc @ map fst (filter (\<lambda>(i, c). c = ClassGone) cs)))"
  by (induction cs acc rule: grant_gone.induct) (auto split: asset_class.splits)

lemma classes_refused_iff:
  "(\<exists>(i, c) \<in> set (classifyAssetSet d A ids). c = ClassRefused)
   \<longleftrightarrow> (\<exists>i \<in> set ids. classify d A i = ClassRefused)"
  by (auto simp: classifyAssetSet_def)

lemma classes_gone:
  "map fst (filter (\<lambda>(i, c). c = ClassGone) (classifyAssetSet d A ids))
   = filter (\<lambda>i. classify d A i = ClassGone) (distinct_sorted ids)"
  by (simp add: classifyAssetSet_def filter_map comp_def)

lemma classes_map_of:
  "i \<in> set ids \<Longrightarrow> map_of (classifyAssetSet d A ids) i = Some (classify d A i)"
  unfolding classifyAssetSet_def by (simp add: map_of_map_restrict)

lemma fresh_grant_resolves:
  assumes "\<not> has_row (\<lambda>r. gw_id r = gid) (db_grants d)" "gw_id row = gid"
  shows "ResolveGrantForDelivery (d\<lparr>db_grants := insert_row row (db_grants d)\<rparr>) t gid i
    = \<lparr>vd_Found = True, vd_Covers = (i \<in> set (gw_assets row)), vd_Revoked = (gw_revoked row \<noteq> None),
       vd_Expired = (gw_expires row \<le> t), vd_Account = gw_account row\<rparr>"
proof -
  have "get_row (\<lambda>r. gw_id r = gid) (db_grants d) = None"
    using assms(1) by (auto simp: has_row_iff get_row_None_iff)
  then show ?thesis using assms(2) by (simp add: ResolveGrantForDelivery_def get_row_insert_row)
qed

lemma fresh_export_resolves:
  assumes "\<not> has_row (\<lambda>r. xw_id r = gid) (db_exports d)" "xw_id row = gid"
  shows "ResolveExportForDelivery (d\<lparr>db_exports := insert_row row (db_exports d)\<rparr>) t gid i
    = \<lparr>vd_Found = True, vd_Covers = (i \<in> set (xw_assets row)), vd_Revoked = (xw_revoked row \<noteq> None),
       vd_Expired = (xw_expires row \<le> t), vd_Account = xw_account row\<rparr>"
proof -
  have "get_row (\<lambda>r. xw_id r = gid) (db_exports d) = None"
    using assms(1) by (auto simp: has_row_iff get_row_None_iff)
  then show ?thesis using assms(2) by (simp add: ResolveExportForDelivery_def get_row_insert_row)
qed

text \<open>C19: Issuing a grant, on every branch: a set with an id that was never the account's is refused as
  a whole, with one error and nothing written; any other set (of a provisioned account, with a
  fresh id) yields a grant frozen over exactly the requested ids, live for each of them until it
  expires, whose gone list is the sorted list of the requested ids that are deleted or purged.\<close>
theorem create_grant_exact:
  assumes "reachable d" "has_account d A" "\<not> has_row (\<lambda>r. gw_id r = gid) (db_grants d)"
  shows "case CreateGrant d now gid A req of
      Inl e \<Rightarrow> e = ErrForeignAsset \<and> (\<exists>i \<in> set (grr_Assets req). \<not> ever_owned d A i)
    | Inr (d', g) \<Rightarrow> {i \<in> set (grr_Assets req). \<not> ever_owned d A i} = {}
        \<and> gr_Assets g = grr_Assets req \<and> gr_Account g = A
        \<and> gr_GoneAssets g = (let gone = filter (\<lambda>i. classify d A i = ClassGone) (distinct_sorted (grr_Assets req))
                             in if gone = [] then None else Some gone)
        \<and> (\<forall>t i. Live (ResolveGrantForDelivery d' t gid i) = (i \<in> set (grr_Assets req) \<and> t < grr_Expires req))"
proof (cases "\<exists>i \<in> set (grr_Assets req). classify d A i = ClassRefused")
  case True
  then have "CreateGrant d now gid A req = Inl ErrForeignAsset"
    by (simp add: CreateGrant_def grant_gone_eval classes_refused_iff)
  then show ?thesis using True classify_refused_iff [OF assms(1)] by auto
next
  case False
  let ?gone = "filter (\<lambda>i. classify d A i = ClassGone) (distinct_sorted (grr_Assets req))"
  have "grant_gone (classifyAssetSet d A (grr_Assets req)) [] = Inr ?gone"
    using False by (simp add: grant_gone_eval classes_refused_iff classes_gone)
  then obtain d' g row where c: "CreateGrant d now gid A req = Inr (d', g)"
    and d': "d' = d\<lparr>db_grants := insert_row row (db_grants d)\<rparr>"
    and row: "gw_id row = gid" "gw_assets row = grr_Assets req" "gw_revoked row = None"
      "gw_expires row = grr_Expires req"
    and g: "gr_Assets g = grr_Assets req" "gr_Account g = A"
      "gr_GoneAssets g = (if ?gone = [] then None else Some ?gone)"
    using assms(2,3) by (simp add: CreateGrant_def scanGrantRow_def Let_def)
  have "Live (ResolveGrantForDelivery d' t gid i) = (i \<in> set (grr_Assets req) \<and> t < grr_Expires req)" for t i
    unfolding d' fresh_grant_resolves [OF assms(3) row(1)] using row by (auto simp: Live_def)
  moreover have "{i \<in> set (grr_Assets req). \<not> ever_owned d A i} = {}"
    using False classify_refused_iff [OF assms(1)] by auto
  ultimately show ?thesis using c g by (simp add: Let_def)
qed

text \<open>Issuing an export, on every branch: an id that was never the account's refuses the whole set;
  a set with nothing live is refused by name; otherwise the export serves exactly the live ids of
  the set (each once, in request order), never a deleted or purged one, until it expires.\<close>
theorem create_export_exact:
  assumes "reachable d" "has_account d A" "\<not> has_row (\<lambda>r. xw_id r = eid) (db_exports d)"
  shows "case CreateExport d now eid A req of
      Inl e \<Rightarrow> (e = ErrForeignAsset \<and> (\<exists>i \<in> set (exr_Assets req). \<not> ever_owned d A i))
        \<or> (e = ErrAssetsGone \<and> {i \<in> set (exr_Assets req). classify d A i \<noteq> ClassGone} = {})
    | Inr (d', x) \<Rightarrow> {i \<in> set (exr_Assets req). \<not> ever_owned d A i} = {}
        \<and> distinct (ex_Assets x) \<and> subseq (ex_Assets x) (exr_Assets req)
        \<and> set (ex_Assets x) = {i \<in> set (exr_Assets req). classify d A i = ClassLive}
        \<and> (\<forall>t i. Live (ResolveExportForDelivery d' t eid i)
             = (i \<in> set (exr_Assets req) \<and> classify d A i = ClassLive \<and> t < exr_Expires req))"
proof (cases "\<exists>i \<in> set (exr_Assets req). classify d A i = ClassRefused")
  case True
  then have "CreateExport d now eid A req = Inl ErrForeignAsset"
    using classes_refused_iff [of d A "exr_Assets req"] by (simp add: CreateExport_def list_ex_iff)
  then show ?thesis using True classify_refused_iff [OF assms(1)] by auto
next
  case False
  let ?cl = "classifyAssetSet d A (exr_Assets req)"
  let ?live = "filter (\<lambda>i. map_of ?cl i = Some ClassLive) (dedup_seen [] (exr_Assets req))"
  have noref: "\<not> list_ex (\<lambda>(i, c). c = ClassRefused) ?cl"
    using False classes_refused_iff [of d A "exr_Assets req"] by (simp add: list_ex_iff)
  have own: "{i \<in> set (exr_Assets req). \<not> ever_owned d A i} = {}"
    using False classify_refused_iff [OF assms(1)] by auto
  have set_live: "set ?live = {i \<in> set (exr_Assets req). classify d A i = ClassLive}"
    by (auto simp: set_dedup_seen classes_map_of)
  show ?thesis
  proof (cases "?live = []")
    case True
    then have "CreateExport d now eid A req = Inl ErrAssetsGone"
      using noref by (simp add: CreateExport_def Let_def)
    moreover have "{i \<in> set (exr_Assets req). classify d A i \<noteq> ClassGone} = {}"
    proof -
      have "{i \<in> set (exr_Assets req). classify d A i = ClassLive} = {}"
        using set_live by (simp only: True) simp
      then show ?thesis using False by (auto, metis asset_class.exhaust)
    qed
    ultimately show ?thesis by simp
  next
    case False
    then obtain d' x row where c: "CreateExport d now eid A req = Inr (d', x)"
      and d': "d' = d\<lparr>db_exports := insert_row row (db_exports d)\<rparr>"
      and row: "xw_id row = eid" "xw_assets row = ?live" "xw_revoked row = None"
        "xw_expires row = exr_Expires req"
      and x: "ex_Assets x = ?live"
      using assms(2,3) noref by (simp add: CreateExport_def scanExportRow_def Let_def)
    have live: "Live (ResolveExportForDelivery d' t eid i)
        = (i \<in> set (exr_Assets req) \<and> classify d A i = ClassLive \<and> t < exr_Expires req)" for t i
      unfolding d' fresh_export_resolves [OF assms(3) row(1)] row(2-4) set_live
      by (auto simp: Live_def)
    have "distinct ?live" by (simp add: distinct_dedup_seen)
    moreover have "subseq ?live (exr_Assets req)"
      using dedup_seen_subseq subseq_filter_left subseq_order.trans by blast
    ultimately show ?thesis using c x own set_live live by simp
  qed
qed

lemma demo_ever_owned: "ever_owned demo_db ''alice'' ''A1''"
  by (simp add: ever_owned_def own_upload_def demo_db_eval)

lemma demo_has_account: "has_account demo_db ''alice''"
  by (simp add: has_account_def demo_db_eval demo_db0_eval table_defs)

lemma demo_no_grants: "\<not> has_row p (db_grants demo_db)" "\<not> has_row q (db_exports demo_db)"
  by (simp_all add: demo_db_eval demo_db0_eval empty_db_def table_defs)

lemma create_grant_exact_witness:
  "\<exists>d' g. CreateGrant demo_db 40 ''G1'' ''alice''
      \<lparr>grr_Assets = [''A1''], grr_Expires = 100, grr_Recipient = None\<rparr> = Inr (d', g)
    \<and> Live (ResolveGrantForDelivery d' 50 ''G1'' ''A1'')"
  using create_grant_exact [where gid = "''G1''" and now = 40
      and req = "\<lparr>grr_Assets = [''A1''], grr_Expires = 100, grr_Recipient = None\<rparr>",
      OF demo_reachable demo_has_account demo_no_grants(1)] demo_ever_owned
  by (auto split: sum.splits)

lemma create_export_exact_witness:
  "\<exists>d' x. CreateExport demo_db 40 ''E1'' ''alice''
      \<lparr>exr_Assets = [''A1'', ''A1''], exr_Expires = 100, exr_Note = None\<rparr> = Inr (d', x)
    \<and> set (ex_Assets x) = {''A1''}"
proof -
  have "classify demo_db ''alice'' ''A1'' = ClassLive"
    by (subst classify_live_iff [OF demo_reachable])
       (simp add: demo_db_eval asset_is_def demo_asset_def)
  then show ?thesis
    using create_export_exact [where eid = "''E1''" and now = 40
        and req = "\<lparr>exr_Assets = [''A1'', ''A1''], exr_Expires = 100, exr_Note = None\<rparr>",
        OF demo_reachable demo_has_account demo_no_grants(2)] demo_ever_owned
    by (auto split: sum.splits)
qed

section \<open>The life of a capability\<close>

text \<open>The only writes to the grant table are a fresh insert and the revocation update.\<close>

lemma create_grant_result:
  assumes "CreateGrant d now g A req = Inr (d', x)"
  shows "\<exists>row. d' = d\<lparr>db_grants := insert_row row (db_grants d)\<rparr>
    \<and> \<not> has_row (\<lambda>y. gw_id y = gw_id row) (db_grants d)"
proof -
  let ?row = "\<lparr>gw_id = g, gw_account = A, gw_assets = grr_Assets req, gw_recipient = grr_Recipient req,
     gw_created = now, gw_expires = grr_Expires req, gw_revoked = None\<rparr>"
  have "d' = d\<lparr>db_grants := insert_row ?row (db_grants d)\<rparr>" "\<not> has_row (\<lambda>y. gw_id y = g) (db_grants d)"
    using assms by (auto simp: CreateGrant_def Let_def split: sum.splits if_splits)
  then show ?thesis by (intro exI [of _ ?row]) simp
qed

lemma request_grants:
  "db_grants (run_request now A r d) = db_grants d
   \<or> (\<exists>row. db_grants (run_request now A r d) = insert_row row (db_grants d)
        \<and> \<not> has_row (\<lambda>x. gw_id x = gw_id row) (db_grants d))
   \<or> (\<exists>p. db_grants (run_request now A r d) = update_where p (revoke_grant_row now) (db_grants d))"
proof (cases r)
  case (R_CreateGrant g req)
  show ?thesis
  proof (cases "CreateGrant d now g A req")
    case (Inl e)
    then show ?thesis using R_CreateGrant by simp
  next
    case (Inr y)
    obtain d' x where "y = (d', x)" by (cases y)
    then show ?thesis using R_CreateGrant Inr create_grant_result [of d now g A req d' x] by auto
  qed
next
  case (R_RevokeGrant g)
  then show ?thesis by (auto simp: RevokeGrant_def Let_def commit_def split: sum.splits)
next
  case (R_EnqueueRemuxJob jid i n src)
  then show ?thesis
    by (auto simp: commit_def EnqueueRemuxJob_def insert_job_def split: sum.splits option.splits if_splits)
next
  case (R_EnqueueJob jid i n)
  then show ?thesis
    by (auto simp: commit_def EnqueueJob_def insert_job_def split: sum.splits option.splits if_splits)
next
  case (R_FinalizeUpload i v)
  then show ?thesis
    by (auto simp: commit_def FinalizeUpload_def Let_def split: sum.splits option.splits if_splits)
qed (auto simp: commit_def MarkAssetDeleted_def CreateExport_def RevokeExport_def ProvisionAccount_def
      CreateUpload_def MarkNotDerived_def Let_def split: sum.splits option.splits if_splits)

lemma worker_grants: "db_grants (run_worker now w d) = db_grants d"
  by (cases w) (auto simp: ClaimNextJob_def Heartbeat_def CompleteJob_def CompleteJobNoRendition_def FailJob_def
      PurgeDeletedAsset_def BackfillVaultProbe_def MarkProbeFailed_def FailedRenditionForCeiling_def
      ClaimChecksumCandidate_def ReleaseChecksumClaim_def MarkChecksumVerified_def MarkUploadSwept_def
      UpsertWorkerHeartbeat_def Let_def commit_def split: option.splits sum.splits)

text \<open>What a later database keeps of a grant row.\<close>

definition grant_kept :: "grant_row \<Rightarrow> grant_row \<Rightarrow> bool" where
  "grant_kept r s \<longleftrightarrow> gw_id s = gw_id r \<and> gw_account s = gw_account r \<and> gw_assets s = gw_assets r
     \<and> gw_expires s = gw_expires r \<and> (gw_revoked r \<noteq> None \<longrightarrow> gw_revoked s = gw_revoked r)"

lemma step_keeps_grant:
  assumes "store_step d d'" "get_row (\<lambda>x. gw_id x = g) (db_grants d) = Some r"
  shows "\<exists>s. get_row (\<lambda>x. gw_id x = g) (db_grants d') = Some s \<and> grant_kept r s"
  using assms(1)
proof (cases rule: store_step.cases)
  case (request A q now)
  have upd: "\<exists>s. get_row (\<lambda>x. gw_id x = g) (update_where p (revoke_grant_row now) (db_grants d)) = Some s
      \<and> grant_kept r s" for p
  proof -
    let ?f = "\<lambda>x. if p x then revoke_grant_row now x else x"
    have "get_row (\<lambda>x. gw_id x = g) (map ?f t) = map_option ?f (get_row (\<lambda>x. gw_id x = g) t)" for t
      by (induction t) (auto simp: get_row_def grants_revoked.touch_id)
    then show ?thesis using assms(2)
      by (auto simp: update_where_def grant_kept_def revoke_grant_row_def)
  qed
  have "\<exists>s. get_row (\<lambda>x. gw_id x = g) (insert_row row (db_grants d)) = Some s \<and> grant_kept r s" for row
    using assms(2) by (simp add: get_row_insert_row grant_kept_def)
  with upd show ?thesis
    using assms(2) request_grants [of now A q d] request by (auto simp: grant_kept_def)
next
  case (worker now w)
  then show ?thesis using assms(2) by (simp add: worker_grants grant_kept_def)
next
  case (operator now a bucket pre)
  then show ?thesis using assms(2) by (simp add: CreateAccount_def grant_kept_def)
qed

lemma grant_kept_trans: "grant_kept r s \<Longrightarrow> grant_kept s t \<Longrightarrow> grant_kept r t"
  by (auto simp: grant_kept_def)

lemma steps_keep_grant:
  assumes "store_step\<^sup>*\<^sup>* d d'" "get_row (\<lambda>x. gw_id x = g) (db_grants d) = Some r"
  shows "\<exists>s. get_row (\<lambda>x. gw_id x = g) (db_grants d') = Some s \<and> grant_kept r s"
  using assms
proof (induction rule: rtranclp_induct)
  case base then show ?case by (simp add: grant_kept_def)
next
  case (step y z)
  then obtain s where s: "get_row (\<lambda>x. gw_id x = g) (db_grants y) = Some s" "grant_kept r s" by blast
  show ?case using step_keeps_grant [OF step.hyps(2) s(1)] grant_kept_trans [OF s(2)] by blast
qed

lemma grant_later:
  assumes "store_step\<^sup>*\<^sup>* d d'" "t \<le> t'" "vd_Found (ResolveGrantForDelivery d t g i)"
  shows "vd_Account (ResolveGrantForDelivery d' t' g i) = vd_Account (ResolveGrantForDelivery d t g i)
    \<and> vd_Covers (ResolveGrantForDelivery d' t' g i) = vd_Covers (ResolveGrantForDelivery d t g i)
    \<and> (Live (ResolveGrantForDelivery d' t' g i) \<le> Live (ResolveGrantForDelivery d t g i))"
proof -
  obtain r where r: "get_row (\<lambda>x. gw_id x = g) (db_grants d) = Some r"
    using assms(3) by (auto simp: ResolveGrantForDelivery_def not_found_verdict_def split: option.splits)
  obtain s where s: "get_row (\<lambda>x. gw_id x = g) (db_grants d') = Some s" "grant_kept r s"
    using steps_keep_grant [OF assms(1) r] by blast
  then have "gw_account s = gw_account r" "gw_assets s = gw_assets r" "gw_expires s = gw_expires r"
    "gw_revoked s = None \<Longrightarrow> gw_revoked r = None"
    by (simp_all add: grant_kept_def) (cases "gw_revoked r"; simp)
  then show ?thesis using assms(2)
    by (simp add: ResolveGrantForDelivery_def r s(1) Live_def le_bool_def)
qed

text \<open>C18: A grant only ever loses power: once a grant exists, its account and its frozen set never
  change, and if it does not serve an asset now (revoked, expired or not covered) then it serves
  it at no later time in no later state of the store, whatever requests, worker operations and
  operator commands come in between.\<close>
theorem grant_only_loses_power:
  assumes "store_step\<^sup>*\<^sup>* d d'" "t \<le> t'" "vd_Found (ResolveGrantForDelivery d t g i)"
  shows "vd_Account (ResolveGrantForDelivery d' t' g i) = vd_Account (ResolveGrantForDelivery d t g i)
    \<and> vd_Covers (ResolveGrantForDelivery d' t' g i) = vd_Covers (ResolveGrantForDelivery d t g i)
    \<and> (Live (ResolveGrantForDelivery d' t' g i) \<le> Live (ResolveGrantForDelivery d t g i))"
  using assms by (rule grant_later)

lemma grant_only_loses_power_witness:
  "\<exists>d' g. CreateGrant demo_db 40 ''G1'' ''alice''
      \<lparr>grr_Assets = [''A1''], grr_Expires = 100, grr_Recipient = None\<rparr> = Inr (d', g)
    \<and> \<not> Live (ResolveGrantForDelivery (run_request 50 ''alice'' (R_RevokeGrant ''G1'') d') 60 ''G1'' ''A2'')"
proof -
  let ?req = "\<lparr>grr_Assets = [''A1''], grr_Expires = 100, grr_Recipient = None\<rparr>"
  have "classifyAssetSet demo_db ''alice'' [''A1''] = [(''A1'', ClassLive)]"
    by (simp add: classifyAssetSet_def distinct_sorted_def classify_def AssetPurged_def has_asset_id_def
        table_defs asset_is_def demo_db_eval demo_asset_def)
  then obtain d' g where c: "CreateGrant demo_db 40 ''G1'' ''alice'' ?req = Inr (d', g)"
    and d': "d' = demo_db\<lparr>db_grants := [\<lparr>gw_id = ''G1'', gw_account = ''alice'', gw_assets = [''A1''],
       gw_recipient = None, gw_created = 40, gw_expires = 100, gw_revoked = None\<rparr>]\<rparr>"
    using demo_has_account
    by (simp add: CreateGrant_def demo_no_grants scanGrantRow_def Let_def insert_row_def)
       (simp add: demo_db_eval demo_db0_eval empty_db_def)
  have st: "store_step\<^sup>*\<^sup>* d' (run_request 50 ''alice'' (R_RevokeGrant ''G1'') d')"
    by (rule r_into_rtranclp, rule store_step.request) simp
  have f: "vd_Found (ResolveGrantForDelivery d' 50 ''G1'' ''A2'')"
    by (simp add: d' ResolveGrantForDelivery_def table_defs)
  have "\<not> Live (ResolveGrantForDelivery d' 50 ''G1'' ''A2'')"
    by (simp add: d' ResolveGrantForDelivery_def table_defs Live_def)
  then show ?thesis using c grant_only_loses_power [OF st _ f, of 60] by auto
qed

section \<open>Revocation\<close>

text \<open>C21: Revoking is exact and owner-only, for grants and exports alike: it succeeds only for a
  capability of the caller's own account, afterwards that capability serves nothing at any time,
  and every other capability serves exactly what it served before.\<close>
theorem revocation_exact:
  assumes "reachable d"
  shows "(case RevokeGrant d now A c of Inl e \<Rightarrow> e = ErrNotFound
      | Inr (d', x) \<Rightarrow> vd_Account (ResolveGrantForDelivery d now c i) = A
          \<and> Live (ResolveGrantForDelivery d' t c' i) = (c' \<noteq> c \<and> Live (ResolveGrantForDelivery d t c' i)))
    \<and> (case RevokeExport d now A c of Inl e \<Rightarrow> e = ErrNotFound
      | Inr (d', x) \<Rightarrow> vd_Account (ResolveExportForDelivery d now c i) = A
          \<and> Live (ResolveExportForDelivery d' t c' i) = (c' \<noteq> c \<and> Live (ResolveExportForDelivery d t c' i)))"
proof -
  note k = reachable_keys [OF assms]
  have "e = ErrNotFound" if "RevokeGrant d now A c = Inl e \<or> RevokeExport d now A c = Inl e" for e
    using that by (auto simp: RevokeGrant_def RevokeExport_def scanGrantRow_def scanExportRow_def Let_def
        split: option.splits)
  then show ?thesis
    using grants.revoke_exact [OF k] grants.revoke_own [OF k] exports.revoke_exact [OF k] exports.revoke_own [OF k]
    by (simp split: sum.splits)
qed

lemma revocation_exact_witness:
  "case RevokeGrant demo_db 5 ''bob'' ''G1'' of Inl e \<Rightarrow> e = ErrNotFound | Inr _ \<Rightarrow> False"
  using revocation_exact [OF demo_reachable, of 5 "''bob''" "''G1''"]
  by (auto simp: RevokeGrant_def demo_no_grants demo_db_eval demo_db0_eval empty_db_def table_defs scanGrantRow_def)

end
