(* ===== verification/Go_Strconv.thy ===== *)
theory Go_Strconv
  imports Go_Strings
begin

text \<open>
  Go's \<open>strconv\<close> in base 10: \<open>Itoa\<close> and \<open>FormatInt\<close> (one function here, \<open>dec\<close>), \<open>ParseInt\<close> and
  \<open>Atoi\<close> at 64 bits. Printing and parsing are inverse on the 64-bit range.
\<close>

definition digit_char :: "nat \<Rightarrow> char" where
  "digit_char d = ''0123456789'' ! d"

fun dec_nat :: "nat \<Rightarrow> string" where
  "dec_nat n = (if n < 10 then [digit_char n] else dec_nat (n div 10) @ [digit_char (n mod 10)])"

declare dec_nat.simps [simp del]

definition dec :: "int \<Rightarrow> string" where
  "dec n = (if n < 0 then ''-'' @ dec_nat (nat (- n)) else dec_nat (nat n))"

definition digit_val :: "char \<Rightarrow> nat" where
  "digit_val c = of_char c - 48"

fun parse_digits :: "string \<Rightarrow> nat \<Rightarrow> nat option" where
  "parse_digits [] n = Some n"
| "parse_digits (c # cs) n = (if is_digit c then parse_digits cs (n * 10 + digit_val c) else None)"

definition parse_uint :: "string \<Rightarrow> nat option" where
  "parse_uint s = (if s = [] then None else parse_digits s 0)"

definition int64_range :: "int \<Rightarrow> bool" where
  "int64_range n = (- (2 ^ 63) \<le> n \<and> n < 2 ^ 63)"

definition parse_int :: "string \<Rightarrow> int option" where
  "parse_int s =
     (let (neg, body) = (case s of [] \<Rightarrow> (False, [])
            | c # cs \<Rightarrow> if c = CHR ''-'' then (True, cs) else if c = CHR ''+'' then (False, cs) else (False, s))
      in case parse_uint body of None \<Rightarrow> None
         | Some n \<Rightarrow> (let v = (if neg then - int n else int n) in if int64_range v then Some v else None))"

lemma less_10_cases:
  assumes "d < (10 :: nat)"
  obtains "d = 0" | "d = 1" | "d = 2" | "d = 3" | "d = 4" | "d = 5" | "d = 6" | "d = 7" | "d = 8" | "d = 9"
  using assms by (auto simp: less_Suc_eq numeral_eq_Suc)

lemma digit_char_ok:
  assumes "d < 10"
  shows "is_digit (digit_char d)" "digit_val (digit_char d) = d" "is_alnum (digit_char d)"
proof -
  have "is_digit (digit_char d) \<and> digit_val (digit_char d) = d"
    using assms by (rule less_10_cases) (simp_all add: digit_char_def is_digit_def digit_val_def less_eq_char_def)
  then show "is_digit (digit_char d)" "digit_val (digit_char d) = d" "is_alnum (digit_char d)"
    by (simp_all add: is_digit_alnum)
qed

lemma dec_nat_digits: "c \<in> set (dec_nat n) \<Longrightarrow> is_digit c"
proof (induction n rule: dec_nat.induct)
  case (1 n) then show ?case by (cases "n < 10") (auto simp: dec_nat.simps [of n] digit_char_ok)
qed

lemma dec_nat_nonempty [simp]: "dec_nat n \<noteq> []"
  by (simp add: dec_nat.simps [of n])

lemma parse_digits_append:
  "(\<And>c. c \<in> set s \<Longrightarrow> is_digit c)
    \<Longrightarrow> parse_digits (s @ t) n = (case parse_digits s n of None \<Rightarrow> None | Some m \<Rightarrow> parse_digits t m)"
  by (induction s arbitrary: n) auto

lemma parse_digits_dec: "parse_digits (dec_nat m) 0 = Some m"
proof (induction m rule: dec_nat.induct)
  case (1 m)
  show ?case
  proof (cases "m < 10")
    case True then show ?thesis by (simp add: dec_nat.simps [of m] digit_char_ok)
  next
    case False
    then have "parse_digits (dec_nat m) 0
      = (case parse_digits (dec_nat (m div 10)) 0 of None \<Rightarrow> None | Some k \<Rightarrow> parse_digits [digit_char (m mod 10)] k)"
      by (subst dec_nat.simps) (simp add: parse_digits_append dec_nat_digits)
    also have "\<dots> = Some m" using 1 False by (simp add: digit_char_ok)
    finally show ?thesis .
  qed
qed

lemma parse_uint_dec [simp]: "parse_uint (dec_nat m) = Some m"
  by (simp add: parse_uint_def parse_digits_dec)

lemma dec_nat_head: "c \<in> set (dec_nat n) \<Longrightarrow> c \<noteq> CHR ''-'' \<and> c \<noteq> CHR ''+''"
  using dec_nat_digits [of c n] by (auto simp: is_digit_def less_eq_char_def)

lemma parse_int_dec [simp]:
  assumes "int64_range n"
  shows "parse_int (dec n) = Some n"
proof (cases "n < 0")
  case True
  then show ?thesis using assms by (simp add: dec_def parse_int_def)
next
  case False
  obtain c cs where c: "dec_nat (nat n) = c # cs" by (cases "dec_nat (nat n)") auto
  then have "c \<noteq> CHR ''-''" "c \<noteq> CHR ''+''" using dec_nat_head [of c "nat n"] by auto
  then have "parse_int (c # cs) = (case parse_uint (c # cs) of None \<Rightarrow> None
      | Some m \<Rightarrow> if int64_range (int m) then Some (int m) else None)"
    by (auto simp: parse_int_def Let_def split: option.split)
  then show ?thesis using False assms parse_uint_dec [of "nat n"] by (simp add: dec_def c)
qed

lemma dec_inj: "int64_range m \<Longrightarrow> int64_range n \<Longrightarrow> dec m = dec n \<longleftrightarrow> m = n"
  by (metis parse_int_dec option.inject)

lemma dec_nonempty [simp]: "dec n \<noteq> []"
  by (simp add: dec_def)

lemma dec_chars: "c \<in> set (dec n) \<Longrightarrow> is_digit c \<or> c = CHR ''-''"
  by (auto simp: dec_def dest: dec_nat_digits split: if_splits)

section \<open>Integer conversions\<close>

text \<open>\<open>int32(n)\<close> keeps the low 32 bits.\<close>

definition wrap32 :: "int \<Rightarrow> int" where
  "wrap32 n = (n + 2 ^ 31) mod 2 ^ 32 - 2 ^ 31"

lemma wrap32_small: "- (2 ^ 31) \<le> n \<Longrightarrow> n < 2 ^ 31 \<Longrightarrow> wrap32 n = n"
  by (simp add: wrap32_def)

end
