(* ===== verification/Go_Url.thy ===== *)
theory Go_Url
  imports Go_Strconv
begin

text \<open>
  Go's \<open>net/url\<close>, as far as the signer and the download edge use it: percent escaping of paths
  and query components, query parsing and encoding, \<open>Parse\<close> and \<open>String\<close>. An authority is kept
  as it is when it consists of host characters and a port; user information, bracketed addresses
  and escaped hosts are outside the model (\<open>Parse\<close> fails on them here), as are opaque URLs
  (\<open>scheme:rest\<close> with no slash), and fragments are dropped.
\<close>

section \<open>Escaping\<close>

datatype escape_mode = EncodePath | EncodeQuery

definition url_plain :: "char \<Rightarrow> bool" where
  "url_plain c = (is_alnum c \<or> c \<in> set ''-_.~'')"

definition should_escape :: "escape_mode \<Rightarrow> char \<Rightarrow> bool" where
  "should_escape mode c =
     (if url_plain c then False
      else if c \<in> set ''$&+,/:;=?@'' then (case mode of EncodePath \<Rightarrow> c = CHR ''?'' | EncodeQuery \<Rightarrow> True)
      else True)"

definition upper_hex :: "nat \<Rightarrow> char" where
  "upper_hex n = ''0123456789ABCDEF'' ! n"

definition hex_val :: "char \<Rightarrow> nat option" where
  "hex_val c =
     (if is_digit c then Some (of_char c - 48)
      else if CHR ''a'' \<le> c \<and> c \<le> CHR ''f'' then Some (of_char c - 87)
      else if CHR ''A'' \<le> c \<and> c \<le> CHR ''F'' then Some (of_char c - 55)
      else None)"

definition escape_char :: "escape_mode \<Rightarrow> char \<Rightarrow> string" where
  "escape_char mode c =
     (if c = CHR '' '' \<and> mode = EncodeQuery then ''+''
      else if should_escape mode c
        then [CHR ''%'', upper_hex (of_char c div 16), upper_hex (of_char c mod 16)]
      else [c])"

definition escape :: "escape_mode \<Rightarrow> string \<Rightarrow> string" where
  "escape mode s = concat (map (escape_char mode) s)"

fun unescape :: "escape_mode \<Rightarrow> string \<Rightarrow> string option" where
  "unescape mode [] = Some []"
| "unescape mode (c # cs) =
     (if c = CHR ''%'' then
        (case cs of
           h # l # rest \<Rightarrow>
             (case (hex_val h, hex_val l) of
                (Some a, Some b) \<Rightarrow> map_option ((#) (char_of (16 * a + b))) (unescape mode rest)
              | _ \<Rightarrow> None)
         | _ \<Rightarrow> None)
      else map_option ((#) (if c = CHR ''+'' \<and> mode = EncodeQuery then CHR '' '' else c)) (unescape mode cs))"

definition QueryEscape :: "string \<Rightarrow> string" where
  "QueryEscape = escape EncodeQuery"

section \<open>Queries\<close>

type_synonym url_values = "(string \<times> string) list"

definition parse_pair :: "string \<Rightarrow> (string \<times> string) option" where
  "parse_pair s =
     (if CHR '';'' \<in> set s \<or> s = [] then None
      else let (k, v) = (case cut_char CHR ''='' s of None \<Rightarrow> (s, []) | Some kv \<Rightarrow> kv)
           in case (unescape EncodeQuery k, unescape EncodeQuery v) of
                (Some k', Some v') \<Rightarrow> Some (k', v') | _ \<Rightarrow> None)"

definition parse_query :: "string \<Rightarrow> url_values" where
  "parse_query q = List.map_filter parse_pair (split_char CHR ''&'' q)"

definition values_get :: "url_values \<Rightarrow> string \<Rightarrow> string" where
  "values_get q k = (case map_of q k of None \<Rightarrow> [] | Some v \<Rightarrow> v)"

definition values_set :: "url_values \<Rightarrow> string \<Rightarrow> string \<Rightarrow> url_values" where
  "values_set q k v = filter (\<lambda>p. fst p \<noteq> k) q @ [(k, v)]"

definition encode_pair :: "string \<times> string \<Rightarrow> string" where
  "encode_pair p = QueryEscape (fst p) @ ''='' @ QueryEscape (snd p)"

fun join_char :: "char \<Rightarrow> string list \<Rightarrow> string" where
  "join_char c [] = []"
| "join_char c [w] = w"
| "join_char c (w # ws) = w @ c # join_char c ws"

definition values_encode :: "url_values \<Rightarrow> string" where
  "values_encode q = join_char CHR ''&'' (map encode_pair (sort_key fst q))"

section \<open>URLs\<close>

record url =
  url_scheme :: string
  url_host :: string
  url_omit_host :: bool
  url_path :: string
  url_raw_path :: string
  url_query :: string

definition is_ctl :: "char \<Rightarrow> bool" where
  "is_ctl c = (of_char c < (32 :: nat) \<or> of_char c = (127 :: nat))"

definition is_alpha :: "char \<Rightarrow> bool" where
  "is_alpha c = (is_alnum c \<and> \<not> is_digit c)"

text \<open>\<open>getScheme\<close>: \<open>None\<close> is the error of a leading colon; the accumulator is the text seen so far.\<close>

fun get_scheme :: "string \<Rightarrow> string \<Rightarrow> string \<Rightarrow> (string \<times> string) option" where
  "get_scheme raw seen [] = Some ([], raw)"
| "get_scheme raw seen (c # cs) =
     (if is_alpha c then get_scheme raw (seen @ [c]) cs
      else if is_digit c \<or> c \<in> set ''+-.'' then
        (if seen = [] then Some ([], raw) else get_scheme raw (seen @ [c]) cs)
      else if c = CHR '':'' then (if seen = [] then None else Some (seen, cs))
      else Some ([], raw))"

definition host_char :: "char \<Rightarrow> bool" where
  "host_char c = (url_plain c \<or> c = CHR '':'')"

definition split_authority :: "string \<Rightarrow> string \<times> string" where
  "split_authority s = (takeWhile (\<lambda>c. c \<noteq> CHR ''/'') s, dropWhile (\<lambda>c. c \<noteq> CHR ''/'') s)"

definition valid_port :: "string \<Rightarrow> bool" where
  "valid_port h = (case cut_char CHR '':'' h of None \<Rightarrow> True | Some (_, p) \<Rightarrow> list_all is_digit p)"

definition set_path :: "string \<Rightarrow> string \<Rightarrow> bool \<Rightarrow> string \<Rightarrow> string \<Rightarrow> url option" where
  "set_path scheme host omit p query =
     (case unescape EncodePath p of
        None \<Rightarrow> None
      | Some path \<Rightarrow> Some \<lparr>url_scheme = scheme, url_host = host, url_omit_host = omit, url_path = path,
          url_raw_path = (if p = escape EncodePath path then [] else p), url_query = query\<rparr>)"

definition url_parse :: "string \<Rightarrow> url option" where
  "url_parse raw0 =
     (let raw = (case cut_char CHR ''#'' raw0 of None \<Rightarrow> raw0 | Some (u, _) \<Rightarrow> u) in
      if list_ex is_ctl raw then None
      else case get_scheme raw [] raw of
        None \<Rightarrow> None
      | Some (scheme0, rest0) \<Rightarrow>
          let scheme = to_lower scheme0;
              (rest, query) = (case cut_char CHR ''?'' rest0 of None \<Rightarrow> (rest0, []) | Some rq \<Rightarrow> rq)
          in if \<not> has_prefix rest ''/'' then
               (if scheme \<noteq> [] then None
                else if CHR '':'' \<in> set (takeWhile (\<lambda>c. c \<noteq> CHR ''/'') rest) then None
                else set_path scheme [] False rest query)
             else if has_prefix rest ''//'' \<and> (scheme \<noteq> [] \<or> \<not> has_prefix rest ''///'') then
               (let (authority, p) = split_authority (drop 2 rest) in
                if list_all host_char authority \<and> valid_port authority then set_path scheme authority False p query
                else None)
             else set_path scheme [] (scheme \<noteq> []) rest query)"

definition valid_encoded_path :: "string \<Rightarrow> bool" where
  "valid_encoded_path p =
     list_all (\<lambda>c. c \<in> set ''!$&()*+,;=:@[]%'' \<or> c = CHR 0x27 \<or> \<not> should_escape EncodePath c) p"

definition escaped_path :: "url \<Rightarrow> string" where
  "escaped_path u =
     (if url_raw_path u \<noteq> [] \<and> valid_encoded_path (url_raw_path u)
         \<and> unescape EncodePath (url_raw_path u) = Some (url_path u) then url_raw_path u
      else if url_path u = ''*'' then ''*''
      else escape EncodePath (url_path u))"

definition url_string :: "url \<Rightarrow> string" where
  "url_string u =
     (let pre = (if url_scheme u \<noteq> [] then url_scheme u @ '':'' else [])
              @ (if (url_scheme u \<noteq> [] \<or> url_host u \<noteq> []) \<and> \<not> (url_omit_host u \<and> url_host u = [])
                     \<and> (url_host u \<noteq> [] \<or> url_path u \<noteq> [])
                 then ''//'' @ url_host u else []);
          path = escaped_path u;
          slash = (if path \<noteq> [] \<and> \<not> has_prefix path ''/'' \<and> url_host u \<noteq> [] then ''/'' else []);
          dot = (if pre @ slash = [] \<and> CHR '':'' \<in> set (takeWhile (\<lambda>c. c \<noteq> CHR ''/'') path) then ''./'' else [])
      in pre @ slash @ dot @ path @ (if url_query u \<noteq> [] then ''?'' @ url_query u else []))"

section \<open>Escaping round trips\<close>

lemma less_16_cases:
  assumes "n < (16 :: nat)"
  obtains "n = 0" | "n = 1" | "n = 2" | "n = 3" | "n = 4" | "n = 5" | "n = 6" | "n = 7"
    | "n = 8" | "n = 9" | "n = 10" | "n = 11" | "n = 12" | "n = 13" | "n = 14" | "n = 15"
  using assms by (auto simp: less_Suc_eq numeral_eq_Suc)

lemma hex_val_upper_hex [simp]:
  assumes "n < 16"
  shows "hex_val (upper_hex n) = Some n"
  using assms by (rule less_16_cases) (simp_all add: upper_hex_def hex_val_def is_digit_def less_eq_char_def)

lemma char_hex: "char_of (16 * (of_char c div 16) + of_char c mod 16 :: nat) = c"
  by simp

lemma percent_escaped: "should_escape mode CHR ''%''"
  and plus_escaped: "should_escape EncodeQuery CHR ''+''"
  by (simp_all add: should_escape_def url_plain_def is_alnum_def is_digit_def less_eq_char_def)

lemma unescape_escape_char: "unescape mode (escape_char mode c @ t) = map_option ((#) c) (unescape mode t)"
proof -
  have "of_char c div 16 < (16 :: nat)" using nat_of_char_less_256 [of c] by (simp add: less_mult_imp_div_less)
  then show ?thesis using percent_escaped [of mode] plus_escaped
    by (cases mode) (auto simp: escape_char_def char_hex)
qed

lemma unescape_escape [simp]: "unescape mode (escape mode s) = Some s"
  by (induction s) (simp_all add: escape_def unescape_escape_char)

section \<open>Query round trip\<close>

lemma upper_hex_plain: "n < 16 \<Longrightarrow> url_plain (upper_hex n)"
  by (rule less_16_cases [of n])
     (simp_all add: upper_hex_def url_plain_def is_alnum_def is_digit_def less_eq_char_def)

lemma QueryEscape_chars:
  assumes "c \<in> set (QueryEscape s)"
  shows "url_plain c \<or> c = CHR ''%'' \<or> c = CHR ''+''"
proof -
  have "url_plain c \<or> c = CHR ''%'' \<or> c = CHR ''+''" if "c \<in> set (escape_char EncodeQuery x)" for x
    using that upper_hex_plain [of "of_char x div 16"] upper_hex_plain [of "of_char x mod 16"] nat_of_char_less_256 [of x]
    by (auto simp: escape_char_def should_escape_def less_mult_imp_div_less split: if_splits)
  then show ?thesis using assms by (auto simp: QueryEscape_def escape_def)
qed

definition query_safe :: "char \<Rightarrow> bool" where
  "query_safe c = (url_plain c \<or> c = CHR ''%'' \<or> c = CHR ''+'')"

lemma query_safe_not: "query_safe c \<Longrightarrow> c \<noteq> CHR ''&'' \<and> c \<noteq> CHR ''='' \<and> c \<noteq> CHR '';'' \<and> c \<noteq> CHR ''#'' \<and> \<not> is_ctl c"
  by (auto simp: query_safe_def url_plain_def is_alnum_def is_digit_def less_eq_char_def is_ctl_def)

lemma QueryEscape_safe: "c \<in> set (QueryEscape s) \<Longrightarrow> query_safe c"
  using QueryEscape_chars by (auto simp: query_safe_def)

lemma QueryEscape_no_sep [simp]:
  "CHR ''&'' \<notin> set (QueryEscape s)" "CHR ''='' \<notin> set (QueryEscape s)" "CHR '';'' \<notin> set (QueryEscape s)"
  using QueryEscape_safe query_safe_not by blast+

lemma unescape_QueryEscape [simp]: "unescape EncodeQuery (QueryEscape s) = Some s"
  by (simp add: QueryEscape_def)

lemma parse_encode_pair [simp]: "parse_pair (encode_pair p) = Some p"
  by (simp add: parse_pair_def encode_pair_def cut_char_append)

lemma encode_pair_no_amp: "CHR ''&'' \<notin> set (encode_pair p)"
  by (simp add: encode_pair_def)

lemma split_join:
  "ws \<noteq> [] \<Longrightarrow> (\<And>w. w \<in> set ws \<Longrightarrow> c \<notin> set w) \<Longrightarrow> split_char c (join_char c ws) = ws"
proof (induction ws rule: join_char.induct)
  case (3 c w v vs)
  then show ?case by (simp add: split_char_append)
qed (auto simp: split_char_no_sep)

lemma map_filter_parse: "List.map_filter parse_pair (map encode_pair q) = q"
  by (induction q) (simp_all add: List.map_filter_simps)

lemma parse_values_encode: "parse_query (values_encode q) = sort_key fst q"
proof (cases "q = []")
  case True then show ?thesis by (simp add: parse_query_def values_encode_def List.map_filter_simps parse_pair_def)
next
  case False
  then have "split_char CHR ''&'' (values_encode q) = map encode_pair (sort_key fst q)"
    unfolding values_encode_def using encode_pair_no_amp
    by (intro split_join) (auto, metis length_0_conv length_sort)
  then show ?thesis by (simp add: parse_query_def map_filter_parse)
qed

text \<open>Sorting the pairs by key is stable, so it changes no lookup.\<close>

lemma map_of_filter_key: "map_of (filter (\<lambda>p. fst p = k) q) k = map_of q k"
  by (induction q) auto

lemma map_of_sort: "map_of (sort_key fst q) k = map_of q k"
  using map_of_filter_key [of k "sort_key fst q"] map_of_filter_key [of k q]
  by (simp add: sort_key_stable)

lemma values_get_sort [simp]: "values_get (sort_key fst q) k = values_get q k"
  by (simp add: values_get_def map_of_sort)

lemma values_get_set [simp]: "values_get (values_set q k v) k = v"
proof -
  have "map_of (filter (\<lambda>p. fst p \<noteq> k) q) k = None" by (induction q) auto
  then show ?thesis by (simp add: values_get_def values_set_def map_add_def)
qed

lemma values_get_set_other [simp]: "k' \<noteq> k \<Longrightarrow> values_get (values_set q k v) k' = values_get q k'"
proof -
  assume k: "k' \<noteq> k"
  then have "map_of (filter (\<lambda>p. fst p \<noteq> k) q) k' = map_of q k'" by (induction q) auto
  then show ?thesis using k by (simp add: values_get_def values_set_def map_add_def split: option.split)
qed

lemma join_chars: "c \<in> set (join_char x ws) \<Longrightarrow> c = x \<or> (\<exists>w \<in> set ws. c \<in> set w)"
  by (induction ws rule: join_char.induct) auto

lemma values_encode_chars:
  assumes "c \<in> set (values_encode q)"
  shows "query_safe c \<or> c = CHR ''&'' \<or> c = CHR ''=''"
  using join_chars [OF assms [unfolded values_encode_def]]
  by (auto simp: encode_pair_def dest: QueryEscape_safe)

section \<open>Plain URLs\<close>

text \<open>
  The URLs of the service: an origin, or nothing, then a path of unreserved characters, then a
  query. They parse to their parts and print back unchanged.
\<close>

definition path_char :: "char \<Rightarrow> bool" where
  "path_char c = (url_plain c \<or> c = CHR ''/'')"

definition plain_path :: "string \<Rightarrow> bool" where
  "plain_path p = (has_prefix p ''/'' \<and> \<not> has_prefix p ''//'' \<and> list_all path_char p)"

definition query_char :: "char \<Rightarrow> bool" where
  "query_char c = (query_safe c \<or> c = CHR ''&'' \<or> c = CHR ''='')"

text \<open>A configured base: empty, or http(s) with a host and an optional port.\<close>

definition plain_base :: "string \<Rightarrow> string \<times> string \<Rightarrow> bool" where
  "plain_base b sh = (case sh of (s, h) \<Rightarrow>
     (s = [] \<and> h = [] \<and> b = []) \<or>
     ((s = ''http'' \<or> s = ''https'') \<and> h \<noteq> [] \<and> list_all host_char h \<and> valid_port h \<and> b = s @ ''://'' @ h))"

lemma path_char_not: "path_char c \<Longrightarrow> c \<noteq> CHR ''?'' \<and> c \<noteq> CHR ''#'' \<and> c \<noteq> CHR ''%'' \<and> c \<noteq> CHR '':'' \<and> \<not> is_ctl c"
  by (auto simp: path_char_def url_plain_def is_alnum_def is_digit_def less_eq_char_def is_ctl_def)

lemma host_char_not: "host_char c \<Longrightarrow> c \<noteq> CHR ''?'' \<and> c \<noteq> CHR ''#'' \<and> c \<noteq> CHR ''/'' \<and> \<not> is_ctl c"
  by (auto simp: host_char_def url_plain_def is_alnum_def is_digit_def less_eq_char_def is_ctl_def)

lemma query_char_not: "query_char c \<Longrightarrow> c \<noteq> CHR ''#'' \<and> \<not> is_ctl c"
  using query_safe_not [of c] by (auto simp: query_char_def is_ctl_def)

definition url_safe :: "char \<Rightarrow> bool" where
  "url_safe c = (c \<noteq> CHR ''#'' \<and> \<not> is_ctl c)"

lemma safe_chars:
  "list_all host_char h \<Longrightarrow> list_all url_safe h"
  "list_all path_char p \<Longrightarrow> list_all url_safe p"
  "list_all query_char q \<Longrightarrow> list_all url_safe q"
proof -
  show "list_all host_char h \<Longrightarrow> list_all url_safe h"
    by (induction h) (simp_all add: url_safe_def host_char_not)
  show "list_all path_char p \<Longrightarrow> list_all url_safe p"
    by (induction p) (simp_all add: url_safe_def path_char_not)
  show "list_all query_char q \<Longrightarrow> list_all url_safe q"
    by (induction q) (simp_all add: url_safe_def query_char_not)
qed

lemma no_sep:
  "list_all path_char p \<Longrightarrow> CHR ''?'' \<notin> set p \<and> CHR '':'' \<notin> set p"
  "list_all host_char h \<Longrightarrow> CHR ''?'' \<notin> set h \<and> CHR ''/'' \<notin> set h"
proof -
  show "list_all path_char p \<Longrightarrow> CHR ''?'' \<notin> set p \<and> CHR '':'' \<notin> set p"
    by (induction p) (auto dest: path_char_not)
  show "list_all host_char h \<Longrightarrow> CHR ''?'' \<notin> set h \<and> CHR ''/'' \<notin> set h"
    by (induction h) (auto dest: host_char_not)
qed

lemma escape_path_plain: "list_all path_char p \<Longrightarrow> escape EncodePath p = p"
proof (induction p)
  case (Cons c p)
  then have "escape_char EncodePath c = [c]"
    by (auto simp: escape_char_def should_escape_def path_char_def)
  then show ?case using Cons by (simp add: escape_def)
qed (simp add: escape_def)

lemma unescape_path_plain: "list_all path_char p \<Longrightarrow> unescape EncodePath p = Some p"
  using unescape_escape [of EncodePath p] by (simp add: escape_path_plain)

lemma set_path_plain:
  "list_all path_char p \<Longrightarrow> set_path s h b p q = Some \<lparr>url_scheme = s, url_host = h, url_omit_host = b,
     url_path = p, url_raw_path = [], url_query = q\<rparr>"
  by (simp add: set_path_def unescape_path_plain escape_path_plain)

lemma get_scheme_slash: "get_scheme raw [] (CHR ''/'' # t) = Some ([], raw)"
  by (simp add: is_alpha_def is_alnum_def is_digit_def less_eq_char_def)

lemma get_scheme_http:
  "get_scheme raw [] (''http'' @ CHR '':'' # t) = Some (''http'', t)"
  "get_scheme raw [] (''https'' @ CHR '':'' # t) = Some (''https'', t)"
  by (simp_all add: is_alpha_def is_alnum_def is_digit_def less_eq_char_def)

lemma to_lower_http [simp]: "to_lower ''http'' = ''http''" "to_lower ''https'' = ''https''"
  by (simp_all add: to_lower_def lower_char_def less_eq_char_def)

lemma split_authority_plain:
  assumes "CHR ''/'' \<notin> set h"
  shows "split_authority (h @ CHR ''/'' # p) = (h, CHR ''/'' # p)"
proof -
  have "takeWhile (\<lambda>c. c \<noteq> CHR ''/'') (h @ CHR ''/'' # p) = h"
    using assms by (subst takeWhile_append2) auto
  moreover have "dropWhile (\<lambda>c. c \<noteq> CHR ''/'') (h @ CHR ''/'' # p) = CHR ''/'' # p"
    using assms by (subst dropWhile_append2) auto
  ultimately show ?thesis by (simp add: split_authority_def)
qed

lemma url_parse_plain:
  assumes "plain_base b (s, h)" "plain_path p" "list_all query_char q"
  shows "url_parse (b @ p @ CHR ''?'' # q) = Some \<lparr>url_scheme = s, url_host = h, url_omit_host = False,
    url_path = p, url_raw_path = [], url_query = q\<rparr>"
proof -
  let ?raw = "b @ p @ CHR ''?'' # q"
  obtain p' where p': "p = CHR ''/'' # p'" using assms(2) by (cases p) (auto simp: plain_path_def has_prefix_def)
  have pc: "list_all path_char p" "\<not> has_prefix p ''//''" using assms(2) by (auto simp: plain_path_def)
  have qp: "CHR ''?'' \<notin> set p" using no_sep(1) [OF pc(1)] by simp
  have "list_all url_safe b" using assms(1) by (auto simp: plain_base_def safe_chars url_safe_def is_ctl_def)
  then have "list_all url_safe ?raw" using pc(1) assms(3) by (simp add: safe_chars) (simp add: url_safe_def is_ctl_def)
  then have nofrag: "cut_char CHR ''#'' ?raw = None" and noctl: "\<not> list_ex is_ctl ?raw"
    by (auto simp: cut_char_None list_ex_iff list_all_iff url_safe_def)
  show ?thesis
  proof (cases "b = []")
    case True
    then have sh: "s = []" "h = []" using assms(1) by (auto simp: plain_base_def)
    have cut: "cut_char CHR ''?'' ?raw = Some (p, q)" using True qp by (simp add: cut_char_append)
    have sl: "has_prefix p ''/''" using p' by (simp add: has_prefix_def)
    have gs: "get_scheme ?raw [] ?raw = Some ([], ?raw)" using True p' by (simp add: get_scheme_slash del: get_scheme.simps)
    show ?thesis unfolding url_parse_def nofrag Let_def option.case gs cut prod.case
      using noctl sl pc sh by (simp add: set_path_plain to_lower_def)
  next
    case False
    then have b: "b = s @ CHR '':'' # ''//'' @ h" "s = ''http'' \<or> s = ''https''" "h \<noteq> []" "list_all host_char h" "valid_port h"
      using assms(1) by (auto simp: plain_base_def)
    have gs: "get_scheme ?raw [] ?raw = Some (s, ''//'' @ h @ p @ CHR ''?'' # q)"
      using b(1,2) get_scheme_http [of ?raw] by (auto simp del: get_scheme.simps)
    have hq: "CHR ''?'' \<notin> set (''//'' @ h @ p)" using no_sep(2) [OF b(4)] qp by simp
    have cut: "cut_char CHR ''?'' (''//'' @ h @ p @ CHR ''?'' # q) = Some (''//'' @ h @ p, q)"
      using cut_char_append [OF hq, of q] by simp
    have low: "to_lower s = s" "s \<noteq> []" using b(2) by auto
    have hs: "CHR ''/'' \<notin> set h" using no_sep(2) [OF b(4)] by simp
    show ?thesis unfolding url_parse_def nofrag Let_def option.case gs cut prod.case low
      using noctl low b pc split_authority_plain [OF hs, of p']
      by (simp add: has_prefix_def p' set_path_plain)
  qed
qed

lemma url_string_plain:
  assumes "plain_base b (s, h)" "plain_path p" "q \<noteq> []"
  shows "url_string \<lparr>url_scheme = s, url_host = h, url_omit_host = False,
    url_path = p, url_raw_path = [], url_query = q\<rparr> = b @ p @ CHR ''?'' # q"
proof -
  have pc: "list_all path_char p" "has_prefix p ''/''" using assms(2) by (auto simp: plain_path_def)
  then have "p \<noteq> ''*''" "p \<noteq> []" by (auto simp: has_prefix_def)
  have nc: "CHR '':'' \<notin> set (takeWhile (\<lambda>c. c \<noteq> CHR ''/'') p)"
    using no_sep(1) [OF pc(1)] set_takeWhileD by fastforce
  have e: "escaped_path \<lparr>url_scheme = s, url_host = h, url_omit_host = False,
    url_path = p, url_raw_path = [], url_query = q\<rparr> = p"
    using pc \<open>p \<noteq> ''*''\<close> by (simp add: escaped_path_def escape_path_plain)
  show ?thesis using assms(1,3) pc nc \<open>p \<noteq> []\<close> by (auto simp: url_string_def Let_def e plain_base_def)
qed

end
