(* ===== verification/Sign.thy ===== *)
theory Sign
  imports Go_Url Media_Types
begin

text \<open>
  The two signers (internal/service/sign.go). The keyed hash is a parameter: \<open>hm k m\<close> is
  HMAC-SHA256 of the message m under the key k, as bytes. The download signer binds path, intent,
  capability context and expiry; the imgproxy signer signs a processing path. Times are
  nanoseconds and an expiry travels as whole seconds.
\<close>

type_synonym hmac = "string \<Rightarrow> string \<Rightarrow> string"

section \<open>base64 (URL alphabet, no padding) and hex\<close>

definition b64_alphabet :: string where
  "b64_alphabet = ''ABCDEFGHIJKLMNOPQRSTUVWXYZabcdefghijklmnopqrstuvwxyz0123456789-_''"

definition b64_char :: "nat \<Rightarrow> char" where
  "b64_char n = b64_alphabet ! n"

fun b64url :: "string \<Rightarrow> string" where
  "b64url [] = []"
| "b64url [a] = (let n = of_char a * 16 in [b64_char (n div 64), b64_char (n mod 64)])"
| "b64url [a, b] = (let n = (of_char a * 256 + of_char b) * 4 in
     [b64_char (n div 4096), b64_char (n div 64 mod 64), b64_char (n mod 64)])"
| "b64url (a # b # c # rest) = (let n = (of_char a * 256 + of_char b) * 256 + of_char c in
     [b64_char (n div 262144), b64_char (n div 4096 mod 64), b64_char (n div 64 mod 64), b64_char (n mod 64)]
     @ b64url rest)"

fun hex_decode :: "string \<Rightarrow> string option" where
  "hex_decode [] = Some []"
| "hex_decode [c] = None"
| "hex_decode (h # l # rest) =
     (case (hex_val h, hex_val l) of
        (Some a, Some b) \<Rightarrow> map_option ((#) (char_of (16 * a + b))) (hex_decode rest)
      | _ \<Rightarrow> None)"

section \<open>The download signer\<close>

definition NUL :: char where "NUL = CHR 0x00"

definition unix :: "time \<Rightarrow> int" where "unix t = t div 1000000000"
definition time_unix :: "int \<Rightarrow> time" where "time_unix n = n * 1000000000"

text \<open>A signer is its key; \<open>None\<close> is the nil signer.\<close>

definition newSigner :: "string \<Rightarrow> string option" where
  "newSigner key = (if key = [] then None else Some key)"

definition sig_message :: "string \<Rightarrow> string \<Rightarrow> string \<Rightarrow> string \<Rightarrow> string" where
  "sig_message path i grantID expUnix = path @ [NUL] @ i @ [NUL] @ grantID @ [NUL] @ expUnix"

definition mac :: "hmac \<Rightarrow> string \<Rightarrow> string \<Rightarrow> string \<Rightarrow> string \<Rightarrow> string \<Rightarrow> string" where
  "mac hm key path i grantID expUnix = b64url (hm key (sig_message path i grantID expUnix))"

definition sign :: "hmac \<Rightarrow> string \<Rightarrow> string \<Rightarrow> string \<Rightarrow> string \<Rightarrow> time \<Rightarrow> string" where
  "sign hm key rawURL i grantID expiry =
     (case url_parse rawURL of
        None \<Rightarrow> rawURL
      | Some u \<Rightarrow>
          (let expUnix = dec (unix expiry);
               m = mac hm key (url_path u) i grantID expUnix;
               q = values_set (values_set (parse_query (url_query u)) ''exp'' expUnix) ''sig'' m
           in url_string (u\<lparr>url_query := values_encode q\<rparr>)))"

definition verify :: "hmac \<Rightarrow> string \<Rightarrow> time \<Rightarrow> string \<Rightarrow> string \<Rightarrow> string \<Rightarrow> bool" where
  "verify hm key now rawURL i grantID =
     (case url_parse rawURL of
        None \<Rightarrow> False
      | Some u \<Rightarrow>
          (let q = parse_query (url_query u);
               expUnix = values_get q ''exp'';
               got = values_get q ''sig''
           in if expUnix = [] \<or> got = [] then False
              else case parse_int expUnix of
                None \<Rightarrow> False
              | Some e \<Rightarrow>
                  if now > time_unix e then False
                  else got = mac hm key (url_path u) i grantID expUnix))"

section \<open>The imgproxy signer\<close>

record imgproxy_signer =
  im_key :: string
  im_salt :: string

definition newImgproxySigner :: "string \<Rightarrow> string \<Rightarrow> imgproxy_signer option" where
  "newImgproxySigner keyHex saltHex =
     (if keyHex = [] \<or> saltHex = [] then None
      else case (hex_decode keyHex, hex_decode saltHex) of
        (Some k, Some s) \<Rightarrow> if length k = 0 \<or> length s = 0 then None else Some \<lparr>im_key = k, im_salt = s\<rparr>
      | _ \<Rightarrow> None)"

definition signPath :: "hmac \<Rightarrow> imgproxy_signer \<Rightarrow> string \<Rightarrow> string" where
  "signPath hm s path = ''/'' @ b64url (hm (im_key s) (im_salt s @ path)) @ path"

definition trim_right_slash :: "string \<Rightarrow> string" where
  "trim_right_slash s = rev (dropWhile (\<lambda>c. c = CHR ''/'') (rev s))"

definition imgproxy_path :: "string \<Rightarrow> string \<Rightarrow> time option \<Rightarrow> string" where
  "imgproxy_path preset source expiry =
     (case expiry of
        Some e \<Rightarrow> ''/pr:'' @ preset @ ''/exp:'' @ dec (unix e) @ ''/plain/'' @ source
      | None \<Rightarrow> ''/'' @ preset @ ''/plain/'' @ source)"

definition imgproxy_signed_url :: "hmac \<Rightarrow> imgproxy_signer \<Rightarrow> string \<Rightarrow> string \<Rightarrow> string \<Rightarrow> time option \<Rightarrow> string" where
  "imgproxy_signed_url hm s base preset source expiry =
     trim_right_slash base @ signPath hm s (imgproxy_path preset source expiry)"

section \<open>The message determines its fields\<close>

lemma nul_split:
  "a @ NUL # b = a' @ NUL # b' \<Longrightarrow> NUL \<notin> set a \<Longrightarrow> NUL \<notin> set a' \<Longrightarrow> a = a' \<and> b = b'"
proof (induction a arbitrary: a')
  case Nil then show ?case by (cases a') auto
next
  case (Cons x a) then show ?case by (cases a') auto
qed

lemma nul_split_last:
  assumes "a @ NUL # b = a' @ NUL # b'" "NUL \<notin> set b" "NUL \<notin> set b'"
  shows "a = a' \<and> b = b'"
proof -
  have "rev b @ NUL # rev a = rev b' @ NUL # rev a'"
    using arg_cong [OF assms(1), of rev] by simp
  from nul_split [OF this] assms show ?thesis by simp
qed

lemma sig_message_inj:
  assumes "sig_message p i g e = sig_message p' i' g' e'"
    "NUL \<notin> set p" "NUL \<notin> set p'" "NUL \<notin> set i" "NUL \<notin> set i'" "NUL \<notin> set e" "NUL \<notin> set e'"
  shows "p = p' \<and> i = i' \<and> g = g' \<and> e = e'"
proof -
  have "p @ NUL # (i @ NUL # (g @ NUL # e)) = p' @ NUL # (i' @ NUL # (g' @ NUL # e'))"
    using assms(1) by (simp add: sig_message_def)
  from nul_split [OF this] assms have "p = p'" "i @ NUL # (g @ NUL # e) = i' @ NUL # (g' @ NUL # e')" by auto
  moreover from nul_split [OF this(2)] assms have "i = i'" "g @ NUL # e = g' @ NUL # e'" by auto
  moreover from nul_split_last [OF this(2)] assms have "g = g'" "e = e'" by auto
  ultimately show ?thesis by simp
qed

lemma dec_no_nul: "NUL \<notin> set (dec n)"
  by (auto simp: NUL_def is_digit_def less_eq_char_def dest: dec_chars)

lemma b64url_Nil_iff [simp]: "b64url s = [] \<longleftrightarrow> s = []"
  by (cases s rule: b64url.cases) (simp_all add: Let_def)

lemma parse_int_no_nul:
  assumes "parse_int s = Some n"
  shows "NUL \<notin> set s"
proof -
  have d: "NUL \<notin> set t" if "parse_digits t k = Some m" for t k m
    using that by (induction t k rule: parse_digits.induct)
      (auto simp: NUL_def is_digit_def less_eq_char_def split: if_splits)
  have u: "NUL \<notin> set t" if "parse_uint t = Some m" for t m
    using that d by (auto simp: parse_uint_def split: if_splits)
  show ?thesis
  proof (cases s)
    case (Cons c cs)
    then show ?thesis using assms u [of cs] u [of s]
      by (auto simp: parse_int_def Let_def NUL_def split: if_splits option.splits)
  qed simp
qed

section \<open>Signed URLs\<close>

lemma sign_plain:
  assumes "plain_base b (s, h)" "plain_path p" "list_all query_char q"
  shows "sign hm key (b @ p @ CHR ''?'' # q) i g t =
    b @ p @ CHR ''?'' # values_encode (values_set (values_set (parse_query q) ''exp'' (dec (unix t))) ''sig''
      (mac hm key p i g (dec (unix t))))"
proof -
  have "values_encode (values_set Q k v) \<noteq> []" for Q k v
  proof
    assume "values_encode (values_set Q k v) = []"
    then have "sort_key fst (values_set Q k v) = []"
      using parse_values_encode [of "values_set Q k v"] by (simp add: parse_query_def List.map_filter_simps parse_pair_def)
    then show False by (simp add: values_set_def flip: length_0_conv)
  qed
  then show ?thesis by (simp add: sign_def url_parse_plain [OF assms] Let_def url_string_plain [OF assms(1,2)])
qed

lemma values_encode_query: "list_all query_char (values_encode q)"
  using values_encode_chars by (auto simp: list_all_iff query_char_def)

lemma sign_verify:
  assumes "plain_base b (s, h)" "plain_path p" "list_all query_char q" "int64_range (unix t)" "\<And>k m. hm k m \<noteq> []"
  shows "verify hm key now (sign hm key (b @ p @ CHR ''?'' # q) i g t) i' g' =
    (now \<le> time_unix (unix t) \<and> mac hm key p i' g' (dec (unix t)) = mac hm key p i g (dec (unix t)))"
proof -
  have "mac hm key p i g (dec (unix t)) \<noteq> []" using assms(5) by (simp add: mac_def)
  then show ?thesis unfolding sign_plain [OF assms(1-3)]
    by (auto simp: verify_def url_parse_plain [OF assms(1,2) values_encode_query] Let_def
        parse_values_encode assms(4))
qed

text \<open>A toy keyed hash for concrete runs: key and message with the separators kept.\<close>

definition toy_hmac :: hmac where "toy_hmac k m = k @ ''|'' @ m"

text \<open>A URL the signer signs verifies exactly until its expiry second and exactly for the intent and
  capability context it was signed for (up to a collision of the keyed hash), whatever other
  query parameters it carries.\<close>
theorem signed_url_exact:
  assumes "plain_base b (s, h)" "plain_path p" "list_all query_char q" "int64_range (unix t)"
    and hash_nonempty: "\<And>k m. hm k m \<noteq> []"
  shows "verify hm key now (sign hm key (b @ p @ CHR ''?'' # q) i g t) i' g' =
    (now \<le> time_unix (unix t)
     \<and> b64url (hm key (sig_message p i' g' (dec (unix t)))) = b64url (hm key (sig_message p i g (dec (unix t)))))"
  using sign_verify [OF assms] by (simp add: mac_def)

lemma signed_url_exact_witness:
  "verify toy_hmac ''k'' 5000000000
     (sign toy_hmac ''k'' (''https://p.io'' @ ''/v1/download/delivery/a/A1/loop'' @ CHR ''?'' # ''intent=loop&grant=G1'') ''loop'' ''G1'' 7500000000)
     ''loop'' ''G1''
   \<and> \<not> verify toy_hmac ''k'' 8000000000
     (sign toy_hmac ''k'' (''https://p.io'' @ ''/v1/download/delivery/a/A1/loop'' @ CHR ''?'' # ''intent=loop&grant=G1'') ''loop'' ''G1'' 7500000000)
     ''loop'' ''G1''"
proof -
  have b: "plain_base ''https://p.io'' (''https'', ''p.io'')"
    by (simp add: plain_base_def host_char_def url_plain_def is_alnum_def is_digit_def less_eq_char_def valid_port_def)
  have p: "plain_path ''/v1/download/delivery/a/A1/loop''"
    by (simp add: plain_path_def has_prefix_def path_char_def url_plain_def is_alnum_def is_digit_def less_eq_char_def)
  have q: "list_all query_char ''intent=loop&grant=G1''"
    by (simp add: query_char_def query_safe_def url_plain_def is_alnum_def is_digit_def less_eq_char_def)
  show ?thesis
    using signed_url_exact [OF b p q, of 7500000000 toy_hmac "''k''" 5000000000 "''loop''" "''G1''" "''loop''" "''G1''"]
      signed_url_exact [OF b p q, of 7500000000 toy_hmac "''k''" 8000000000 "''loop''" "''G1''" "''loop''" "''G1''"]
    by (simp add: int64_range_def unix_def time_unix_def toy_hmac_def)
qed

section \<open>Capability contexts\<close>

definition ownerOriginalSentinel :: string where
  "ownerOriginalSentinel = NUL # ''owner-original''"

definition exportSigContext :: "string \<Rightarrow> string" where
  "exportSigContext exportID = NUL # ''export'' @ [NUL] @ exportID"

text \<open>C23: The three kinds of capability never stand in for one another, for paths and intents free of
  NUL: if a request for such a path and intent verifies with the very signature that was minted for
  such a path and intent, in some context and with some expiry, then it asks for that path and
  intent in that context with that expiry, unless the keyed hash collides. The context may be
  anything, so a grant id cannot play the owner sentinel or an export context. Without the
  restriction the statement is false: an intent that ends in NUL shifts the boundary, as the lemma
  below shows.\<close>
theorem capability_domains:
  assumes "url_parse raw = Some u" "verify hm key now raw i' c'"
    and "values_get (parse_query (url_query u)) ''sig'' = mac hm key p i c (dec n)"
    and "NUL \<notin> set p" "NUL \<notin> set i" "NUL \<notin> set (url_path u)" "NUL \<notin> set i'"
  shows "(url_path u = p \<and> i' = i \<and> c' = c \<and> values_get (parse_query (url_query u)) ''exp'' = dec n)
    \<or> (let m = sig_message p i c (dec n);
           m' = sig_message (url_path u) i' c' (values_get (parse_query (url_query u)) ''exp'')
       in m \<noteq> m' \<and> b64url (hm key m) = b64url (hm key m'))"
proof -
  let ?e = "values_get (parse_query (url_query u)) ''exp''"
  obtain e where e: "parse_int ?e = Some e"
    and m: "mac hm key p i c (dec n) = mac hm key (url_path u) i' c' ?e"
    using assms(1-3) by (auto simp: verify_def Let_def split: if_splits option.splits)
  show ?thesis
  proof (cases "sig_message p i c (dec n) = sig_message (url_path u) i' c' ?e")
    case True
    then show ?thesis using sig_message_inj [OF True] assms dec_no_nul parse_int_no_nul [OF e] by auto
  next
    case False then show ?thesis using m by (simp add: mac_def Let_def)
  qed
qed

lemma capability_domains_witness:
  "\<exists>raw u. url_parse raw = Some u \<and> verify toy_hmac ''k'' 5000000000 raw ''original'' (exportSigContext ''X1'')
     \<and> url_path u = ''/v1/download/vault/a/A1'' \<and> exportSigContext ''X1'' \<noteq> ownerOriginalSentinel"
proof -
  let ?c = "exportSigContext ''X1''"
  have b: "plain_base ([] :: string) ([], [])" by (simp add: plain_base_def)
  have p: "plain_path ''/v1/download/vault/a/A1''"
    by (simp add: plain_path_def has_prefix_def path_char_def url_plain_def is_alnum_def is_digit_def less_eq_char_def)
  have q: "list_all query_char ''export=X1''"
    by (simp add: query_char_def query_safe_def url_plain_def is_alnum_def is_digit_def less_eq_char_def)
  define raw where "raw = sign toy_hmac ''k'' ([] @ ''/v1/download/vault/a/A1'' @ CHR ''?'' # ''export=X1'') ''original'' ?c 7000000000"
  define u where "u = \<lparr>url_scheme = [], url_host = [], url_omit_host = False, url_path = ''/v1/download/vault/a/A1'',
    url_raw_path = [], url_query = values_encode (values_set (values_set (parse_query ''export=X1'') ''exp'' (dec 7)) ''sig''
      (mac toy_hmac ''k'' ''/v1/download/vault/a/A1'' ''original'' ?c (dec 7)))\<rparr>"
  have u: "url_parse raw = Some u"
    unfolding raw_def sign_plain [OF b p q] url_parse_plain [OF b p values_encode_query] u_def
    by (simp add: unix_def)
  have v: "verify toy_hmac ''k'' 5000000000 raw ''original'' ?c"
    unfolding raw_def by (subst sign_verify [OF b p q]) (simp_all add: int64_range_def unix_def time_unix_def toy_hmac_def)
  have m: "values_get (parse_query (url_query u)) ''sig'' = mac toy_hmac ''k'' ''/v1/download/vault/a/A1'' ''original'' ?c (dec 7)"
    by (simp add: u_def parse_values_encode)
  have "url_path u = ''/v1/download/vault/a/A1''"
    using capability_domains [OF u v m] by (auto simp: u_def NUL_def)
  moreover have "?c \<noteq> ownerOriginalSentinel" by (simp add: exportSigContext_def ownerOriginalSentinel_def)
  ultimately show ?thesis using u v by blast
qed

text \<open>Without the NUL-free intent the boundary does shift: the message of the owner's original
  capability is also the message of the intent \<open>original\<close> followed by a NUL byte under a grant named
  owner-original, so every URL of the one verifies as the other.\<close>
theorem mac_boundary_shift:
  "verify hm key now raw (''original'' @ [NUL]) ''owner-original'' = verify hm key now raw ''original'' ownerOriginalSentinel"
proof -
  have "mac hm key p (''original'' @ [NUL]) ''owner-original'' e = mac hm key p ''original'' ownerOriginalSentinel e" for p e
    by (simp add: mac_def sig_message_def ownerOriginalSentinel_def)
  then show ?thesis by (simp only: verify_def)
qed

end
