(* ===== verification/Grant_Cache.thy ===== *)
theory Grant_Cache
  imports Capabilities Sign
begin

text \<open>
  The grant-verdict cache of the service (internal/service/grantcache.go): verdicts of the store
  kept for a fixed time under the key grant NUL asset. The system of store and cache is a step
  relation over (clock, database, cache); the clock never goes back.
\<close>

type_synonym grant_cache = "string \<Rightarrow> (verdict \<times> time) option"

definition newGrantCache :: "int \<Rightarrow> int \<times> grant_cache" where
  "newGrantCache ttl = (if ttl \<le> 0 then 5 * 1000000000 else ttl, Map.empty)"

definition cache_key :: "string \<Rightarrow> string \<Rightarrow> string" where
  "cache_key grantID assetID = grantID @ [NUL] @ assetID"

definition cache_resolve ::
  "int \<Rightarrow> grant_cache \<Rightarrow> db \<Rightarrow> time \<Rightarrow> string \<Rightarrow> string \<Rightarrow> verdict \<times> grant_cache" where
  "cache_resolve ttl c d now grantID assetID =
     (let key = cache_key grantID assetID;
          fetch = (let v = ResolveGrantForDelivery d now grantID assetID in (v, c(key \<mapsto> (v, now + ttl))))
      in case c key of
           Some (v, expires) \<Rightarrow> if now < expires then (v, c) else fetch
         | None \<Rightarrow> fetch)"

inductive cache_step :: "int \<Rightarrow> time \<times> db \<times> grant_cache \<Rightarrow> time \<times> db \<times> grant_cache \<Rightarrow> bool" for ttl where
  store_moves: "t \<le> t' \<Longrightarrow> store_step d d' \<Longrightarrow> cache_step ttl (t, d, c) (t', d', c)"
| looks_up: "t \<le> t' \<Longrightarrow> cache_step ttl (t, d, c) (t', d, snd (cache_resolve ttl c d t' g i))"

inductive_cases cache_stepE: "cache_step ttl s s'"

lemma snd_cache_resolve:
  "snd (cache_resolve ttl c d now g i) k = Some e \<Longrightarrow>
    c k = Some e \<or> (k = cache_key g i \<and> e = (ResolveGrantForDelivery d now g i, now + ttl))"
  by (auto simp: cache_resolve_def Let_def split: option.splits if_splits)

lemma cache_key_inj:
  "cache_key g i = cache_key g' i' \<Longrightarrow> NUL \<notin> set g \<Longrightarrow> NUL \<notin> set i \<Longrightarrow> g = g' \<and> i = i'"
proof -
  assume k: "cache_key g i = cache_key g' i'" and n: "NUL \<notin> set g" "NUL \<notin> set i"
  have "count_list (g @ NUL # i) NUL = 1" using n by (simp add: count_notin)
  moreover have "count_list (g' @ NUL # i') NUL = count_list g' NUL + 1 + count_list i' NUL" by simp
  moreover have "g @ NUL # i = g' @ NUL # i'" using k by (simp add: cache_key_def)
  ultimately have "count_list g' NUL = 0" by (metis add_is_0 add_right_cancel add.commute add.assoc)
  then have "NUL \<notin> set g'" by (simp add: count_list_0_iff)
  then show ?thesis using nul_split [of g i g' i'] k n by (simp add: cache_key_def)
qed

text \<open>No entry outlives the clock by more than the time to live.\<close>

definition cache_ok :: "int \<Rightarrow> time \<times> db \<times> grant_cache \<Rightarrow> bool" where
  "cache_ok ttl s \<longleftrightarrow> (case s of (t, d, c) \<Rightarrow> \<forall>k v e. c k = Some (v, e) \<longrightarrow> e \<le> t + ttl)"

lemma cache_ok_empty: "cache_ok ttl (t, d, Map.empty)"
  by (simp add: cache_ok_def)

lemma cache_ok_step: "cache_step ttl s s' \<Longrightarrow> cache_ok ttl s \<Longrightarrow> cache_ok ttl s'"
proof (induction rule: cache_step.induct)
  case (store_moves t t' d d' c)
  then show ?case by (force simp: cache_ok_def)
next
  case (looks_up t t' d c g i)
  then show ?case by (auto simp: cache_ok_def dest!: snd_cache_resolve) force
qed

lemma cache_ok_steps: "(cache_step ttl)\<^sup>*\<^sup>* s s' \<Longrightarrow> cache_ok ttl s \<Longrightarrow> cache_ok ttl s'"
  by (induction rule: rtranclp_induct) (auto intro: cache_ok_step)

text \<open>Relative to a moment (T, D): the clock and the store are later, and every entry is either of
  before that moment, and then expires within the time to live, or a verdict of a later store.\<close>

definition since :: "int \<Rightarrow> time \<Rightarrow> db \<Rightarrow> time \<times> db \<times> grant_cache \<Rightarrow> bool" where
  "since ttl T D s \<longleftrightarrow> (case s of (t, d, c) \<Rightarrow> T \<le> t \<and> store_step\<^sup>*\<^sup>* D d
     \<and> (\<forall>k v e. c k = Some (v, e) \<longrightarrow> e \<le> T + ttl
          \<or> (\<exists>g i t' d'. k = cache_key g i \<and> v = ResolveGrantForDelivery d' t' g i \<and> T \<le> t' \<and> store_step\<^sup>*\<^sup>* D d')))"

lemma since_step: "cache_step ttl s s' \<Longrightarrow> since ttl T D s \<Longrightarrow> since ttl T D s'"
proof (induction rule: cache_step.induct)
  case (store_moves t t' d d' c)
  then have "store_step\<^sup>*\<^sup>* D d'" by (auto simp: since_def intro: rtranclp.rtrancl_into_rtrancl)
  then show ?case using store_moves by (auto simp: since_def)
next
  case (looks_up t t' d c g i)
  have D: "store_step\<^sup>*\<^sup>* D d" "T \<le> t'" using looks_up by (auto simp: since_def)
  show ?case unfolding since_def prod.case
  proof (intro conjI allI impI D)
    fix k v e assume "snd (cache_resolve ttl c d t' g i) k = Some (v, e)"
    then consider "c k = Some (v, e)" | "k = cache_key g i" "v = ResolveGrantForDelivery d t' g i"
      by (auto dest: snd_cache_resolve)
    then show "e \<le> T + ttl \<or> (\<exists>g i t' d'. k = cache_key g i \<and> v = ResolveGrantForDelivery d' t' g i
        \<and> T \<le> t' \<and> store_step\<^sup>*\<^sup>* D d')"
    proof cases
      case 1
      then show ?thesis using looks_up unfolding since_def prod.case by blast
    next
      case 2
      then show ?thesis using D by blast
    qed
  qed
qed

lemma since_steps: "(cache_step ttl)\<^sup>*\<^sup>* s s' \<Longrightarrow> since ttl T D s \<Longrightarrow> since ttl T D s'"
  by (induction rule: rtranclp_induct) (auto intro: since_step)

lemma cached_verdict:
  assumes "since ttl T D (now, d, c)" "T + ttl \<le> now" "NUL \<notin> set g" "NUL \<notin> set i" "now \<le> t"
  shows "\<exists>t' d'. T \<le> t' \<and> store_step\<^sup>*\<^sup>* D d' \<and> fst (cache_resolve ttl c d t g i) = ResolveGrantForDelivery d' t' g i"
proof (cases "\<exists>v e. c (cache_key g i) = Some (v, e) \<and> t < e")
  case True
  then obtain v e where c: "c (cache_key g i) = Some (v, e)" "t < e" by blast
  then have "\<not> e \<le> T + ttl" using assms by simp
  then obtain g' i' t' d' where w: "cache_key g i = cache_key g' i'" "v = ResolveGrantForDelivery d' t' g' i'" "T \<le> t'" "store_step\<^sup>*\<^sup>* D d'"
    using assms(1) c(1) unfolding since_def prod.case by blast
  have "g = g' \<and> i = i'" using cache_key_inj [OF w(1) assms(3,4)] .
  then show ?thesis using c w by (auto simp: cache_resolve_def)
next
  case False
  then have "fst (cache_resolve ttl c d t g i) = ResolveGrantForDelivery d t g i"
    by (auto simp: cache_resolve_def Let_def split: option.splits)
  moreover have "T \<le> t" "store_step\<^sup>*\<^sup>* D d" using assms by (auto simp: since_def)
  ultimately show ?thesis by blast
qed

text \<open>C22: Revocation and expiry reach every cached answer within one time to live: if a grant does not
  serve an asset at some moment, then from one time to live later on the cache answers that it
  does not, whatever was cached before and whatever lookups and store steps happen meanwhile.\<close>
theorem grant_cache_window:
  assumes "(cache_step ttl)\<^sup>*\<^sup>* (t0, d0, Map.empty) (T, D, c0)"
    and "vd_Found (ResolveGrantForDelivery D T g i)" "\<not> Live (ResolveGrantForDelivery D T g i)"
    and "(cache_step ttl)\<^sup>*\<^sup>* (T, D, c0) (now, d, c)" "T + ttl \<le> now" "NUL \<notin> set g" "NUL \<notin> set i"
  shows "\<not> Live (fst (cache_resolve ttl c d now g i))"
proof -
  have "cache_ok ttl (T, D, c0)" by (rule cache_ok_steps [OF assms(1) cache_ok_empty])
  then have "since ttl T D (T, D, c0)" by (auto simp: since_def cache_ok_def)
  then have "since ttl T D (now, d, c)" by (rule since_steps [OF assms(4)])
  then obtain t' d' where v: "T \<le> t'" "store_step\<^sup>*\<^sup>* D d'"
    "fst (cache_resolve ttl c d now g i) = ResolveGrantForDelivery d' t' g i"
    using cached_verdict [of ttl T D now d c g i now] assms by auto
  have "Live (ResolveGrantForDelivery d' t' g i) \<le> Live (ResolveGrantForDelivery D T g i)"
    using grant_later [OF v(2,1) assms(2)] by simp
  then show ?thesis using assms(3) v by (simp add: le_bool_def)
qed

text \<open>A store with one grant, looked up while it serves and again after it expired.\<close>

definition demo_granted :: db where
  "demo_granted = empty_db\<lparr>db_grants := [\<lparr>gw_id = ''G1'', gw_account = ''alice'', gw_assets = [''A1''],
     gw_recipient = None, gw_created = 1, gw_expires = 100, gw_revoked = None\<rparr>]\<rparr>"

lemma demo_granted_verdict:
  "ResolveGrantForDelivery demo_granted t ''G1'' ''A1'' = \<lparr>vd_Found = True, vd_Covers = True, vd_Revoked = False,
     vd_Expired = (100 \<le> t), vd_Account = ''alice''\<rparr>"
  by (simp add: demo_granted_def ResolveGrantForDelivery_def table_defs)

lemma grant_cache_window_witness:
  "let c0 = snd (cache_resolve 60 Map.empty demo_granted 90 ''G1'' ''A1'');
       c1 = snd (cache_resolve 60 c0 demo_granted 110 ''G2'' ''A1'');
       c2 = snd (cache_resolve 60 c1 demo_granted 170 ''G2'' ''A1'')
   in Live (fst (cache_resolve 60 c1 demo_granted 110 ''G1'' ''A1''))
      \<and> \<not> Live (fst (cache_resolve 60 c2 demo_granted 170 ''G1'' ''A1''))"
proof -
  define c0 where "c0 = snd (cache_resolve 60 Map.empty demo_granted 90 ''G1'' ''A1'')"
  define c1 where "c1 = snd (cache_resolve 60 c0 demo_granted 110 ''G2'' ''A1'')"
  define c2 where "c2 = snd (cache_resolve 60 c1 demo_granted 170 ''G2'' ''A1'')"
  have s0: "cache_step 60 (80, demo_granted, Map.empty) (90, demo_granted, c0)"
    unfolding c0_def by (rule cache_step.looks_up) simp
  have s1: "cache_step 60 (90, demo_granted, c0) (110, demo_granted, c1)"
    unfolding c1_def by (rule cache_step.looks_up) simp
  have s2: "cache_step 60 (110, demo_granted, c1) (170, demo_granted, c2)"
    unfolding c2_def by (rule cache_step.looks_up) simp
  have early: "(cache_step 60)\<^sup>*\<^sup>* (80, demo_granted, Map.empty) (110, demo_granted, c1)"
    using s0 s1 by (meson r_into_rtranclp rtranclp.rtrancl_into_rtrancl)
  have late: "(cache_step 60)\<^sup>*\<^sup>* (110, demo_granted, c1) (170, demo_granted, c2)"
    using s2 by (rule r_into_rtranclp)
  have "\<not> Live (fst (cache_resolve 60 c2 demo_granted 170 ''G1'' ''A1''))"
    by (rule grant_cache_window [OF early _ _ late]) (simp_all add: demo_granted_verdict Live_def NUL_def)
  moreover have "Live (fst (cache_resolve 60 c1 demo_granted 110 ''G1'' ''A1''))"
    by (simp add: c1_def c0_def cache_resolve_def cache_key_def demo_granted_verdict Live_def Let_def)
  ultimately show ?thesis by (simp add: Let_def c0_def c1_def c2_def)
qed

end
