(* ===== verification/Go_Float.thy ===== *)
theory Go_Float
  imports Media_Types
begin

text \<open>
  Go's float64 arithmetic on the values the program computes with: rationals rounded to 53
  significant bits, nearest with ties to even, as IEEE 754 double precision does in its normal
  range (no operation of the program reaches the subnormal or the overflow range). \<open>fdiv\<close>,
  \<open>fmul\<close> and \<open>fadd\<close> are the rounded operations. A bound on the relative error and exactness on
  integers are what the later proofs use.
\<close>

fun bit_len :: "nat \<Rightarrow> nat" where
  "bit_len n = (if n = 0 then 0 else Suc (bit_len (n div 2)))"

declare bit_len.simps [simp del]

definition expo :: "rat \<Rightarrow> int" where
  "expo q = (let (a, b) = quotient_of q; k = int (bit_len (nat a)) - int (bit_len (nat b))
     in if 2 powi k \<le> q then k else k - 1)"

definition half_even :: "rat \<Rightarrow> int" where
  "half_even x = (let f = \<lfloor>x\<rfloor>; d = x - of_int f in
     if d < 1/2 then f else if d > 1/2 then f + 1 else if even f then f else f + 1)"

definition fl :: "rat \<Rightarrow> float64" where
  "fl q = (if q = 0 then 0
     else let u = 2 powi (expo \<bar>q\<bar> - 52) in (if q < 0 then - 1 else 1) * (of_int (half_even (\<bar>q\<bar> / u)) * u))"

definition fdiv :: "float64 \<Rightarrow> float64 \<Rightarrow> float64" where "fdiv x y = fl (x / y)"
definition fmul :: "float64 \<Rightarrow> float64 \<Rightarrow> float64" where "fmul x y = fl (x * y)"
definition fadd :: "float64 \<Rightarrow> float64 \<Rightarrow> float64" where "fadd x y = fl (x + y)"
definition float_of :: "int \<Rightarrow> float64" where "float_of n = fl (of_int n)"

text \<open>Conversion to an integer truncates towards zero.\<close>

definition int_of :: "float64 \<Rightarrow> int" where
  "int_of x = (if x < 0 then - \<lfloor>- x\<rfloor> else \<lfloor>x\<rfloor>)"

section \<open>The exponent\<close>

lemma bit_len_bounds: "0 < n \<Longrightarrow> 2 ^ (bit_len n - 1) \<le> n \<and> n < 2 ^ bit_len n"
proof (induction n rule: bit_len.induct)
  case (1 n)
  show ?case
  proof (cases "n = 1")
    case True then show ?thesis by (simp add: bit_len.simps)
  next
    case False
    then have m: "0 < n div 2" using 1 by (simp add: div_greater_zero_iff)
    then have ih: "2 ^ (bit_len (n div 2) - 1) \<le> n div 2 \<and> n div 2 < 2 ^ bit_len (n div 2)" using 1 by simp
    have l: "bit_len n = Suc (bit_len (n div 2))" using 1 by (subst bit_len.simps) simp
    have p: "0 < bit_len (n div 2)" using m by (subst bit_len.simps) simp
    have "2 ^ (bit_len n - 1) = 2 * (2::nat) ^ (bit_len (n div 2) - 1)" using p l by (cases "bit_len (n div 2)") simp_all
    moreover have "2 ^ bit_len n = 2 * (2::nat) ^ bit_len (n div 2)" using l by simp
    ultimately show ?thesis using ih by linarith
  qed
qed

lemma powi2_pos [simp]: "0 < (2::rat) powi k" by simp

lemma expo_bounds:
  assumes "0 < q"
  shows "2 powi expo q \<le> q" "q < 2 powi (expo q + 1)"
proof -
  obtain a b where ab: "quotient_of q = (a, b)" by (cases "quotient_of q")
  have b: "0 < b" using ab by (rule quotient_of_denom_pos)
  have q: "q = of_int a / of_int b" using ab by (rule quotient_of_div)
  have a: "0 < a" using assms b q by (simp add: zero_less_divide_iff)
  define x where "x = int (bit_len (nat a))"
  define y where "y = int (bit_len (nat b))"
  have bl: "2 powi (x - 1) \<le> (of_int a :: rat)" "(of_int a :: rat) < 2 powi x"
    "2 powi (y - 1) \<le> (of_int b :: rat)" "(of_int b :: rat) < 2 powi y"
  proof -
    have g: "2 powi (int (bit_len n) - 1) \<le> (of_nat n :: rat) \<and> (of_nat n :: rat) < 2 powi (int (bit_len n))" if n: "0 < n" for n
    proof -
      have p: "0 < bit_len n" using n by (subst bit_len.simps) simp
      then have "int (bit_len n) - 1 = int (bit_len n - 1)" by simp
      then have "2 powi (int (bit_len n) - 1) = (of_nat (2 ^ (bit_len n - 1)) :: rat)"
        by (simp only: power_int_of_nat) simp
      moreover have "(2::rat) powi int (bit_len n) = of_nat (2 ^ bit_len n)" by simp
      ultimately show ?thesis using bit_len_bounds [OF n] by (simp only: of_nat_le_iff of_nat_less_iff)
    qed
    show "2 powi (x - 1) \<le> (of_int a :: rat)" "(of_int a :: rat) < 2 powi x"
      "2 powi (y - 1) \<le> (of_int b :: rat)" "(of_int b :: rat) < 2 powi y"
      using g [of "nat a"] g [of "nat b"] a b by (simp_all add: x_def y_def)
  qed
  have low: "2 powi (x - y - 1) \<le> q"
  proof -
    have "2 powi (x - y - 1) = 2 powi (x - 1) / (2 powi y :: rat)"
      by (subst power_int_diff [symmetric]) (auto simp: algebra_simps)
    also have "\<dots> \<le> of_int a / of_int b" using bl b a by (intro frac_le) auto
    finally show ?thesis using q by simp
  qed
  have up: "q < 2 powi (x - y + 1)"
  proof -
    have "of_int a / of_int b < (2 powi x :: rat) / 2 powi (y - 1)" using bl b a by (intro frac_less) auto
    also have "\<dots> = 2 powi (x - (y - 1))" by (subst power_int_diff) auto
    also have "x - (y - 1) = x - y + 1" by simp
    finally show ?thesis using q by simp
  qed
  have e: "expo q = (if 2 powi (x - y) \<le> q then x - y else x - y - 1)"
    by (simp add: expo_def ab x_def y_def Let_def)
  show "2 powi expo q \<le> q" using low by (simp add: e)
  show "q < 2 powi (expo q + 1)" using up by (simp add: e)
qed

section \<open>Rounding\<close>

lemma half_even_err: "\<bar>of_int (half_even x) - x\<bar> \<le> 1/2"
proof -
  have "of_int \<lfloor>x\<rfloor> \<le> x" "x < of_int \<lfloor>x\<rfloor> + 1" by linarith+
  then show ?thesis by (simp add: half_even_def Let_def abs_le_iff)
qed

lemma half_even_int [simp]: "half_even (of_int n) = n"
  by (simp add: half_even_def)

lemma fl_pos: "0 < q \<Longrightarrow> fl q = of_int (half_even (q / 2 powi (expo q - 52))) * 2 powi (expo q - 52)"
  by (simp add: fl_def Let_def)

lemma fl_err:
  assumes "0 < q"
  shows "\<bar>fl q - q\<bar> \<le> q / 2 ^ 53"
proof -
  define u :: rat where "u = 2 powi (expo q - 52)"
  have u: "0 < u" by (simp add: u_def)
  have "fl q - q = (of_int (half_even (q / u)) - q / u) * u"
    using fl_pos [OF assms] u by (simp add: u_def [symmetric] left_diff_distrib)
  then have "\<bar>fl q - q\<bar> = \<bar>of_int (half_even (q / u)) - q / u\<bar> * u" using u by (simp add: abs_mult)
  also have "\<dots> \<le> 1/2 * u" using half_even_err u by (intro mult_right_mono) auto
  also have "\<dots> \<le> q / 2 ^ 53"
  proof -
    have "u * 2 ^ 52 = 2 powi expo q"
    proof -
      have "u * 2 ^ 52 = 2 powi (expo q - 52) * 2 powi 52" by (simp add: u_def)
      also have "\<dots> = 2 powi (expo q - 52 + 52)" by (subst power_int_add) auto
      finally show ?thesis by simp
    qed
    then have "u * 2 ^ 52 \<le> q" using expo_bounds [OF assms] by simp
    then show ?thesis by (simp add: field_simps)
  qed
  finally show ?thesis .
qed

lemma fl_int:
  assumes "0 \<le> n" "n < 2 ^ 53"
  shows "fl (of_int n) = of_int n"
proof (cases "n = 0")
  case True then show ?thesis by (simp add: fl_def)
next
  case False
  then have n: "0 < (of_int n :: rat)" using assms by simp
  have "expo (of_int n :: rat) < 53"
  proof (rule ccontr)
    assume "\<not> expo (of_int n :: rat) < 53"
    then have "(2::rat) powi 53 \<le> 2 powi expo (of_int n :: rat)" by (intro power_int_increasing) auto
    also have "\<dots> \<le> of_int n" using expo_bounds [OF n] by simp
    finally have "(of_int (2 ^ 53) :: rat) \<le> of_int n" by simp
    then show False using assms by (simp only: of_int_le_iff)
  qed
  then obtain k :: nat where k: "52 - expo (of_int n :: rat) = int k" using zero_le_imp_eq_int [of "52 - expo (of_int n)"] by auto
  then have e: "expo (of_int n :: rat) - 52 = - int k" by simp
  have d: "of_int n / (2::rat) powi (- int k) = of_int (n * 2 ^ k)" by (simp add: power_int_minus field_simps)
  have "fl (of_int n) = of_int (n * 2 ^ k) * (2::rat) powi (- int k)"
    using fl_pos [OF n] unfolding e d by (simp only: half_even_int)
  then show ?thesis by (simp add: power_int_minus field_simps)
qed

lemma float_of_exact: "0 \<le> n \<Longrightarrow> n < 2 ^ 53 \<Longrightarrow> float_of n = of_int n"
  by (simp add: float_of_def fl_int)

lemma fl_bounds:
  assumes "0 < q"
  shows "q * (1 - 1 / 2 ^ 53) \<le> fl q" "fl q \<le> q * (1 + 1 / 2 ^ 53)"
proof -
  have "- (q / 2 ^ 53) \<le> fl q - q" "fl q - q \<le> q / 2 ^ 53" using fl_err [OF assms] by linarith+
  then show "q * (1 - 1 / 2 ^ 53) \<le> fl q" "fl q \<le> q * (1 + 1 / 2 ^ 53)" by (simp_all add: algebra_simps)
qed

end
