(* ===== verification/Mediaspec.thy ===== *)
theory Mediaspec
  imports Go_Float Go_Strconv
begin

text \<open>
  The media ladder (internal/mediaspec/mediaspec.go): the ffmpeg argument lists, the imgproxy
  presets with their edge caps, the choice of a zoom_3 preset by aspect ratio, and the preset
  string. Go's \<open>int\<close> is an unbounded integer here; the values are far inside 64 bits.
\<close>

section \<open>ffmpeg arguments\<close>

definition DetailVideoFilter :: string where "DetailVideoFilter = ''scale=-2:min(1080'' @ [CHR 0x5C] @ '',ih)''"
definition LoopVideoFilter :: string where "LoopVideoFilter = ''scale=-2:min(640'' @ [CHR 0x5C] @ '',ih)''"
definition LoopMaxDurationS :: int where "LoopMaxDurationS = 30"
definition FaststartFlag :: string where "FaststartFlag = ''+faststart''"
definition VideoCodec :: string where "VideoCodec = ''libx264''"
definition AudioCodec :: string where "AudioCodec = ''aac''"
definition EncodePreset :: string where "EncodePreset = ''medium''"

definition DetailArgs :: "string \<Rightarrow> string \<Rightarrow> string \<Rightarrow> string list" where
  "DetailArgs src dst preset0 =
     (let preset = (if preset0 = [] then EncodePreset else preset0) in
      [''-hide_banner'', ''-y'', ''-i'', src,
       ''-c:v'', VideoCodec, ''-preset'', preset,
       ''-vf'', DetailVideoFilter,
       ''-c:a'', AudioCodec,
       ''-movflags'', FaststartFlag,
       dst])"

definition LoopArgs :: "string \<Rightarrow> string \<Rightarrow> string \<Rightarrow> string list" where
  "LoopArgs src dst preset0 =
     (let preset = (if preset0 = [] then EncodePreset else preset0) in
      [''-hide_banner'', ''-y'', ''-i'', src,
       ''-t'', dec LoopMaxDurationS,
       ''-an'',
       ''-c:v'', VideoCodec, ''-preset'', preset,
       ''-vf'', LoopVideoFilter,
       ''-movflags'', FaststartFlag,
       dst])"

definition RemuxCopyArgs :: "string \<Rightarrow> string \<Rightarrow> string list" where
  "RemuxCopyArgs src dst =
     [''-hide_banner'', ''-y'', ''-i'', src,
      ''-c'', ''copy'',
      ''-movflags'', FaststartFlag,
      dst]"

section \<open>Presets\<close>

definition PresetLightbox :: string where "PresetLightbox = ''lightbox''"
definition PresetLightboxMobile :: string where "PresetLightboxMobile = ''lightbox_mobile''"
definition PresetThumbnail :: string where "PresetThumbnail = ''thumbnail''"
definition PresetGrid :: string where "PresetGrid = ''grid''"
definition PresetZoom1 :: string where "PresetZoom1 = ''zoom_1''"
definition PresetZoom2 :: string where "PresetZoom2 = ''zoom_2''"
definition PresetZoom3NearSquare :: string where "PresetZoom3NearSquare = ''zoom_3_nearsquare''"
definition PresetZoom3Standard :: string where "PresetZoom3Standard = ''zoom_3_standard''"
definition PresetZoom3Wide :: string where "PresetZoom3Wide = ''zoom_3_wide''"

lemmas preset_names = PresetLightbox_def PresetLightboxMobile_def PresetThumbnail_def PresetGrid_def
  PresetZoom1_def PresetZoom2_def PresetZoom3NearSquare_def PresetZoom3Standard_def PresetZoom3Wide_def

definition PresetWidths :: "string \<Rightarrow> int option" where
  "PresetWidths = map_of
     [(PresetLightbox, 2048), (PresetLightboxMobile, 1400), (PresetThumbnail, 400), (PresetGrid, 800),
      (PresetZoom1, 3072), (PresetZoom2, 4096), (PresetZoom3NearSquare, 4898),
      (PresetZoom3Standard, 5477), (PresetZoom3Wide, 6197)]"

definition LosslessPresets :: "string \<Rightarrow> bool" where
  "LosslessPresets name = (name \<in> set [PresetZoom1, PresetZoom2, PresetZoom3NearSquare,
     PresetZoom3Standard, PresetZoom3Wide])"

definition MaxResultDimension :: int where "MaxResultDimension = 6197"

definition zoom3NearSquareMaxR :: float64 where "zoom3NearSquareMaxR = fl (125 / 100)"
definition zoom3StandardMaxR :: float64 where "zoom3StandardMaxR = fl (16 / 10)"

definition Zoom3PresetForAspect :: "int \<Rightarrow> int \<Rightarrow> string" where
  "Zoom3PresetForAspect w h =
     (if w \<le> 0 \<or> h \<le> 0 then PresetZoom3NearSquare
      else let (long, short) = (if h > w then (h, w) else (w, h));
               r = fdiv (float_of long) (float_of short)
           in if r < zoom3NearSquareMaxR then PresetZoom3NearSquare
              else if r < zoom3StandardMaxR then PresetZoom3Standard
              else PresetZoom3Wide)"

definition presetOrder :: "string list" where
  "presetOrder = [PresetLightbox, PresetLightboxMobile, PresetThumbnail, PresetGrid,
     PresetZoom1, PresetZoom2, PresetZoom3NearSquare, PresetZoom3Standard, PresetZoom3Wide]"

text \<open>\<open>itoa\<close> fills a buffer from the right: the digits so far are the accumulator.\<close>

fun itoa_loop :: "nat \<Rightarrow> string \<Rightarrow> string" where
  "itoa_loop n b = (if n = 0 then b else itoa_loop (n div 10) (digit_char (n mod 10) # b))"

declare itoa_loop.simps [simp del]

definition itoa :: "int \<Rightarrow> string" where
  "itoa n = (if n = 0 then ''0''
     else let neg = n < 0; b = itoa_loop (nat (if neg then - n else n)) [] in if neg then CHR ''-'' # b else b)"

definition preset_def_of :: "string \<Rightarrow> string" where
  "preset_def_of name =
     (let w = itoa (case PresetWidths name of None \<Rightarrow> 0 | Some v \<Rightarrow> v) in
      name @ ''=resize:fit:'' @ w @ '':'' @ w @ '':0/enlarge:0'' @ (if LosslessPresets name then ''/quality:100'' else []))"

fun PresetDefs_loop :: "nat \<Rightarrow> string list \<Rightarrow> string \<Rightarrow> string" where
  "PresetDefs_loop i [] out = out"
| "PresetDefs_loop i (name # rest) out =
     PresetDefs_loop (Suc i) rest ((if i > 0 then out @ '','' else out) @ preset_def_of name)"

definition PresetDefs :: string where
  "PresetDefs = PresetDefs_loop 0 presetOrder []"

section \<open>Decimal printing\<close>

lemma itoa_loop_dec: "0 < n \<Longrightarrow> itoa_loop n b = dec_nat n @ b"
proof (induction n b rule: itoa_loop.induct)
  case (1 n b)
  show ?case
  proof (cases "n < 10")
    case True
    then have "n div 10 = 0" "n mod 10 = n" by auto
    then show ?thesis using 1 True
      by (subst itoa_loop.simps) (simp add: dec_nat.simps [of n] itoa_loop.simps [of 0])
  next
    case False
    then have "0 < n div 10" by (simp add: div_greater_zero_iff)
    then show ?thesis using 1 False by (subst itoa_loop.simps) (simp add: dec_nat.simps [of n])
  qed
qed

lemma itoa_dec: "itoa n = dec n"
proof (cases "n = 0")
  case True then show ?thesis by (simp add: itoa_def dec_def dec_nat.simps [of 0] digit_char_def)
next
  case False
  then show ?thesis by (auto simp: itoa_def dec_def Let_def itoa_loop_dec)
qed

lemma preset_loop_join:
  "PresetDefs_loop (Suc i) names out = out @ concat (map (\<lambda>n. CHR '','' # preset_def_of n) names)"
  by (induction names arbitrary: i out) auto

section \<open>The aspect bands\<close>

lemma quotient_gap:
  fixes p q :: int
  assumes "0 < short" "0 < q" "of_int long / of_int short < (of_int p / of_int q :: rat)"
  shows "of_int long / of_int short + 1 / (of_int q * of_int short) \<le> (of_int p / of_int q :: rat)"
proof -
  have "(of_int (long * q) :: rat) < of_int (p * short)" using assms by (simp add: field_simps)
  then have "long * q + 1 \<le> p * short" by (simp only: of_int_less_iff zless_imp_add1_zle)
  then have "(of_int (long * q + 1) :: rat) \<le> of_int (p * short)" by (rule of_int_le_iff [THEN iffD2])
  then have "(of_int (long * q + 1) :: rat) / of_int (q * short) \<le> of_int (p * short) / of_int (q * short)"
    using assms by (intro divide_right_mono) auto
  then show ?thesis using assms by (simp add: add_divide_distrib)
qed

lemma quotient_gap_above:
  fixes p q :: int
  assumes "0 < short" "0 < q" "(of_int p / of_int q :: rat) < of_int long / of_int short"
  shows "(of_int p / of_int q :: rat) + 1 / (of_int q * of_int short) \<le> of_int long / of_int short"
proof -
  have "(of_int (p * short) :: rat) < of_int (long * q)" using assms by (simp add: field_simps)
  then have "p * short + 1 \<le> long * q" by (simp only: of_int_less_iff zless_imp_add1_zle)
  then have "(of_int (p * short + 1) :: rat) \<le> of_int (long * q)" by (rule of_int_le_iff [THEN iffD2])
  then have "(of_int (p * short + 1) :: rat) / of_int (q * short) \<le> of_int (long * q) / of_int (q * short)"
    using assms by (intro divide_right_mono) auto
  then show ?thesis using assms by (simp add: add_divide_distrib)
qed

lemma fl_less_band:
  fixes p q :: int
  assumes "0 < short" "short < 2 ^ 31" "0 < long" "0 < q" "q \<le> 8" "0 < p" "p \<le> 2 * q"
  shows "fl (of_int long / of_int short) < fl (of_int p / of_int q)
    \<longleftrightarrow> of_int long / of_int short < (of_int p / of_int q :: rat)"
proof -
  define x :: rat where "x = of_int long / of_int short"
  define c :: rat where "c = of_int p / of_int q"
  define g :: rat where "g = 1 / (of_int q * of_int short)"
  define e :: rat where "e = 1 / 2 ^ 53"
  have pos: "0 < x" "0 < c" using assms by (simp_all add: x_def c_def)
  have c2: "c \<le> 2"
  proof -
    have "(of_int p :: rat) \<le> of_int (2 * q)" using assms by (simp only: of_int_le_iff)
    then show ?thesis using assms by (simp add: c_def divide_le_eq)
  qed
  have g: "1 / 2 ^ 34 \<le> g" "g \<le> 1"
  proof -
    have "q * short \<le> 8 * 2 ^ 31" using assms by (intro mult_mono) auto
    then have "(of_int (q * short) :: rat) \<le> of_int (2 ^ 34)" by (intro of_int_le_iff [THEN iffD2]) simp
    moreover have "0 < q * short" using assms by simp
    then have "(of_int 1 :: rat) \<le> of_int (q * short)" by (intro of_int_le_iff [THEN iffD2]) simp
    moreover have "g = 1 / of_int (q * short)" by (simp add: g_def)
    ultimately show "1 / 2 ^ 34 \<le> g" "g \<le> 1" by (simp_all add: divide_le_eq le_divide_eq)
  qed
  have fx: "x - x * e \<le> fl x" "fl x \<le> x + x * e" and fc: "c - c * e \<le> fl c" "fl c \<le> c + c * e"
    using fl_bounds [OF pos(1)] fl_bounds [OF pos(2)] by (simp_all add: algebra_simps e_def)
  have e: "0 < e" by (simp add: e_def)
  have g': "524288 * e \<le> g" using g(1) by (simp add: e_def)
  have ce: "c * e \<le> 2 * e" using c2 e by simp
  consider "x < c" | "x = c" | "c < x" by linarith
  then have "fl x < fl c \<longleftrightarrow> x < c"
  proof cases
    case 1
    then have "x + g \<le> c" using quotient_gap [of short q long p] assms by (simp add: x_def c_def g_def)
    moreover have "x * e \<le> c * e" using 1 e by simp
    ultimately have "fl x < fl c" using fx fc ce g' e by linarith
    then show ?thesis using 1 by simp
  next
    case 2 then show ?thesis by simp
  next
    case 3
    then have gx: "c + g \<le> x" using quotient_gap_above [of short q p long] assms by (simp add: x_def c_def g_def)
    then have "(c + g) * (1 - e) \<le> x * (1 - e)" by (intro mult_right_mono) (auto simp: e_def)
    then have "c + g - c * e - g * e \<le> x - x * e" by (simp add: algebra_simps)
    moreover have "g * e \<le> 1 * e" using g e by (intro mult_right_mono) auto
    ultimately have "fl c < fl x" using fx fc ce g' e by linarith
    then show ?thesis using 3 by simp
  qed
  then show ?thesis by (simp add: x_def c_def)
qed

text \<open>The preset is decided by the exact aspect ratio: float rounding never moves a band boundary.\<close>

lemma Zoom3PresetForAspect_exact:
  assumes "0 < w" "0 < h" "w < 2 ^ 31" "h < 2 ^ 31"
  shows "Zoom3PresetForAspect w h =
    (if 4 * max w h < 5 * min w h then PresetZoom3NearSquare
     else if 5 * max w h < 8 * min w h then PresetZoom3Standard else PresetZoom3Wide)"
proof -
  define l where "l = max w h"
  define s where "s = min w h"
  have ls: "0 < l" "0 < s" "l < 2 ^ 31" "s < 2 ^ 31" using assms by (auto simp: l_def s_def)
  have p: "(if h > w then (h, w) else (w, h)) = (l, s)" by (auto simp: l_def s_def)
  have r: "fdiv (float_of l) (float_of s) = fl (of_int l / of_int s)"
    using ls by (simp add: fdiv_def float_of_exact)
  have a: "fl (of_int l / of_int s) < zoom3NearSquareMaxR \<longleftrightarrow> 4 * l < 5 * s"
  proof -
    have "fl (of_int l / of_int s) < zoom3NearSquareMaxR \<longleftrightarrow> of_int l / of_int s < (of_int 5 / of_int 4 :: rat)"
      using fl_less_band [of s l 4 5] ls by (simp add: zoom3NearSquareMaxR_def)
    also have "\<dots> \<longleftrightarrow> (of_int (4 * l) :: rat) < of_int (5 * s)" using ls by (simp add: field_simps)
    finally show ?thesis by (simp only: of_int_less_iff)
  qed
  have b: "fl (of_int l / of_int s) < zoom3StandardMaxR \<longleftrightarrow> 5 * l < 8 * s"
  proof -
    have "fl (of_int l / of_int s) < zoom3StandardMaxR \<longleftrightarrow> of_int l / of_int s < (of_int 8 / of_int 5 :: rat)"
      using fl_less_band [of s l 5 8] ls by (simp add: zoom3StandardMaxR_def)
    also have "\<dots> \<longleftrightarrow> (of_int (5 * l) :: rat) < of_int (8 * s)" using ls by (simp add: field_simps)
    finally show ?thesis by (simp only: of_int_less_iff)
  qed
  show ?thesis using assms unfolding Zoom3PresetForAspect_def p by (simp add: r a b flip: l_def s_def)
qed

end
