(* ===== verification/Image_Ladder.thy ===== *)
theory Image_Ladder
  imports Mediaspec
begin

text \<open>
  Which imgproxy preset an image intent takes on a device, and the output size the service
  reports for it (imagePreset and fitOutputDims of internal/service/handlers.go). Sizes are
  positive int32 values where they are probed. The products are computed in rounded float64
  arithmetic, without a fused multiply-add.
\<close>

definition imagePreset :: "intent \<Rightarrow> device_class \<Rightarrow> int option \<Rightarrow> int option \<Rightarrow> string" where
  "imagePreset i device srcW srcH =
     (if device = Mobile \<and> i \<in> set [Lightbox, Zoom1, Zoom2, Zoom3] then PresetLightboxMobile
      else if i = Zoom3 then
        (let w = (case srcW of None \<Rightarrow> 0 | Some v \<Rightarrow> v);
             h = (case srcH of None \<Rightarrow> 0 | Some v \<Rightarrow> v)
         in Zoom3PresetForAspect w h)
      else intent_str i)"

text \<open>One edge: \<open>int(float64(s)*scale + 0.5)\<close>, at least one pixel.\<close>

definition scaled_edge :: "int \<Rightarrow> float64 \<Rightarrow> int" where
  "scaled_edge s scale =
     (let n = int_of (fadd (fmul (float_of s) scale) (1/2)) in if n < 1 then 1 else n)"

definition fitOutputDims :: "int option \<Rightarrow> int option \<Rightarrow> string \<Rightarrow> (int \<times> int) option" where
  "fitOutputDims srcW srcH preset =
     (case (PresetWidths preset, srcW, srcH) of
        (Some cap, Some sw, Some sh) \<Rightarrow>
          if sw \<le> 0 \<or> sh \<le> 0 then None
          else let long = (if sh > sw then sh else sw) in
            if long \<le> cap then Some (sw, sh)
            else let scale = fdiv (float_of cap) (float_of long)
                 in Some (scaled_edge sw scale, scaled_edge sh scale)
      | _ \<Rightarrow> None)"

section \<open>The rounding error of one edge\<close>

lemma err_step:
  fixes e a b t :: rat
  assumes "\<bar>b - a\<bar> \<le> a * e" "\<bar>a - t\<bar> \<le> m * e" "0 < e" "a \<le> k"
  shows "\<bar>b - t\<bar> \<le> (k + m) * e"
proof -
  have "a * e \<le> k * e" using assms by (intro mult_right_mono) auto
  moreover have "b - a \<le> a * e" "a - b \<le> a * e" "a - t \<le> m * e" "t - a \<le> m * e" using assms by linarith+
  ultimately have "b - t \<le> k * e + m * e" "t - b \<le> k * e + m * e" by linarith+
  then show ?thesis by (simp add: distrib_right abs_le_iff)
qed

lemma edge_err:
  assumes "0 < v" "v \<le> long" "0 < cap" "cap < long" "cap \<le> 8000" "long < 2 ^ 31"
  defines "y0 \<equiv> fadd (fmul (float_of v) (fdiv (float_of cap) (float_of long))) (1/2)"
  shows "of_int v * of_int cap / of_int long + 1/4 < y0" "y0 < of_int v * of_int cap / of_int long + 3/4"
    "of_int v * of_int cap / of_int long + 49/100 < y0"
proof -
  define e :: rat where "e = 1 / 2 ^ 53"
  define V :: rat where "V = of_int v"
  define L :: rat where "L = of_int long"
  define C :: rat where "C = of_int cap"
  have pos: "0 < V" "0 < L" "0 < C" "0 < e" and e1: "e \<le> 1/100000" using assms by (simp_all add: V_def L_def C_def e_def)
  have ord: "V \<le> L" "C \<le> L" using assms by (simp_all add: V_def L_def C_def)
  have "(of_int cap :: rat) \<le> of_int 8000" using assms by (simp only: of_int_le_iff)
  then have ord': "C \<le> 8000" by (simp add: C_def)
  define t where "t = V * C / L"
  define s where "s = fl (C / L)"
  define p where "p = fl (V * s)"
  define y where "y = fl (p + 1/2)"
  have t: "0 < t" "t \<le> 8000"
  proof -
    show "0 < t" using pos by (simp add: t_def)
    have "V * C \<le> L * 8000" using ord ord' pos by (intro mult_mono) auto
    then show "t \<le> 8000" using pos by (simp add: t_def divide_le_eq mult.commute)
  qed
  have "\<bar>s - C / L\<bar> \<le> C / L * e" using fl_err [of "C / L"] pos by (simp add: s_def e_def)
  then have "V * \<bar>s - C / L\<bar> \<le> V * (C / L * e)" using pos by (intro mult_left_mono) auto
  moreover have "V * (s - C / L) = V * s - t" by (simp add: t_def right_diff_distrib)
  then have "V * \<bar>s - C / L\<bar> = \<bar>V * s - t\<bar>" using pos by (metis abs_mult abs_of_pos)
  ultimately have vs: "\<bar>V * s - t\<bar> \<le> t * e" by (simp add: t_def)
  have te: "t * e \<le> 8000 * e" using t pos by (intro mult_right_mono) auto
  have "8000 * e \<le> 1" using e1 by linarith
  then have vs_le: "V * s \<le> 8001" using vs te t by linarith
  have s0: "0 < s"
  proof -
    have "0 < C / L" using pos by simp
    then have "C / L * (1 - 1 / 2 ^ 53) \<le> s" "0 < C / L * (1 - 1 / 2 ^ 53)"
      using fl_bounds [of "C / L"] by (simp_all add: s_def)
    then show ?thesis by linarith
  qed
  then have vs0: "0 < V * s" using pos by simp
  have "\<bar>p - V * s\<bar> \<le> V * s * e" using fl_err [OF vs0] by (simp add: p_def e_def)
  moreover have "\<bar>V * s - t\<bar> \<le> 8000 * e" using vs te by linarith
  ultimately have pt: "\<bar>p - t\<bar> \<le> (8001 + 8000) * e" by (rule err_step) (use vs_le pos in auto)
  then have "p - t \<le> 16001 * e" "t - p \<le> 16001 * e" by (simp_all add: abs_le_iff)
  moreover have "16001 * e \<le> 1/4" using e1 by simp
  ultimately have p_le: "p \<le> 8003" and p0: "0 < p + 1/2" using t by simp_all
  have "\<bar>y - (p + 1/2)\<bar> \<le> (p + 1/2) * e" using fl_err [OF p0] by (simp add: y_def e_def)
  moreover have "\<bar>(p + 1/2) - (t + 1/2)\<bar> \<le> (8001 + 8000) * e" using pt by simp
  ultimately have "\<bar>y - (t + 1/2)\<bar> \<le> (8004 + (8001 + 8000)) * e" by (rule err_step) (use p_le pos in auto)
  moreover have "(8004 + (8001 + 8000)) * e < 1/100" by (simp add: e_def)
  ultimately have "t + 1/4 < y" "y < t + 3/4" "t + 49/100 < y" by linarith+
  moreover have "float_of v = V" "float_of cap = C" "float_of long = L"
    using assms by (simp_all add: float_of_exact V_def C_def L_def)
  then have "y0 = y" by (simp add: y0_def fadd_def fmul_def fdiv_def y_def p_def s_def)
  ultimately show "of_int v * of_int cap / of_int long + 1/4 < y0" "y0 < of_int v * of_int cap / of_int long + 3/4"
    "of_int v * of_int cap / of_int long + 49/100 < y0"
    by (simp_all add: t_def V_def C_def L_def)
qed

text \<open>
  Consequences in integers: the scaled edge is within one pixel of the exact product, is the cap
  on the long edge, never exceeds its source, and stays below any bound the exact product stays
  a quarter pixel below.
\<close>

lemma scaled_edge_near:
  assumes "0 < v" "v \<le> long" "0 < cap" "cap < long" "cap \<le> 8000" "long < 2 ^ 31"
  defines "t \<equiv> of_int v * of_int cap / (of_int long :: rat)"
  defines "n \<equiv> scaled_edge v (fdiv (float_of cap) (float_of long))"
  shows "1 \<le> n" "n = 1 \<or> (t - 3/4 < of_int n)" "of_int n < t + 3/4 \<or> n = 1" "0 < t"
proof -
  define y where "y = fadd (fmul (float_of v) (fdiv (float_of cap) (float_of long))) (1/2)"
  have yy: "t + 1/4 < y" "y < t + 3/4" using edge_err [OF assms(1-6)] by (simp_all add: y_def t_def)
  show "0 < t" using assms by (simp add: t_def)
  then have "0 < y" using yy by linarith
  then have n: "n = (if \<lfloor>y\<rfloor> < 1 then 1 else \<lfloor>y\<rfloor>)"
    by (simp add: n_def scaled_edge_def int_of_def y_def [symmetric])
  show "1 \<le> n" by (simp add: n)
  have f: "of_int \<lfloor>y\<rfloor> \<le> y" "y < of_int \<lfloor>y\<rfloor> + 1" by linarith+
  have lo: "t - 3/4 < of_int \<lfloor>y\<rfloor>" and up: "of_int \<lfloor>y\<rfloor> < t + 3/4" using f yy by linarith+
  show "n = 1 \<or> (t - 3/4 < of_int n)" using n lo by (cases "\<lfloor>y\<rfloor> < 1") auto
  show "of_int n < t + 3/4 \<or> n = 1" using n up by (cases "\<lfloor>y\<rfloor> < 1") auto
qed

lemma scaled_edge_le:
  assumes "0 < v" "v \<le> long" "0 < cap" "cap < long" "cap \<le> 8000" "long < 2 ^ 31"
    and "1 \<le> b" "4 * (v * cap) \<le> (4 * b + 1) * long"
  shows "scaled_edge v (fdiv (float_of cap) (float_of long)) \<le> b"
proof -
  define n where "n = scaled_edge v (fdiv (float_of cap) (float_of long))"
  have "(of_int (4 * (v * cap)) :: rat) \<le> of_int ((4 * b + 1) * long)" using assms by (simp only: of_int_le_iff)
  then have t: "of_int v * of_int cap / (of_int long :: rat) \<le> of_int b + 1/4" using assms by (simp add: divide_le_eq algebra_simps)
  have "of_int n < of_int v * of_int cap / (of_int long :: rat) + 3/4 \<or> n = 1"
    using scaled_edge_near [OF assms(1-6)] by (simp add: n_def)
  then have "of_int n < (of_int (b + 1) :: rat) \<or> n = 1" using t by auto
  then have "n < b + 1 \<or> n = 1" by (simp only: of_int_less_iff)
  then show ?thesis using assms by (auto simp: n_def)
qed

lemma scaled_edge_long:
  assumes "0 < cap" "cap < long" "cap \<le> 8000" "long < 2 ^ 31"
  shows "scaled_edge long (fdiv (float_of cap) (float_of long)) = cap"
proof -
  define n where "n = scaled_edge long (fdiv (float_of cap) (float_of long))"
  have "n \<le> cap" unfolding n_def by (rule scaled_edge_le) (use assms in \<open>auto simp: algebra_simps\<close>)
  moreover have "cap \<le> n"
  proof -
    define y where "y = fadd (fmul (float_of long) (fdiv (float_of cap) (float_of long))) (1/2)"
    have "of_int cap + 1/4 < y" using edge_err [of long long cap] assms by (simp add: y_def)
    then have "(of_int cap :: rat) \<le> y" by linarith
    moreover have "(0 :: rat) < of_int cap" using assms by simp
    ultimately have "cap \<le> \<lfloor>y\<rfloor>" "\<not> y < 0" by (simp_all add: le_floor_iff)
    then show ?thesis using assms by (simp add: n_def scaled_edge_def int_of_def y_def [symmetric] del: floor_less_one)
  qed
  ultimately show ?thesis by (simp add: n_def)
qed

lemma scaled_edge_shrinks:
  assumes "0 < v" "v \<le> long" "0 < cap" "cap < long" "cap \<le> 8000" "long < 2 ^ 31"
  shows "scaled_edge v (fdiv (float_of cap) (float_of long)) \<le> v"
proof (rule scaled_edge_le [OF assms])
  have "v * cap \<le> v * long" using assms by (intro mult_left_mono) auto
  moreover have "(4 * v + 1) * long = 4 * (v * long) + long" by (simp add: algebra_simps)
  ultimately show "4 * (v * cap) \<le> (4 * v + 1) * long" using assms by linarith
qed (use assms in auto)

lemma scaled_edge_aspect:
  assumes "0 < v" "v \<le> long" "0 < cap" "cap < long" "cap \<le> 8000" "long < 2 ^ 31"
  shows "\<bar>scaled_edge v (fdiv (float_of cap) (float_of long)) * long - v * cap\<bar> < long"
proof -
  define n where "n = scaled_edge v (fdiv (float_of cap) (float_of long))"
  define t where "t = of_int v * of_int cap / (of_int long :: rat)"
  have near: "1 \<le> n" "n = 1 \<or> t - 3/4 < of_int n" "of_int n < t + 3/4 \<or> n = 1" "0 < t"
    using scaled_edge_near [OF assms] by (simp_all add: n_def t_def)
  have L: "0 < (of_int long :: rat)" using assms by simp
  have "\<bar>of_int n - t\<bar> < 1"
  proof (cases "n = 1")
    case False then show ?thesis using near by (auto simp: abs_less_iff)
  next
    case True
    have "\<not> t \<ge> 2"
    proof
      assume "t \<ge> 2"
      define y where "y = fadd (fmul (float_of v) (fdiv (float_of cap) (float_of long))) (1/2)"
      have "t + 1/4 < y" using edge_err [OF assms] by (simp add: y_def t_def)
      then have "2 < y" using \<open>t \<ge> 2\<close> by linarith
      then have "2 \<le> \<lfloor>y\<rfloor>" by (simp add: le_floor_iff)
      then have "2 \<le> n" using \<open>2 < y\<close> by (simp add: n_def scaled_edge_def int_of_def y_def [symmetric])
      then show False using True by simp
    qed
    then show ?thesis using True near by (simp add: abs_less_iff)
  qed
  then have "\<bar>of_int n - t\<bar> * of_int long < 1 * of_int long" using L by (intro mult_strict_right_mono)
  moreover have "(of_int n - t) * of_int long = of_int (n * long - v * cap)"
    using L by (simp add: t_def left_diff_distrib)
  then have "\<bar>of_int n - t\<bar> * of_int long = \<bar>of_int (n * long - v * cap)\<bar>"
    using L by (metis abs_mult abs_of_pos)
  ultimately have "(of_int \<bar>n * long - v * cap\<bar> :: rat) < of_int long" by simp
  then show ?thesis by (simp only: of_int_less_iff n_def)
qed

section \<open>The reported size\<close>

lemma PresetWidths_cases:
  "PresetWidths p = Some cap \<Longrightarrow> 0 < cap \<and> cap \<le> 6197"
  unfolding PresetWidths_def by (drule map_of_SomeD) auto

lemma PresetWidths_simps:
  "PresetWidths PresetLightboxMobile = Some 1400" "PresetWidths ''lightbox'' = Some 2048"
  "PresetWidths ''thumbnail'' = Some 400" "PresetWidths ''grid'' = Some 800"
  "PresetWidths ''zoom_1'' = Some 3072" "PresetWidths ''zoom_2'' = Some 4096"
  "PresetWidths PresetZoom3NearSquare = Some 4898" "PresetWidths PresetZoom3Standard = Some 5477"
  "PresetWidths PresetZoom3Wide = Some 6197"
  by (simp_all add: PresetWidths_def preset_names)

lemma fit_eval:
  assumes "PresetWidths p = Some cap" "0 < w" "0 < h"
  shows "fitOutputDims (Some w) (Some h) p =
    (if max w h \<le> cap then Some (w, h)
     else Some (scaled_edge w (fdiv (float_of cap) (float_of (max w h))),
                scaled_edge h (fdiv (float_of cap) (float_of (max w h)))))"
proof -
  have "(if h > w then h else w) = max w h" by auto
  then show ?thesis using assms by (simp add: fitOutputDims_def Let_def)
qed

lemma fit_dims:
  assumes "0 < w" "w < 2 ^ 31" "0 < h" "h < 2 ^ 31" "PresetWidths p = Some cap"
  shows "case fitOutputDims (Some w) (Some h) p of None \<Rightarrow> False
    | Some (w', h') \<Rightarrow> 1 \<le> w' \<and> w' \<le> w \<and> 1 \<le> h' \<and> h' \<le> h
        \<and> max w' h' = min cap (max w h)
        \<and> \<bar>w' * max w h - w * min cap (max w h)\<bar> < max w h
        \<and> \<bar>h' * max w h - h * min cap (max w h)\<bar> < max w h"
proof -
  define l where "l = max w h"
  have l: "0 < l" "w \<le> l" "h \<le> l" "l < 2 ^ 31" using assms by (auto simp: l_def)
  have cap: "0 < cap" "cap \<le> 6197" using PresetWidths_cases [OF assms(5)] by auto
  show ?thesis
  proof (cases "l \<le> cap")
    case True then show ?thesis using assms l by (simp add: fit_eval min_def flip: l_def)
  next
    case False
    define w' where "w' = scaled_edge w (fdiv (float_of cap) (float_of l))"
    define h' where "h' = scaled_edge h (fdiv (float_of cap) (float_of l))"
    have f: "fitOutputDims (Some w) (Some h) p = Some (w', h')"
      using assms False by (simp add: fit_eval w'_def h'_def flip: l_def)
    have side: "1 \<le> scaled_edge v (fdiv (float_of cap) (float_of l))
        \<and> scaled_edge v (fdiv (float_of cap) (float_of l)) \<le> v
        \<and> scaled_edge v (fdiv (float_of cap) (float_of l)) \<le> cap
        \<and> \<bar>scaled_edge v (fdiv (float_of cap) (float_of l)) * l - v * cap\<bar> < l" if v: "0 < v" "v \<le> l" for v
    proof -
      have r: "0 < cap" "cap < l" "cap \<le> 8000" "l < 2 ^ 31" using cap l False by auto
      have "v * cap \<le> l * cap" using v r by (intro mult_right_mono) auto
      moreover have "(4 * cap + 1) * l = 4 * (l * cap) + l" by (simp add: algebra_simps)
      ultimately have "4 * (v * cap) \<le> (4 * cap + 1) * l" using r by linarith
      then show ?thesis
        using scaled_edge_near(1) [OF v r] scaled_edge_shrinks [OF v r] scaled_edge_aspect [OF v r]
          scaled_edge_le [OF v r, of cap] r by simp
    qed
    have "w = l \<or> h = l" by (auto simp: l_def)
    then have long: "w' = cap \<or> h' = cap"
      using scaled_edge_long [of cap l] cap l False by (auto simp: w'_def h'_def)
    show ?thesis unfolding f l_def [symmetric]
      using side [of w] side [of h] long assms l False by (auto simp: w'_def h'_def)
  qed
qed

text \<open>The output size reported for a probed source and a preset with cap W is what fitting the
  source into a W by W box gives: at least one pixel per edge, never enlarged, the longest edge
  exactly the smaller of W and the source's, and each edge within one pixel of the exact
  proportional size. Float rounding never breaks any of it. An unprobed source or an unknown
  preset reports no size.\<close>
theorem fit_dims_correct:
  assumes "0 < w" "w < 2 ^ 31" "0 < h" "h < 2 ^ 31"
  shows "case fitOutputDims (Some w) (Some h) p of None \<Rightarrow> PresetWidths p = None
    | Some (w', h') \<Rightarrow> (case PresetWidths p of None \<Rightarrow> False
        | Some cap \<Rightarrow> 1 \<le> w' \<and> w' \<le> w \<and> 1 \<le> h' \<and> h' \<le> h
            \<and> max w' h' = min cap (max w h)
            \<and> \<bar>w' * max w h - w * min cap (max w h)\<bar> < max w h
            \<and> \<bar>h' * max w h - h * min cap (max w h)\<bar> < max w h)"
proof (cases "PresetWidths p")
  case None then show ?thesis by (simp add: fitOutputDims_def)
next
  case (Some cap) then show ?thesis using fit_dims [OF assms Some] by (auto split: option.splits)
qed

lemma fit_dims_correct_witness:
  "case fitOutputDims (Some 6000) (Some 4000) PresetLightboxMobile of None \<Rightarrow> False
     | Some (w', h') \<Rightarrow> max w' h' = 1400 \<and> h' \<le> 4000"
  using fit_dims_correct [of 6000 4000 PresetLightboxMobile] PresetWidths_simps(1)
  by (auto split: option.splits)

section \<open>The pixel budgets\<close>

lemma short_edge_le:
  assumes "0 < w" "0 < h" "w < 2 ^ 31" "h < 2 ^ 31" "PresetWidths p = Some cap"
    and "fitOutputDims (Some w) (Some h) p = Some (w', h')"
    and band: "n * min w h \<le> m * max w h" "0 < n" "1 \<le> b" "4 * cap * m \<le> (4 * b + 1) * n" "cap * m \<le> (b + 1) * n - 1"
  shows "min w' h' \<le> b"
proof -
  define l where "l = max w h"
  define v where "v = min w h"
  have lv: "0 < v" "v \<le> l" "l < 2 ^ 31" using assms by (auto simp: l_def v_def)
  have cap: "0 < cap" "cap \<le> 8000" using PresetWidths_cases [OF assms(5)] by auto
  have m: "0 < m"
  proof (rule ccontr)
    assume "\<not> 0 < m"
    then have "m * l \<le> 0" using lv by (simp add: mult_nonpos_nonneg)
    moreover have "0 < n * v" using lv band by simp
    ultimately show False using band by (simp add: l_def v_def)
  qed
  show ?thesis
  proof (cases "l \<le> cap")
    case True
    have "n * v \<le> m * cap" using band(1) True m lv by (simp flip: l_def v_def) (meson mult_left_mono order_trans less_imp_le)
    then have "n * v < n * (b + 1)" using band by (simp add: algebra_simps)
    then have "v \<le> b" using band by simp
    moreover have "(w', h') = (w, h)" using assms(6) fit_eval [OF assms(5,1,2)] True by (simp add: l_def)
    ultimately show ?thesis by (simp add: v_def)
  next
    case False
    have "n * (4 * (v * cap)) = 4 * cap * (n * v)" by (simp add: algebra_simps)
    also have "\<dots> \<le> 4 * cap * (m * l)" using band(1) cap by (intro mult_left_mono) (auto simp: l_def v_def)
    also have "\<dots> = 4 * cap * m * l" by simp
    also have "\<dots> \<le> (4 * b + 1) * n * l" using band lv by (intro mult_right_mono) auto
    finally have "n * (4 * (v * cap)) \<le> n * ((4 * b + 1) * l)" by (simp add: algebra_simps)
    then have "4 * (v * cap) \<le> (4 * b + 1) * l" using band by simp
    then have "scaled_edge v (fdiv (float_of cap) (float_of l)) \<le> b"
      using scaled_edge_le [of v l cap b] lv cap False band by simp
    moreover have "w' = scaled_edge w (fdiv (float_of cap) (float_of l))" "h' = scaled_edge h (fdiv (float_of cap) (float_of l))"
      using assms(6) fit_eval [OF assms(5,1,2)] False unfolding l_def by (auto split: if_splits)
    ultimately show ?thesis by (auto simp: v_def min_def split: if_splits)
  qed
qed

lemma product_le:
  fixes x y a b :: int
  assumes "0 \<le> x" "0 \<le> y" "max x y \<le> a" "min x y \<le> b" "0 \<le> b"
  shows "x * y \<le> a * b"
proof -
  have "x * y = max x y * min x y" by (auto simp: max_def min_def)
  also have "\<dots> \<le> a * b" using assms by (intro mult_mono) auto
  finally show ?thesis .
qed

lemma fit_max:
  assumes "0 < w" "0 < h" "w < 2 ^ 31" "h < 2 ^ 31" "PresetWidths p = Some cap"
  obtains w' h' where "fitOutputDims (Some w) (Some h) p = Some (w', h')" "1 \<le> w'" "1 \<le> h'" "max w' h' \<le> cap"
proof -
  obtain w' h' where f: "fitOutputDims (Some w) (Some h) p = Some (w', h')" "1 \<le> w'" "1 \<le> h'"
    and m: "max w' h' = min cap (max w h)"
    using fit_dims [OF assms(1,3,2,4,5)] by (auto split: option.splits)
  have "max w' h' \<le> cap" unfolding m by (rule min.cobounded1)
  then show thesis using that f by blast
qed

lemma zoom3_area:
  assumes "0 < w" "0 < h" "w < 2 ^ 31" "h < 2 ^ 31"
    and "fitOutputDims (Some w) (Some h) (Zoom3PresetForAspect w h) = Some (w', h')"
  shows "w' * h' \<le> 24000981"
proof -
  let ?z = "Zoom3PresetForAspect w h"
  note z = Zoom3PresetForAspect_exact [OF assms(1-4)]
  consider (near) "4 * max w h < 5 * min w h" "?z = PresetZoom3NearSquare"
    | (std) "5 * min w h \<le> 4 * max w h" "?z = PresetZoom3Standard"
    | (wide) "8 * min w h \<le> 5 * max w h" "?z = PresetZoom3Wide"
    unfolding z by (cases "4 * max w h < 5 * min w h"; cases "5 * max w h < 8 * min w h") auto
  then show ?thesis
  proof cases
    case near
    note c = PresetWidths_simps(7) [folded near(2)]
    obtain "1 \<le> w'" "1 \<le> h'" "max w' h' \<le> 4898"
      using fit_max [OF assms(1-4) c] assms(5) by auto
    then have "w' * h' \<le> 4898 * 4898" by (intro product_le) auto
    then show ?thesis by simp
  next
    case std
    note c = PresetWidths_simps(8) [folded std(2)]
    obtain "1 \<le> w'" "1 \<le> h'" "max w' h' \<le> 5477"
      using fit_max [OF assms(1-4) c] assms(5) by auto
    moreover have "min w' h' \<le> 4382"
      by (rule short_edge_le [OF assms(1-4) c assms(5) std(1)]) auto
    ultimately have "w' * h' \<le> 5477 * 4382" by (intro product_le) auto
    then show ?thesis by simp
  next
    case wide
    note c = PresetWidths_simps(9) [folded wide(2)]
    obtain "1 \<le> w'" "1 \<le> h'" "max w' h' \<le> 6197"
      using fit_max [OF assms(1-4) c] assms(5) by auto
    moreover have "min w' h' \<le> 3873"
      by (rule short_edge_le [OF assms(1-4) c assms(5) wide(1)]) auto
    ultimately have "w' * h' \<le> 6197 * 3873" by (intro product_le) auto
    then show ?thesis by simp
  qed
qed

definition image_intent :: "intent \<Rightarrow> bool" where
  "image_intent i = (i \<in> set [Thumbnail, Grid, Lightbox, Zoom1, Zoom2, Zoom3])"

lemma image_preset_cap:
  assumes "image_intent i"
  shows "i = Zoom3 \<and> device = Desktop \<and> imagePreset i device (Some w) (Some h) = Zoom3PresetForAspect w h
    \<or> (\<exists>cap. PresetWidths (imagePreset i device (Some w) (Some h)) = Some cap
         \<and> cap \<le> (if device = Mobile then 1400 else 4096))"
  using assms
  by (cases i; cases device) (simp_all add: image_intent_def imagePreset_def PresetWidths_simps)

lemma zoom3_preset_known: "\<exists>cap. PresetWidths (Zoom3PresetForAspect w h) = Some cap"
  by (simp add: Zoom3PresetForAspect_def Let_def PresetWidths_simps split: prod.splits)

text \<open>Every image intent of a probed source reports a size, and the size keeps the decoded-pixel
  budget of the device: on a phone the decoded RGBA frame stays inside 24 MiB, on a desktop the
  frame has at most 24,000,981 pixels, for every intent and every source.\<close>
theorem image_pixel_budget:
  assumes "image_intent i" "0 < w" "w < 2 ^ 31" "0 < h" "h < 2 ^ 31"
  shows "case fitOutputDims (Some w) (Some h) (imagePreset i device (Some w) (Some h)) of None \<Rightarrow> False
    | Some (w', h') \<Rightarrow> (if device = Mobile then 4 * w' * h' \<le> 24 * 1024 * 1024 else w' * h' \<le> 24000981)"
proof -
  note range = assms(2,4,3,5)
  from image_preset_cap [OF assms(1), of device w h] show ?thesis
  proof (elim disjE conjE exE)
    assume z: "device = Desktop" "imagePreset i device (Some w) (Some h) = Zoom3PresetForAspect w h"
    obtain cap where "PresetWidths (Zoom3PresetForAspect w h) = Some cap" using zoom3_preset_known by blast
    then obtain w' h' where "fitOutputDims (Some w) (Some h) (Zoom3PresetForAspect w h) = Some (w', h')"
      using fit_max [OF range] by blast
    then show ?thesis using zoom3_area [OF range] z by simp
  next
    fix cap assume cap: "PresetWidths (imagePreset i device (Some w) (Some h)) = Some cap"
      "cap \<le> (if device = Mobile then 1400 else 4096)"
    obtain w' h' where f: "fitOutputDims (Some w) (Some h) (imagePreset i device (Some w) (Some h)) = Some (w', h')"
      "1 \<le> w'" "1 \<le> h'" "max w' h' \<le> cap"
      using fit_max [OF range cap(1)] by blast
    show ?thesis
    proof (cases device)
      case Mobile
      then have "w' * h' \<le> 1400 * 1400" using f cap by (intro product_le) auto
      then show ?thesis using f(1) Mobile by simp
    next
      case Desktop
      then have "w' * h' \<le> 4096 * 4096" using f cap by (intro product_le) auto
      then show ?thesis using f(1) Desktop by simp
    qed
  qed
qed

lemma image_pixel_budget_witness:
  "case fitOutputDims (Some 12000) (Some 8000) (imagePreset Zoom2 Mobile (Some 12000) (Some 8000)) of None \<Rightarrow> False
    | Some (w', h') \<Rightarrow> 4 * w' * h' \<le> 25165824"
  using image_pixel_budget [of Zoom2 12000 8000 Mobile] by (auto simp: image_intent_def split: option.splits prod.splits)

text \<open>The bound of the desktop budget is reached, so the stated ceiling of 24 megapixels is not
  kept: a source of aspect 8:5 is served at 6197 by 3873, and one of aspect 5:4 at 5477 by 4382,
  both above 24,000,000 pixels.\<close>
theorem zoom3_crosses_the_wall:
  "fitOutputDims (Some 8000) (Some 5000) (imagePreset Zoom3 Desktop (Some 8000) (Some 5000)) = Some (6197, 3873)
   \<and> fitOutputDims (Some 10000) (Some 8000) (imagePreset Zoom3 Desktop (Some 10000) (Some 8000)) = Some (5477, 4382)
   \<and> 24000000 < 6197 * (3873 :: int) \<and> 24000000 < 5477 * (4382 :: int)"
proof -
  have exact: "scaled_edge v (fdiv (float_of cap) (float_of l)) = n"
    if "0 < v" "v \<le> l" "0 < cap" "cap < l" "cap \<le> 8000" "l < 2 ^ 31" "1 < n"
      "4 * (v * cap) \<le> (4 * n + 1) * l" "(100 * n - 49) * l \<le> 100 * (v * cap)" for v cap l n
  proof -
    define k where "k = scaled_edge v (fdiv (float_of cap) (float_of l))"
    have "k \<le> n" using scaled_edge_le [OF that(1-6), of n] that by (simp add: k_def)
    moreover have "n \<le> k"
    proof -
      define y where "y = fadd (fmul (float_of v) (fdiv (float_of cap) (float_of l))) (1/2)"
      have "(of_int ((100 * n - 49) * l) :: rat) \<le> of_int (100 * (v * cap))" using that by (simp only: of_int_le_iff)
      then have "of_int n - 49/100 \<le> of_int v * of_int cap / (of_int l :: rat)"
        using that by (simp add: le_divide_eq algebra_simps)
      moreover have "of_int v * of_int cap / of_int l + 49/100 < y" using edge_err(3) [OF that(1-6)] by (simp add: y_def)
      ultimately have "(of_int n :: rat) \<le> y" by linarith
      moreover have "(0 :: rat) < of_int n" using that by simp
      ultimately have "n \<le> \<lfloor>y\<rfloor>" "\<not> y < 0" by (simp_all add: le_floor_iff)
      moreover from \<open>\<not> y < 0\<close> have "k = (if \<lfloor>y\<rfloor> < 1 then 1 else \<lfloor>y\<rfloor>)"
        unfolding k_def scaled_edge_def int_of_def y_def [symmetric] Let_def by (simp only: if_False)
      ultimately show ?thesis using \<open>1 < n\<close> by presburger
    qed
    ultimately show ?thesis by (simp add: k_def)
  qed
  have z: "Zoom3PresetForAspect 8000 5000 = PresetZoom3Wide" "Zoom3PresetForAspect 10000 8000 = PresetZoom3Standard"
    by (simp_all add: Zoom3PresetForAspect_exact)
  have e: "scaled_edge 8000 (fdiv (float_of 6197) (float_of 8000)) = 6197"
    "scaled_edge 10000 (fdiv (float_of 5477) (float_of 10000)) = 5477"
    by (rule scaled_edge_long; simp)+
  have s: "scaled_edge 5000 (fdiv (float_of 6197) (float_of 8000)) = 3873"
    "scaled_edge 8000 (fdiv (float_of 5477) (float_of 10000)) = 4382"
    by (rule exact; simp)+
  have p: "imagePreset Zoom3 Desktop (Some 8000) (Some 5000) = PresetZoom3Wide"
    "imagePreset Zoom3 Desktop (Some 10000) (Some 8000) = PresetZoom3Standard"
    by (simp_all add: imagePreset_def z)
  show ?thesis unfolding p
    using fit_eval [OF PresetWidths_simps(9), of 8000 5000] fit_eval [OF PresetWidths_simps(8), of 10000 8000] e s
    by simp
qed

end
