(* ===== verification/Delivery.thy ===== *)
theory Delivery
  imports Image_Ladder Sign Plate_Id
begin

text \<open>
  Delivery resolution (internal/service/delivery.go and handlers.go): the routing allowlist over
  (kind, intent), the URL builder, and the resolution of a non-original intent against an asset's
  rendition state, for public and for granted mode. A service is the record of what New wires; the
  object store is a record of functions (the answers of the S3 client), the keyed hash a function.
\<close>

section \<open>The routing allowlist\<close>

datatype delivery_host = HostImageCDN | HostR2

datatype route_error = ErrUnroutableKind media_kind "intent option"

definition imageLadderIntents :: "intent list" where "imageLadderIntents = [Thumbnail, Grid, Lightbox]"
definition zoomIntents :: "intent list" where "zoomIntents = [Zoom1, Zoom2, Zoom3]"
definition avIntents :: "intent list" where "avIntents = [Poster, Loop, Detail]"

text \<open>The map \<open>init\<close> fills; a later entry for a pair replaces an earlier one.\<close>

definition deliveryRoutes :: "((media_kind \<times> intent) \<times> delivery_host) list" where
  "deliveryRoutes = rev
     (map (\<lambda>i. ((Image, i), HostImageCDN)) (imageLadderIntents @ zoomIntents)
      @ map (\<lambda>i. ((Video, i), HostImageCDN)) imageLadderIntents
      @ map (\<lambda>i. ((Video, i), HostR2)) avIntents
      @ [((Audio, Detail), HostR2), ((Document, Original), HostR2)]
      @ map (\<lambda>k. ((k, Original), HostR2)) [Image, Video, Audio, Document])"

definition KnownMediaKinds :: "media_kind list" where
  "KnownMediaKinds = [Image, Video, Audio, Document]"

definition KnownIntents :: "intent list" where
  "KnownIntents = [Thumbnail, Grid, Lightbox, Zoom1, Zoom2, Zoom3, Poster, Loop, Detail, Original]"

definition KindHasAnyRoute :: "media_kind \<Rightarrow> bool" where
  "KindHasAnyRoute kind = list_ex (\<lambda>e. fst (fst e) = kind) deliveryRoutes"

definition RouteDelivery :: "media_kind \<Rightarrow> intent \<Rightarrow> route_error + delivery_host" where
  "RouteDelivery kind i =
     (case map_of deliveryRoutes (kind, i) of
        Some host \<Rightarrow> Inr host
      | None \<Rightarrow> if KindHasAnyRoute kind then Inl (ErrUnroutableKind kind (Some i))
                else Inl (ErrUnroutableKind kind None))"

section \<open>The URL builder\<close>

record url_builder =
  ub_ImageCDNBase :: string
  ub_GrantedImageBase :: string
  ub_ImageSourceBucket :: string
  ub_R2PublicBase :: string
  ub_DownloadBase :: string

definition imgproxySource :: "url_builder \<Rightarrow> string \<Rightarrow> string" where
  "imgproxySource b vaultKey =
     (if ub_ImageSourceBucket b = [] then [] else ''s3://'' @ ub_ImageSourceBucket b @ ''/'' @ vaultKey)"

datatype resolve_error = Unroutable route_error | ErrOriginalUnsigned | ErrImageUnsigned

definition Resolve :: "url_builder \<Rightarrow> intent \<Rightarrow> media_kind \<Rightarrow> string \<Rightarrow> resolve_error + delivery_resolution" where
  "Resolve b i kind vaultKey =
     (case RouteDelivery kind i of
        Inl e \<Rightarrow> Inl (Unroutable e)
      | Inr host \<Rightarrow>
          if i = Original then Inl ErrOriginalUnsigned
          else (case host of
              HostImageCDN \<Rightarrow> Inl ErrImageUnsigned
            | HostR2 \<Rightarrow> Inr \<lparr>dr_Delivery = Some \<lparr>dl_Expires = None, dl_Height = None, dl_Mode = Public,
                  dl_Url = ub_R2PublicBase b @ ''/'' @ RenditionKey vaultKey (intent_str i), dl_Width = None\<rparr>,
                dr_Detail = None, dr_Intent = i, dr_Reason = None\<rparr>))"

section \<open>The service\<close>

record object_info =
  oi_Size :: int
  oi_ContentType :: string
  oi_ETag :: string
  oi_Exists :: bool

text \<open>The S3 client: \<open>None\<close> is an error.\<close>

record storage =
  st_PresignGet :: "string \<Rightarrow> int \<Rightarrow> string option"
  st_PresignPut :: "string \<Rightarrow> string \<Rightarrow> int \<Rightarrow> int \<Rightarrow> (string \<times> (string \<times> string) list \<times> time) option"
  st_Head :: "string \<Rightarrow> object_info option"
  st_ProbeImage :: "string \<Rightarrow> (int \<times> int \<times> string) option"

record service =
  sv_urls :: url_builder
  sv_storage :: "storage option"
  sv_signer :: "string option"
  sv_imgsigner :: "imgproxy_signer option"
  sv_hmac :: hmac
  sv_grantURLTTL :: int
  sv_cacheTTL :: int
  sv_uploadTTL :: int
  sv_uploadMaxBytes :: int

definition second :: int where "second = 1000000000"

section \<open>Image URLs\<close>

definition signedImageURL :: "service \<Rightarrow> string \<Rightarrow> string \<Rightarrow> time option \<Rightarrow> string option" where
  "signedImageURL s preset vaultKey expiry =
     (case sv_imgsigner s of
        None \<Rightarrow> None
      | Some sg \<Rightarrow>
          let src = imgproxySource (sv_urls s) vaultKey in
          if src = [] then None
          else (case expiry of
              None \<Rightarrow> Some (imgproxy_signed_url (sv_hmac s) sg (ub_ImageCDNBase (sv_urls s)) preset src None)
            | Some e \<Rightarrow>
                let base = ub_GrantedImageBase (sv_urls s) in
                if base = [] then None
                else Some (imgproxy_signed_url (sv_hmac s) sg base preset src (Some e))))"

definition isImageLadderIntent :: "intent \<Rightarrow> bool" where
  "isImageLadderIntent i = list_ex (\<lambda>x. i = x) imageLadderIntents"

definition findRendition :: "asset \<Rightarrow> intent \<Rightarrow> rendition option" where
  "findRendition a i = find (\<lambda>r. rend_Intent r = i) (asset_Renditions a)"

definition refusal :: "intent \<Rightarrow> reason_code option \<Rightarrow> delivery_resolution" where
  "refusal i reason = \<lparr>dr_Delivery = None, dr_Detail = None, dr_Intent = i, dr_Reason = reason\<rparr>"

definition renditionStateResolution :: "intent \<Rightarrow> rendition option \<Rightarrow> delivery_resolution" where
  "renditionStateResolution i found =
     (case found of
        None \<Rightarrow> refusal i (Some RC_Pending)
      | Some r \<Rightarrow> (case rend_Status r of
            RS_NotDerived \<Rightarrow> refusal i (Some RC_NotDerived)
          | RS_Failed \<Rightarrow> refusal i (rend_Reason r)
          | _ \<Rightarrow> refusal i (Some RC_Pending)))"

definition public_image :: "intent \<Rightarrow> string \<Rightarrow> (int \<times> int) option \<Rightarrow> delivery_resolution" where
  "public_image i u dims =
     \<lparr>dr_Delivery = Some \<lparr>dl_Expires = None, dl_Height = map_option snd dims, dl_Mode = Public,
        dl_Url = u, dl_Width = map_option fst dims\<rparr>,
      dr_Detail = None, dr_Intent = i, dr_Reason = None\<rparr>"

text \<open>The loop over the renditions of an A/V asset: the first row of the intent answers.\<close>

fun av_resolution :: "service \<Rightarrow> intent \<Rightarrow> asset \<Rightarrow> rendition list \<Rightarrow> delivery_resolution" where
  "av_resolution s i a [] = refusal i (Some RC_Pending)"
| "av_resolution s i a (r # rest) =
     (if rend_Intent r \<noteq> i then av_resolution s i a rest
      else (case rend_Status r of
          RS_Ready \<Rightarrow> (case Resolve (sv_urls s) i (asset_Kind a) (vo_Key (asset_Vault a)) of
              Inl e \<Rightarrow> refusal i (Some RC_UnsupportedFormat) | Inr res \<Rightarrow> res)
        | RS_Failed \<Rightarrow> refusal i (rend_Reason r)
        | RS_NotDerived \<Rightarrow> refusal i (Some RC_NotDerived)
        | RS_Pending \<Rightarrow> refusal i (Some RC_Pending)))"

definition resolveNonOriginal :: "service \<Rightarrow> intent \<Rightarrow> device_class \<Rightarrow> asset \<Rightarrow> delivery_resolution" where
  "resolveNonOriginal s i device a =
     (if asset_DeletedAt a \<noteq> None then refusal i (Some RC_Deleted)
      else if asset_Kind a = Image then
        (let v = asset_Vault a; preset = imagePreset i device (vo_Width v) (vo_Height v) in
         case signedImageURL s preset (vo_Key v) None of
           None \<Rightarrow> refusal i (Some RC_UnsupportedFormat)
         | Some u \<Rightarrow> public_image i u (fitOutputDims (vo_Width v) (vo_Height v) preset))
      else if asset_Kind a = Video \<and> isImageLadderIntent i then
        (case findRendition a Poster of
           None \<Rightarrow> renditionStateResolution i None
         | Some poster \<Rightarrow>
             if rend_Status poster \<noteq> RS_Ready then renditionStateResolution i (Some poster)
             else let preset = imagePreset i device (rend_Width poster) (rend_Height poster) in
               (case signedImageURL s preset (RenditionKey (vo_Key (asset_Vault a)) (intent_str Poster)) None of
                  None \<Rightarrow> refusal i (Some RC_UnsupportedFormat)
                | Some u \<Rightarrow> public_image i u (fitOutputDims (rend_Width poster) (rend_Height poster) preset)))
      else if asset_Kind a = Document then
        (case Resolve (sv_urls s) i (asset_Kind a) (vo_Key (asset_Vault a)) of
           Inl e \<Rightarrow> refusal i (Some RC_UnsupportedFormat) | Inr res \<Rightarrow> res)
      else av_resolution s i a (asset_Renditions a))"

section \<open>Granted mode\<close>

definition granted_download_url :: "service \<Rightarrow> string \<Rightarrow> asset \<Rightarrow> string \<Rightarrow> intent \<Rightarrow> time \<Rightarrow> string" where
  "granted_download_url s key a grantID i expiry =
     (let rendKey = RenditionKey (vo_Key (asset_Vault a)) (intent_str i);
          base = ub_DownloadBase (sv_urls s) @ ''/v1/download/'' @ rendKey
            @ ''?intent='' @ QueryEscape (intent_str i) @ ''&grant='' @ QueryEscape grantID
      in sign (sv_hmac s) key base (intent_str i) grantID expiry)"

definition enforceGranted ::
  "service \<Rightarrow> time \<Rightarrow> delivery \<Rightarrow> asset \<Rightarrow> string \<Rightarrow> intent \<Rightarrow> device_class \<Rightarrow> delivery option" where
  "enforceGranted s now d0 a grantID i device =
     (let expiry = now + sv_grantURLTTL s;
          d = d0\<lparr>dl_Mode := Granted, dl_Expires := Some expiry\<rparr>
      in if asset_Kind a = Video \<and> isImageLadderIntent i then
           (case findRendition a Poster of
              None \<Rightarrow> None
            | Some poster \<Rightarrow>
                if rend_Status poster \<noteq> RS_Ready then None
                else (case signedImageURL s (imagePreset i device (rend_Width poster) (rend_Height poster))
                        (RenditionKey (vo_Key (asset_Vault a)) (intent_str Poster)) (Some expiry) of
                    None \<Rightarrow> None | Some u \<Rightarrow> Some (d\<lparr>dl_Url := u\<rparr>)))
         else (case asset_Kind a of
             Image \<Rightarrow>
               (case sv_imgsigner s of
                  None \<Rightarrow> None
                | Some _ \<Rightarrow> (case signedImageURL s (imagePreset i device (vo_Width (asset_Vault a)) (vo_Height (asset_Vault a)))
                          (vo_Key (asset_Vault a)) (Some expiry) of
                      None \<Rightarrow> None | Some u \<Rightarrow> Some (d\<lparr>dl_Url := u\<rparr>)))
           | _ \<Rightarrow>
               (case sv_signer s of
                  None \<Rightarrow> None
                | Some key \<Rightarrow> Some (d\<lparr>dl_Url := granted_download_url s key a grantID i expiry\<rparr>))))"

section \<open>What is delivered\<close>

lemmas route_defs = RouteDelivery_def deliveryRoutes_def imageLadderIntents_def zoomIntents_def avIntents_def
  KindHasAnyRoute_def

lemma kind_has_route [simp]: "KindHasAnyRoute k"
  by (cases k) (simp_all add: KindHasAnyRoute_def deliveryRoutes_def imageLadderIntents_def zoomIntents_def avIntents_def)

lemma ladder_intent [simp]: "isImageLadderIntent i \<longleftrightarrow> i \<in> {Thumbnail, Grid, Lightbox}"
  by (auto simp: isImageLadderIntent_def imageLadderIntents_def)

lemma route_cases:
  "RouteDelivery k i =
    (if i = Original then Inr HostR2
     else if k = Image \<and> i \<in> {Thumbnail, Grid, Lightbox, Zoom1, Zoom2, Zoom3}
       \<or> k = Video \<and> i \<in> {Thumbnail, Grid, Lightbox} then Inr HostImageCDN
     else if k = Video \<and> i \<in> {Poster, Loop, Detail} \<or> k = Audio \<and> i = Detail then Inr HostR2
     else Inl (ErrUnroutableKind k (Some i)))"
  by (cases k; cases i) (simp_all add: RouteDelivery_def deliveryRoutes_def imageLadderIntents_def zoomIntents_def avIntents_def)

text \<open>The routing table is total and fails closed: every pair of a known kind and a known intent has
  exactly one answer, the metered image engine is reached only by the image ladder of an image or
  of a video's poster and by the zoom rungs of an image, original always goes to storage, and
  every other pair is an error that names it.\<close>
theorem route_table:
  "RouteDelivery k i =
    (if i = Original then Inr HostR2
     else if k = Image \<and> i \<in> set (imageLadderIntents @ zoomIntents) \<or> k = Video \<and> i \<in> set imageLadderIntents
       then Inr HostImageCDN
     else if k = Video \<and> i \<in> set avIntents \<or> k = Audio \<and> i = Detail then Inr HostR2
     else Inl (ErrUnroutableKind k (Some i)))
   \<and> k \<in> set KnownMediaKinds \<and> i \<in> set KnownIntents"
proof -
  have "k \<in> set KnownMediaKinds" by (cases k) (simp_all add: KnownMediaKinds_def)
  moreover have "i \<in> set KnownIntents" by (cases i) (simp_all add: KnownIntents_def)
  ultimately show ?thesis
    by (auto simp: route_cases imageLadderIntents_def zoomIntents_def avIntents_def)
qed

lemma Resolve_Inr:
  "Resolve b i k key = Inr res \<Longrightarrow> RouteDelivery k i = Inr HostR2 \<and> i \<noteq> Original
    \<and> res = \<lparr>dr_Delivery = Some \<lparr>dl_Expires = None, dl_Height = None, dl_Mode = Public,
        dl_Url = ub_R2PublicBase b @ ''/'' @ RenditionKey key (intent_str i), dl_Width = None\<rparr>,
      dr_Detail = None, dr_Intent = i, dr_Reason = None\<rparr>"
  by (auto simp: Resolve_def split: sum.splits if_splits delivery_host.splits)

lemma av_resolution_find:
  "av_resolution s i a rs = (case find (\<lambda>r. rend_Intent r = i) rs of
     None \<Rightarrow> refusal i (Some RC_Pending)
   | Some r \<Rightarrow> (case rend_Status r of
         RS_Ready \<Rightarrow> (case Resolve (sv_urls s) i (asset_Kind a) (vo_Key (asset_Vault a)) of
              Inl e \<Rightarrow> refusal i (Some RC_UnsupportedFormat) | Inr res \<Rightarrow> res)
       | RS_Failed \<Rightarrow> refusal i (rend_Reason r)
       | RS_NotDerived \<Rightarrow> refusal i (Some RC_NotDerived)
       | RS_Pending \<Rightarrow> refusal i (Some RC_Pending)))"
  by (induction rs) auto

definition rendition_ready :: "asset \<Rightarrow> intent \<Rightarrow> bool" where
  "rendition_ready a i = (case findRendition a i of None \<Rightarrow> False | Some r \<Rightarrow> rend_Status r = RS_Ready)"

lemma signedImageURL_Some:
  "signedImageURL s preset key expiry = Some u \<Longrightarrow> \<exists>sg base. sv_imgsigner s = Some sg
     \<and> u = imgproxy_signed_url (sv_hmac s) sg base preset (''s3://'' @ ub_ImageSourceBucket (sv_urls s) @ ''/'' @ key) expiry"
  by (auto simp: signedImageURL_def Let_def imgproxySource_def split: option.splits if_splits)

lemma delivered_cases:
  assumes "dr_Delivery (resolveNonOriginal s i device a) = Some d"
  obtains (image) sg base preset where "asset_DeletedAt a = None" "asset_Kind a = Image" "dl_Mode d = Public" "dl_Expires d = None"
      "dl_Url d = imgproxy_signed_url (sv_hmac s) sg base preset
         (''s3://'' @ ub_ImageSourceBucket (sv_urls s) @ ''/'' @ vo_Key (asset_Vault a)) None" "sv_imgsigner s = Some sg"
  | (poster) sg base preset where "asset_DeletedAt a = None" "asset_Kind a = Video" "isImageLadderIntent i" "rendition_ready a Poster"
      "dl_Mode d = Public" "dl_Expires d = None"
      "dl_Url d = imgproxy_signed_url (sv_hmac s) sg base preset
         (''s3://'' @ ub_ImageSourceBucket (sv_urls s) @ ''/'' @ RenditionKey (vo_Key (asset_Vault a)) ''poster'') None" "sv_imgsigner s = Some sg"
  | (r2) "asset_DeletedAt a = None" "asset_Kind a = Video \<or> asset_Kind a = Audio" "rendition_ready a i"
      "RouteDelivery (asset_Kind a) i = Inr HostR2" "i \<noteq> Original" "dl_Mode d = Public" "dl_Expires d = None"
      "dl_Url d = ub_R2PublicBase (sv_urls s) @ ''/'' @ RenditionKey (vo_Key (asset_Vault a)) (intent_str i)"
proof -
  let ?res = "resolveNonOriginal s i device a"
  have live: "asset_DeletedAt a = None" using assms by (auto simp: resolveNonOriginal_def refusal_def split: if_splits)
  consider (i) "asset_Kind a = Image" | (p) "asset_Kind a = Video" "isImageLadderIntent i"
    | (d) "asset_Kind a = Document" | (v) "asset_Kind a = Video \<or> asset_Kind a = Audio" "\<not> (asset_Kind a = Video \<and> isImageLadderIntent i)"
    by (cases "asset_Kind a") auto
  then show thesis
  proof cases
    case i
    then obtain u where u: "signedImageURL s (imagePreset i device (vo_Width (asset_Vault a)) (vo_Height (asset_Vault a)))
        (vo_Key (asset_Vault a)) None = Some u"
      and d: "dl_Mode d = Public" "dl_Expires d = None" "dl_Url d = u"
      using assms live by (auto simp: resolveNonOriginal_def refusal_def public_image_def Let_def split: option.splits)
    from signedImageURL_Some [OF u] show thesis using image live i d by blast
  next
    case p
    then obtain r u where u: "signedImageURL s (imagePreset i device (rend_Width r) (rend_Height r))
        (RenditionKey (vo_Key (asset_Vault a)) (intent_str Poster)) None = Some u"
      and r: "findRendition a Poster = Some r" "rend_Status r = RS_Ready"
      and d: "dl_Mode d = Public" "dl_Expires d = None" "dl_Url d = u"
      using assms live by (auto simp: resolveNonOriginal_def renditionStateResolution_def refusal_def public_image_def Let_def
          split: option.splits if_splits rendition_status.splits)
    have rr: "rendition_ready a Poster" using r by (simp add: rendition_ready_def)
    from signedImageURL_Some [OF u] show thesis using poster [OF live p rr d(1,2)] d(3) by auto
  next
    case d
    then obtain res where "Resolve (sv_urls s) i (asset_Kind a) (vo_Key (asset_Vault a)) = Inr res"
      using assms live by (auto simp: resolveNonOriginal_def refusal_def split: sum.splits)
    then show thesis using d by (auto dest!: Resolve_Inr simp: route_cases split: if_splits)
  next
    case v
    then have "?res = av_resolution s i a (asset_Renditions a)" using live by (auto simp: resolveNonOriginal_def)
    then obtain r res where r: "findRendition a i = Some r" "rend_Status r = RS_Ready"
      and res: "Resolve (sv_urls s) i (asset_Kind a) (vo_Key (asset_Vault a)) = Inr res" "dr_Delivery res = Some d"
      using assms by (auto simp: av_resolution_find findRendition_def refusal_def
          split: option.splits rendition_status.splits sum.splits)
    have "rendition_ready a i" using r by (simp add: rendition_ready_def)
    then show thesis using r2 [OF live v(1)] Resolve_Inr [OF res(1)] res(2) by auto
  qed
qed

text \<open>C25: A public delivery never exposes the vault and never serves what is not there: an answer with a
  URL means the asset is not deleted, the URL is either signed for the image engine, whose
  source is the vault original of an image or the ready poster of a video, or it is the public
  object of a ready rendition of that very intent under the delivery prefix, with the account and
  asset of the vault key, on a route the table gives to storage.\<close>
theorem public_delivery_wall:
  assumes "vo_Key (asset_Vault a) = VaultKey A x"
  shows "case dr_Delivery (resolveNonOriginal s i device a) of None \<Rightarrow> True
    | Some d \<Rightarrow> asset_DeletedAt a = None \<and> dl_Mode d = Public \<and> dl_Expires d = None
      \<and> (if asset_Kind a = Image then
           (\<exists>sg base preset. sv_imgsigner s = Some sg \<and> dl_Url d = imgproxy_signed_url (sv_hmac s) sg base preset
             (''s3://'' @ ub_ImageSourceBucket (sv_urls s) @ ''/'' @ VaultKey A x) None)
         else if asset_Kind a = Video \<and> isImageLadderIntent i then rendition_ready a Poster
           \<and> (\<exists>sg base preset. sv_imgsigner s = Some sg \<and> dl_Url d = imgproxy_signed_url (sv_hmac s) sg base preset
             (''s3://'' @ ub_ImageSourceBucket (sv_urls s) @ ''/delivery/'' @ A @ ''/'' @ x @ ''/poster'') None)
         else rendition_ready a i \<and> RouteDelivery (asset_Kind a) i = Inr HostR2
           \<and> dl_Url d = ub_R2PublicBase (sv_urls s) @ ''/delivery/'' @ A @ ''/'' @ x @ ''/'' @ intent_str i)"
proof (cases "dr_Delivery (resolveNonOriginal s i device a)")
  case (Some d)
  have rk: "RenditionKey (VaultKey A x) n = ''delivery/'' @ A @ ''/'' @ x @ ''/'' @ n" for n
    by (simp add: RenditionKey_def VaultKey_def DeliveryPrefix_def)
  from Some show ?thesis
  proof (cases rule: delivered_cases)
    case image then show ?thesis using Some assms by auto
  next
    case poster then show ?thesis using Some assms by (auto simp: rk)
  next
    case r2
    then have "\<not> (asset_Kind a = Video \<and> isImageLadderIntent i)" by (auto simp: route_cases split: if_splits)
    then show ?thesis using Some assms r2 by (auto simp: rk)
  qed
qed simp

text \<open>A configured service and two assets for concrete runs.\<close>

definition demo_service :: service where
  "demo_service = \<lparr>sv_urls = \<lparr>ub_ImageCDNBase = ''https://cdn.io'', ub_GrantedImageBase = ''https://granted.io'',
       ub_ImageSourceBucket = ''media'', ub_R2PublicBase = ''https://pub.io'', ub_DownloadBase = ''https://p.io''\<rparr>,
     sv_storage = None, sv_signer = Some ''k'', sv_imgsigner = Some \<lparr>im_key = ''ik'', im_salt = ''is''\<rparr>,
     sv_hmac = toy_hmac, sv_grantURLTTL = 90 * second, sv_cacheTTL = 5 * second,
     sv_uploadTTL = 3600 * second, sv_uploadMaxBytes = 0\<rparr>"

definition demo_media :: "media_kind \<Rightarrow> rendition list \<Rightarrow> asset" where
  "demo_media k rs = \<lparr>asset_Account = ''alice'', asset_ContentType = None, asset_Created = 1, asset_DeletedAt = None,
     asset_Filename = None, asset_Id = ''A1'', asset_Kind = k, asset_Renditions = rs,
     asset_Vault = \<lparr>vo_Checksum = [], vo_ChecksumVerified = False, vo_Codec = None, vo_Container = None,
       vo_DurationS = None, vo_Height = None, vo_Key = VaultKey ''alice'' ''A1'', vo_SizeBytes = 10, vo_Width = None\<rparr>\<rparr>"

definition demo_loop :: rendition where
  "demo_loop = \<lparr>rend_DurationS = None, rend_HasAudio = None, rend_Height = None, rend_Intent = Loop,
     rend_Reason = None, rend_Status = RS_Ready, rend_Width = None\<rparr>"

lemma public_delivery_wall_witness:
  "case dr_Delivery (resolveNonOriginal demo_service Loop Mobile (demo_media Video [demo_loop])) of None \<Rightarrow> False
     | Some d \<Rightarrow> dl_Url d = ''https://pub.io/delivery/alice/A1/loop''"
proof -
  have "dr_Delivery (resolveNonOriginal demo_service Loop Mobile (demo_media Video [demo_loop])) \<noteq> None"
    by (simp add: resolveNonOriginal_def demo_media_def demo_loop_def Resolve_def route_cases)
  then show ?thesis
    using public_delivery_wall [of "demo_media Video [demo_loop]" "''alice''" "''A1''" demo_service Loop Mobile]
    by (auto simp: demo_media_def demo_service_def split: option.splits)
qed

text \<open>A refusal says what is true of the rendition the intent depends on (a video's image intents
  depend on its poster): deleted for a deleted asset, not_derived for a declined derivation, the
  recorded reason for a failed one, pending only for a missing or pending row; a ready row is
  delivered, unless the service cannot serve the pair at all.\<close>
theorem refusal_is_honest:
  assumes "asset_Kind a = Video \<or> asset_Kind a = Audio"
  shows "let res = resolveNonOriginal s i device a;
      needed = (if asset_Kind a = Video \<and> isImageLadderIntent i then Poster else i)
    in if asset_DeletedAt a \<noteq> None then res = refusal i (Some RC_Deleted)
       else (case findRendition a needed of
           None \<Rightarrow> res = refusal i (Some RC_Pending)
         | Some r \<Rightarrow> (case rend_Status r of
               RS_Pending \<Rightarrow> res = refusal i (Some RC_Pending)
             | RS_NotDerived \<Rightarrow> res = refusal i (Some RC_NotDerived)
             | RS_Failed \<Rightarrow> res = refusal i (rend_Reason r)
             | RS_Ready \<Rightarrow> res = refusal i (Some RC_UnsupportedFormat)
                 \<or> dr_Delivery res \<noteq> None \<and> dr_Reason res = None \<and> dr_Intent res = i))"
proof (cases "asset_DeletedAt a")
  case (Some t) then show ?thesis by (simp add: resolveNonOriginal_def)
next
  case None
  show ?thesis
  proof (cases "asset_Kind a = Video \<and> isImageLadderIntent i")
    case True
    then show ?thesis using None
      by (auto simp: resolveNonOriginal_def Let_def renditionStateResolution_def public_image_def refusal_def
          split: option.splits rendition_status.splits)
  next
    case False
    then have "resolveNonOriginal s i device a = av_resolution s i a (asset_Renditions a)"
      using None assms by (auto simp: resolveNonOriginal_def)
    then show ?thesis using None False
      by (auto simp: Let_def av_resolution_find findRendition_def split: option.splits rendition_status.splits sum.splits
          dest!: Resolve_Inr)
  qed
qed

lemma refusal_is_honest_witness:
  "resolveNonOriginal demo_service Thumbnail Mobile (demo_media Video [demo_loop]) = refusal Thumbnail (Some RC_Pending)"
  using refusal_is_honest [of "demo_media Video [demo_loop]" demo_service Thumbnail Mobile]
  by (simp add: demo_media_def demo_loop_def findRendition_def)

text \<open>The allowlist does not decide everything that is answered: an image resolves a URL on the
  metered image engine for poster, loop and detail although the table has no entry for these
  pairs, and a video with no zoom row answers pending for the zoom rungs, which the table refuses
  and which nothing on its own will ever produce.\<close>
theorem allowlist_bypassed:
  assumes "asset_DeletedAt a = None" "sv_imgsigner s = Some sg" "ub_ImageSourceBucket (sv_urls s) \<noteq> []"
  shows "(if asset_Kind a = Image \<and> i \<in> set avIntents
      then RouteDelivery Image i = Inl (ErrUnroutableKind Image (Some i)) \<and> dr_Delivery (resolveNonOriginal s i device a) \<noteq> None
      else True)
    \<and> (if asset_Kind a = Video \<and> i \<in> set zoomIntents \<and> findRendition a i = None
      then RouteDelivery Video i = Inl (ErrUnroutableKind Video (Some i))
        \<and> resolveNonOriginal s i device a = refusal i (Some RC_Pending)
      else True)"
proof -
  have "resolveNonOriginal s i device a = refusal i (Some RC_Pending)"
    if "asset_Kind a = Video" "i \<in> set zoomIntents" "findRendition a i = None"
    using that assms by (auto simp: resolveNonOriginal_def zoomIntents_def av_resolution_find findRendition_def)
  moreover have "dr_Delivery (resolveNonOriginal s i device a) \<noteq> None" if "asset_Kind a = Image"
    using that assms by (simp add: resolveNonOriginal_def signedImageURL_def imgproxySource_def Let_def public_image_def)
  ultimately show ?thesis by (auto simp: route_cases avIntents_def zoomIntents_def)
qed

lemma allowlist_bypassed_witness:
  "dr_Delivery (resolveNonOriginal demo_service Detail Mobile (demo_media Image [])) \<noteq> None
   \<and> resolveNonOriginal demo_service Zoom1 Desktop (demo_media Video []) = refusal Zoom1 (Some RC_Pending)"
  using allowlist_bypassed [of "demo_media Image []" demo_service _ Detail Mobile]
    allowlist_bypassed [of "demo_media Video []" demo_service _ Zoom1 Desktop]
  by (simp add: demo_media_def demo_service_def avIntents_def zoomIntents_def findRendition_def)

end
