(* ===== verification/Delivery_Api.thy ===== *)
theory Delivery_Api
  imports Delivery Grant_Cache Auth_Token
begin

text \<open>
  The delivery endpoints (internal/service/handlers.go and exports.go): the URL endpoint for the
  owner and for a grant, the download edge behind signed URLs, and the exports. A response is a
  status with a body; the account of a request is the claim the middleware verified. Handlers
  that change the store return the new database beside the response.
\<close>

section \<open>Responses\<close>

datatype body =
  B_Error string | B_Asset asset | B_Page asset_page | B_Resolution delivery_resolution | B_Job job
| B_Rendition rendition | B_Grant grant | B_Export export | B_Ticket upload_ticket
| B_Provision account_provisioning | B_Health health

type_synonym response = "int \<times> body"

definition account :: "claims option \<Rightarrow> string" where
  "account cl = (case cl of None \<Rightarrow> [] | Some c \<Rightarrow> cl_account c)"

definition scopeCheck :: "claims option \<Rightarrow> string \<Rightarrow> bool" where
  "scopeCheck cl required = (case cl of None \<Rightarrow> False | Some c \<Rightarrow> HasScope c required)"

definition lacks_scope :: response where "lacks_scope = (403, B_Error ''forbidden'')"

definition denyNotFound :: response where "denyNotFound = (404, B_Error ''not_found'')"

fun mapStoreErr :: "store_error \<Rightarrow> response" where
  "mapStoreErr ErrNotFound = denyNotFound"
| "mapStoreErr ErrForeignAsset = (403, B_Error ''forbidden'')"
| "mapStoreErr ErrAssetsGone = (409, B_Error ''assets_gone'')"
| "mapStoreErr ErrUploadGone = (410, B_Error ''gone'')"
| "mapStoreErr _ = (500, B_Error ''internal'')"

text \<open>The tail of a handler around one store call: a read, and a write.\<close>

definition reply :: "int \<Rightarrow> ('a \<Rightarrow> body) \<Rightarrow> store_error + 'a \<Rightarrow> response" where
  "reply status f r = (case r of Inl e \<Rightarrow> mapStoreErr e | Inr x \<Rightarrow> (status, f x))"

definition reply_write :: "db \<Rightarrow> int \<Rightarrow> ('a \<Rightarrow> body) \<Rightarrow> 'a effect \<Rightarrow> response \<times> db" where
  "reply_write d status f r = (case r of Inl e \<Rightarrow> (mapStoreErr e, d) | Inr (d', x) \<Rightarrow> ((status, f x), d'))"

section \<open>The URL endpoint\<close>

definition validIntent :: "string \<Rightarrow> bool" where
  "validIntent i = (i \<in> set (map intent_str [Thumbnail, Grid, Lightbox, Poster, Loop, Detail, Original, Zoom1, Zoom2, Zoom3]))"

definition parseDevice :: "string \<Rightarrow> device_class option" where
  "parseDevice v =
     (if v = [] then Some Mobile
      else if v = device_str Mobile then Some Mobile
      else if v = device_str Desktop then Some Desktop
      else None)"

definition owner_original_url :: "service \<Rightarrow> string \<Rightarrow> asset \<Rightarrow> time \<Rightarrow> string" where
  "owner_original_url s key a expiry =
     (let base = ub_DownloadBase (sv_urls s) @ ''/v1/download/'' @ vo_Key (asset_Vault a)
            @ ''?intent='' @ QueryEscape (intent_str Original)
      in sign (sv_hmac s) key base (intent_str Original) ownerOriginalSentinel expiry)"

definition unauthorized :: "intent \<Rightarrow> response" where
  "unauthorized i = (200, B_Resolution (refusal i (Some RC_Unauthorized)))"

definition resolveGranted ::
  "service \<Rightarrow> time \<Rightarrow> db \<Rightarrow> grant_cache \<Rightarrow> string \<Rightarrow> string \<Rightarrow> intent \<Rightarrow> device_class \<Rightarrow> response \<times> grant_cache" where
  "resolveGranted s now d c grantID assetID i device =
     (if i = Original then (unauthorized i, c)
      else let (v, c') = cache_resolve (sv_cacheTTL s) c d now grantID assetID in
        if \<not> Live v then (unauthorized i, c')
        else (case GetAsset d (vd_Account v) assetID of
            Inl e \<Rightarrow>
              if e = ErrNotFound \<and> AssetPurged d (vd_Account v) assetID
              then ((200, B_Resolution (refusal i (Some RC_Deleted))), c')
              else (unauthorized i, c')
          | Inr a \<Rightarrow>
              let res = resolveNonOriginal s i device a in
              (case dr_Delivery res of
                 None \<Rightarrow> ((200, B_Resolution res), c')
               | Some dl \<Rightarrow>
                   (case enforceGranted s now dl a grantID i device of
                      None \<Rightarrow> ((503, B_Error ''unconfigured''), c')
                    | Some sdl \<Rightarrow> ((200, B_Resolution (res\<lparr>dr_Delivery := Some sdl\<rparr>)), c')))))"

definition handleResolveDeliveryURL ::
  "service \<Rightarrow> time \<Rightarrow> claims option \<Rightarrow> db \<Rightarrow> grant_cache
    \<Rightarrow> string \<Rightarrow> string \<Rightarrow> string \<Rightarrow> string \<Rightarrow> response \<times> grant_cache" where
  "handleResolveDeliveryURL s now cl d c assetID qintent qdevice grantID =
     (if \<not> scopeCheck cl ''assets:read'' then (lacks_scope, c)
      else if \<not> validIntent qintent then ((400, B_Error ''bad_request''), c)
      else case intent_of qintent of None \<Rightarrow> ((400, B_Error ''bad_request''), c) | Some i \<Rightarrow>
      (case parseDevice qdevice of
         None \<Rightarrow> ((400, B_Error ''bad_request''), c)
       | Some device \<Rightarrow>
           if grantID \<noteq> [] then resolveGranted s now d c grantID assetID i device
           else (case GetAsset d (account cl) assetID of
               Inl e \<Rightarrow> (mapStoreErr e, c)
             | Inr a \<Rightarrow>
                 if asset_DeletedAt a \<noteq> None then ((200, B_Resolution (refusal i (Some RC_Deleted))), c)
                 else if i = Original then
                   (case sv_signer s of
                      None \<Rightarrow> ((503, B_Error ''unconfigured''), c)
                    | Some key \<Rightarrow>
                        let expiry = now + sv_grantURLTTL s in
                        ((200, B_Resolution \<lparr>dr_Delivery = Some \<lparr>dl_Expires = Some expiry, dl_Height = None,
                             dl_Mode = Signed, dl_Url = owner_original_url s key a expiry, dl_Width = None\<rparr>,
                           dr_Detail = None, dr_Intent = Original, dr_Reason = None\<rparr>), c))
                 else ((200, B_Resolution (resolveNonOriginal s i device a)), c))))"

section \<open>The download edge\<close>

datatype download = Denied | Redirect string

definition live_asset :: "db \<Rightarrow> string \<Rightarrow> string \<Rightarrow> bool" where
  "live_asset d acct assetID =
     (case GetAsset d acct assetID of Inl _ \<Rightarrow> False | Inr a \<Rightarrow> asset_DeletedAt a = None)"

text \<open>The authorization of a download, by the three kinds of capability.\<close>

definition download_allowed ::
  "service \<Rightarrow> string \<Rightarrow> time \<Rightarrow> db \<Rightarrow> grant_cache \<Rightarrow> string \<Rightarrow> string \<Rightarrow> bool \<times> grant_cache" where
  "download_allowed s sk now d c key rawQuery =
     (let q = parse_query rawQuery;
          i = values_get q ''intent'';
          grantID = values_get q ''grant'';
          exportID = values_get q ''export'';
          signedURL = ub_DownloadBase (sv_urls s) @ ''/v1/download/'' @ key @ ''?'' @ rawQuery
      in if key = [] \<or> i = [] then (False, c)
         else if exportID \<noteq> [] then
           (if i \<noteq> intent_str Original \<or> grantID \<noteq> []
               \<or> \<not> verify (sv_hmac s) sk now signedURL i (exportSigContext exportID) then (False, c)
            else (case vaultKeyParts key of
                None \<Rightarrow> (False, c)
              | Some (acct, assetID) \<Rightarrow>
                  let v = ResolveExportForDelivery d now exportID assetID in
                  if \<not> Live v \<or> vd_Account v \<noteq> acct then (False, c)
                  else (live_asset d (vd_Account v) assetID, c)))
         else if i = intent_str Original then
           (if grantID \<noteq> [] \<or> \<not> verify (sv_hmac s) sk now signedURL i ownerOriginalSentinel then (False, c)
            else (case vaultKeyParts key of
                None \<Rightarrow> (False, c)
              | Some (acct, assetID) \<Rightarrow> (live_asset d acct assetID, c)))
         else if grantID = [] \<or> \<not> verify (sv_hmac s) sk now signedURL i grantID then (False, c)
         else (let assetID = assetIDFromRenditionKey key in
               if assetID = [] then (False, c)
               else (let (v, c') = cache_resolve (sv_cacheTTL s) c d now grantID assetID in (Live v, c'))))"

definition handleDownload ::
  "service \<Rightarrow> time \<Rightarrow> db \<Rightarrow> grant_cache \<Rightarrow> string \<Rightarrow> string \<Rightarrow> download \<times> grant_cache" where
  "handleDownload s now d c key rawQuery =
     (case (sv_signer s, sv_storage s) of
        (Some sk, Some st) \<Rightarrow>
          (let (ok, c') = download_allowed s sk now d c key rawQuery in
           if \<not> ok then (Denied, c')
           else (case st_PresignGet st key (45 * second) of
               None \<Rightarrow> (Denied, c') | Some target \<Rightarrow> (Redirect target, c')))
      | _ \<Rightarrow> (Denied, c))"

section \<open>Exports\<close>

definition ExportMaxTTL :: int where "ExportMaxTTL = 30 * 24 * 3600 * second"

definition export_url :: "service \<Rightarrow> string \<Rightarrow> export \<Rightarrow> string \<Rightarrow> string" where
  "export_url s key e assetID =
     (let vaultKey = VaultKey (ex_Account e) assetID;
          base = ub_DownloadBase (sv_urls s) @ ''/v1/download/'' @ vaultKey
            @ ''?export='' @ QueryEscape (ex_Id e) @ ''&intent='' @ QueryEscape (intent_str Original)
      in sign (sv_hmac s) key base (intent_str Original) (exportSigContext (ex_Id e)) (ex_Expires e))"

definition exportDownloads :: "service \<Rightarrow> export \<Rightarrow> export_download list option" where
  "exportDownloads s e =
     (case sv_signer s of
        None \<Rightarrow> None
      | Some key \<Rightarrow> Some (map (\<lambda>i. \<lparr>ed_Asset = i, ed_Expires = ex_Expires e, ed_Url = export_url s key e i\<rparr>) (ex_Assets e)))"

definition exportLive :: "export \<Rightarrow> time \<Rightarrow> bool" where
  "exportLive e now = (ex_RevokedAt e = None \<and> now < ex_Expires e)"

definition withDownloads :: "service \<Rightarrow> time \<Rightarrow> export \<Rightarrow> export" where
  "withDownloads s now e =
     (if exportLive e now then
        (case exportDownloads s e of None \<Rightarrow> e | Some dls \<Rightarrow> e\<lparr>ex_Downloads := Some dls\<rparr>)
      else e)"

definition handleCreateExport ::
  "service \<Rightarrow> time \<Rightarrow> string \<Rightarrow> claims option \<Rightarrow> db \<Rightarrow> export_request option \<Rightarrow> response \<times> db" where
  "handleCreateExport s now newID cl d req0 =
     (if \<not> scopeCheck cl ''assets:export'' then (lacks_scope, d)
      else if sv_signer s = None then ((503, B_Error ''unconfigured''), d)
      else (case req0 of
          None \<Rightarrow> ((400, B_Error ''bad_request''), d)
        | Some req \<Rightarrow>
            if length (exr_Assets req) = 0 then ((400, B_Error ''bad_request''), d)
            else if \<not> exr_Expires req > now then ((400, B_Error ''bad_request''), d)
            else if exr_Expires req > now + ExportMaxTTL then ((400, B_Error ''bad_request''), d)
            else reply_write d 201 (\<lambda>e. B_Export (withDownloads s now e)) (CreateExport d now newID (account cl) req)))"

definition handleGetExport :: "service \<Rightarrow> time \<Rightarrow> claims option \<Rightarrow> db \<Rightarrow> string \<Rightarrow> response" where
  "handleGetExport s now cl d exportID =
     (if \<not> scopeCheck cl ''assets:export'' then lacks_scope
      else reply 200 (\<lambda>e. B_Export (withDownloads s now e)) (GetExport d (account cl) exportID))"

definition handleRevokeExport :: "time \<Rightarrow> claims option \<Rightarrow> db \<Rightarrow> string \<Rightarrow> response \<times> db" where
  "handleRevokeExport now cl d exportID =
     (if \<not> scopeCheck cl ''assets:export'' then (lacks_scope, d)
      else reply_write d 200 B_Export (RevokeExport d now (account cl) exportID))"

end
