(* ===== verification/Asset_Api.thy ===== *)
theory Asset_Api
  imports Delivery_Api
begin

text \<open>
  The remaining endpoints (internal/service/handlers.go, upload.go, accounts.go): assets,
  renditions and jobs, grants, the upload broker and finalize, account provisioning. A request
  body is an option, \<open>None\<close> when it does not decode; fresh identifiers are arguments.
\<close>

section \<open>Assets, jobs and grants\<close>

definition handleGetAsset :: "claims option \<Rightarrow> db \<Rightarrow> string \<Rightarrow> response" where
  "handleGetAsset cl d assetID =
     (if \<not> scopeCheck cl ''assets:read'' then lacks_scope
      else reply 200 B_Asset (GetAsset d (account cl) assetID))"

definition handleDeleteAsset :: "time \<Rightarrow> claims option \<Rightarrow> db \<Rightarrow> string \<Rightarrow> response \<times> db" where
  "handleDeleteAsset now cl d assetID =
     (if \<not> scopeCheck cl ''assets:write'' then (lacks_scope, d)
      else reply_write d 202 B_Asset (MarkAssetDeleted d now (account cl) assetID))"

definition handleListAssets :: "claims option \<Rightarrow> db \<Rightarrow> string \<Rightarrow> string \<Rightarrow> response" where
  "handleListAssets cl d qlimit qcursor =
     (if \<not> scopeCheck cl ''assets:read'' then lacks_scope
      else if qlimit = [] then (200, B_Page (ListAssets d (account cl) qcursor 50))
      else (case parse_int qlimit of
          None \<Rightarrow> (400, B_Error ''bad_request'')
        | Some n \<Rightarrow> if n < 1 \<or> n > 200 then (400, B_Error ''bad_request'')
                    else (200, B_Page (ListAssets d (account cl) qcursor n))))"

text \<open>The loop over existing renditions: the first row of the intent is returned, except that a
  not_derived row counts as absent.\<close>

fun existing_rendition :: "rendition list \<Rightarrow> intent \<Rightarrow> rendition option" where
  "existing_rendition [] i = None"
| "existing_rendition (r # rest) i =
     (if rend_Intent r = i then (if rend_Status r = RS_NotDerived then None else Some r)
      else existing_rendition rest i)"

definition ready_rendition :: "intent \<Rightarrow> rendition" where
  "ready_rendition i = \<lparr>rend_DurationS = None, rend_HasAudio = None, rend_Height = None, rend_Intent = i,
     rend_Reason = None, rend_Status = RS_Ready, rend_Width = None\<rparr>"

definition handleRequestRendition ::
  "time \<Rightarrow> string \<Rightarrow> claims option \<Rightarrow> db \<Rightarrow> string \<Rightarrow> string option \<Rightarrow> response \<times> db" where
  "handleRequestRendition now jobID cl d assetID req =
     (if \<not> scopeCheck cl ''renditions:generate'' then (lacks_scope, d)
      else if \<not> AssetOwnedBy d (account cl) assetID then (denyNotFound, d)
      else (case (case req of None \<Rightarrow> None | Some raw \<Rightarrow> if validIntent raw then intent_of raw else None) of
          None \<Rightarrow> ((400, B_Error ''bad_request''), d)
        | Some i \<Rightarrow>
            (case GetAsset d (account cl) assetID of
               Inl e \<Rightarrow> (mapStoreErr e, d)
             | Inr a \<Rightarrow>
                 (case existing_rendition (asset_Renditions a) i of
                    Some r \<Rightarrow> ((200, B_Rendition r), d)
                  | None \<Rightarrow>
                      if asset_Kind a = Image \<or> i = Original then ((200, B_Rendition (ready_rendition i)), d)
                      else reply_write d 202 B_Job (EnqueueJob d now jobID (account cl) assetID i)))))"

definition handleGetJob :: "claims option \<Rightarrow> db \<Rightarrow> string \<Rightarrow> response" where
  "handleGetJob cl d jobID =
     (if \<not> scopeCheck cl ''assets:read'' then lacks_scope
      else reply 200 B_Job (GetJob d (account cl) jobID))"

definition handleCreateGrant ::
  "time \<Rightarrow> string \<Rightarrow> claims option \<Rightarrow> db \<Rightarrow> grant_request option \<Rightarrow> response \<times> db" where
  "handleCreateGrant now newID cl d req0 =
     (if \<not> scopeCheck cl ''grants:manage'' then (lacks_scope, d)
      else (case req0 of
          None \<Rightarrow> ((400, B_Error ''bad_request''), d)
        | Some req \<Rightarrow>
            if length (grr_Assets req) = 0 then ((400, B_Error ''bad_request''), d)
            else reply_write d 201 B_Grant (CreateGrant d now newID (account cl) req)))"

definition handleGetGrant :: "claims option \<Rightarrow> db \<Rightarrow> string \<Rightarrow> response" where
  "handleGetGrant cl d grantID =
     (if \<not> scopeCheck cl ''grants:manage'' then lacks_scope
      else reply 200 B_Grant (GetGrant d (account cl) grantID))"

definition handleRevokeGrant :: "time \<Rightarrow> claims option \<Rightarrow> db \<Rightarrow> string \<Rightarrow> response \<times> db" where
  "handleRevokeGrant now cl d grantID =
     (if \<not> scopeCheck cl ''grants:manage'' then (lacks_scope, d)
      else reply_write d 200 B_Grant (RevokeGrant d now (account cl) grantID))"

definition handleHealth :: response where
  "handleHealth = (200, B_Health \<lparr>he_Checks = None, he_Status = Ok, he_Version = None\<rparr>)"

section \<open>Creating an upload\<close>

text \<open>The validation of an authored rendition's binding: the refusal, or nothing.\<close>

definition check_binding :: "db \<Rightarrow> string \<Rightarrow> authored_rendition_binding \<Rightarrow> response option" where
  "check_binding d acct b =
     (if \<not> AssetOwnedBy d acct (arb_AssetId b) then Some denyNotFound
      else if arb_Intent b \<noteq> intent_str Poster \<and> arb_Intent b \<noteq> intent_str Loop \<and> arb_Intent b \<noteq> intent_str Detail
      then Some (400, B_Error ''bad_request'')
      else (case intent_of (arb_Intent b) of
          None \<Rightarrow> Some (400, B_Error ''bad_request'')
        | Some i \<Rightarrow> if RenditionStatusFor d (arb_AssetId b) i = Some RS_Ready
                    then Some (409, B_Error ''rendition_exists'') else None))"

definition new_upload_key :: "string \<Rightarrow> string \<Rightarrow> authored_rendition_binding option \<Rightarrow> string" where
  "new_upload_key acct newID b =
     (case b of Some b \<Rightarrow> StagingKey acct (arb_AssetId b) (arb_Intent b) | None \<Rightarrow> VaultKey acct newID)"

definition upload_of_request :: "string \<Rightarrow> string \<Rightarrow> upload_request \<Rightarrow> upload" where
  "upload_of_request acct newID req =
     \<lparr>u_ID = newID, u_Account = acct, u_Key = new_upload_key acct newID (ur_Rendition req),
      u_ContentType = ur_ContentType req, u_SizeBytes = ur_SizeBytes req,
      u_Filename = str_of (ur_Filename req),
      u_SkipDerivations = (case ur_SkipDerivations req of None \<Rightarrow> False | Some b \<Rightarrow> b),
      u_RenditionAsset = (case ur_Rendition req of None \<Rightarrow> [] | Some b \<Rightarrow> arb_AssetId b),
      u_RenditionIntent = (case ur_Rendition req of None \<Rightarrow> [] | Some b \<Rightarrow> arb_Intent b),
      u_SweptAt = None\<rparr>"

definition handleCreateUpload ::
  "service \<Rightarrow> time \<Rightarrow> string \<Rightarrow> claims option \<Rightarrow> db \<Rightarrow> upload_request option \<Rightarrow> response \<times> db" where
  "handleCreateUpload s now newID cl d req0 =
     (if \<not> scopeCheck cl ''assets:write'' then (lacks_scope, d)
      else case sv_storage s of None \<Rightarrow> ((503, B_Error ''unavailable''), d) | Some st \<Rightarrow>
      (case req0 of None \<Rightarrow> ((400, B_Error ''bad_request''), d) | Some req \<Rightarrow>
       if ur_ContentType req = [] \<or> ur_SizeBytes req < 1 then ((400, B_Error ''bad_request''), d)
       else if sv_uploadMaxBytes s > 0 \<and> ur_SizeBytes req > sv_uploadMaxBytes s then ((400, B_Error ''too_large''), d)
       else (case (case ur_Rendition req of None \<Rightarrow> None | Some b \<Rightarrow> check_binding d (account cl) b) of
           Some refused \<Rightarrow> (refused, d)
         | None \<Rightarrow>
             let key = new_upload_key (account cl) newID (ur_Rendition req) in
             (case st_PresignPut st key (ur_ContentType req) (ur_SizeBytes req) (sv_uploadTTL s) of
                None \<Rightarrow> ((500, B_Error ''internal''), d)
              | Some (url, headers, expires) \<Rightarrow>
                  (case CreateUpload d now (account cl) (upload_of_request (account cl) newID req) of
                     Inl e \<Rightarrow> (if e = ErrUnknownAccount then (403, B_Error ''unknown_account'')
                                else (500, B_Error ''internal''), d)
                   | Inr (d', _) \<Rightarrow> ((201, B_Ticket \<lparr>ut_Expires = expires, ut_Headers = headers,
                        ut_Method = ''PUT'', ut_UploadId = newID, ut_Url = url\<rparr>), d'))))))"

section \<open>Finalizing an upload\<close>

definition derivableIntents :: "media_kind \<Rightarrow> intent list" where
  "derivableIntents k = (if k = Video then [Poster, Loop, Detail] else if k = Audio then [Detail] else [])"

definition kindFromContentType :: "string \<Rightarrow> media_kind" where
  "kindFromContentType ct =
     (if has_prefix ct ''image/'' then Image
      else if has_prefix ct ''video/'' then Video
      else if has_prefix ct ''audio/'' then Audio
      else Document)"

definition trim_quotes :: "string \<Rightarrow> string" where
  "trim_quotes s = rev (dropWhile (\<lambda>c. c = CHR 0x22) (rev (dropWhile (\<lambda>c. c = CHR 0x22) s)))"

text \<open>An ETag is hexadecimal, so case folding is on ASCII.\<close>

definition verifyChecksumFromETag :: "string \<Rightarrow> string \<Rightarrow> string option" where
  "verifyChecksumFromETag clientClaim etag0 =
     (let etag = trim_quotes etag0 in
      if etag = [] \<or> CHR ''-'' \<in> set etag then None
      else let claim = trim_prefix clientClaim ''md5:'' in
        if claim \<noteq> clientClaim \<and> to_lower claim = to_lower etag then Some (''md5:'' @ to_lower etag) else None)"

definition ptrI32 :: "int \<Rightarrow> int option" where
  "ptrI32 n = (if n \<le> 0 then None else Some (wrap32 n))"

text \<open>What finalize records of the object: the refusal of an unreadable image, or the record.\<close>

definition vault_record_of :: "storage \<Rightarrow> string \<Rightarrow> upload \<Rightarrow> object_info \<Rightarrow> response + vault_record" where
  "vault_record_of st checksum up info =
     (let kind = kindFromContentType (u_ContentType up);
          v = verifyChecksumFromETag checksum (oi_ETag info);
          vr = \<lparr>vr_Kind = kind, vr_Checksum = str_of v, vr_SizeBytes = oi_Size info, vr_Width = None,
                vr_Height = None, vr_DurationS = None, vr_Codec = None, vr_Container = None,
                vr_ProbeStatus = [], vr_ChecksumVerified = (v \<noteq> None)\<rparr>
      in case kind of
           Image \<Rightarrow> (case st_ProbeImage st (u_Key up) of
               None \<Rightarrow> Inl (409, B_Error ''unprobeable'')
             | Some (w, h, container) \<Rightarrow>
                 Inr (vr\<lparr>vr_Width := ptrI32 w, vr_Height := ptrI32 h, vr_Container := nullStr container,
                         vr_ProbeStatus := ''ready''\<rparr>))
         | Document \<Rightarrow> Inr (vr\<lparr>vr_ProbeStatus := ''ready''\<rparr>)
         | _ \<Rightarrow> Inr (vr\<lparr>vr_ProbeStatus := ''pending''\<rparr>))"

text \<open>The opt-out marks, one statement each: the database reached, and whether all succeeded.\<close>

fun mark_not_derived :: "db \<Rightarrow> string \<Rightarrow> intent list \<Rightarrow> db \<times> bool" where
  "mark_not_derived d i [] = (d, True)"
| "mark_not_derived d i (n # ns) =
     (case MarkNotDerived d i n of Inl _ \<Rightarrow> (d, False) | Inr (d', _) \<Rightarrow> mark_not_derived d' i ns)"

definition after_finalize :: "time \<Rightarrow> string \<Rightarrow> string \<Rightarrow> upload \<Rightarrow> media_kind \<Rightarrow> db \<Rightarrow> string \<Rightarrow> asset \<Rightarrow> response \<times> db" where
  "after_finalize now jobID acct up kind d uploadID a =
     (if kind = Video \<or> kind = Audio then
        if u_SkipDerivations up then
          (let (d', ok) = mark_not_derived d uploadID (derivableIntents kind) in
           if \<not> ok then ((500, B_Error ''internal''), d')
           else (case GetAsset d' acct uploadID of
               Inl _ \<Rightarrow> ((201, B_Asset a), d') | Inr fresh \<Rightarrow> ((201, B_Asset fresh), d')))
        else (case EnqueueJob d now jobID acct uploadID Detail of
            Inl _ \<Rightarrow> ((500, B_Error ''internal''), d) | Inr (d', _) \<Rightarrow> ((201, B_Asset a), d'))
      else ((201, B_Asset a), d))"

text \<open>
  A stored rendition intent is one the upload handler admitted, so it names an intent; the branch
  for any other text answers like a failed enqueue.
\<close>

definition handleFinalizeUpload ::
  "service \<Rightarrow> time \<Rightarrow> string \<Rightarrow> claims option \<Rightarrow> db \<Rightarrow> string \<Rightarrow> string option \<Rightarrow> response \<times> db" where
  "handleFinalizeUpload s now jobID cl d uploadID req =
     (if \<not> scopeCheck cl ''assets:write'' then (lacks_scope, d)
      else case sv_storage s of None \<Rightarrow> ((503, B_Error ''unavailable''), d) | Some st \<Rightarrow>
      (case req of None \<Rightarrow> ((400, B_Error ''bad_request''), d) | Some checksum \<Rightarrow>
       if checksum = [] then ((400, B_Error ''bad_request''), d)
       else case GetUpload d (account cl) uploadID of Inl e \<Rightarrow> (mapStoreErr e, d) | Inr up \<Rightarrow>
       if u_SweptAt up \<noteq> None then ((410, B_Error ''gone''), d)
       else case st_Head st (u_Key up) of None \<Rightarrow> ((500, B_Error ''internal''), d) | Some info \<Rightarrow>
       if \<not> oi_Exists info then ((409, B_Error ''not_uploaded''), d)
       else if u_RenditionAsset up \<noteq> [] \<and> u_RenditionIntent up \<noteq> [] then
         (case intent_of (u_RenditionIntent up) of
            None \<Rightarrow> ((500, B_Error ''internal''), d)
          | Some i \<Rightarrow>
              (case EnqueueRemuxJob d now jobID (account cl) (u_RenditionAsset up) i (u_Key up) of
                 Inl _ \<Rightarrow> ((500, B_Error ''internal''), d)
               | Inr (d', j) \<Rightarrow> ((202, B_Job j), d')))
       else (case vault_record_of st checksum up info of
           Inl refused \<Rightarrow> (refused, d)
         | Inr vr \<Rightarrow>
             (case FinalizeUpload d now (account cl) uploadID vr of
                Inl e \<Rightarrow> (mapStoreErr e, d)
              | Inr (d', a) \<Rightarrow> after_finalize now jobID (account cl) up (vr_Kind vr) d' uploadID a))))"

section \<open>Provisioning an account\<close>

definition handleProvisionAccount :: "time \<Rightarrow> claims option \<Rightarrow> db \<Rightarrow> response \<times> db" where
  "handleProvisionAccount now cl d =
     (if \<not> scopeCheck cl ''accounts:provision'' then (lacks_scope, d)
      else (case cl of
          None \<Rightarrow> ((403, B_Error ''forbidden''), d)
        | Some c \<Rightarrow>
            if \<not> NamespaceIssuer c then ((403, B_Error ''forbidden''), d)
            else if \<not> ValidAccountID (cl_account c) then ((400, B_Error ''bad_request''), d)
            else (case ProvisionAccount d now (cl_account c) of
                Inl e \<Rightarrow> (mapStoreErr e, d)
              | Inr (d', a, created) \<Rightarrow>
                  ((if created then 201 else 200, B_Provision \<lparr>ap_Account = a, ap_Created = created\<rparr>), d'))))"

end
