(* ===== verification/Queue_Props.thy ===== *)
theory Queue_Props
  imports Store_Machine
begin

text \<open>
  The job queue: what a claim takes, leases, completion and failure, what re-authoring and stale
  workers do, and the permanence of verified checksums.
\<close>

section \<open>Rows by id\<close>

definition job_by_id :: "db \<Rightarrow> string \<Rightarrow> job_row option" where
  "job_by_id d j = get_row (\<lambda>r. jr_id r = j) (db_jobs d)"

lemma job_by_id_iff:
  assumes "keys_ok d"
  shows "job_by_id d j = Some r \<longleftrightarrow> r \<in> set (db_jobs d) \<and> jr_id r = j"
proof
  assume "job_by_id d j = Some r"
  then show "r \<in> set (db_jobs d) \<and> jr_id r = j" unfolding job_by_id_def by (auto dest: get_row_Some_iff)
next
  assume "r \<in> set (db_jobs d) \<and> jr_id r = j"
  then show "job_by_id d j = Some r" unfolding job_by_id_def
    using assms by (intro get_row_by_key [of jr_id]) (auto simp: keys_ok_def)
qed

lemma job_update:
  assumes "\<And>r. jr_id (f r) = jr_id r"
  shows "job_by_id (d\<lparr>db_jobs := update_where (\<lambda>x. jr_id x = i) f (db_jobs d)\<rparr>) j
    = (if j = i then map_option f (job_by_id d j) else job_by_id d j)"
  using assms
  by (auto simp: job_by_id_def get_row_update_where intro!: get_row_update_where_other)

lemmas row_ids = claim_row_def beat_row_def succeed_row_def requeue_row_def fail_row_def repoint_def

section \<open>Claiming\<close>

lemma pick_job_Some:
  assumes "pick_job d stale = Some r"
  shows "r \<in> set (db_jobs d)" "runnable stale r"
    "x \<in> set (db_jobs d) \<Longrightarrow> runnable stale x
      \<Longrightarrow> tier r < tier x \<or> (tier r = tier x \<and> jr_created r \<le> jr_created x)"
proof -
  obtain rs where h: "sort_key tier (sort_key jr_created (filter (runnable stale) (db_jobs d))) = r # rs"
    using assms by (auto simp: pick_job_def split: list.splits)
  show "r \<in> set (db_jobs d)" "runnable stale r" using sort_key_head_in [OF h] by auto
  show "x \<in> set (db_jobs d) \<Longrightarrow> runnable stale x
      \<Longrightarrow> tier r < tier x \<or> (tier r = tier x \<and> jr_created r \<le> jr_created x)"
    by (rule stable_sort_head [OF h]) simp
qed

lemma pick_job_None: "pick_job d stale = None \<longleftrightarrow> (\<forall>r \<in> set (db_jobs d). \<not> runnable stale r)"
proof -
  have "pick_job d stale = None \<longleftrightarrow> sort_key tier (sort_key jr_created (filter (runnable stale) (db_jobs d))) = []"
    by (simp add: pick_job_def split: list.splits)
  then show ?thesis by (simp add: sort_key_empty_iff filter_empty_conv)
qed

text \<open>C27: What a claim does, on every branch, in a reachable store: with nothing runnable it answers
  ErrNoJob and changes nothing; otherwise it takes a runnable job that is first in the order of
  tiers (remux and poster, then loop, then the rest) and then of age, hands out the vault key of
  that job's own account and asset, and changes only that row: running, lease stamped now, one
  more attempt.\<close>
theorem claim_exact:
  assumes "reachable d"
  shows "case ClaimNextJob d now ttl of
      (d', Inl e) \<Rightarrow> e = ErrNoJob \<and> d' = d \<and> {r \<in> set (db_jobs d). runnable (now - ttl) r} = {}
    | (d', Inr c) \<Rightarrow> (\<exists>r \<in> {r \<in> set (db_jobs d). runnable (now - ttl) r}.
          {x \<in> set (db_jobs d). runnable (now - ttl) x
             \<and> (tier x < tier r \<or> (tier x = tier r \<and> jr_created x < jr_created r))} = {}
        \<and> cj_ID c = jr_id r \<and> cj_Account c = jr_account r \<and> cj_Asset c = jr_asset r
        \<and> cj_Intent c = jr_intent r \<and> cj_Mode c = jr_mode r \<and> cj_Attempts c = jr_retries r + 1
        \<and> cj_VaultKey c = VaultKey (jr_account r) (jr_asset r)
        \<and> (\<forall>j. job_by_id d' j = (if j = jr_id r
              then Some (r\<lparr>jr_status := JobRunning, jr_locked_at := Some now, jr_heartbeat_at := Some now,
                           jr_retries := jr_retries r + 1, jr_updated := now\<rparr>)
              else job_by_id d j)))"
proof (cases "pick_job d (now - ttl)")
  case None
  then have "ClaimNextJob d now ttl = (d, Inl ErrNoJob)" by (simp add: ClaimNextJob_def Let_def)
  then show ?thesis using None pick_job_None [of d "now - ttl"] by auto
next
  case (Some r)
  note k = reachable_keys [OF assms]
  note r = pick_job_Some [OF Some]
  let ?d = "d\<lparr>db_jobs := update_where (\<lambda>x. jr_id x = jr_id r) (claim_row now) (db_jobs d)\<rparr>"
  obtain a where a: "a \<in> set (db_assets d)" "asset_is (jr_account r) (jr_asset r) a"
    using reachable_job_asset [OF assms r(1)] by blast
  then have ga: "get_row (asset_is (jr_account r) (jr_asset r)) (db_assets d) = Some a"
    using get_asset_row [OF k a(1)] by (simp add: asset_is_def)
  have vk: "ar_vault_key a = VaultKey (jr_account r) (jr_asset r)"
    using reachable_vault_key [OF assms a(1)] a(2) by (simp add: asset_is_def)
  obtain c where c: "ClaimNextJob d now ttl = (?d, Inr c)"
    and cf: "cj_ID c = jr_id r" "cj_Account c = jr_account r" "cj_Asset c = jr_asset r"
      "cj_Intent c = jr_intent r" "cj_Mode c = jr_mode r" "cj_Attempts c = jr_retries r + 1"
      "cj_VaultKey c = VaultKey (jr_account r) (jr_asset r)"
    using Some ga vk by (simp add: ClaimNextJob_def Let_def claim_row_def)
  have jb: "job_by_id d (jr_id r) = Some r" using job_by_id_iff [OF k] r(1) by simp
  have "job_by_id ?d j = (if j = jr_id r then Some (claim_row now r) else job_by_id d j)" for j
    using jb by (subst job_update) (auto simp: claim_row_def)
  moreover have "{x \<in> set (db_jobs d). runnable (now - ttl) x
      \<and> (tier x < tier r \<or> (tier x = tier r \<and> jr_created x < jr_created r))} = {}"
    using r(3) by force
  ultimately show ?thesis using c cf r(1,2)
    by (simp only: c prod.case sum.case) (intro bexI [of _ r], auto simp: claim_row_def)
qed

text \<open>A store with one queued job, and a worker that has claimed it.\<close>

definition demo_job :: job_row where
  "demo_job = queued_row 40 ''J1'' ''alice'' ''A1'' Detail Derive None"

definition demo_jobs :: db where
  "demo_jobs = run_request 40 ''alice'' (R_EnqueueJob ''J1'' ''A1'' Detail) demo_db"

lemma demo_jobs_eval: "demo_jobs = demo_db\<lparr>db_jobs := [demo_job]\<rparr>"
  by (simp add: demo_jobs_def demo_db_eval demo_db0_eval empty_db_def EnqueueJob_def latest_job_def insert_job_def
      queued_row_def has_account_def has_asset_id_def table_defs demo_asset_def demo_job_def)

lemma demo_jobs_reachable: "reachable demo_jobs"
  unfolding demo_jobs_def
  by (rule reachable.step [OF demo_reachable store_step.request])
     (simp add: demo_db_eval AssetOwnedBy_def table_defs asset_is_def demo_asset_def)

lemma demo_jobs_list: "db_jobs demo_jobs = [demo_job]"
  by (simp add: demo_jobs_eval)

lemma demo_job_fields: "jr_id demo_job = ''J1''" "jr_account demo_job = ''alice''" "jr_asset demo_job = ''A1''"
  by (simp_all add: demo_job_def queued_row_def)

lemma demo_job_runnable: "runnable t demo_job"
  by (simp add: runnable_def demo_job_def queued_row_def)

lemma claim_exact_witness:
  "\<exists>d' c. ClaimNextJob demo_jobs 50 60 = (d', Inr c) \<and> cj_ID c = ''J1''
     \<and> cj_VaultKey c = VaultKey ''alice'' ''A1''"
  using claim_exact [OF demo_jobs_reachable, of 50 60]
  by (auto simp: demo_jobs_list demo_job_runnable demo_job_fields split: prod.splits sum.splits)

section \<open>Leases\<close>

definition leased :: "db \<Rightarrow> string \<Rightarrow> time \<Rightarrow> bool" where
  "leased d j t = (case job_by_id d j of None \<Rightarrow> False
     | Some r \<Rightarrow> jr_status r = JobRunning \<and> (case jr_heartbeat_at r of None \<Rightarrow> False | Some h \<Rightarrow> t \<le> h))"

text \<open>The one operation that can hand a leased job on: a report of its failure, by whichever worker.\<close>

fun fails_job :: "string \<Rightarrow> worker_op \<Rightarrow> bool" where
  "fails_job j (W_Fail i m r msg) \<longleftrightarrow> i = j"
| "fails_job j _ \<longleftrightarrow> False"

lemma claim_db: "fst (ClaimNextJob d now ttl) =
    (case pick_job d (now - ttl) of None \<Rightarrow> d
     | Some r \<Rightarrow> d\<lparr>db_jobs := update_where (\<lambda>x. jr_id x = jr_id r) (claim_row now) (db_jobs d)\<rparr>)"
  by (simp add: ClaimNextJob_def Let_def split: option.splits)

text \<open>A claim looks past \<open>t\<close> when its cut-off is later; a beat is not before \<open>t\<close>.\<close>

definition honours :: "time \<Rightarrow> time \<Rightarrow> worker_op \<Rightarrow> bool" where
  "honours t now w = (t \<le> now \<and> (case w of W_Claim ttl \<Rightarrow> now - ttl \<le> t | _ \<Rightarrow> True))"

fun touches_jobs :: "worker_op \<Rightarrow> bool" where
  "touches_jobs (W_Claim ttl) = True"
| "touches_jobs (W_Heartbeat i p) = True"
| "touches_jobs (W_Complete i c) = True"
| "touches_jobs (W_CompleteNoRendition i) = True"
| "touches_jobs (W_Fail i m r msg) = True"
| "touches_jobs (W_Purge i) = True"
| "touches_jobs _ = False"

lemma other_worker_jobs: "\<not> touches_jobs w \<Longrightarrow> db_jobs (run_worker now w d) = db_jobs d"
  by (cases w) (auto simp: commit_def BackfillVaultProbe_def MarkProbeFailed_def
    FailedRenditionForCeiling_def ClaimChecksumCandidate_def ReleaseChecksumClaim_def
    MarkChecksumVerified_def MarkUploadSwept_def UpsertWorkerHeartbeat_def Let_def
    split: option.splits sum.splits)

text \<open>Job \<open>j\<close> is gone or its row is still of the kind \<open>P\<close>. A kind that beats and completions keep, and that
  no claim of the run takes, is kept by every operation but a report of the job's failure.\<close>

definition kept_job :: "(job_row \<Rightarrow> bool) \<Rightarrow> db \<Rightarrow> string \<Rightarrow> bool" where
  "kept_job P d j \<longleftrightarrow> (\<forall>r \<in> set (db_jobs d). jr_id r = j \<longrightarrow> P r)"

lemma kept_job_update:
  assumes "kept_job P d j" "\<And>r. jr_id (f r) = jr_id r" "\<And>r. r \<in> set (db_jobs d) \<Longrightarrow> p r \<Longrightarrow> jr_id r = j \<Longrightarrow> P r \<Longrightarrow> P (f r)"
  shows "kept_job P (d\<lparr>db_jobs := update_where p f (db_jobs d)\<rparr>) j"
  using assms by (auto simp: kept_job_def set_update_where)

lemma kept_job_jobs: "kept_job P d j \<Longrightarrow> set (db_jobs d') \<subseteq> set (db_jobs d) \<Longrightarrow> kept_job P d' j"
  by (auto simp: kept_job_def)

lemma kept_not_claimed:
  assumes "kept_job P d j" "\<And>r. P r \<Longrightarrow> \<not> runnable (now - ttl) r"
  shows "kept_job P (fst (ClaimNextJob d now ttl)) j \<and> (\<forall>c. snd (ClaimNextJob d now ttl) = Inr c \<longrightarrow> cj_ID c \<noteq> j)"
proof (cases "pick_job d (now - ttl)")
  case None
  then show ?thesis using assms(1) by (simp add: ClaimNextJob_def Let_def)
next
  case (Some r)
  then have "jr_id r \<noteq> j" using assms pick_job_Some(1,2) [OF Some] by (auto simp: kept_job_def)
  moreover have "kept_job P (d\<lparr>db_jobs := update_where (\<lambda>x. jr_id x = jr_id r) (claim_row now) (db_jobs d)\<rparr>) j"
    by (rule kept_job_update [OF assms(1)]) (use calculation in \<open>simp_all add: claim_row_def\<close>)
  ultimately show ?thesis using Some by (auto simp: ClaimNextJob_def Let_def claim_row_def split: option.splits)
qed

lemma kept_step:
  assumes "kept_job P d j" "\<not> fails_job j w" "\<And>ttl r. w = W_Claim ttl \<Longrightarrow> P r \<Longrightarrow> \<not> runnable (now - ttl) r"
    and beat: "\<And>r p. jr_status r = JobRunning \<Longrightarrow> P r \<Longrightarrow> P (beat_row now p r)" and succeed: "\<And>r. P r \<Longrightarrow> P (succeed_row now r)"
  shows "kept_job P (run_worker now w d) j"
proof (cases w)
  case (W_Claim ttl)
  then show ?thesis using kept_not_claimed [OF assms(1) assms(3)] by simp
next
  case (W_Heartbeat i p)
  have "kept_job P (Heartbeat d now i p) j" unfolding Heartbeat_def
    by (rule kept_job_update [OF assms(1)]) (use beat in \<open>simp_all add: beat_row_def\<close>)
  then show ?thesis using W_Heartbeat by simp
next
  case (W_Complete i c)
  have "kept_job P (d\<lparr>db_jobs := update_where (\<lambda>x. jr_id x = i) (succeed_row now) (db_jobs d)\<rparr>) j"
    by (rule kept_job_update [OF assms(1)]) (use succeed in \<open>simp_all add: succeed_row_def\<close>)
  then show ?thesis using W_Complete assms(1) by (auto simp: CompleteJob_def commit_def kept_job_def split: option.splits)
next
  case (W_CompleteNoRendition i)
  have "kept_job P (CompleteJobNoRendition d now i) j" unfolding CompleteJobNoRendition_def
    by (rule kept_job_update [OF assms(1)]) (use succeed in \<open>simp_all add: succeed_row_def\<close>)
  then show ?thesis using W_CompleteNoRendition by simp
next
  case (W_Fail i m r msg)
  then have "i \<noteq> j" using assms(2) by simp
  then have "kept_job P (d\<lparr>db_jobs := update_where (\<lambda>x. jr_id x = i) f (db_jobs d)\<rparr>) j" if "\<And>x. jr_id (f x) = jr_id x" for f
    by (intro kept_job_update [OF assms(1) that]) auto
  then show ?thesis using W_Fail assms(1) by (auto simp: FailJob_def commit_def requeue_row_def fail_row_def split: option.splits sum.splits)
next
  case (W_Purge i)
  then show ?thesis by (intro kept_job_jobs [OF assms(1)]) (auto simp: PurgeDeletedAsset_def delete_where_def)
qed (use kept_job_jobs [OF assms(1)] other_worker_jobs in \<open>simp_all only: touches_jobs.simps simp_thms order_refl\<close>)

text \<open>A run of worker operations of a fleet.\<close>

fun run_workers :: "(time \<times> worker_op) list \<Rightarrow> db \<Rightarrow> db" where
  "run_workers [] d = d"
| "run_workers ((now, w) # ws) d = run_workers ws (run_worker now w d)"

lemma run_workers_reachable: "reachable d \<Longrightarrow> reachable (run_workers ws d)"
  by (induction ws d rule: run_workers.induct)
     (auto intro: reachable.step store_step.worker simp del: run_worker.simps)

lemma kept_run:
  assumes "kept_job P d j" "list_all (\<lambda>(now, w). \<not> fails_job j w \<and> Q now w) ws"
    "\<And>now ttl r. Q now (W_Claim ttl) \<Longrightarrow> P r \<Longrightarrow> \<not> runnable (now - ttl) r"
    "\<And>now w r p. Q now w \<Longrightarrow> jr_status r = JobRunning \<Longrightarrow> P r \<Longrightarrow> P (beat_row now p r)" "\<And>now r. P r \<Longrightarrow> P (succeed_row now r)"
  shows "kept_job P (run_workers ws d) j"
  using assms(1,2)
proof (induction ws d rule: run_workers.induct)
  case (2 now w ws d)
  then have w: "\<not> fails_job j w" "Q now w" by simp_all
  have "kept_job P (run_worker now w d) j"
    by (rule kept_step [OF 2(2) w(1)]) (use w(2) assms(3-5) in blast)+
  then show ?case using 2 by simp
qed simp

text \<open>C28: Lease exclusivity: while a job's last heart beat is at least \<open>t\<close>, no claim that honours leases
  up to \<open>t\<close> (its cut-off is not after \<open>t\<close>) is handed that job, however many workers claim, beat,
  complete, refuse or purge anything, this job included, or fail other jobs in between. The one
  exemption is a report of failure of the job itself, which the store takes from any worker: below
  the limit of attempts it puts the job back in the queue although the lease is fresh.\<close>
theorem lease_exclusive:
  assumes "reachable d" "leased d j t"
  shows "(\<forall>ws now ttl c. list_all (\<lambda>(now, w). \<not> fails_job j w \<and> honours t now w) ws \<longrightarrow> now - ttl \<le> t
      \<longrightarrow> snd (ClaimNextJob (run_workers ws d) now ttl) = Inr c \<longrightarrow> cj_ID c \<noteq> j)
    \<and> (\<forall>now m reason msg. case job_by_id d j of None \<Rightarrow> False
      | Some r \<Rightarrow> jr_retries r < m \<longrightarrow> (\<exists>s. job_by_id (run_worker now (W_Fail j m reason msg) d) j = Some s \<and> jr_status s = JobQueued))"
proof (intro conjI allI impI)
  let ?P = "\<lambda>r. \<not> runnable t r"
  obtain r where r: "job_by_id d j = Some r" "?P r"
    using assms(2) by (auto simp: leased_def runnable_def split: option.splits)
  have "kept_job ?P d j"
    unfolding kept_job_def
  proof (intro ballI impI)
    fix x assume "x \<in> set (db_jobs d)" "jr_id x = j"
    then have "job_by_id d j = Some x" using job_by_id_iff [OF reachable_keys [OF assms(1)]] by blast
    then show "?P x" using r by simp
  qed
  have mono: "?P x \<Longrightarrow> t' \<le> t \<Longrightarrow> \<not> runnable t' x" for x t' by (auto simp: runnable_def split: option.splits)
  show "cj_ID c \<noteq> j" if "list_all (\<lambda>(now, w). \<not> fails_job j w \<and> honours t now w) ws" "now - ttl \<le> t"
    "snd (ClaimNextJob (run_workers ws d) now ttl) = Inr c" for ws now ttl c
  proof -
    have "kept_job ?P (run_workers ws d) j"
      by (rule kept_run [OF \<open>kept_job ?P d j\<close> that(1)])
        (use mono in \<open>auto simp: honours_def runnable_def beat_row_def succeed_row_def\<close>)
    from kept_not_claimed [OF this] mono that(2,3) show ?thesis by blast
  qed
  show "case job_by_id d j of None \<Rightarrow> False
      | Some r \<Rightarrow> jr_retries r < m \<longrightarrow> (\<exists>s. job_by_id (run_worker now (W_Fail j m reason msg) d) j = Some s \<and> jr_status s = JobQueued)"
    for now m reason msg
    using r(1) by (auto simp: FailJob_def job_by_id_def get_row_update_where requeue_row_def)
qed

definition demo_claimed :: db where
  "demo_claimed = run_worker 50 (W_Claim 60) demo_jobs"

lemma demo_claimed_eval: "demo_claimed = demo_jobs\<lparr>db_jobs := [claim_row 50 demo_job]\<rparr>"
  by (simp add: demo_claimed_def claim_db pick_job_def demo_jobs_list demo_job_runnable update_where_def)

lemma demo_claimed_reachable: "reachable demo_claimed"
  unfolding demo_claimed_def by (rule reachable.step [OF demo_jobs_reachable store_step.worker])

lemma demo_leased: "leased demo_claimed ''J1'' 50"
  by (simp add: leased_def job_by_id_def demo_claimed_eval get_row_def claim_row_def demo_job_fields)

definition demo_two :: db where
  "demo_two = run_request 51 ''alice'' (R_EnqueueJob ''J2'' ''A1'' Poster) demo_claimed"

lemma demo_two_eval: "demo_two = demo_jobs\<lparr>db_jobs :=
   [claim_row 50 demo_job, queued_row 51 ''J2'' ''alice'' ''A1'' Poster Derive None]\<rparr>"
  by (simp add: demo_two_def demo_claimed_eval EnqueueJob_def latest_job_def insert_job_def
      claim_row_def demo_job_def queued_row_def has_account_def has_asset_id_def table_defs
      demo_jobs_eval demo_db_eval demo_db0_eval demo_asset_def)

lemma demo_two_reachable: "reachable demo_two"
  unfolding demo_two_def
  by (rule reachable.step [OF demo_claimed_reachable store_step.request])
     (simp add: demo_claimed_eval demo_jobs_eval demo_db_eval AssetOwnedBy_def table_defs asset_is_def demo_asset_def)

lemma lease_exclusive_witness:
  "\<exists>c. snd (ClaimNextJob demo_two 70 60) = Inr c \<and> cj_ID c \<noteq> ''J1''"
proof -
  have l: "leased demo_two ''J1'' 50"
    by (simp add: leased_def job_by_id_def demo_two_eval get_row_def claim_row_def demo_job_def queued_row_def)
  obtain c where c: "snd (ClaimNextJob demo_two 70 60) = Inr c"
    by (simp add: ClaimNextJob_def pick_job_def Let_def demo_two_eval demo_jobs_eval demo_db_eval demo_asset_def
        runnable_def claim_row_def demo_job_def queued_row_def get_row_def asset_is_def)
  have "cj_ID c \<noteq> ''J1''"
    using conjunct1 [OF lease_exclusive [OF demo_two_reachable l], rule_format, of "[]" 70 60 c] c by simp
  with c show ?thesis by blast
qed

section \<open>Completion and failure\<close>

definition rendition_at :: "db \<Rightarrow> string \<Rightarrow> intent \<Rightarrow> rendition_row option" where
  "rendition_at d i n = get_row (rend_is i n) (db_renditions d)"

lemma upsert_get:
  assumes "\<And>r. p (f r) = p r" "p new"
  shows "get_row p (upsert_row p f new t) = Some (case get_row p t of None \<Rightarrow> new | Some r \<Rightarrow> f r)"
proof (cases "get_row p t")
  case None
  then have "\<not> has_row p t" by (auto simp: has_row_iff get_row_None_iff)
  then show ?thesis using None assms(2) by (simp add: upsert_row_def get_row_insert_row)
next
  case (Some r)
  then have "has_row p t" by (auto simp: has_row_iff dest!: get_row_Some_iff)
  then show ?thesis using Some assms(1) by (simp add: upsert_row_def get_row_update_where)
qed

text \<open>Completion commits the job and its rendition together: for a running job it succeeds, and
  then the job is succeeded with progress 1 and the rendition of the job's own asset and intent
  is ready with the produced key and no reason; for any other job it is an error and nothing is
  written.\<close>
theorem complete_atomic:
  assumes "keys_ok d"
  shows "case CompleteJob d now j c of
      Inl e \<Rightarrow> e = ErrJobNotRunning j \<and> (case job_by_id d j of None \<Rightarrow> True | Some r \<Rightarrow> jr_status r \<noteq> JobRunning)
    | Inr (d', x) \<Rightarrow> (case job_by_id d j of None \<Rightarrow> False | Some r \<Rightarrow> jr_status r = JobRunning
        \<and> job_by_id d' j = Some (r\<lparr>jr_status := JobSucceeded, jr_progress := Some 1, jr_updated := now\<rparr>)
        \<and> (case rendition_at d' (jr_asset r) (jr_intent r) of None \<Rightarrow> False
           | Some q \<Rightarrow> rr_status q = RS_Ready \<and> rr_key q = Some (rc_Key c) \<and> rr_reason q = None)
        \<and> RenditionStatusFor d' (jr_asset r) (jr_intent r) = Some RS_Ready)"
proof (cases "get_row (\<lambda>r. jr_id r = j \<and> jr_status r = JobRunning) (db_jobs d)")
  case None
  then have "case job_by_id d j of None \<Rightarrow> True | Some r \<Rightarrow> jr_status r \<noteq> JobRunning"
    using job_by_id_iff [OF assms, of j] by (auto simp: get_row_None_iff split: option.splits)
  then show ?thesis using None by (simp add: CompleteJob_def)
next
  case (Some r)
  then have r: "r \<in> set (db_jobs d)" "jr_id r = j" "jr_status r = JobRunning"
    by (auto dest!: get_row_Some_iff)
  then have jb: "job_by_id d j = Some r" using job_by_id_iff [OF assms] by simp
  obtain d' where c: "CompleteJob d now j c = Inr (d', ())" using Some by (simp add: CompleteJob_def)
  then have "db_jobs d' = update_where (\<lambda>x. jr_id x = j) (succeed_row now) (db_jobs d)"
    using Some by (auto simp: CompleteJob_def)
  then have "job_by_id d' j = Some (succeed_row now r)"
    using jb by (simp add: job_by_id_def get_row_update_where succeed_row_def)
  moreover have "\<exists>q. rendition_at d' (jr_asset r) (jr_intent r) = Some q \<and> rr_status q = RS_Ready
      \<and> rr_key q = Some (rc_Key c) \<and> rr_reason q = None"
    using c Some unfolding rendition_at_def CompleteJob_def
    by (auto simp: upsert_get rend_is_def ready_row_def split: option.splits)
  moreover have "RenditionStatusFor d' i n = map_option rr_status (rendition_at d' i n)" for i n
    by (simp add: RenditionStatusFor_def rendition_at_def rend_is_def [abs_def])
  ultimately show ?thesis using c jb r by (auto simp: succeed_row_def)
qed

definition demo_record :: rendition_record where
  "demo_record = \<lparr>rc_Key = ''delivery/alice/A1/detail'', rc_Mode = ''public'', rc_Width = None, rc_Height = None,
     rc_DurationS = None, rc_HasAudio = None\<rparr>"

lemma complete_atomic_witness:
  "\<exists>d'. CompleteJob demo_claimed 60 ''J1'' demo_record = Inr (d', ())
     \<and> RenditionStatusFor d' ''A1'' Detail = Some RS_Ready"
  using complete_atomic [where now = 60 and j = "''J1''" and c = demo_record,
      OF reachable_keys [OF demo_claimed_reachable]]
  by (auto simp: demo_claimed_eval job_by_id_def get_row_def claim_row_def demo_job_def queued_row_def
      split: sum.splits)

text \<open>A failed attempt is retried below the limit and given up at it: FailJob puts the job back in the
  queue without its lease while its attempts are below the limit, otherwise it marks it failed
  with the given reason; only an unknown job is an error, and no other job changes.\<close>
theorem fail_exact:
  shows "case FailJob d now j m reason msg of
      Inl e \<Rightarrow> e = ErrNoRows \<and> job_by_id d j = None
    | Inr (d', x) \<Rightarrow> (case job_by_id d j of None \<Rightarrow> False | Some r \<Rightarrow>
        (if jr_retries r < m
         then job_by_id d' j = Some (r\<lparr>jr_status := JobQueued, jr_locked_at := None, jr_heartbeat_at := None,
                jr_last_error := Some msg, jr_updated := now\<rparr>)
         else job_by_id d' j = Some (r\<lparr>jr_status := JobFailed, jr_reason := Some reason,
                jr_last_error := Some msg, jr_updated := now\<rparr>))
        \<and> (if i = j then True else job_by_id d' i = job_by_id d i)
        \<and> db_renditions d' = db_renditions d)"
proof (cases "job_by_id d j")
  case None
  then show ?thesis by (simp add: FailJob_def job_by_id_def)
next
  case (Some r)
  then have "get_row (\<lambda>r. jr_id r = j) (db_jobs d) = Some r" by (simp add: job_by_id_def)
  then show ?thesis using Some
    by (simp add: FailJob_def job_update requeue_row_def fail_row_def)
qed

text \<open>One attempt of a worker on the only job of a store: claim it, then fail it.\<close>

definition failed_attempt :: "time \<Rightarrow> time \<Rightarrow> string \<Rightarrow> int \<Rightarrow> db \<Rightarrow> db" where
  "failed_attempt now ttl j m d =
     run_worker now (W_Fail j m RC_Failed ''transcode'') (run_worker now (W_Claim ttl) d)"

lemma failed_attempt_queued:
  assumes "db_jobs d = [r]" "jr_id r = j" "jr_status r = JobQueued" "jr_retries r < m"
  shows "\<exists>s. db_jobs (failed_attempt now ttl j m d) = [s] \<and> jr_id s = j \<and> jr_retries s = jr_retries r + 1
     \<and> jr_status s = (if jr_retries r + 1 < m then JobQueued else JobFailed)"
  using assms
  by (auto simp: failed_attempt_def claim_db pick_job_def runnable_def update_where_def FailJob_def
      get_row_def claim_row_def requeue_row_def fail_row_def)

text \<open>A job whose every attempt fails does not cycle for ever: after exactly as many claim-and-fail
  attempts as the limit allows it is failed, and before that it is back in the queue.\<close>
theorem failing_job_terminates:
  assumes "db_jobs d = [r]" "jr_id r = j" "jr_status r = JobQueued" "jr_retries r = 0" "n \<le> nat m" "0 < m"
  shows "\<exists>s. db_jobs ((failed_attempt now ttl j m ^^ n) d) = [s] \<and> jr_id s = j \<and> jr_retries s = int n
     \<and> jr_status s = (if int n < m then JobQueued else JobFailed)"
  using assms(5)
proof (induction n)
  case 0
  then show ?case using assms by simp
next
  case (Suc n)
  then obtain s where s: "db_jobs ((failed_attempt now ttl j m ^^ n) d) = [s]" "jr_id s = j"
    "jr_retries s = int n" "jr_status s = JobQueued" by fastforce
  have "jr_retries s < m" using Suc.prems s(3) by simp
  from failed_attempt_queued [OF s(1,2,4) this, of now ttl] s(3) show ?case by (simp add: add.commute)
qed

lemma failing_job_terminates_witness:
  "\<exists>s. db_jobs ((failed_attempt 50 60 ''J1'' 3 ^^ 3) demo_jobs) = [s] \<and> jr_status s = JobFailed"
  using failing_job_terminates [where n = 3 and m = 3 and now = 50 and ttl = 60, OF demo_jobs_list demo_job_fields(1)]
  by (auto simp: demo_job_def queued_row_def)

section \<open>Stale workers and re-authored renditions\<close>

text \<open>FailJob does not check that the job is still running: a job another worker has completed is put
  back in the queue by a late FailJob, and is runnable again. (The worker calls FailJob exactly
  when its own CompleteJob was refused because it had lost the lease.)\<close>
theorem stale_fail_requeues_succeeded:
  assumes "job_by_id d j = Some r" "jr_status r = JobSucceeded" "jr_retries r < m"
  shows "\<exists>d' s. FailJob d now j m reason msg = Inr (d', ()) \<and> job_by_id d' j = Some s
    \<and> jr_status s = JobQueued \<and> runnable stale s"
proof -
  have "get_row (\<lambda>r. jr_id r = j) (db_jobs d) = Some r" using assms(1) by (simp add: job_by_id_def)
  then show ?thesis using assms
    by (simp add: FailJob_def job_update requeue_row_def runnable_def)
qed

text \<open>Two workers on one job: the first loses its lease, the second completes the job.\<close>

definition demo_two_workers :: db where
  "demo_two_workers = run_workers [(200, W_Claim 60), (210, W_Complete ''J1'' demo_record)] demo_claimed"

lemma demo_two_workers_job: "job_by_id demo_two_workers ''J1''
   = Some (succeed_row 210 (claim_row 200 (claim_row 50 demo_job)))"
proof -
  have "pick_job demo_claimed 140 = Some (claim_row 50 demo_job)"
    by (simp add: pick_job_def demo_claimed_eval runnable_def claim_row_def)
  then have "run_worker 200 (W_Claim 60) demo_claimed = demo_jobs\<lparr>db_jobs := [claim_row 200 (claim_row 50 demo_job)]\<rparr>"
    by (simp add: claim_db demo_claimed_eval update_where_def)
  then show ?thesis
    by (simp add: demo_two_workers_def CompleteJob_def get_row_def update_where_def job_by_id_def
        claim_row_def succeed_row_def demo_job_fields)
qed

lemma stale_fail_requeues_succeeded_witness:
  "\<exists>d' s. FailJob demo_two_workers 220 ''J1'' 3 RC_Failed ''lease lost'' = Inr (d', ())
    \<and> job_by_id d' ''J1'' = Some s \<and> jr_status s = JobQueued \<and> runnable 0 s"
  by (rule stale_fail_requeues_succeeded [OF demo_two_workers_job])
     (simp_all add: succeed_row_def claim_row_def demo_job_def queued_row_def)

text \<open>C36: A rendition re-authored over a job that already succeeded is acknowledged as queued but does not
  run: EnqueueRemuxJob answers a queued job, adds no row, and leaves the latest job of that asset
  and intent succeeded; through any run of worker operations, at any times, the row stays
  succeeded until it is purged and no claim is handed the job, unless a late report of the job's
  failure (a worker that had lost its lease) happens to put it back in the queue.\<close>
theorem reauthored_succeeded_job_is_lost:
  assumes "keys_ok d" "latest_job d A i n = Some r" "jr_status r = JobSucceeded"
  shows "case EnqueueRemuxJob d now jid A i n src of Inl e \<Rightarrow> False
    | Inr (d', x) \<Rightarrow> job_Status x = JobQueued \<and> job_Id x = jr_id r \<and> length (db_jobs d') = length (db_jobs d)
        \<and> (\<forall>ws. list_all (\<lambda>(_, w). \<not> fails_job (jr_id r) w) ws
          \<longrightarrow> (\<forall>s \<in> set (db_jobs (run_workers ws d')). jr_id s = jr_id r \<longrightarrow> jr_status s = JobSucceeded)
            \<and> (\<forall>now ttl c. snd (ClaimNextJob (run_workers ws d') now ttl) = Inr c \<longrightarrow> cj_ID c \<noteq> jr_id r))"
proof -
  let ?d = "d\<lparr>db_jobs := update_where (\<lambda>x. jr_id x = jr_id r) (repoint now src) (db_jobs d)\<rparr>"
  let ?P = "\<lambda>s. jr_status s = JobSucceeded"
  have c: "EnqueueRemuxJob d now jid A i n src = Inr (?d, (reused_job r)\<lparr>job_Status := JobQueued\<rparr>)"
    using assms by (simp add: EnqueueRemuxJob_def)
  have "kept_job ?P d (jr_id r)"
    using assms latest_job_Some [OF assms(2)] distinct_key_eq [of jr_id "db_jobs d" r] by (fastforce simp: kept_job_def keys_ok_def)
  then have k: "kept_job ?P ?d (jr_id r)" by (rule kept_job_update) (simp_all add: repoint_def)
  have run: "kept_job ?P (run_workers ws ?d) (jr_id r)" if "list_all (\<lambda>(_, w). \<not> fails_job (jr_id r) w) ws" for ws
    by (rule kept_run [OF k, where Q = "\<lambda>_ _. True"]) (use that in \<open>simp_all add: runnable_def beat_row_def succeed_row_def\<close>)
  have none: "cj_ID x \<noteq> jr_id r" if "list_all (\<lambda>(_, w). \<not> fails_job (jr_id r) w) ws" "snd (ClaimNextJob (run_workers ws ?d) now ttl) = Inr x" for ws now ttl x
    using kept_not_claimed [OF run [OF that(1)], of now ttl] that(2) by (simp add: runnable_def)
  show ?thesis unfolding c sum.case prod.case
    using run none by (auto simp: reused_job_def kept_job_def)
qed

lemma reauthored_succeeded_job_is_lost_witness:
  "case EnqueueRemuxJob demo_two_workers 300 ''J9'' ''alice'' ''A1'' Detail ''staging/alice/A1/detail'' of
     Inl e \<Rightarrow> False | Inr (d', x) \<Rightarrow> job_Status x = JobQueued"
proof -
  have r: "reachable demo_two_workers"
    unfolding demo_two_workers_def by (rule run_workers_reachable [OF demo_claimed_reachable])
  have "job_by_id demo_two_workers ''J1'' = Some (succeed_row 210 (claim_row 200 (claim_row 50 demo_job)))"
    by (rule demo_two_workers_job)
  moreover have "length (db_jobs demo_two_workers) = 1"
    by (simp add: demo_two_workers_def claim_db CompleteJob_def demo_claimed_eval commit_def split: option.splits)
  ultimately have "db_jobs demo_two_workers = [succeed_row 210 (claim_row 200 (claim_row 50 demo_job))]"
    by (auto simp: job_by_id_def length_Suc_conv get_row_def split: if_splits)
  then have "latest_job demo_two_workers ''alice'' ''A1'' Detail
      = Some (succeed_row 210 (claim_row 200 (claim_row 50 demo_job)))"
    by (simp add: latest_job_def succeed_row_def claim_row_def demo_job_def queued_row_def)
  from reauthored_succeeded_job_is_lost [where now = 300 and jid = "''J9''"
      and src = "''staging/alice/A1/detail''", OF reachable_keys [OF r] this]
  show ?thesis by (auto simp: succeed_row_def split: sum.splits)
qed

end
