(* ===== verification/Store_Props.thy ===== *)
theory Store_Props
  imports Queue_Props Capabilities
begin

text \<open>
  Functional properties of the store that span tables: finalize, purge, checksums, pagination,
  concurrent enqueues and what counts as queue progress.
\<close>

section \<open>Concurrent enqueues\<close>

text \<open>
  EnqueueJob reads the latest job and inserts in two statements without a transaction. The second
  statement of a caller that read \<open>seen\<close>:
\<close>

definition enqueue_after :: "job_row option \<Rightarrow> time \<Rightarrow> string \<Rightarrow> string \<Rightarrow> string \<Rightarrow> intent \<Rightarrow> db \<Rightarrow> job effect" where
  "enqueue_after seen now jobID account assetID i d =
     (case seen of
        Some r \<Rightarrow> if jr_status r \<noteq> JobFailed then Inr (d, reused_job r)
                  else insert_job d (queued_row now jobID account assetID i Derive None)
      | None \<Rightarrow> insert_job d (queued_row now jobID account assetID i Derive None))"

lemma enqueue_is_select_then_insert:
  "EnqueueJob d now jobID account assetID i
   = enqueue_after (latest_job d account assetID i) now jobID account assetID i d"
  by (simp add: EnqueueJob_def enqueue_after_def)

text \<open>Run one after the other, two enqueues of one asset and intent share a job: the second returns
  the first one's job and changes nothing.\<close>
theorem enqueue_idempotent:
  assumes "latest_job d A i n = None" "EnqueueJob d now j1 A i n = Inr (d1, x1)"
  shows "case EnqueueJob d1 now2 j2 A i n of Inl e \<Rightarrow> False
    | Inr (d2, x2) \<Rightarrow> d2 = d1 \<and> job_Id x2 = j1 \<and> job_Status x2 = JobQueued"
proof -
  let ?p = "\<lambda>r. jr_account r = A \<and> jr_asset r = i \<and> jr_intent r = n"
  have f: "filter ?p (db_jobs d) = []"
    using assms(1) by (auto simp: latest_job_def sort_key_empty_iff split: list.splits)
  have d1: "db_jobs d1 = db_jobs d @ [queued_row now j1 A i n Derive None]"
    using assms by (auto simp: EnqueueJob_def insert_job_def insert_row_def split: if_splits)
  have "latest_job d1 A i n = Some (queued_row now j1 A i n Derive None)"
    by (simp add: latest_job_def d1 f) (simp add: queued_row_def)
  then show ?thesis by (simp add: EnqueueJob_def reused_job_def) (simp add: queued_row_def)
qed

lemma demo_latest: "latest_job demo_db ''alice'' ''A1'' Detail = None"
  by (simp add: latest_job_def demo_db_eval demo_db0_eval empty_db_def)

lemma demo_enqueue: "\<exists>d1 x1. EnqueueJob demo_db 40 ''J1'' ''alice'' ''A1'' Detail = Inr (d1, x1)"
proof -
  have "has_asset_id demo_db ''A1''" "db_jobs demo_db = []"
    by (simp_all add: has_asset_id_def table_defs demo_db_eval demo_db0_eval empty_db_def demo_asset_def)
  then show ?thesis
    by (simp add: EnqueueJob_def demo_latest insert_job_def queued_row_def demo_has_account has_row_def)
qed

lemma enqueue_idempotent_witness:
  "\<exists>d1 x1. EnqueueJob demo_db 40 ''J1'' ''alice'' ''A1'' Detail = Inr (d1, x1)
    \<and> (case EnqueueJob d1 41 ''J2'' ''alice'' ''A1'' Detail of Inl e \<Rightarrow> False | Inr (d2, x2) \<Rightarrow> job_Id x2 = ''J1'')"
proof -
  obtain d1 x1 where e: "EnqueueJob demo_db 40 ''J1'' ''alice'' ''A1'' Detail = Inr (d1, x1)"
    using demo_enqueue by blast
  show ?thesis using e enqueue_idempotent [OF demo_latest e, of 41 "''J2''"]
    by (auto split: sum.splits)
qed

text \<open>Run concurrently, they do not: when both callers have read the table before either inserts,
  both inserts succeed and the asset and intent have two runnable jobs.\<close>
theorem enqueue_race_duplicates:
  assumes "reachable d" "AssetOwnedBy d A i" "latest_job d A i n = None"
    "j1 \<noteq> j2" "job_by_id d j1 = None" "job_by_id d j2 = None"
  shows "case enqueue_after (latest_job d A i n) t1 j1 A i n d of Inl e \<Rightarrow> False
    | Inr (d1, x1) \<Rightarrow> (case enqueue_after (latest_job d A i n) t2 j2 A i n d1 of Inl e \<Rightarrow> False
       | Inr (d2, x2) \<Rightarrow> length (filter (\<lambda>r. jr_account r = A \<and> jr_asset r = i \<and> jr_intent r = n
            \<and> runnable stale r) (db_jobs d2)) = 2)"
proof -
  let ?p = "\<lambda>r. jr_account r = A \<and> jr_asset r = i \<and> jr_intent r = n"
  have f: "filter ?p (db_jobs d) = []"
    using assms(3) by (auto simp: latest_job_def sort_key_empty_iff split: list.splits)
  then have g: "filter (\<lambda>r. ?p r \<and> runnable stale r) (db_jobs d) = []"
    by (auto simp: filter_empty_conv)
  have "has_account d A"
  proof -
    obtain a where a: "a \<in> set (db_assets d)" "ar_account a = A"
      using assms(2) by (auto simp: AssetOwnedBy_def has_row_iff asset_is_def)
    obtain u where u: "u \<in> set (db_uploads d)" "own_upload A (ar_id a) u"
      using reachable_asset_upload [OF assms(1) a(1)] a(2) by blast
    have "sk_layout (abs_store d)" using reachable_inv [OF assms(1)] by (simp add: sk_inv_def)
    moreover have "upload_key u \<in> set (sk_uploads (abs_store d))" using u by (simp add: abs_store_def)
    ultimately have "uw_account u \<in> set (sk_accounts (abs_store d))"
      unfolding sk_layout_def upload_key_def by blast
    then show ?thesis using u(2) by (simp add: abs_has_account own_upload_def)
  qed
  moreover have "has_asset_id d i" by (rule abs_owned_has [OF assms(2)])
  moreover have "\<not> has_row (\<lambda>x. jr_id x = j1) (db_jobs d)" "\<not> has_row (\<lambda>x. jr_id x = j2) (db_jobs d)"
    using assms(5,6) by (auto simp: job_by_id_def get_row_None_iff has_row_iff)
  ultimately show ?thesis using g assms(3,4)
    by (simp add: enqueue_after_def insert_job_def queued_row_def has_account_def has_asset_id_def
        insert_row_def runnable_def) (simp add: has_row_def)
qed

lemma enqueue_race_duplicates_witness:
  "case enqueue_after None 40 ''J1'' ''alice'' ''A1'' Detail demo_db of Inl e \<Rightarrow> False
    | Inr (d1, x1) \<Rightarrow> (case enqueue_after None 41 ''J2'' ''alice'' ''A1'' Detail d1 of Inl e \<Rightarrow> False
       | Inr (d2, x2) \<Rightarrow> length (filter (\<lambda>r. jr_account r = ''alice'' \<and> jr_asset r = ''A1'' \<and> jr_intent r = Detail
            \<and> runnable 0 r) (db_jobs d2)) = 2)"
proof -
  have own: "AssetOwnedBy demo_db ''alice'' ''A1''"
    by (simp add: AssetOwnedBy_def table_defs demo_db_eval asset_is_def demo_asset_def)
  have nj: "job_by_id demo_db j = None" for j
    by (simp add: job_by_id_def demo_db_eval demo_db0_eval empty_db_def get_row_def)
  show ?thesis
    by (rule enqueue_race_duplicates [OF demo_reachable own demo_latest _ nj nj, unfolded demo_latest]) simp
qed

section \<open>What counts as progress\<close>

text \<open>The progress time readiness relies on is also refreshed by enqueueing: after an enqueue that
  inserts a job, the last progress is at least the time of the enqueue, although no worker did
  anything, so a steady stream of uploads keeps a stuck queue looking alive.\<close>
theorem enqueue_counts_as_progress:
  assumes "latest_job d A i n = None" "EnqueueJob d now j A i n = Inr (d', x)"
  shows "case ql_LastProgress (QueueLag d') of None \<Rightarrow> False | Some t \<Rightarrow> now \<le> t"
proof -
  let ?r = "queued_row now j A i n Derive None"
  have "db_jobs d' = db_jobs d @ [?r]"
    using assms by (auto simp: EnqueueJob_def insert_job_def insert_row_def split: if_splits)
  moreover have "progress_time ?r = Some now" by (simp add: progress_time_def queued_row_def)
  ultimately have "Some now \<in> set (map progress_time (db_jobs d'))" by simp
  from greatest_ge [OF this] show ?thesis by (auto simp: QueueLag_def Let_def)
qed

lemma enqueue_counts_as_progress_witness:
  "\<exists>d' x. EnqueueJob demo_db 40 ''J1'' ''alice'' ''A1'' Detail = Inr (d', x)
    \<and> (case ql_LastProgress (QueueLag d') of None \<Rightarrow> False | Some t \<Rightarrow> 40 \<le> t)"
proof -
  obtain d1 x1 where e: "EnqueueJob demo_db 40 ''J1'' ''alice'' ''A1'' Detail = Inr (d1, x1)"
    using demo_enqueue by blast
  show ?thesis using e enqueue_counts_as_progress [OF demo_latest e] by blast
qed

section \<open>How asset rows change\<close>

text \<open>Updates of asset rows keep the identity, the account, the key, a deletion and a verified sha256.\<close>

definition asset_kept :: "asset_row \<Rightarrow> asset_row \<Rightarrow> bool" where
  "asset_kept r s \<longleftrightarrow> asset_key s = asset_key r \<and> (ar_deleted r \<noteq> None \<longrightarrow> ar_deleted s \<noteq> None)
     \<and> (if verified_sha256 r then verified_sha256 s \<and> ar_checksum s = ar_checksum r else True)"

lemma asset_kept_refl: "asset_kept r r"
  by (simp add: asset_kept_def)

lemma asset_kept_trans: "asset_kept r s \<Longrightarrow> asset_kept s t \<Longrightarrow> asset_kept r t"
  by (auto simp: asset_kept_def split: if_splits)

lemma asset_stays: "s \<in> set t \<Longrightarrow> \<exists>r \<in> set t. asset_kept r s"
  using asset_kept_refl by blast

lemma update_asset_kept:
  assumes "s \<in> set (update_where p f t)" "\<And>r. p r \<Longrightarrow> asset_kept r (f r)"
  shows "\<exists>r \<in> set t. asset_kept r s"
  using assms asset_stays by (auto simp: set_update_where)

lemma request_assets:
  assumes "s \<in> set (db_assets (run_request now A q d))"
  shows "(\<exists>r \<in> set (db_assets d). asset_kept r s)
    \<or> (\<exists>u \<in> set (db_uploads d). uw_account u = A \<and> uw_id u = ar_id s \<and> ar_account s = A
         \<and> uw_finalized u = None \<and> uw_swept u = None)"
proof (cases q)
  case (R_MarkAssetDeleted i)
  then have "s \<in> set (update_where (asset_is A i) (set_deleted now) (db_assets d)) \<or> s \<in> set (db_assets d)"
    using assms by (auto simp: MarkAssetDeleted_def Let_def commit_def split: sum.splits)
  moreover have "asset_kept r (set_deleted now r)" for r
    by (simp add: asset_kept_def set_deleted_def asset_key_def verified_sha256_def)
  ultimately show ?thesis using update_asset_kept asset_kept_refl by blast
next
  case (R_FinalizeUpload i v)
  show ?thesis
  proof (cases "s \<in> set (db_assets d)")
    case True then show ?thesis using asset_kept_refl by blast
  next
    case False
    then obtain u where u: "get_row (\<lambda>r. uw_account r = A \<and> uw_id r = i) (db_uploads d) = Some u"
      "s = asset_of_upload now A u v" "uw_finalized u = None" "uw_swept u = None"
      using assms R_FinalizeUpload
      by (auto simp: FinalizeUpload_def Let_def commit_def insert_row_def
          split: option.splits if_splits sum.splits)
    then show ?thesis by (auto dest!: get_row_Some_iff simp: asset_of_upload_def)
  qed
next
  case (R_EnqueueJob jid i n)
  then have "s \<in> set (db_assets d)" using assms
    by (auto simp: commit_def EnqueueJob_def insert_job_def split: sum.splits option.splits if_splits)
  then show ?thesis using asset_kept_refl by blast
next
  case (R_EnqueueRemuxJob jid i n src)
  then have "s \<in> set (db_assets d)" using assms
    by (auto simp: commit_def EnqueueRemuxJob_def insert_job_def split: sum.splits option.splits if_splits)
  then show ?thesis using asset_kept_refl by blast
qed ((rule disjI1, rule asset_stays, use assms in \<open>auto simp: commit_def CreateGrant_def RevokeGrant_def CreateExport_def
      RevokeExport_def ProvisionAccount_def CreateUpload_def MarkNotDerived_def Let_def
      split: sum.splits option.splits if_splits\<close>)[1])+

lemma worker_assets:
  assumes "s \<in> set (db_assets (run_worker now w d))"
  shows "\<exists>r \<in> set (db_assets d). asset_kept r s"
proof (cases w)
  case (W_Backfill i v)
  then have "s \<in> set (update_where (\<lambda>r. ar_id r = i) (backfill_row v) (db_assets d))"
    using assms by (simp add: BackfillVaultProbe_def)
  then show ?thesis by (rule update_asset_kept)
    (simp add: asset_kept_def backfill_row_def asset_key_def verified_sha256_def)
next
  case (W_ProbeFailed i)
  then have "s \<in> set (update_where (\<lambda>r. ar_id r = i) (\<lambda>r. r\<lparr>ar_probe := ''failed''\<rparr>) (db_assets d))"
    using assms by (simp add: MarkProbeFailed_def)
  then show ?thesis by (rule update_asset_kept) (simp add: asset_kept_def asset_key_def verified_sha256_def)
next
  case (W_ChecksumClaim b)
  have k: "asset_kept r (r\<lparr>ar_checked_at := Some now\<rparr>)" for r
    by (simp add: asset_kept_def asset_key_def verified_sha256_def)
  show ?thesis
  proof (cases "pick_candidate d b")
    case None
    then show ?thesis using W_ChecksumClaim assms asset_kept_refl by (auto simp: ClaimChecksumCandidate_def)
  next
    case (Some c)
    then have "s \<in> set (update_where (\<lambda>x. ar_id x = ar_id c) (\<lambda>x. x\<lparr>ar_checked_at := Some now\<rparr>) (db_assets d))"
      using W_ChecksumClaim assms by (simp add: ClaimChecksumCandidate_def)
    then show ?thesis by (rule update_asset_kept) (rule k)
  qed
next
  case (W_ChecksumRelease i)
  then have "s \<in> set (update_where (\<lambda>r. ar_id r = i) (\<lambda>r. r\<lparr>ar_checked_at := None\<rparr>) (db_assets d))"
    using assms by (simp add: ReleaseChecksumClaim_def)
  then show ?thesis by (rule update_asset_kept) (simp add: asset_kept_def asset_key_def verified_sha256_def)
next
  case (W_ChecksumVerified i c)
  let ?p = "\<lambda>r. ar_id r = i \<and> \<not> (verified_sha256 r \<and> ar_checksum r \<noteq> c)"
  have "s \<in> set (db_assets d) \<or> (take (length ChecksumPrefix) c = ChecksumPrefix
      \<and> s \<in> set (update_where ?p (set_checksum c) (db_assets d)))"
    using assms W_ChecksumVerified by (auto simp: MarkChecksumVerified_def Let_def commit_def split: if_splits)
  then show ?thesis
  proof
    assume "s \<in> set (db_assets d)" then show ?thesis using asset_kept_refl by blast
  next
    assume h: "take (length ChecksumPrefix) c = ChecksumPrefix
      \<and> s \<in> set (update_where ?p (set_checksum c) (db_assets d))"
    then have pre: "has_prefix c ChecksumPrefix" by (simp add: has_prefix_def)
    from h have "s \<in> set (update_where ?p (set_checksum c) (db_assets d))" by simp
    then show ?thesis
    proof (rule update_asset_kept)
      fix r assume "?p r"
      then show "asset_kept r (set_checksum c r)" using pre
        by (auto simp: asset_kept_def asset_key_def verified_sha256_def set_checksum_def)
    qed
  qed
next
  case (W_Purge i)
  then have "s \<in> set (db_assets d)" using assms
    by (auto simp: PurgeDeletedAsset_def delete_where_def split: if_splits)
  then show ?thesis using asset_kept_refl by blast
qed ((rule asset_stays, use assms in \<open>auto simp: commit_def ClaimNextJob_def Heartbeat_def CompleteJob_def
      CompleteJobNoRendition_def FailJob_def FailedRenditionForCeiling_def MarkUploadSwept_def
      UpsertWorkerHeartbeat_def Let_def split: sum.splits option.splits if_splits\<close>)[1])+

lemma step_assets:
  assumes "reachable d" "store_step d d'" "s \<in> set (db_assets d')" "ever_owned d A (ar_id s)"
  shows "\<exists>r \<in> set (db_assets d). asset_kept r s"
  using assms(2)
proof (cases rule: store_step.cases)
  case (request B q now)
  have "s \<in> set (db_assets (run_request now B q d))" using assms(3) request(1) by simp
  from request_assets [OF this] show ?thesis
  proof
    assume "\<exists>u \<in> set (db_uploads d). uw_account u = B \<and> uw_id u = ar_id s \<and> ar_account s = B
         \<and> uw_finalized u = None \<and> uw_swept u = None"
    then obtain u where u: "u \<in> set (db_uploads d)" "uw_id u = ar_id s" "uw_finalized u = None" by blast
    obtain v where v: "v \<in> set (db_uploads d)" "uw_id v = ar_id s" "uw_finalized v \<noteq> None"
      using assms(4) by (auto simp: ever_owned_def own_upload_def)
    have "distinct (map uw_id (db_uploads d))" using reachable_keys [OF assms(1)] by (simp add: keys_ok_def)
    then have "u = v" using u(1,2) v(1,2) by (metis distinct_key_eq)
    then show ?thesis using u(3) v(3) by simp
  qed
next
  case (worker now w)
  then show ?thesis using worker_assets assms(3) by blast
next
  case (operator now a bucket pre)
  then show ?thesis using assms(3) asset_kept_refl by (auto simp: CreateAccount_def)
qed

section \<open>Verified checksums are permanent\<close>

text \<open>C31: A verified sha256 is never lost or replaced: whatever happens to the store afterwards, as
  long as a row of that asset id exists it is the same asset (account and vault key), still
  verified, with the same digest. Neither a second checksum run nor a finalize replayed after a
  purge can change it.\<close>
theorem verified_checksum_permanent:
  assumes "reachable d" "r \<in> set (db_assets d)" "verified_sha256 r"
    "store_step\<^sup>*\<^sup>* d d'" "s \<in> set (db_assets d')" "ar_id s = ar_id r"
  shows "verified_sha256 s \<and> ar_checksum s = ar_checksum r
    \<and> ar_account s = ar_account r \<and> ar_vault_key s = ar_vault_key r"
proof -
  let ?P = "\<lambda>y. reachable y \<and> ever_owned y (ar_account r) (ar_id r)
    \<and> (\<forall>x \<in> set (db_assets y). ar_id x = ar_id r \<longrightarrow> asset_kept r x)"
  have "?P d'" using assms(4)
  proof (induction rule: rtranclp_induct)
    case base
    have "AssetOwnedBy d (ar_account r) (ar_id r)"
      using assms(2) by (auto simp: AssetOwnedBy_def has_row_iff asset_is_def)
    moreover have "x = r" if "x \<in> set (db_assets d)" "ar_id x = ar_id r" for x
      using that assms(2) reachable_keys [OF assms(1)] distinct_key_eq [of ar_id "db_assets d" x r]
      by (simp add: keys_ok_def)
    ultimately show ?case using assms(1) owned_ever_owned asset_kept_refl by blast
  next
    case (step y z)
    have "asset_kept r x" if x: "x \<in> set (db_assets z)" "ar_id x = ar_id r" for x
    proof -
      have "ever_owned y (ar_account r) (ar_id x)" using step.IH x(2) by simp
      then obtain w where w: "w \<in> set (db_assets y)" "asset_kept w x"
        using step_assets [OF _ step.hyps(2) x(1)] step.IH by blast
      then have "ar_id w = ar_id r" using x(2) by (simp add: asset_kept_def asset_key_def)
      then show ?thesis using step.IH w asset_kept_trans by blast
    qed
    then show ?case using step reachable.step ever_owned_step by blast
  qed
  then have "asset_kept r s" using assms(5,6) by blast
  then show ?thesis using assms(3) by (simp add: asset_kept_def asset_key_def)
qed

definition demo_sha :: string where
  "demo_sha = ChecksumPrefix @ replicate 64 CHR ''0''"

definition demo_hashed :: db where
  "demo_hashed = run_worker 50 (W_ChecksumVerified ''A1'' demo_sha) demo_db"

lemma demo_hashed_assets: "db_assets demo_hashed = [set_checksum demo_sha demo_asset]"
  by (simp add: demo_hashed_def MarkChecksumVerified_def demo_sha_def Let_def update_where_def has_row_def
      verified_sha256_def has_asset_id_def demo_db_eval demo_asset_def)

lemma verified_checksum_permanent_witness:
  "verified_sha256 (set_deleted 70 (set_checksum demo_sha demo_asset))"
proof -
  have r: "reachable demo_hashed"
    unfolding demo_hashed_def by (rule reachable.step [OF demo_reachable store_step.worker])
  have v: "verified_sha256 (set_checksum demo_sha demo_asset)"
    by (simp add: verified_sha256_def set_checksum_def demo_sha_def)
  have st: "store_step\<^sup>*\<^sup>* demo_hashed (run_request 70 ''alice'' (R_MarkAssetDeleted ''A1'') demo_hashed)"
    by (rule r_into_rtranclp, rule store_step.request) simp
  have "db_assets (run_request 70 ''alice'' (R_MarkAssetDeleted ''A1'') demo_hashed)
      = [set_deleted 70 (set_checksum demo_sha demo_asset)]"
    by (simp add: MarkAssetDeleted_def Let_def demo_hashed_assets update_where_def get_row_def asset_is_def
        set_deleted_def set_checksum_def demo_asset_def scanAsset_def)
  then show ?thesis
    using verified_checksum_permanent [OF r _ v st, of "set_deleted 70 (set_checksum demo_sha demo_asset)"]
    by (simp add: demo_hashed_assets) (simp add: set_deleted_def)
qed

section \<open>Purging\<close>

text \<open>C30: The purge removes an asset only if it is marked deleted, and then completely: a live asset's
  purge changes nothing; a deleted one loses its row, renditions and jobs, its owner reads it as
  not found and as purged, and no other asset's row, rendition or job is touched.\<close>
theorem purge_exact:
  assumes "reachable d" "a \<in> set (db_assets d)"
  shows "if ar_deleted a = None then PurgeDeletedAsset d (ar_id a) = d
    else GetAsset (PurgeDeletedAsset d (ar_id a)) (ar_account a) (ar_id a) = Inl ErrNotFound
      \<and> AssetPurged (PurgeDeletedAsset d (ar_id a)) (ar_account a) (ar_id a)
      \<and> db_assets (PurgeDeletedAsset d (ar_id a)) = filter (\<lambda>r. ar_id r \<noteq> ar_id a) (db_assets d)
      \<and> db_renditions (PurgeDeletedAsset d (ar_id a)) = filter (\<lambda>r. rr_asset r \<noteq> ar_id a) (db_renditions d)
      \<and> db_jobs (PurgeDeletedAsset d (ar_id a)) = filter (\<lambda>r. jr_asset r \<noteq> ar_id a) (db_jobs d)"
proof -
  have same: "x = a" if "x \<in> set (db_assets d)" "ar_id x = ar_id a" for x
    using that assms(2) reachable_keys [OF assms(1)] distinct_key_eq [of ar_id "db_assets d" x a]
    by (simp add: keys_ok_def)
  show ?thesis
  proof (cases "ar_deleted a = None")
    case True
    then have "\<not> has_row (\<lambda>r. ar_id r = ar_id a \<and> ar_deleted r \<noteq> None) (db_assets d)"
      using same by (auto simp: has_row_iff)
    then show ?thesis using True by (simp add: PurgeDeletedAsset_def)
  next
    case False
    let ?d = "PurgeDeletedAsset d (ar_id a)"
    have h: "has_row (\<lambda>r. ar_id r = ar_id a \<and> ar_deleted r \<noteq> None) (db_assets d)"
      using False assms(2) by (auto simp: has_row_iff)
    have dd: "ar_deleted x \<noteq> None" if "x \<in> set (db_assets d)" "ar_id x = ar_id a" for x
      using same [OF that] False by simp
    have "filter (\<lambda>r. \<not> (ar_id r = ar_id a \<and> ar_deleted r \<noteq> None)) (db_assets d)
        = filter (\<lambda>r. ar_id r \<noteq> ar_id a) (db_assets d)"
    proof (rule filter_cong [OF refl])
      fix x assume "x \<in> set (db_assets d)"
      then show "(\<not> (ar_id x = ar_id a \<and> ar_deleted x \<noteq> None)) = (ar_id x \<noteq> ar_id a)"
        using dd [of x] by blast
    qed
    then have t: "db_assets ?d = filter (\<lambda>r. ar_id r \<noteq> ar_id a) (db_assets d)"
      "db_renditions ?d = filter (\<lambda>r. rr_asset r \<noteq> ar_id a) (db_renditions d)"
      "db_jobs ?d = filter (\<lambda>r. jr_asset r \<noteq> ar_id a) (db_jobs d)"
      "db_uploads ?d = db_uploads d"
      using h by (simp_all add: PurgeDeletedAsset_def delete_where_def)
    have none: "get_row (asset_is b (ar_id a)) (db_assets ?d) = None" for b
      by (auto simp: get_row_None_iff t asset_is_def)
    have "ever_owned ?d (ar_account a) (ar_id a)"
      using reachable_asset_upload [OF assms] by (auto simp: ever_owned_def t)
    moreover have "\<not> has_asset_id ?d (ar_id a)" by (auto simp: has_asset_id_def has_row_iff t)
    ultimately show ?thesis using False t none
      by (auto simp: GetAsset_def scanAsset_def purged_ever_owned)
  qed
qed

lemma purge_exact_witness:
  "AssetPurged (PurgeDeletedAsset (run_request 40 ''alice'' (R_MarkAssetDeleted ''A1'') demo_db) ''A1'') ''alice'' ''A1''"
proof -
  let ?d = "run_request 40 ''alice'' (R_MarkAssetDeleted ''A1'') demo_db"
  have r: "reachable ?d" by (rule reachable.step [OF demo_reachable store_step.request]) simp
  have "db_assets ?d = [set_deleted 40 demo_asset]"
    by (simp add: demo_db_eval MarkAssetDeleted_def Let_def update_where_def get_row_def asset_is_def
        set_deleted_def demo_asset_def scanAsset_def)
  then have "set_deleted 40 demo_asset \<in> set (db_assets ?d)" by simp
  from purge_exact [OF r this] show ?thesis by (simp add: set_deleted_def demo_asset_def)
qed

section \<open>Finalize\<close>

text \<open>An upload that is open in a reachable store: its key, its account, and no asset grew from it yet.\<close>

lemma open_upload:
  assumes "reachable d" "u \<in> set (db_uploads d)" "uw_rasset u = None" "uw_finalized u = None"
  shows "uw_key u = VaultKey (uw_account u) (uw_id u)" "\<not> has_asset_id d (uw_id u)" "has_account d (uw_account u)"
proof -
  show "uw_key u = VaultKey (uw_account u) (uw_id u)" using reachable_upload_key [OF assms(1,2)] assms(3) by simp
  show "\<not> has_asset_id d (uw_id u)"
  proof
    assume "has_asset_id d (uw_id u)"
    then obtain a where a: "a \<in> set (db_assets d)" "ar_id a = uw_id u" by (auto simp: has_asset_id_def has_row_iff)
    obtain w where w: "w \<in> set (db_uploads d)" "uw_id w = uw_id u" "uw_finalized w \<noteq> None"
      using reachable_asset_upload [OF assms(1) a(1)] a(2) by (auto simp: own_upload_def)
    have "w = u" using w assms(2) reachable_keys [OF assms(1)] distinct_key_eq [of uw_id "db_uploads d" w u]
      by (simp add: keys_ok_def)
    then show False using w assms(4) by simp
  qed
  have "sk_layout (abs_store d)" using reachable_inv [OF assms(1)] by (simp add: sk_inv_def)
  moreover have "upload_key u \<in> set (sk_uploads (abs_store d))" using assms(2) by (simp add: abs_store_def)
  ultimately have "uw_account u \<in> set (sk_accounts (abs_store d))"
    unfolding sk_layout_def upload_key_def by blast
  then show "has_account d (uw_account u)" by (simp add: abs_has_account)
qed

text \<open>The first finalize inserts the asset's row and stamps the upload; a second one reads it back.\<close>

lemma first_finalize:
  fixes now :: time and v :: vault_record and u :: upload_row and A i :: string
  assumes "reachable d" "get_row (\<lambda>u. uw_account u = A \<and> uw_id u = i) (db_uploads d) = Some u"
    "uw_rasset u = None" "uw_finalized u = None" "uw_swept u = None"
  defines "a \<equiv> asset_of_upload now A u v"
    and "d1 \<equiv> d\<lparr>db_assets := insert_row (asset_of_upload now A u v) (db_assets d),
      db_uploads := update_where (\<lambda>u. uw_account u = A \<and> uw_id u = i) (finalize_row now) (db_uploads d)\<rparr>"
  shows "FinalizeUpload d now A i v = Inr (d1, scanAssetRow d1 a)"
    and "FinalizeUpload d1 now2 A i v2 = Inr (d1, scanAssetRow d1 a)"
    and "content_type_of d1 a = Some (uw_ctype u)"
proof -
  let ?p = "\<lambda>u. uw_account u = A \<and> uw_id u = i"
  have u: "u \<in> set (db_uploads d)" "uw_account u = A" "uw_id u = i" using get_row_Some_iff [OF assms(2)] by auto
  note open_u = open_upload [OF assms(1) u(1) assms(3,4), unfolded u(2,3)]
  have "get_row (asset_is A i) (db_assets d) = None"
    using open_u(2) by (auto simp: get_row_None_iff has_asset_id_def has_row_iff asset_is_def)
  then have arow: "get_row (asset_is A i) (db_assets d1) = Some a"
    by (simp add: d1_def a_def get_row_insert_row) (simp add: asset_is_def asset_of_upload_def u)
  then have tx: "getAssetTx d1 A i = Inr (scanAssetRow d1 a)" by (simp add: getAssetTx_def)
  then show "FinalizeUpload d now A i v = Inr (d1, scanAssetRow d1 a)"
    using assms(2,4,5) open_u(2,3) by (simp add: FinalizeUpload_def Let_def d1_def)
  have urow: "get_row ?p (db_uploads d1) = Some (finalize_row now u)"
    using assms(2) by (simp add: d1_def get_row_update_where finalize_row_def)
  show "FinalizeUpload d1 now2 A i v2 = Inr (d1, scanAssetRow d1 a)"
    using urow tx assms(5) by (simp add: FinalizeUpload_def finalize_row_def Let_def)
  have "get_row (own_upload A i) (db_uploads d1) = Some (finalize_row now u)"
  proof (rule get_row_by_key [of uw_id])
    show "distinct (map uw_id (db_uploads d1))"
      using reachable_keys [OF assms(1)] by (simp add: d1_def keys_ok_def uploads_finalized.keys_after_touch)
    show "finalize_row now u \<in> set (db_uploads d1)" "own_upload A i (finalize_row now u)"
      using get_row_Some_iff [OF urow] u assms(3) by (auto simp: own_upload_def finalize_row_def)
  qed (simp add: own_upload_def finalize_row_def u)
  then show "content_type_of d1 a = Some (uw_ctype u)"
    by (simp add: content_type_of_def a_def asset_of_upload_def u finalize_row_def)
qed

text \<open>C29: Finalize, on every branch, in a reachable store: another account's or an unknown upload is not
  found; a swept upload is gone for good; an original upload finalized before answers the asset
  it became (or not found once that is purged) and writes nothing; a fresh original becomes an
  asset of the caller with the upload's id, key and metadata, and finalizing again answers the
  same asset and writes nothing.\<close>
theorem finalize_exact:
  assumes "reachable d" "request_ok d A (R_FinalizeUpload i v)"
  shows "case get_row (\<lambda>u. uw_account u = A \<and> uw_id u = i) (db_uploads d) of
      None \<Rightarrow> FinalizeUpload d now A i v = Inl ErrNotFound
    | Some u \<Rightarrow>
        if uw_swept u \<noteq> None then FinalizeUpload d now A i v = Inl ErrUploadGone
        else if uw_finalized u \<noteq> None then
          FinalizeUpload d now A i v = (case getAssetTx d A i of Inl e \<Rightarrow> Inl e | Inr a \<Rightarrow> Inr (d, a))
        else (case FinalizeUpload d now A i v of Inl e \<Rightarrow> False
           | Inr (d', a) \<Rightarrow> asset_Id a = i \<and> asset_Account a = A \<and> asset_Kind a = vr_Kind v
              \<and> vo_Key (asset_Vault a) = VaultKey A i \<and> asset_ContentType a = Some (uw_ctype u)
              \<and> asset_Filename a = uw_filename u \<and> asset_DeletedAt a = None
              \<and> FinalizeUpload d' now2 A i v2 = Inr (d', a))"
proof (cases "get_row (\<lambda>u. uw_account u = A \<and> uw_id u = i) (db_uploads d)")
  case None
  then show ?thesis by (simp add: FinalizeUpload_def)
next
  case (Some u)
  have u: "u \<in> set (db_uploads d)" "uw_account u = A" "uw_id u = i" using get_row_Some_iff [OF Some] by auto
  then have ra: "uw_rasset u = None" using assms(2) by auto
  show ?thesis
  proof (cases "uw_swept u = None \<and> uw_finalized u = None")
    case False
    then show ?thesis using Some by (auto simp: FinalizeUpload_def)
  next
    case True
    then have state: "uw_finalized u = None" "uw_swept u = None" by simp_all
    note first = first_finalize [OF assms(1) Some ra state]
    have "uw_key u = VaultKey A i" using open_upload(1) [OF assms(1) u(1) ra state(1)] u by simp
    then show ?thesis
      unfolding Some option.case first(1) sum.case prod.case using True first(2,3) u
      by (simp add: scanAssetRow_def asset_of_upload_def)
  qed
qed

lemma finalize_exact_witness:
  "case FinalizeUpload demo_db1 30 ''alice'' ''A1'' demo_vault of Inl e \<Rightarrow> False
     | Inr (d', a) \<Rightarrow> FinalizeUpload d' 99 ''alice'' ''A1'' demo_vault = Inr (d', a)"
  using finalize_exact [OF demo_reachable1, of "''alice''" "''A1''" demo_vault 30 99 demo_vault]
  by (auto simp: demo_db1_eval get_row_def split: sum.splits prod.splits)

section \<open>Pagination\<close>

definition own_rows :: "db \<Rightarrow> string \<Rightarrow> string \<Rightarrow> asset_row list" where
  "own_rows d A c = sort_key ar_id (filter (\<lambda>r. ar_account r = A \<and> (c = [] \<or> ar_id r > c)) (db_assets d))"

definition page_limit :: "int \<Rightarrow> nat" where
  "page_limit l = nat (if l \<le> 0 \<or> l > 200 then 50 else l)"

lemma page_limit_pos: "0 < page_limit l"
  by (simp add: page_limit_def)

lemma list_assets_page:
  "map asset_Id (page_Items (ListAssets d A c l)) = take (page_limit l) (map ar_id (own_rows d A c))"
  "page_NextCursor (ListAssets d A c l) =
     (if length (own_rows d A c) > page_limit l then Some (ar_id (own_rows d A c ! (page_limit l - 1))) else None)"
proof -
  define k where "k = page_limit l"
  define lim where "lim = (if l \<le> 0 \<or> l > 200 then 50 else l)"
  have lim: "lim = int k" "nat (lim + 1) = Suc k" "nat lim = k" "nat (lim - 1) = k - 1" "0 < k"
    by (auto simp: k_def lim_def page_limit_def)
  have id: "asset_Id (scanAssetRow d r) = ar_id r" for r by (simp add: scanAssetRow_def)
  have L: "ListAssets d A c l = (let rows = take (Suc k) (own_rows d A c); items = map (scanAssetRow d) rows;
      next = (if length items > k then Some (asset_Id (items ! (k - 1))) else None);
      items = (if length items > k then take k items else items)
    in \<lparr>page_Items = map (\<lambda>a. a\<lparr>asset_Renditions := renditionsFor d (asset_Id a)\<rparr>) items,
        page_NextCursor = next\<rparr>)"
    unfolding ListAssets_def own_rows_def [symmetric] lim_def [symmetric] Let_def
    using lim by simp
  show "map asset_Id (page_Items (ListAssets d A c l)) = take (page_limit l) (map ar_id (own_rows d A c))"
    unfolding L k_def [symmetric] by (auto simp: Let_def comp_def id take_map)
  show "page_NextCursor (ListAssets d A c l) =
     (if length (own_rows d A c) > page_limit l then Some (ar_id (own_rows d A c ! (page_limit l - 1))) else None)"
    unfolding L k_def [symmetric] using lim(5) by (auto simp: Let_def id)
qed

lemma own_rows_strict:
  assumes "keys_ok d"
  shows "sorted_wrt (<) (map ar_id (own_rows d A c))"
proof -
  have "distinct (map ar_id (own_rows d A c))"
    using assms by (simp add: own_rows_def keys_ok_def distinct_map_filter distinct_map)
      (auto simp: distinct_map inj_on_def)
  moreover have "sorted (map ar_id (own_rows d A c))" by (simp add: own_rows_def)
  ultimately show ?thesis by (simp add: strict_sorted_iff)
qed

lemma strict_filter_drop:
  assumes "sorted_wrt (<) (map f xs)" "k < length xs"
  shows "filter (\<lambda>x. f x > (f (xs ! k) :: 'b :: linorder)) xs = drop (Suc k) xs"
proof -
  have "xs = take (Suc k) xs @ drop (Suc k) xs" by simp
  then have "filter (\<lambda>x. f x > f (xs ! k)) xs
      = filter (\<lambda>x. f x > f (xs ! k)) (take (Suc k) xs) @ filter (\<lambda>x. f x > f (xs ! k)) (drop (Suc k) xs)"
    by (metis filter_append)
  moreover have "filter (\<lambda>x. f x > f (xs ! k)) (take (Suc k) xs) = []"
  proof (rule filter_False, rule ballI)
    fix x assume "x \<in> set (take (Suc k) xs)"
    then obtain i where "i \<le> k" "x = xs ! i" using assms(2) by (auto simp: in_set_conv_nth less_Suc_eq_le)
    moreover have "f (xs ! i) \<le> f (xs ! k)" if "i \<le> k"
      using that assms sorted_wrt_nth_less [OF assms(1), of i k] by (cases "i = k") auto
    ultimately show "\<not> f x > f (xs ! k)" by auto
  qed
  moreover have "filter (\<lambda>x. f x > f (xs ! k)) (drop (Suc k) xs) = drop (Suc k) xs"
  proof (rule filter_True, rule ballI)
    fix x assume "x \<in> set (drop (Suc k) xs)"
    then obtain i where "i < length xs - Suc k" "x = xs ! (Suc k + i)"
      by (auto simp: in_set_conv_nth)
    then show "f x > f (xs ! k)" using sorted_wrt_nth_less [OF assms(1), of k "Suc k + i"] by auto
  qed
  ultimately show ?thesis by simp
qed

lemma own_rows_after:
  assumes "keys_ok d" "k < length (own_rows d A c)" "ar_id (own_rows d A c ! k) \<noteq> []"
  shows "own_rows d A (ar_id (own_rows d A c ! k)) = drop (Suc k) (own_rows d A c)"
proof -
  let ?c = "ar_id (own_rows d A c ! k)"
  have "own_rows d A c ! k \<in> set (own_rows d A c)" using assms(2) by simp
  then have c: "c = [] \<or> c < ?c" by (auto simp: own_rows_def)
  have "filter (\<lambda>r. ar_id r > ?c) (own_rows d A c)
      = sort_key ar_id (filter (\<lambda>r. ar_account r = A \<and> (c = [] \<or> ar_id r > c) \<and> ar_id r > ?c) (db_assets d))"
    by (simp add: own_rows_def filter_sort conj_assoc)
  also have "filter (\<lambda>r. ar_account r = A \<and> (c = [] \<or> ar_id r > c) \<and> ar_id r > ?c) (db_assets d)
      = filter (\<lambda>r. ar_account r = A \<and> ar_id r > ?c) (db_assets d)"
    by (rule filter_cong [OF refl]) (use c in auto)
  finally have "own_rows d A ?c = filter (\<lambda>r. ar_id r > ?c) (own_rows d A c)"
    using assms(3) by (simp add: own_rows_def [of d A ?c])
  also have "\<dots> = drop (Suc k) (own_rows d A c)"
    by (rule strict_filter_drop [OF own_rows_strict [OF assms(1)] assms(2)])
  finally show ?thesis .
qed

text \<open>A client that follows the cursors, with fuel for the number of pages.\<close>

fun follow_pages :: "nat \<Rightarrow> db \<Rightarrow> string \<Rightarrow> string \<Rightarrow> int \<Rightarrow> string list option" where
  "follow_pages 0 d A c l = None"
| "follow_pages (Suc n) d A c l =
     (let p = ListAssets d A c l in
      case page_NextCursor p of
        None \<Rightarrow> Some (map asset_Id (page_Items p))
      | Some c' \<Rightarrow> map_option (\<lambda>rest. map asset_Id (page_Items p) @ rest) (follow_pages n d A c' l))"

lemma follow_pages_rows:
  assumes "keys_ok d" "\<And>r. r \<in> set (db_assets d) \<Longrightarrow> ar_id r \<noteq> []" "length (own_rows d A c) < n"
  shows "follow_pages n d A c l = Some (map ar_id (own_rows d A c))"
  using assms(3)
proof (induction n arbitrary: c)
  case 0 then show ?case by simp
next
  case (Suc n)
  let ?R = "own_rows d A c" and ?k = "page_limit l"
  show ?case
  proof (cases "length ?R > ?k")
    case False
    then show ?thesis by (simp add: Let_def list_assets_page)
  next
    case True
    let ?c = "ar_id (?R ! (?k - 1))"
    have k: "?k - 1 < length ?R" using True by simp
    have "?R ! (?k - 1) \<in> set ?R" using k by simp
    then have "?R ! (?k - 1) \<in> set (db_assets d)" by (auto simp: own_rows_def)
    then have r: "own_rows d A ?c = drop ?k ?R"
      using own_rows_after [OF assms(1) k] assms(2) page_limit_pos [of l] by simp
    then have "follow_pages n d A ?c l = Some (map ar_id (drop ?k ?R))"
      using Suc.IH [of ?c] Suc.prems True page_limit_pos [of l] by simp
    then have "follow_pages (Suc n) d A c l = Some (take ?k (map ar_id ?R) @ map ar_id (drop ?k ?R))"
      using True by (simp add: Let_def list_assets_page)
    then show ?thesis by (simp flip: drop_map)
  qed
qed

text \<open>C35: Following the cursors of ListAssets, for any page limit, terminates and lists every asset of
  the account exactly once, in id order, and nothing of another account.\<close>
theorem pagination_complete:
  assumes "reachable d" "[] \<notin> ar_id ` set (db_assets d)"
  shows "follow_pages (Suc (length (db_assets d))) d A [] l
    = Some (sort (map ar_id (filter (\<lambda>r. ar_account r = A) (db_assets d))))"
proof -
  have "length (own_rows d A []) < Suc (length (db_assets d))"
    by (simp add: own_rows_def le_imp_less_Suc)
  then have "follow_pages (Suc (length (db_assets d))) d A [] l = Some (map ar_id (own_rows d A []))"
    using follow_pages_rows [OF reachable_keys [OF assms(1)]] assms(2) by (metis imageI)
  then show ?thesis by (simp add: own_rows_def map_sort_key)
qed

lemma pagination_complete_witness:
  "follow_pages 2 demo_db ''alice'' [] 1 = Some [''A1'']"
proof -
  have a: "db_assets demo_db = [demo_asset]" by (simp add: demo_db_eval)
  have "[] \<notin> ar_id ` set (db_assets demo_db)" by (simp add: a demo_asset_def)
  from pagination_complete [OF demo_reachable this, of "''alice''" 1] show ?thesis
    by (simp add: a numeral_2_eq_2) (simp add: demo_asset_def)
qed

end
