(* ===== verification/Router.thy ===== *)
theory Router
  imports Asset_Api Store_Props
begin

text \<open>
  The router (internal/service/router.go): the account-scoped endpoints behind the token
  middleware, the probe outside it. A run of the whole service is a step relation over the
  database and the grant cache: requests of any caller, worker operations, operator commands.
  It refines the guarded store machine, so every invariant proved of the store holds of it.
\<close>

datatype call =
  C_ResolveURL string string string string | C_GetAsset string | C_DeleteAsset string
| C_ListAssets string string | C_RequestRendition string "string option" | C_GetJob string
| C_CreateUpload "upload_request option" | C_FinalizeUpload string "string option"
| C_CreateGrant "grant_request option" | C_GetGrant string | C_RevokeGrant string
| C_CreateExport "export_request option" | C_GetExport string | C_RevokeExport string
| C_ProvisionAccount

type_synonym server = "db \<times> grant_cache"

definition keep_cache :: "grant_cache \<Rightarrow> response \<times> db \<Rightarrow> response \<times> server" where
  "keep_cache c r = (fst r, snd r, c)"

definition keep_db :: "db \<Rightarrow> response \<times> grant_cache \<Rightarrow> response \<times> server" where
  "keep_db d r = (fst r, d, snd r)"

fun dispatch :: "service \<Rightarrow> time \<Rightarrow> string \<Rightarrow> claims option \<Rightarrow> call \<Rightarrow> server \<Rightarrow> response \<times> server" where
  "dispatch s now newID cl (C_ResolveURL a i dev g) (d, c) = keep_db d (handleResolveDeliveryURL s now cl d c a i dev g)"
| "dispatch s now newID cl (C_GetAsset a) (d, c) = (handleGetAsset cl d a, d, c)"
| "dispatch s now newID cl (C_DeleteAsset a) (d, c) = keep_cache c (handleDeleteAsset now cl d a)"
| "dispatch s now newID cl (C_ListAssets l cur) (d, c) = (handleListAssets cl d l cur, d, c)"
| "dispatch s now newID cl (C_RequestRendition a req) (d, c) = keep_cache c (handleRequestRendition now newID cl d a req)"
| "dispatch s now newID cl (C_GetJob j) (d, c) = (handleGetJob cl d j, d, c)"
| "dispatch s now newID cl (C_CreateUpload req) (d, c) = keep_cache c (handleCreateUpload s now newID cl d req)"
| "dispatch s now newID cl (C_FinalizeUpload u req) (d, c) = keep_cache c (handleFinalizeUpload s now newID cl d u req)"
| "dispatch s now newID cl (C_CreateGrant req) (d, c) = keep_cache c (handleCreateGrant now newID cl d req)"
| "dispatch s now newID cl (C_GetGrant g) (d, c) = (handleGetGrant cl d g, d, c)"
| "dispatch s now newID cl (C_RevokeGrant g) (d, c) = keep_cache c (handleRevokeGrant now cl d g)"
| "dispatch s now newID cl (C_CreateExport req) (d, c) = keep_cache c (handleCreateExport s now newID cl d req)"
| "dispatch s now newID cl (C_GetExport e) (d, c) = (handleGetExport s now cl d e, d, c)"
| "dispatch s now newID cl (C_RevokeExport e) (d, c) = keep_cache c (handleRevokeExport now cl d e)"
| "dispatch s now newID cl C_ProvisionAccount (d, c) = keep_cache c (handleProvisionAccount now cl d)"

definition serve ::
  "'k jwt_lib \<Rightarrow> 'k verifier \<Rightarrow> service \<Rightarrow> time \<Rightarrow> string \<Rightarrow> string \<Rightarrow> call \<Rightarrow> server \<Rightarrow> response \<times> server" where
  "serve lib v s now newID authHeader q st =
     (case Middleware lib v authHeader of
        AO_Next cl \<Rightarrow> dispatch s now newID (Some cl) q st
      | _ \<Rightarrow> ((401, B_Error ''unauthorized''), st))"

section \<open>Steps of an account\<close>

text \<open>Beside the guard: a drawn id is not empty, and an upload bound to a rendition names the intent too.\<close>

definition well_formed :: "request \<Rightarrow> bool" where
  "well_formed r \<longleftrightarrow> (case r of R_CreateUpload u \<Rightarrow> u_ID u \<noteq> [] \<and> ((u_RenditionAsset u = []) = (u_RenditionIntent u = [])) | _ \<Rightarrow> True)"

definition account_step :: "string \<Rightarrow> db \<Rightarrow> db \<Rightarrow> bool" where
  "account_step A d d' \<longleftrightarrow> (\<exists>now r. request_ok d A r \<and> well_formed r \<and> d' = run_request now A r d)"

lemma account_step_store: "account_step A d d' \<Longrightarrow> store_step d d'"
  by (auto simp: account_step_def intro: store_step.request)

lemma account_steps_store: "(account_step A)\<^sup>*\<^sup>* d d' \<Longrightarrow> store_step\<^sup>*\<^sup>* d d'"
  by (induction rule: rtranclp_induct) (auto intro: rtranclp.rtrancl_into_rtrancl account_step_store)

lemma run_is_steps:
  "request_ok d A r \<Longrightarrow> well_formed r \<Longrightarrow> (account_step A)\<^sup>*\<^sup>* d (run_request now A r d)"
  by (rule r_into_rtranclp) (auto simp: account_step_def)

text \<open>
  Every stored upload has an id, and one bound to a rendition names the intent and an asset its
  account owns or owned: what finalize relies on.
\<close>

definition uploads_ok :: "db \<Rightarrow> bool" where
  "uploads_ok d \<longleftrightarrow> (\<forall>u \<in> set (db_uploads d). uw_id u \<noteq> []
     \<and> (\<forall>b. uw_rasset u = Some b \<longrightarrow> b \<noteq> [] \<and> str_of (uw_rintent u) \<noteq> [] \<and> ever_owned d (uw_account u) b))"

definition upload_kept :: "upload_row \<Rightarrow> upload_row \<Rightarrow> bool" where
  "upload_kept u v \<longleftrightarrow> uw_id v = uw_id u \<and> uw_account v = uw_account u
     \<and> uw_rasset v = uw_rasset u \<and> uw_rintent v = uw_rintent u"

lemma update_upload_kept:
  assumes "v \<in> set (update_where p f t)" "\<And>u. upload_kept u (f u)"
  shows "\<exists>u \<in> set t. upload_kept u v"
  using assms by (auto simp: set_update_where upload_kept_def)

lemma upload_stays: "v \<in> set (db_uploads d') \<Longrightarrow> db_uploads d' = db_uploads d \<Longrightarrow> \<exists>u \<in> set (db_uploads d). upload_kept u v"
  by (auto simp: upload_kept_def)

definition created_by :: "request \<Rightarrow> string \<Rightarrow> upload_row \<Rightarrow> bool" where
  "created_by r A v \<longleftrightarrow> (\<exists>x. r = R_CreateUpload x \<and> uw_id v = u_ID x \<and> uw_account v = A
     \<and> uw_rasset v = nullStr (u_RenditionAsset x) \<and> uw_rintent v = nullStr (u_RenditionIntent x))"

lemma request_uploads:
  assumes "v \<in> set (db_uploads (run_request now A r d))"
  shows "(\<exists>u \<in> set (db_uploads d). upload_kept u v) \<or> created_by r A v"
proof (cases r)
  case (R_CreateUpload x)
  then show ?thesis using assms
    by (auto simp: CreateUpload_def commit_def insert_row_def created_by_def upload_kept_def split: sum.splits if_splits)
next
  case (R_FinalizeUpload i w)
  have "db_uploads (run_request now A r d) = db_uploads d \<or> db_uploads (run_request now A r d)
      = update_where (\<lambda>r. uw_account r = A \<and> uw_id r = i) (finalize_row now) (db_uploads d)"
    using R_FinalizeUpload by (auto simp: commit_def FinalizeUpload_def Let_def split: option.splits if_splits sum.splits)
  then show ?thesis
  proof
    assume "db_uploads (run_request now A r d) = db_uploads d"
    then show ?thesis using assms upload_stays by blast
  next
    assume "db_uploads (run_request now A r d)
      = update_where (\<lambda>r. uw_account r = A \<and> uw_id r = i) (finalize_row now) (db_uploads d)"
    then have "v \<in> set (update_where (\<lambda>r. uw_account r = A \<and> uw_id r = i) (finalize_row now) (db_uploads d))"
      using assms by simp
    then have "\<exists>u \<in> set (db_uploads d). upload_kept u v"
      by (rule update_upload_kept) (simp add: upload_kept_def finalize_row_def)
    then show ?thesis ..
  qed
qed ((rule disjI1, rule upload_stays, rule assms, auto simp: commit_def MarkAssetDeleted_def CreateGrant_def RevokeGrant_def
      CreateExport_def RevokeExport_def ProvisionAccount_def EnqueueJob_def EnqueueRemuxJob_def insert_job_def
      MarkNotDerived_def Let_def split: sum.splits option.splits if_splits)[1])+

lemma worker_uploads:
  assumes "v \<in> set (db_uploads (run_worker now w d))"
  shows "\<exists>u \<in> set (db_uploads d). upload_kept u v"
proof (cases w)
  case (W_MarkSwept i)
  then have "v \<in> set (update_where (\<lambda>r. uw_id r = i) (\<lambda>r. r\<lparr>uw_swept := Some now\<rparr>) (db_uploads d))"
    using assms by (simp add: MarkUploadSwept_def)
  then show ?thesis by (rule update_upload_kept) (simp add: upload_kept_def)
qed ((rule upload_stays, rule assms, auto simp: ClaimNextJob_def Heartbeat_def CompleteJob_def CompleteJobNoRendition_def
      FailJob_def PurgeDeletedAsset_def BackfillVaultProbe_def MarkProbeFailed_def FailedRenditionForCeiling_def
      ClaimChecksumCandidate_def ReleaseChecksumClaim_def MarkChecksumVerified_def
      UpsertWorkerHeartbeat_def Let_def commit_def split: option.splits sum.splits)[1])+

lemma uploads_ok_mono:
  assumes "uploads_ok d" "\<And>A i. ever_owned d A i \<Longrightarrow> ever_owned d' A i"
    "\<And>v. v \<in> set (db_uploads d') \<Longrightarrow> (\<exists>u \<in> set (db_uploads d). upload_kept u v)
       \<or> uw_id v \<noteq> [] \<and> (\<forall>b. uw_rasset v = Some b \<longrightarrow> b \<noteq> [] \<and> str_of (uw_rintent v) \<noteq> [] \<and> ever_owned d (uw_account v) b)"
  shows "uploads_ok d'"
  unfolding uploads_ok_def
proof
  fix v assume "v \<in> set (db_uploads d')"
  from assms(3) [OF this]
  show "uw_id v \<noteq> [] \<and> (\<forall>b. uw_rasset v = Some b \<longrightarrow> b \<noteq> [] \<and> str_of (uw_rintent v) \<noteq> [] \<and> ever_owned d' (uw_account v) b)"
    using assms(1,2) unfolding uploads_ok_def upload_kept_def by metis
qed

lemma uploads_ok_account:
  assumes "reachable d" "account_step A d d'" "uploads_ok d"
  shows "uploads_ok d'"
proof -
  obtain now r where r: "request_ok d A r" "well_formed r" "d' = run_request now A r d"
    using assms(2) by (auto simp: account_step_def)
  show ?thesis
  proof (rule uploads_ok_mono [OF assms(3)])
    show "ever_owned d B i \<Longrightarrow> ever_owned d' B i" for B i
      using ever_owned_step [OF assms(1) account_step_store [OF assms(2)]] .
    show "(\<exists>u \<in> set (db_uploads d). upload_kept u v)
       \<or> uw_id v \<noteq> [] \<and> (\<forall>b. uw_rasset v = Some b \<longrightarrow> b \<noteq> [] \<and> str_of (uw_rintent v) \<noteq> [] \<and> ever_owned d (uw_account v) b)"
      if "v \<in> set (db_uploads d')" for v
      using request_uploads [of v now A r d] that r owned_ever_owned [OF assms(1)]
      by (auto simp: created_by_def well_formed_def nullStr_def str_of_def split: if_splits)
  qed
qed

lemma uploads_ok_worker:
  assumes "reachable d" "uploads_ok d"
  shows "uploads_ok (run_worker now w d)"
  by (rule uploads_ok_mono [OF assms(2)])
     (use ever_owned_step [OF assms(1) store_step.worker] worker_uploads in blast)+

lemma uploads_ok_operator: "reachable d \<Longrightarrow> uploads_ok d \<Longrightarrow> uploads_ok (CreateAccount d now a bucket pre)"
  by (simp add: uploads_ok_def ever_owned_def CreateAccount_def)

lemma account_steps_reachable: "(account_step A)\<^sup>*\<^sup>* d d' \<Longrightarrow> reachable d \<Longrightarrow> uploads_ok d \<Longrightarrow> reachable d' \<and> uploads_ok d'"
  by (induction rule: rtranclp_induct) (auto intro: reachable.step account_step_store uploads_ok_account)

section \<open>Every handler is a sequence of guarded requests of its caller\<close>

lemma snd_reply_write [simp]: "snd (reply_write d status f r) = commit d r"
  by (auto simp: reply_write_def commit_def split: sum.splits)

lemma commit_is_request:
  "commit d (MarkAssetDeleted d now A i) = run_request now A (R_MarkAssetDeleted i) d"
  "commit d (CreateGrant d now g A q) = run_request now A (R_CreateGrant g q) d"
  "commit d (RevokeGrant d now A i) = run_request now A (R_RevokeGrant i) d"
  "commit d (CreateExport d now g A q') = run_request now A (R_CreateExport g q') d"
  "commit d (RevokeExport d now A i) = run_request now A (R_RevokeExport i) d"
  "commit d (ProvisionAccount d now A) = run_request now A R_ProvisionAccount d"
  "commit d (CreateUpload d now A u) = run_request now A (R_CreateUpload u) d"
  "commit d (FinalizeUpload d now A i v) = run_request now A (R_FinalizeUpload i v) d"
  "commit d (EnqueueJob d now j A i n) = run_request now A (R_EnqueueJob j i n) d"
  "commit d (EnqueueRemuxJob d now j A i n src) = run_request now A (R_EnqueueRemuxJob j i n src) d"
  "commit d (MarkNotDerived d i n) = run_request now A (R_MarkNotDerived i n) d"
  by simp_all

lemma commit_steps:
  assumes "commit d e = run_request now A r d" "request_ok d A r" "well_formed r"
  shows "(account_step A)\<^sup>*\<^sup>* d (commit d e)"
  unfolding assms(1) using assms(2,3) by (rule run_is_steps)

lemma commit_Inr: "e = Inr (d', x) \<Longrightarrow> commit d e = d'" by simp

lemma handler_steps:
  "(account_step (account cl))\<^sup>*\<^sup>* d (snd (handleDeleteAsset now cl d i))"
  "(account_step (account cl))\<^sup>*\<^sup>* d (snd (handleCreateGrant now newID cl d gq))"
  "(account_step (account cl))\<^sup>*\<^sup>* d (snd (handleRevokeGrant now cl d i))"
  "(account_step (account cl))\<^sup>*\<^sup>* d (snd (handleCreateExport s now newID cl d eq))"
  "(account_step (account cl))\<^sup>*\<^sup>* d (snd (handleRevokeExport now cl d i))"
  by (auto simp: handleDeleteAsset_def handleCreateGrant_def handleRevokeGrant_def handleCreateExport_def
      handleRevokeExport_def well_formed_def simp del: run_request.simps
      intro: commit_steps [OF commit_is_request(1)] commit_steps [OF commit_is_request(2)]
        commit_steps [OF commit_is_request(3)] commit_steps [OF commit_is_request(4)]
        commit_steps [OF commit_is_request(5)] split: option.splits)

lemma provision_steps: "(account_step (account cl))\<^sup>*\<^sup>* d (snd (handleProvisionAccount now cl d))"
proof (cases "snd (handleProvisionAccount now cl d) = d")
  case False
  then obtain c where c: "cl = Some c" "snd (handleProvisionAccount now cl d) = commit d (ProvisionAccount d now (cl_account c))"
    by (auto simp: handleProvisionAccount_def commit_def split: option.splits if_splits sum.splits prod.splits)
  show ?thesis unfolding c(2)
    using commit_steps [OF commit_is_request(6), of d "cl_account c" now] c(1) by (simp add: account_def well_formed_def)
qed simp

lemma request_rendition_steps: "(account_step (account cl))\<^sup>*\<^sup>* d (snd (handleRequestRendition now j cl d i req))"
proof (cases "AssetOwnedBy d (account cl) i")
  case True
  then have "(account_step (account cl))\<^sup>*\<^sup>* d (commit d (EnqueueJob d now j (account cl) i n))" for n
    using commit_steps [OF commit_is_request(9)] by (simp add: well_formed_def)
  then show ?thesis by (auto simp: handleRequestRendition_def split: option.splits sum.splits)
qed (simp add: handleRequestRendition_def)

lemma owned_id_nonempty:
  assumes "reachable d" "uploads_ok d" "AssetOwnedBy d A i"
  shows "i \<noteq> []"
proof -
  obtain u where "u \<in> set (db_uploads d)" "own_upload A i u"
    using owned_ever_owned [OF assms(1,3)] by (auto simp: ever_owned_def)
  then show ?thesis using assms(2) by (auto simp: uploads_ok_def own_upload_def)
qed

lemma create_upload_result:
  "snd (handleCreateUpload s now newID cl d (Some req)) = d
   \<or> (case ur_Rendition req of None \<Rightarrow> True | Some b \<Rightarrow> check_binding d (account cl) b = None)
     \<and> snd (handleCreateUpload s now newID cl d (Some req))
        = commit d (CreateUpload d now (account cl) (upload_of_request (account cl) newID req))"
  by (auto simp: handleCreateUpload_def Let_def commit_def split: option.splits sum.splits)

lemma create_upload_steps:
  assumes "reachable d" "uploads_ok d" "\<not> has_asset_id d newID" "newID \<noteq> []"
  shows "(account_step (account cl))\<^sup>*\<^sup>* d (snd (handleCreateUpload s now newID cl d req0))"
proof (cases req0)
  case None then show ?thesis by (simp add: handleCreateUpload_def split: option.split)
next
  case (Some req)
  let ?u = "upload_of_request (account cl) newID req"
  have ok: "request_ok d (account cl) (R_CreateUpload ?u) \<and> well_formed (R_CreateUpload ?u)"
    if bound: "case ur_Rendition req of None \<Rightarrow> True | Some b \<Rightarrow> check_binding d (account cl) b = None"
  proof (cases "ur_Rendition req")
    case None
    then show ?thesis using assms by (simp add: upload_of_request_def new_upload_key_def well_formed_def)
  next
    case (Some b)
    then have "AssetOwnedBy d (account cl) (arb_AssetId b)" "arb_Intent b \<noteq> []"
      using bound by (auto simp: check_binding_def split: if_splits option.splits)
    then show ?thesis using Some assms owned_id_nonempty [OF assms(1,2)]
      by (simp add: upload_of_request_def new_upload_key_def well_formed_def)
  qed
  from create_upload_result [of s now newID cl d req] show ?thesis
  proof
    assume "snd (handleCreateUpload s now newID cl d (Some req)) = d"
    then show ?thesis using Some by simp
  next
    assume r: "(case ur_Rendition req of None \<Rightarrow> True | Some b \<Rightarrow> check_binding d (account cl) b = None)
     \<and> snd (handleCreateUpload s now newID cl d (Some req)) = commit d (CreateUpload d now (account cl) ?u)"
    then have "snd (handleCreateUpload s now newID cl d (Some req)) = commit d (CreateUpload d now (account cl) ?u)" ..
    moreover have "(account_step (account cl))\<^sup>*\<^sup>* d (commit d (CreateUpload d now (account cl) ?u))"
      using commit_steps [OF commit_is_request(7)] ok r by blast
    ultimately show ?thesis using Some by simp
  qed
qed

lemma not_derived_steps:
  assumes "AssetOwnedBy d A i"
  shows "(account_step A)\<^sup>*\<^sup>* d (fst (mark_not_derived d i ns)) \<and> db_assets (fst (mark_not_derived d i ns)) = db_assets d"
  using assms
proof (induction ns arbitrary: d)
  case (Cons n ns)
  show ?case
  proof (cases "MarkNotDerived d i n")
    case (Inr x)
    obtain d' y where x: "x = (d', y)" by (cases x)
    have step: "(account_step A)\<^sup>*\<^sup>* d d'"
      using commit_steps [OF commit_is_request(11), of d A i n] Cons.prems Inr x by (simp add: well_formed_def)
    have same: "db_assets d' = db_assets d" using Inr x by (auto simp: MarkNotDerived_def split: if_splits)
    then have "AssetOwnedBy d' A i" using Cons.prems by (simp add: AssetOwnedBy_def)
    from Cons.IH [OF this] show ?thesis using step same Inr x by (auto intro: rtranclp_trans)
  qed simp
qed simp


text \<open>An authored file is enqueued for an asset of the caller, or not at all once that is purged.\<close>

lemma get_upload_row:
  assumes "GetUpload d A i = Inr up"
  obtains u where "u \<in> set (db_uploads d)" "uw_account u = A" "uw_id u = i"
    "u_RenditionAsset up = str_of (uw_rasset u)" "u_RenditionIntent up = str_of (uw_rintent u)"
  using assms by (auto simp: GetUpload_def upload_of_row_def split: option.splits dest!: get_row_Some_iff)

lemma remux_steps:
  assumes "reachable d" "uploads_ok d" "GetUpload d A i = Inr up" "u_RenditionAsset up \<noteq> []"
  shows "(account_step A)\<^sup>*\<^sup>* d (commit d (EnqueueRemuxJob d now j A (u_RenditionAsset up) n src))"
proof (cases "AssetOwnedBy d A (u_RenditionAsset up)")
  case True
  then show ?thesis using commit_steps [OF commit_is_request(10)] by (simp add: well_formed_def)
next
  case False
  let ?b = "u_RenditionAsset up"
  obtain u where u: "u \<in> set (db_uploads d)" "uw_account u = A" "?b = str_of (uw_rasset u)"
    using get_upload_row [OF assms(3)] by blast
  then have "ever_owned d A ?b" using assms(2,4) by (auto simp: uploads_ok_def str_of_def split: option.splits)
  then have none: "\<not> has_asset_id d ?b" using ever_owned_cases [OF assms(1)] False by blast
  have "latest_job d A ?b n = None"
  proof (cases "latest_job d A ?b n")
    case (Some r)
    then show ?thesis using latest_job_Some [OF Some] reachable_job_asset [OF assms(1)] False
      by (force simp: AssetOwnedBy_def has_row_iff)
  qed
  then have "commit d (EnqueueRemuxJob d now j A ?b n src) = d"
    using none by (simp add: EnqueueRemuxJob_def insert_job_def queued_row_def commit_def)
  then show ?thesis by simp
qed

lemma original_request_ok:
  assumes "reachable d" "uploads_ok d" "GetUpload d A i = Inr up"
    "\<not> (u_RenditionAsset up \<noteq> [] \<and> u_RenditionIntent up \<noteq> [])"
  shows "request_ok d A (R_FinalizeUpload i v)"
proof -
  obtain u where u: "u \<in> set (db_uploads d)" "uw_id u = i"
    "u_RenditionAsset up = str_of (uw_rasset u)" "u_RenditionIntent up = str_of (uw_rintent u)"
    using get_upload_row [OF assms(3)] by blast
  then have none: "uw_rasset u = None" using assms(2,4) by (auto simp: uploads_ok_def str_of_def split: option.splits)
  have "x = u" if "x \<in> set (db_uploads d)" "uw_id x = i" for x
    using that u reachable_keys [OF assms(1)] distinct_key_eq [of uw_id "db_uploads d" x u] by (simp add: keys_ok_def)
  then show ?thesis using none by auto
qed

lemma finalized_owned: "FinalizeUpload d now A i v = Inr (d', a) \<Longrightarrow> AssetOwnedBy d' A i"
  by (auto simp: FinalizeUpload_def getAssetTx_def Let_def owned_row split: option.splits if_splits sum.splits)

lemma after_finalize_steps:
  assumes "AssetOwnedBy d A i"
  shows "(account_step A)\<^sup>*\<^sup>* d (snd (after_finalize now j A up k d i a))"
proof -
  have enq: "(account_step A)\<^sup>*\<^sup>* d (commit d (EnqueueJob d now j A i Detail))"
    using commit_steps [OF commit_is_request(9)] assms by (simp add: well_formed_def)
  have "snd (after_finalize now j A up k d i a) = d \<or> snd (after_finalize now j A up k d i a) = commit d (EnqueueJob d now j A i Detail)
     \<or> snd (after_finalize now j A up k d i a) = fst (mark_not_derived d i (derivableIntents k))"
    by (auto simp: after_finalize_def commit_def split: sum.splits prod.splits)
  then show ?thesis using enq not_derived_steps [OF assms] by (elim disjE) simp_all
qed

text \<open>What finalize commits: nothing, a remux job, or the finalize transaction and what follows it.\<close>

lemma finalize_result:
  assumes "GetUpload d (account cl) i = Inr up"
  shows "snd (handleFinalizeUpload s now j cl d i req) = d
    \<or> (u_RenditionAsset up \<noteq> [] \<and> u_RenditionIntent up \<noteq> [] \<and> (\<exists>n. snd (handleFinalizeUpload s now j cl d i req)
        = commit d (EnqueueRemuxJob d now j (account cl) (u_RenditionAsset up) n (u_Key up))))
    \<or> (\<not> (u_RenditionAsset up \<noteq> [] \<and> u_RenditionIntent up \<noteq> []) \<and> (\<exists>v d' a.
        FinalizeUpload d now (account cl) i v = Inr (d', a)
      \<and> snd (handleFinalizeUpload s now j cl d i req) = snd (after_finalize now j (account cl) up (vr_Kind v) d' i a)))"
proof -
  have remux: "snd (case e of Inl _ \<Rightarrow> ((500, B_Error ''internal''), d) | Inr (d', jb) \<Rightarrow> ((202, B_Job jb), d'))
      = commit d e" for e :: "job effect"
    by (simp add: commit_def split: sum.split prod.split)
  show ?thesis
  proof (cases "u_RenditionAsset up \<noteq> [] \<and> u_RenditionIntent up \<noteq> []")
    case True
    then show ?thesis using assms
      by (simp add: handleFinalizeUpload_def remux split: option.split) blast
  next
    case False
    have orig: "snd (case FinalizeUpload d now (account cl) i v of Inl e \<Rightarrow> (mapStoreErr e, d)
         | Inr (d', a) \<Rightarrow> after_finalize now j (account cl) up (vr_Kind v) d' i a) = d
      \<or> (\<exists>d' a. FinalizeUpload d now (account cl) i v = Inr (d', a) \<and>
          snd (case FinalizeUpload d now (account cl) i v of Inl e \<Rightarrow> (mapStoreErr e, d)
            | Inr (d', a) \<Rightarrow> after_finalize now j (account cl) up (vr_Kind v) d' i a)
          = snd (after_finalize now j (account cl) up (vr_Kind v) d' i a))" for v
      by (simp split: sum.split prod.split)
    from False show ?thesis using assms orig
      by (simp add: handleFinalizeUpload_def del: de_Morgan_conj split: option.split sum.split) blast
  qed
qed

lemma finalize_steps:
  assumes "reachable d" "uploads_ok d"
  shows "(account_step (account cl))\<^sup>*\<^sup>* d (snd (handleFinalizeUpload s now j cl d i req))"
proof (cases "snd (handleFinalizeUpload s now j cl d i req) = d")
  case False
  let ?A = "account cl"
  obtain up where up: "GetUpload d ?A i = Inr up" using False
    by (auto simp: handleFinalizeUpload_def split: option.splits sum.splits if_splits)
  from finalize_result [OF up, of s now j req] False
  show ?thesis
  proof (elim disjE conjE exE)
    fix n assume "u_RenditionAsset up \<noteq> []" "snd (handleFinalizeUpload s now j cl d i req)
        = commit d (EnqueueRemuxJob d now j ?A (u_RenditionAsset up) n (u_Key up))"
    then show ?thesis using remux_steps [OF assms up] by simp
  next
    fix v d' a
    assume orig: "\<not> (u_RenditionAsset up \<noteq> [] \<and> u_RenditionIntent up \<noteq> [])"
      and fin: "FinalizeUpload d now ?A i v = Inr (d', a)"
      and r: "snd (handleFinalizeUpload s now j cl d i req) = snd (after_finalize now j ?A up (vr_Kind v) d' i a)"
    have "(account_step ?A)\<^sup>*\<^sup>* d (commit d (FinalizeUpload d now ?A i v))"
      by (rule commit_steps [OF commit_is_request(8)])
         (use original_request_ok [OF assms up orig] in \<open>simp_all add: well_formed_def\<close>)
    then have "(account_step ?A)\<^sup>*\<^sup>* d d'" by (simp add: fin)
    then show ?thesis unfolding r using after_finalize_steps [OF finalized_owned [OF fin]] by (rule rtranclp_trans)
  qed simp
qed simp

end
