(* ===== verification/Service_Run.thy ===== *)
theory Service_Run
  imports Router Tenant
begin

text \<open>
  Runs of the whole service: requests of any caller through the token middleware, downloads,
  worker operations and operator commands, over the database and the grant cache. Every run is a
  run of the guarded store machine, and a caller's requests are store requests of its own account.
\<close>

lemma dispatch_steps:
  assumes "reachable d" "uploads_ok d" "newID \<noteq> []" "\<not> has_asset_id d newID"
  shows "(account_step (account cl))\<^sup>*\<^sup>* d (fst (snd (dispatch s now newID cl q (d, c))))"
  using handler_steps provision_steps request_rendition_steps create_upload_steps [OF assms(1,2,4,3)]
    finalize_steps [OF assms(1,2)]
  by (cases q) (simp_all add: keep_cache_def keep_db_def)

lemma serve_steps:
  assumes "reachable d" "uploads_ok d" "newID \<noteq> []" "\<not> has_asset_id d newID"
    "serve lib v s now newID h q (d, c) = (resp, d', c')"
  shows "case Middleware lib v h of AO_Next cl \<Rightarrow> (account_step (cl_account cl))\<^sup>*\<^sup>* d d' | _ \<Rightarrow> d' = d \<and> c' = c"
proof (cases "Middleware lib v h")
  case (AO_Next cl)
  have "(account_step (account (Some cl)))\<^sup>*\<^sup>* d (fst (snd (dispatch s now newID (Some cl) q (d, c))))"
    by (rule dispatch_steps [OF assms(1-4)])
  then show ?thesis using AO_Next assms(5) by (simp add: serve_def account_def)
qed (use assms(5) in \<open>simp_all add: serve_def\<close>)

section \<open>The service refines the store machine\<close>

inductive service_step :: "'k jwt_lib \<Rightarrow> 'k verifier \<Rightarrow> service \<Rightarrow> server \<Rightarrow> server \<Rightarrow> bool"
  for lib v s where
  served: "newID \<noteq> [] \<Longrightarrow> \<not> has_asset_id d newID \<Longrightarrow> serve lib v s now newID h q (d, c) = (resp, st') \<Longrightarrow>
    service_step lib v s (d, c) st'"
| downloaded: "handleDownload s now d c key rawQuery = (answer, c') \<Longrightarrow> service_step lib v s (d, c) (d, c')"
| worked: "service_step lib v s (d, c) (run_worker now w d, c)"
| operated: "service_step lib v s (d, c) (CreateAccount d now a bucket pre, c)"

lemma service_step_store:
  assumes "service_step lib v s (d, c) (d', c')" "reachable d" "uploads_ok d"
  shows "reachable d' \<and> uploads_ok d'"
  using assms(1)
proof (cases rule: service_step.cases)
  case (served newID now h q resp)
  have "case Middleware lib v h of AO_Next cl \<Rightarrow> (account_step (cl_account cl))\<^sup>*\<^sup>* d d' | _ \<Rightarrow> d' = d \<and> c' = c"
    by (rule serve_steps [OF assms(2,3) served])
  then show ?thesis using account_steps_reachable [OF _ assms(2,3)] assms(2,3)
    by (cases "Middleware lib v h") auto
next
  case (worked now w)
  then show ?thesis using assms(2,3) uploads_ok_worker reachable.step [OF _ store_step.worker] by simp
next
  case (operated now a bucket pre)
  then show ?thesis using assms(2,3) uploads_ok_operator reachable.step [OF _ store_step.operator] by simp
qed (use assms in simp)

lemma service_run_store:
  assumes "(service_step lib v s)\<^sup>*\<^sup>* (empty_db, Map.empty) (d, c)"
  shows "reachable d \<and> uploads_ok d"
proof -
  have "reachable (fst st) \<and> uploads_ok (fst st)" if "(service_step lib v s)\<^sup>*\<^sup>* (empty_db, Map.empty) st" for st
    using that
  proof (induction rule: rtranclp_induct)
    case base
    then show ?case using reachable.init by (simp add: uploads_ok_def empty_db_def)
  next
    case (step x y)
    then show ?case using service_step_store [of lib v s "fst x" "snd x" "fst y" "snd y"] by simp
  qed
  from this [OF assms] show ?thesis by simp
qed

text \<open>C1: Every run of the service, whatever its callers send, is a run of the guarded store machine:
  the guards the store's invariants assume (fresh ids, keys in the caller's own key space, jobs and
  marks only for owned assets, only originals finalized into assets) are established by the
  handlers themselves, for the price of fresh non-empty identifiers. So in the database of any
  service run every asset lies at its own account's vault key and grew from that account's
  finalized upload, and every job is for an asset of its account.\<close>
theorem service_refines_store:
  assumes "(service_step lib v s)\<^sup>*\<^sup>* (empty_db, Map.empty) (d, c)"
  shows "reachable d
    \<and> (\<forall>a \<in> set (db_assets d). ar_vault_key a = VaultKey (ar_account a) (ar_id a)
         \<and> (\<exists>u \<in> set (db_uploads d). own_upload (ar_account a) (ar_id a) u \<and> uw_finalized u \<noteq> None))
    \<and> (\<forall>j \<in> set (db_jobs d). AssetOwnedBy d (jr_account j) (jr_asset j))"
proof -
  have d: "reachable d" using service_run_store [OF assms] ..
  then show ?thesis using reachable_vault_key [OF d] reachable_asset_upload [OF d] reachable_job_asset [OF d]
    by (auto simp: AssetOwnedBy_def has_row_iff) blast
qed

section \<open>Isolation at the interface\<close>

text \<open>Requests whose token is not account \<open>A\<close>'s, refused ones included.\<close>

inductive others_request :: "string \<Rightarrow> 'k jwt_lib \<Rightarrow> 'k verifier \<Rightarrow> service \<Rightarrow> server \<Rightarrow> server \<Rightarrow> bool"
  for A lib v s where
  others: "newID \<noteq> [] \<Longrightarrow> \<not> has_asset_id d newID \<Longrightarrow> (\<forall>cl. Middleware lib v h = AO_Next cl \<longrightarrow> cl_account cl \<noteq> A) \<Longrightarrow>
    serve lib v s now newID h q (d, c) = (resp, st') \<Longrightarrow> others_request A lib v s (d, c) st'"

lemma account_steps_others: "(account_step B)\<^sup>*\<^sup>* d d' \<Longrightarrow> B \<noteq> A \<Longrightarrow> others_run A d d'"
proof (induction rule: rtranclp_induct)
  case (step y z)
  then show ?case by (auto simp: account_step_def intro: others_next simp del: run_request.simps)
qed (rule others_none)

lemma others_run_trans: "others_run A y z \<Longrightarrow> others_run A x y \<Longrightarrow> others_run A x z"
  by (induction rule: others_run.induct) (auto intro: others_run.intros simp del: run_request.simps)

lemma others_request_run:
  assumes "others_request A lib v s (d, c) (d', c')" "reachable d" "uploads_ok d"
  shows "others_run A d d' \<and> reachable d' \<and> uploads_ok d'"
  using assms(1)
proof (cases rule: others_request.cases)
  case (others newID h now q resp)
  have "case Middleware lib v h of AO_Next cl \<Rightarrow> (account_step (cl_account cl))\<^sup>*\<^sup>* d d' | _ \<Rightarrow> d' = d \<and> c' = c"
    by (rule serve_steps [OF assms(2,3) others(1,2,4)])
  then show ?thesis using others(3) account_steps_others account_steps_reachable [OF _ assms(2,3)] assms(2,3)
    by (cases "Middleware lib v h") (auto intro: others_none)
qed

lemma others_requests_run:
  assumes "(others_request A lib v s)\<^sup>*\<^sup>* (d, c) (d', c')" "reachable d" "uploads_ok d"
  shows "others_run A d d'"
proof -
  have "others_run A d (fst st) \<and> reachable (fst st) \<and> uploads_ok (fst st)"
    if "(others_request A lib v s)\<^sup>*\<^sup>* (d, c) st" for st
    using that
  proof (induction rule: rtranclp_induct)
    case base
    then show ?case using assms(2,3) by (simp add: others_none)
  next
    case (step x y)
    then show ?case
      using others_request_run [of A lib v s "fst x" "snd x" "fst y" "snd y"] others_run_trans [of A "fst x" "fst y" d]
      by simp
  qed
  from this [OF assms(1)] show ?thesis by simp
qed

text \<open>The reads of the interface: those whose answer is the caller's own data.\<close>

fun own_read :: "call \<Rightarrow> bool" where
  "own_read (C_GetAsset a) = True"
| "own_read (C_ListAssets l cur) = True"
| "own_read (C_GetJob j) = True"
| "own_read (C_GetGrant g) = True"
| "own_read (C_GetExport e) = True"
| "own_read (C_ResolveURL a i dev g) = (g = [])"
| "own_read _ = False"

lemma own_read_view:
  assumes "reachable d" "own_read q"
  shows "fst (dispatch s now newID cl q (tenant_view (account cl) d, c)) = fst (dispatch s now newID cl q (d, c'))"
proof -
  note o = reachable_origins [OF assms(1)]
  note v = query_view [OF o, of "account cl" "Q_GetAsset _"] query_view [OF o, of "account cl" "Q_ListAssets _ _"]
    query_view [OF o, of "account cl" "Q_GetJob _"] query_view [OF o, of "account cl" "Q_GetGrant _"]
    query_view [OF o, of "account cl" "Q_GetExport _"]
  show ?thesis using v assms(2)
    by (cases q) (simp_all add: keep_db_def handleGetAsset_def handleListAssets_def handleGetJob_def
        handleGetGrant_def handleGetExport_def handleResolveDeliveryURL_def Let_def split: option.split sum.split)
qed

text \<open>C2: Isolation at the interface: after any run of the service, no sequence of requests carrying
  other accounts' tokens (or none that verifies) changes what any read of account A's token
  answers: its assets and pages, its jobs, grants and exports with their download URLs, and the
  delivery resolution of its assets. Status codes included, so other accounts cannot even make an
  identifier of A appear or disappear.\<close>
theorem service_isolation:
  assumes "(service_step lib v s)\<^sup>*\<^sup>* (empty_db, Map.empty) (d, c)"
    "(others_request (account cl) lib v s)\<^sup>*\<^sup>* (d, c) (d', c')" "own_read q"
  shows "fst (dispatch s now newID cl q (d', c')) = fst (dispatch s now newID cl q (d, c))"
proof -
  have d: "reachable d" "uploads_ok d" using service_run_store [OF assms(1)] by simp_all
  have run: "others_run (account cl) d d'" by (rule others_requests_run [OF assms(2) d])
  then have d': "reachable d'" using others_run_reachable d(1) by blast
  have "tenant_view (account cl) d' = tenant_view (account cl) d" using others_run_view [OF run d(1)] .
  then show ?thesis using own_read_view [OF d' assms(3), of s now newID cl c] own_read_view [OF d(1) assms(3), of s now newID cl c]
    by simp
qed

section \<open>A concrete run\<close>

definition demo_lib :: "nat jwt_lib" where
  "demo_lib = \<lparr>jl_decode = \<lambda>tok. Some \<lparr>jt_alg = ''EdDSA'', jt_ed25519 = True, jt_kid = None,
       jt_account = tok, jt_scope = [''accounts:provision'', ''assets:write'', ''assets:read'']\<rparr>,
     jl_sig_ok = \<lambda>_ k. k = 7, jl_claims_ok = \<lambda>_ _ _. True\<rparr>"

definition demo_verifier :: "nat verifier" where
  "demo_verifier = \<lparr>v_pub = Some 7, v_keys = [], v_bindings = [(LegacyKeyName, \<lparr>ap_value = ''reg_'', ap_prefix = True\<rparr>)],
     v_issuer = [], v_audience = [], v_methods = [''EdDSA'']\<rparr>"

definition demo_claims :: claims where
  "demo_claims = \<lparr>cl_account = ''reg_b'', cl_scope = [''accounts:provision'', ''assets:write'', ''assets:read''],
     cl_keyName = LegacyKeyName, cl_binding = Some \<lparr>ap_value = ''reg_'', ap_prefix = True\<rparr>\<rparr>"

lemma demo_middleware: "Middleware demo_lib demo_verifier ''Bearer reg_b'' = AO_Next demo_claims"
proof -
  have "Matches \<lparr>ap_value = ''reg_'', ap_prefix = True\<rparr> ''reg_b''"
    by (simp add: Matches_def has_prefix_def ValidAccountID_def account_char_def is_alnum_def is_digit_def less_eq_char_def)
  then show ?thesis
    by (simp add: Middleware_def bearer_def demo_lib_def demo_verifier_def demo_claims_def Verify_def parse_with_claims_def
        select_key_def to_lower_def lower_char_def Let_def trim_space_def is_space_def)
qed

text \<open>The operator registers alice; a namespace issuer then provisions an account of its own.\<close>

definition demo_run0 :: server where
  "demo_run0 = (CreateAccount empty_db 0 ''alice'' [] [], Map.empty)"

definition demo_run1 :: server where
  "demo_run1 = snd (serve demo_lib demo_verifier demo_service 5 ''N1'' ''Bearer reg_b'' C_ProvisionAccount demo_run0)"

lemma demo_run1_accounts: "map cw_id (db_accounts (fst demo_run1)) = [''alice'', ''reg_b'']"
proof -
  have v: "ValidAccountID ''reg_b''"
    by (simp add: ValidAccountID_def account_char_def is_alnum_def is_digit_def less_eq_char_def)
  then show ?thesis
    by (simp add: demo_run1_def serve_def demo_middleware demo_run0_def keep_cache_def handleProvisionAccount_def
        scopeCheck_def HasScope_def demo_claims_def NamespaceIssuer_def IsPrefix_def ProvisionAccount_def Let_def
        CreateAccount_def empty_db_def table_defs has_account_def)
qed

lemma demo_run1_step: "service_step demo_lib demo_verifier demo_service demo_run0 demo_run1"
  unfolding demo_run0_def
  by (rule service_step.served [where newID = "''N1''" and now = 5 and h = "''Bearer reg_b''" and q = C_ProvisionAccount
        and resp = "fst (serve demo_lib demo_verifier demo_service 5 ''N1'' ''Bearer reg_b'' C_ProvisionAccount demo_run0)"])
     (simp_all add: demo_run1_def demo_run0_def has_asset_id_def has_row_def CreateAccount_def empty_db_def)

lemma demo_run0_step: "service_step demo_lib demo_verifier demo_service (empty_db, Map.empty) demo_run0"
  unfolding demo_run0_def by (rule service_step.operated)

lemma demo_run_split: "demo_run1 = (fst demo_run1, snd demo_run1)" by simp

lemma service_refines_store_witness:
  "map cw_id (db_accounts (fst demo_run1)) = [''alice'', ''reg_b''] \<and> reachable (fst demo_run1)"
proof -
  have "(service_step demo_lib demo_verifier demo_service)\<^sup>*\<^sup>* (empty_db, Map.empty) (fst demo_run1, snd demo_run1)"
    using demo_run0_step demo_run1_step by (simp add: converse_rtranclp_into_rtranclp r_into_rtranclp)
  from service_refines_store [OF this] show ?thesis by (simp add: demo_run1_accounts)
qed

lemma service_isolation_witness:
  "fst (dispatch demo_service 9 ''N2'' (Some (demo_claims\<lparr>cl_account := ''alice''\<rparr>)) (C_ListAssets [] []) (fst demo_run1, snd demo_run1))
   = fst (dispatch demo_service 9 ''N2'' (Some (demo_claims\<lparr>cl_account := ''alice''\<rparr>)) (C_ListAssets [] []) demo_run0)"
proof -
  have run: "(service_step demo_lib demo_verifier demo_service)\<^sup>*\<^sup>* (empty_db, Map.empty) (CreateAccount empty_db 0 ''alice'' [] [], Map.empty)"
    using demo_run0_step by (simp add: demo_run0_def r_into_rtranclp)
  have "others_request ''alice'' demo_lib demo_verifier demo_service (CreateAccount empty_db 0 ''alice'' [] [], Map.empty) demo_run1"
    by (rule others_request.others [where newID = "''N1''" and now = 5 and h = "''Bearer reg_b''" and q = C_ProvisionAccount
        and resp = "fst (serve demo_lib demo_verifier demo_service 5 ''N1'' ''Bearer reg_b'' C_ProvisionAccount demo_run0)"])
       (simp_all add: demo_run1_def demo_run0_def demo_middleware demo_claims_def has_asset_id_def has_row_def
          CreateAccount_def empty_db_def)
  then have "(others_request (account (Some (demo_claims\<lparr>cl_account := ''alice''\<rparr>))) demo_lib demo_verifier demo_service)\<^sup>*\<^sup>*
      (CreateAccount empty_db 0 ''alice'' [] [], Map.empty) (fst demo_run1, snd demo_run1)"
    by (simp add: account_def r_into_rtranclp)
  from service_isolation [OF run this] show ?thesis by (simp only: demo_run0_def own_read.simps)
qed

end
