(* ===== verification/Download_Edge.thy ===== *)
theory Download_Edge
  imports Delivery_Api Tenant
begin

text \<open>
  The download edge against the URLs the service mints: the owner's original, an export's
  original and a granted rendition. Each redirects exactly while its signature is unexpired and
  its capability still answers for it, and what deletion of the asset does to each.
\<close>

section \<open>Minted URLs\<close>

definition query_of :: "(string \<times> string) list \<Rightarrow> string" where
  "query_of q = join_char CHR ''&'' (map encode_pair q)"

definition minted_url :: "service \<Rightarrow> string \<Rightarrow> string \<Rightarrow> (string \<times> string) list \<Rightarrow> string \<Rightarrow> string \<Rightarrow> time \<Rightarrow> string" where
  "minted_url s sk key q i ctx t = sign (sv_hmac s) sk
     (ub_DownloadBase (sv_urls s) @ (''/v1/download/'' @ key) @ CHR ''?'' # query_of q) i ctx t"

text \<open>What the edge sees of a URL on its base: the query text after the first question mark.\<close>

definition raw_query :: "string \<Rightarrow> string" where
  "raw_query u = (case cut_char CHR ''?'' u of None \<Rightarrow> [] | Some (_, q) \<Rightarrow> q)"

lemma escape_words [simp]:
  "QueryEscape ''intent'' = ''intent''" "QueryEscape ''grant'' = ''grant''" "QueryEscape ''export'' = ''export''"
  by (simp_all add: QueryEscape_def escape_def escape_char_def should_escape_def url_plain_def is_alnum_def is_digit_def less_eq_char_def)

lemma owner_minted:
  "owner_original_url s sk a t =
     minted_url s sk (vo_Key (asset_Vault a)) [(''intent'', intent_str Original)] (intent_str Original) ownerOriginalSentinel t"
  by (simp add: owner_original_url_def minted_url_def query_of_def encode_pair_def)

lemma export_minted:
  "export_url s sk e i = minted_url s sk (VaultKey (ex_Account e) i)
     [(''export'', ex_Id e), (''intent'', intent_str Original)] (intent_str Original) (exportSigContext (ex_Id e)) (ex_Expires e)"
  by (simp add: export_url_def minted_url_def query_of_def encode_pair_def)

lemma granted_minted:
  "granted_download_url s sk a g i t = minted_url s sk (RenditionKey (vo_Key (asset_Vault a)) (intent_str i))
     [(''intent'', intent_str i), (''grant'', g)] (intent_str i) g t"
  by (simp add: granted_download_url_def minted_url_def query_of_def encode_pair_def)

lemma values_get_simps: "values_get [] k = []" "values_get ((k', v) # q) k = (if k = k' then v else values_get q k)"
  by (simp_all add: values_get_def)

lemma parse_query_of: "q \<noteq> [] \<Longrightarrow> parse_query (query_of q) = q"
proof -
  assume "q \<noteq> []"
  then have "split_char CHR ''&'' (query_of q) = map encode_pair q"
    unfolding query_of_def by (intro split_join) (use encode_pair_no_amp in auto)
  then show ?thesis by (simp add: parse_query_def map_filter_parse)
qed

lemma query_of_chars: "list_all query_char (query_of q)"
proof -
  have "query_char c" if "c \<in> set (query_of q)" for c
    using join_chars [OF that [unfolded query_of_def]]
    by (auto simp: query_char_def encode_pair_def dest: QueryEscape_safe)
  then show ?thesis by (simp add: list_all_iff)
qed

definition signed_pairs :: "service \<Rightarrow> string \<Rightarrow> string \<Rightarrow> (string \<times> string) list \<Rightarrow> string \<Rightarrow> string \<Rightarrow> time \<Rightarrow> (string \<times> string) list" where
  "signed_pairs s sk key q i ctx t = values_set (values_set q ''exp'' (dec (unix t))) ''sig''
     (mac (sv_hmac s) sk (''/v1/download/'' @ key) i ctx (dec (unix t)))"

lemma base_no_question: "plain_base b (sch, h) \<Longrightarrow> CHR ''?'' \<notin> set b"
proof -
  have "CHR ''?'' \<notin> set h" if "list_all host_char h"
    using that host_char_not [of "CHR ''?''"] by (auto simp: list_all_iff)
  then show "plain_base b (sch, h) \<Longrightarrow> CHR ''?'' \<notin> set b" by (auto simp: plain_base_def)
qed

lemma plain_download_path: "list_all path_char key \<Longrightarrow> plain_path (''/v1/download/'' @ key)"
  by (simp add: plain_path_def has_prefix_def path_char_def url_plain_def is_alnum_def is_digit_def less_eq_char_def)

lemma path_no_question: "list_all path_char key \<Longrightarrow> CHR ''?'' \<notin> set key"
  using path_char_not [of "CHR ''?''"] by (auto simp: list_all_iff)

lemma minted_query:
  assumes "plain_base (ub_DownloadBase (sv_urls s)) (sch, h)" "list_all path_char key" "q \<noteq> []"
  shows "minted_url s sk key q i ctx t = ub_DownloadBase (sv_urls s) @ ''/v1/download/'' @ key @ CHR ''?'' # values_encode (signed_pairs s sk key q i ctx t)"
    and "raw_query (minted_url s sk key q i ctx t) = values_encode (signed_pairs s sk key q i ctx t)"
proof -
  show m: "minted_url s sk key q i ctx t = ub_DownloadBase (sv_urls s) @ ''/v1/download/'' @ key @ CHR ''?'' # values_encode (signed_pairs s sk key q i ctx t)"
    unfolding minted_url_def signed_pairs_def
      sign_plain [OF assms(1) plain_download_path [OF assms(2)] query_of_chars] parse_query_of [OF assms(3)]
    by simp
  have "cut_char CHR ''?'' ((ub_DownloadBase (sv_urls s) @ ''/v1/download/'' @ key) @ CHR ''?'' # x)
      = Some (ub_DownloadBase (sv_urls s) @ ''/v1/download/'' @ key, x)" for x
    by (rule cut_char_append) (use base_no_question [OF assms(1)] path_no_question [OF assms(2)] in simp)
  then show "raw_query (minted_url s sk key q i ctx t) = values_encode (signed_pairs s sk key q i ctx t)"
    unfolding m raw_query_def by simp
qed

lemma minted_verifies:
  assumes "plain_base (ub_DownloadBase (sv_urls s)) (sch, h)" "list_all path_char key" "q \<noteq> []"
    "int64_range (unix t)" "\<And>k m. sv_hmac s k m \<noteq> []"
  shows "verify (sv_hmac s) sk now (ub_DownloadBase (sv_urls s) @ ''/v1/download/'' @ key @ ''?'' @ raw_query (minted_url s sk key q i ctx t)) i ctx
    = (now \<le> time_unix (unix t))"
proof -
  have "ub_DownloadBase (sv_urls s) @ ''/v1/download/'' @ key @ ''?'' @ raw_query (minted_url s sk key q i ctx t)
      = minted_url s sk key q i ctx t"
    unfolding minted_query(2) [OF assms(1-3)] by (simp add: minted_query(1) [OF assms(1-3)])
  then show ?thesis unfolding minted_url_def
    by (simp only: sign_verify [OF assms(1) plain_download_path [OF assms(2)] query_of_chars assms(4,5)]) simp
qed

lemma minted_params:
  assumes "plain_base (ub_DownloadBase (sv_urls s)) (sch, h)" "list_all path_char key" "q \<noteq> []"
    "k \<noteq> ''exp''" "k \<noteq> ''sig''"
  shows "values_get (parse_query (raw_query (minted_url s sk key q i ctx t))) k = values_get q k"
  unfolding minted_query(2) [OF assms(1-3)] parse_values_encode signed_pairs_def using assms(4,5) by simp

section \<open>The edge, exactly\<close>

text \<open>The common hypotheses: a plain download base and key text, the service signing with a non-empty
  keyed hash, and a storage that presigns.\<close>

definition edge_ready :: "service \<Rightarrow> string \<Rightarrow> string \<Rightarrow> string \<Rightarrow> bool" where
  "edge_ready s sk acct i \<longleftrightarrow> (\<exists>sch h. plain_base (ub_DownloadBase (sv_urls s)) (sch, h))
     \<and> (\<forall>k m. sv_hmac s k m \<noteq> []) \<and> sv_signer s = Some sk
     \<and> acct \<noteq> [] \<and> i \<noteq> [] \<and> list_all url_plain acct \<and> list_all url_plain i"

definition answer_of :: "service \<Rightarrow> string \<Rightarrow> bool \<Rightarrow> download" where
  "answer_of s key ok = (case sv_storage s of None \<Rightarrow> Denied | Some st \<Rightarrow>
     if ok then (case st_PresignGet st key (45 * second) of None \<Rightarrow> Denied | Some u \<Rightarrow> Redirect u) else Denied)"

lemma handleDownload_answer:
  "sv_signer s = Some sk \<Longrightarrow> fst (handleDownload s now d c key rq) = answer_of s key (fst (download_allowed s sk now d c key rq))"
  by (auto simp: handleDownload_def answer_of_def Let_def split: option.split prod.split)

lemma plain_no_slash: "list_all url_plain x \<Longrightarrow> CHR ''/'' \<notin> set x"
proof -
  have "\<not> url_plain CHR ''/''" by (simp add: url_plain_def is_alnum_def is_digit_def less_eq_char_def)
  then show "list_all url_plain x \<Longrightarrow> CHR ''/'' \<notin> set x" by (auto simp: list_all_iff)
qed

lemma plain_chars: "list_all url_plain x \<Longrightarrow> list_all path_char x"
  by (auto simp: list_all_iff path_char_def)

lemma key_text:
  assumes "edge_ready s sk acct i"
  shows "list_all path_char (VaultKey acct i)" "list_all path_char (RenditionKey (VaultKey acct i) (intent_str n))"
    "vaultKeyParts (VaultKey acct i) = Some (acct, i)" "assetIDFromRenditionKey (RenditionKey (VaultKey acct i) (intent_str n)) = i"
    "VaultKey acct i \<noteq> []" "RenditionKey (VaultKey acct i) (intent_str n) \<noteq> []"
proof -
  have p: "acct \<noteq> []" "i \<noteq> []" "list_all path_char acct" "list_all path_char i" "CHR ''/'' \<notin> set acct" "CHR ''/'' \<notin> set i"
    using assms plain_chars plain_no_slash by (auto simp: edge_ready_def)
  have n: "list_all path_char (intent_str n)" "CHR ''/'' \<notin> set (intent_str n)"
    by (cases n; simp add: path_char_def url_plain_def is_alnum_def is_digit_def less_eq_char_def)+
  show "list_all path_char (VaultKey acct i)" using p by (simp add: VaultKey_def VaultPrefix_def path_char_def url_plain_def is_alnum_def is_digit_def less_eq_char_def)
  show "vaultKeyParts (VaultKey acct i) = Some (acct, i)" using p by (simp add: key_simps)
  show "assetIDFromRenditionKey (RenditionKey (VaultKey acct i) (intent_str n)) = i"
    using p n by (intro asset_id_from_rendition_key)
  show "VaultKey acct i \<noteq> []" by (simp add: VaultKey_def VaultPrefix_def)
  show "list_all path_char (RenditionKey (VaultKey acct i) (intent_str n))" "RenditionKey (VaultKey acct i) (intent_str n) \<noteq> []"
    using p n by (simp_all add: rendition_key_of_vault_key DeliveryPrefix_def path_char_def url_plain_def is_alnum_def is_digit_def less_eq_char_def)
qed

lemma owner_edge:
  assumes "edge_ready s sk acct i" "int64_range (unix t)" "vo_Key (asset_Vault a) = VaultKey acct i"
  shows "fst (handleDownload s now d c (VaultKey acct i) (raw_query (owner_original_url s sk a t)))
    = answer_of s (VaultKey acct i) (now \<le> time_unix (unix t) \<and> live_asset d acct i)"
proof -
  obtain sch h where b: "plain_base (ub_DownloadBase (sv_urls s)) (sch, h)" and hm: "\<And>k m. sv_hmac s k m \<noteq> []"
    and sk: "sv_signer s = Some sk" using assms(1) by (auto simp: edge_ready_def)
  note k = key_text [OF assms(1)]
  let ?q = "[(''intent'', intent_str Original)]"
  have q: "?q \<noteq> []" by simp
  note v = minted_verifies [OF b k(1) q assms(2) hm, of sk now "intent_str Original" ownerOriginalSentinel]
  note p = minted_params [OF b k(1) q, of _ sk "intent_str Original" ownerOriginalSentinel t]
  have pi: "values_get (parse_query (raw_query (owner_original_url s sk a t))) ''intent'' = intent_str Original"
    "values_get (parse_query (raw_query (owner_original_url s sk a t))) ''grant'' = []"
    "values_get (parse_query (raw_query (owner_original_url s sk a t))) ''export'' = []"
    unfolding owner_minted assms(3) by (subst p; simp add: values_get_simps)+
  show ?thesis unfolding handleDownload_answer [OF sk] download_allowed_def Let_def pi
    using v k by (simp add: owner_minted assms(3))
qed

lemma export_edge:
  assumes "edge_ready s sk acct i" "int64_range (unix (ex_Expires e))" "ex_Account e = acct" "ex_Id e \<noteq> []"
  shows "fst (handleDownload s now d c (VaultKey acct i) (raw_query (export_url s sk e i)))
    = answer_of s (VaultKey acct i) (now \<le> time_unix (unix (ex_Expires e))
        \<and> Live (ResolveExportForDelivery d now (ex_Id e) i)
        \<and> vd_Account (ResolveExportForDelivery d now (ex_Id e) i) = acct \<and> live_asset d acct i)"
proof -
  obtain sch h where b: "plain_base (ub_DownloadBase (sv_urls s)) (sch, h)" and hm: "\<And>k m. sv_hmac s k m \<noteq> []"
    and sk: "sv_signer s = Some sk" using assms(1) by (auto simp: edge_ready_def)
  note k = key_text [OF assms(1)]
  let ?q = "[(''export'', ex_Id e), (''intent'', intent_str Original)]"
  have q: "?q \<noteq> []" by simp
  note v = minted_verifies [OF b k(1) q assms(2) hm, where sk = sk and now = now and i = "intent_str Original" and ctx = "exportSigContext (ex_Id e)"]
  note p = minted_params [OF b k(1) q, where sk = sk and i = "intent_str Original" and ctx = "exportSigContext (ex_Id e)" and t = "ex_Expires e"]
  have pi: "values_get (parse_query (raw_query (export_url s sk e i))) ''intent'' = intent_str Original"
    "values_get (parse_query (raw_query (export_url s sk e i))) ''grant'' = []"
    "values_get (parse_query (raw_query (export_url s sk e i))) ''export'' = ex_Id e"
    unfolding export_minted assms(3) by (subst p; simp add: values_get_simps)+
  show ?thesis unfolding handleDownload_answer [OF sk] download_allowed_def Let_def pi
    using v k assms(4) by (auto simp: export_minted assms(3))
qed

lemma granted_edge:
  assumes "edge_ready s sk acct i" "int64_range (unix t)" "vo_Key (asset_Vault a) = VaultKey acct i" "g \<noteq> []" "n \<noteq> Original"
  shows "fst (handleDownload s now d c (RenditionKey (VaultKey acct i) (intent_str n)) (raw_query (granted_download_url s sk a g n t)))
    = answer_of s (RenditionKey (VaultKey acct i) (intent_str n))
        (now \<le> time_unix (unix t) \<and> Live (fst (cache_resolve (sv_cacheTTL s) c d now g i)))"
proof -
  obtain sch h where b: "plain_base (ub_DownloadBase (sv_urls s)) (sch, h)" and hm: "\<And>k m. sv_hmac s k m \<noteq> []"
    and sk: "sv_signer s = Some sk" using assms(1) by (auto simp: edge_ready_def)
  note k = key_text(2,4,6) [OF assms(1), of n]
  let ?q = "[(''intent'', intent_str n), (''grant'', g)]"
  have q: "?q \<noteq> []" by simp
  note v = minted_verifies [OF b k(1) q assms(2) hm, where sk = sk and now = now and i = "intent_str n" and ctx = g]
  note p = minted_params [OF b k(1) q, where sk = sk and i = "intent_str n" and ctx = g and t = t]
  have pi: "values_get (parse_query (raw_query (granted_download_url s sk a g n t))) ''intent'' = intent_str n"
    "values_get (parse_query (raw_query (granted_download_url s sk a g n t))) ''grant'' = g"
    "values_get (parse_query (raw_query (granted_download_url s sk a g n t))) ''export'' = []"
    unfolding granted_minted assms(3) by (subst p; simp add: values_get_simps)+
  have n: "intent_str n \<noteq> intent_str Original" "intent_str n \<noteq> []" using assms(5) by (cases n; simp)+
  have i: "i \<noteq> []" using assms(1) by (simp add: edge_ready_def)
  show ?thesis unfolding handleDownload_answer [OF sk] download_allowed_def Let_def pi
    using v k n i assms(4) by (simp add: granted_minted assms(3) case_prod_unfold)
qed

text \<open>C24: The download edge honours the URLs the service mints, each for exactly as long as its
  capability, when the download base and the ids are plain text: up to its expiry second the
  owner's original URL redirects while the asset is there and not deleted, an export's URL while
  moreover the export is live, covers the asset and is the same account's, and a granted
  rendition's URL while the grant's verdict is live; otherwise the edge denies it, so that a revoked
  capability or a deleted original ends a URL before its expiry. After the expiry every one is
  refused.\<close>
theorem minted_url_exact:
  assumes "edge_ready s sk acct i" "vo_Key (asset_Vault a) = VaultKey acct i"
    "int64_range (unix t)" "ex_Account e = acct" "ex_Expires e = t" "ex_Id e \<noteq> []" "g \<noteq> []" "n \<noteq> Original"
  shows "fst (handleDownload s now d c (VaultKey acct i) (raw_query (owner_original_url s sk a t)))
      = answer_of s (VaultKey acct i) (now \<le> time_unix (unix t) \<and> live_asset d acct i)
    \<and> fst (handleDownload s now d c (VaultKey acct i) (raw_query (export_url s sk e i)))
      = answer_of s (VaultKey acct i) (now \<le> time_unix (unix t) \<and> live_asset d acct i
          \<and> Live (ResolveExportForDelivery d now (ex_Id e) i) \<and> vd_Account (ResolveExportForDelivery d now (ex_Id e) i) = acct)
    \<and> fst (handleDownload s now d c (RenditionKey (VaultKey acct i) (intent_str n)) (raw_query (granted_download_url s sk a g n t)))
      = answer_of s (RenditionKey (VaultKey acct i) (intent_str n))
          (now \<le> time_unix (unix t) \<and> Live (fst (cache_resolve (sv_cacheTTL s) c d now g i)))"
proof (intro conjI)
  show "fst (handleDownload s now d c (VaultKey acct i) (raw_query (export_url s sk e i)))
      = answer_of s (VaultKey acct i) (now \<le> time_unix (unix t) \<and> live_asset d acct i
          \<and> Live (ResolveExportForDelivery d now (ex_Id e) i) \<and> vd_Account (ResolveExportForDelivery d now (ex_Id e) i) = acct)"
    using export_edge [OF assms(1), of e now d c] assms(3-6) by (simp add: conj_ac)
qed (use owner_edge granted_edge assms in \<open>simp_all only:\<close>)

definition demo_storage :: storage where
  "demo_storage = \<lparr>st_PresignGet = \<lambda>key ttl. Some (''https://s3/'' @ key), st_PresignPut = \<lambda>key ct n ttl. None,
     st_Head = \<lambda>key. None, st_ProbeImage = \<lambda>key. None\<rparr>"

definition demo_edge :: service where
  "demo_edge = demo_service\<lparr>sv_storage := Some demo_storage\<rparr>"

lemma demo_edge_ready: "edge_ready demo_edge ''k'' ''alice'' ''A1''"
proof -
  have "plain_base (ub_DownloadBase (sv_urls demo_edge)) (''https'', ''p.io'')"
    by (simp add: demo_edge_def demo_service_def plain_base_def host_char_def url_plain_def is_alnum_def is_digit_def
        less_eq_char_def valid_port_def)
  then have "\<exists>sch h. plain_base (ub_DownloadBase (sv_urls demo_edge)) (sch, h)" by blast
  then show ?thesis
    by (simp add: edge_ready_def demo_edge_def demo_service_def toy_hmac_def url_plain_def is_alnum_def is_digit_def less_eq_char_def)
qed

lemma demo_edge_answer: "answer_of demo_edge key True = Redirect (''https://s3/'' @ key)"
  by (simp add: answer_of_def demo_edge_def demo_storage_def)

definition demo_export :: export where
  "demo_export = \<lparr>ex_Account = ''alice'', ex_Assets = [''A1''], ex_Created = 1, ex_Downloads = None,
     ex_Expires = 5000000000, ex_GoneAssets = None, ex_Id = ''X1'', ex_Note = None, ex_RevokedAt = None\<rparr>"

lemma demo_live: "live_asset demo_db ''alice'' ''A1''"
  by (simp add: live_asset_def GetAsset_def scanAsset_def demo_db_eval table_defs asset_is_def demo_asset_def Let_def scanAssetRow_def)

lemma minted_url_exact_witness:
  "fst (handleDownload demo_edge 4000000000 demo_db Map.empty (VaultKey ''alice'' ''A1'')
      (raw_query (owner_original_url demo_edge ''k'' (demo_media Image []) 5000000000)))
    = Redirect (''https://s3/'' @ VaultKey ''alice'' ''A1'')"
proof -
  have k: "vo_Key (asset_Vault (demo_media Image [])) = VaultKey ''alice'' ''A1''" by (simp add: demo_media_def)
  have "fst (handleDownload demo_edge 4000000000 demo_db Map.empty (VaultKey ''alice'' ''A1'')
      (raw_query (owner_original_url demo_edge ''k'' (demo_media Image []) 5000000000)))
    = answer_of demo_edge (VaultKey ''alice'' ''A1'') ((4000000000 :: time) \<le> time_unix (unix 5000000000) \<and> live_asset demo_db ''alice'' ''A1'')"
    using minted_url_exact [OF demo_edge_ready k, of 5000000000 demo_export "''G1''" Loop 4000000000 demo_db Map.empty]
    by (simp add: demo_export_def int64_range_def unix_def)
  then show ?thesis by (simp add: demo_live time_unix_def unix_def demo_edge_answer)
qed

section \<open>Deletion\<close>

lemma deleted_row:
  assumes "AssetOwnedBy d A i"
  shows "\<exists>a. GetAsset (run_request del A (R_MarkAssetDeleted i) d) A i = Inr a \<and> asset_DeletedAt a \<noteq> None"
proof -
  obtain r where r: "get_row (asset_is A i) (db_assets d) = Some r" using assms by (auto simp: owned_row)
  let ?d = "d\<lparr>db_assets := update_where (asset_is A i) (set_deleted del) (db_assets d)\<rparr>"
  have g: "get_row (asset_is A i) (db_assets ?d) = Some (set_deleted del r)"
    using r by (simp add: get_row_update_where asset_is_def set_deleted_def)
  then have "run_request del A (R_MarkAssetDeleted i) d = ?d"
    by (simp add: MarkAssetDeleted_def commit_def scanAsset_def Let_def)
  then show ?thesis using g
    by (simp add: GetAsset_def scanAsset_def Let_def scanAssetRow_def set_deleted_def split: option.split)
qed

lemma delete_keeps_grants: "db_grants (run_request del A (R_MarkAssetDeleted i) d) = db_grants d"
  by (auto simp: MarkAssetDeleted_def commit_def Let_def split: sum.split)

text \<open>C38: Deleting an asset does not reach the granted download URLs already issued: the owner's URL is
  refused at once and the URL endpoint answers deleted to the grant's holder, but a granted URL
  handed out before keeps redirecting to the rendition until it expires, since that branch of the
  edge asks the grant alone.\<close>
theorem deletion_misses_grants:
  assumes "edge_ready s sk acct i" "vo_Key (asset_Vault a) = VaultKey acct i" "int64_range (unix t)"
    and "g \<noteq> []" "n \<noteq> Original" "now \<le> time_unix (unix t)" "AssetOwnedBy d acct i"
    and "Live (ResolveGrantForDelivery d now g i)" "vd_Account (ResolveGrantForDelivery d now g i) = acct"
    and d'_def: "d' = run_request del acct (R_MarkAssetDeleted i) d"
  shows "fst (handleDownload s now d' Map.empty (VaultKey acct i) (raw_query (owner_original_url s sk a t))) = Denied
    \<and> fst (resolveGranted s now d' Map.empty g i n device) = (200, B_Resolution (refusal n (Some RC_Deleted)))
    \<and> fst (handleDownload s now d' Map.empty (RenditionKey (VaultKey acct i) (intent_str n))
          (raw_query (granted_download_url s sk a g n t)))
      = answer_of s (RenditionKey (VaultKey acct i) (intent_str n)) True"
proof -
  obtain b where b: "GetAsset d' acct i = Inr b" "asset_DeletedAt b \<noteq> None"
    using deleted_row [OF assms(7)] unfolding d'_def by blast
  have v: "ResolveGrantForDelivery d' now g i = ResolveGrantForDelivery d now g i"
    by (simp only: ResolveGrantForDelivery_def d'_def delete_keeps_grants)
  have "\<not> live_asset d' acct i" using b by (simp add: live_asset_def)
  moreover have "cache_resolve (sv_cacheTTL s) Map.empty d' now g i
      = (ResolveGrantForDelivery d now g i, [cache_key g i \<mapsto> (ResolveGrantForDelivery d now g i, now + sv_cacheTTL s)])"
    by (simp add: cache_resolve_def v Let_def)
  ultimately show ?thesis
    unfolding owner_edge [OF assms(1,3,2)] granted_edge [OF assms(1,3,2,4,5)]
    using b assms(5,6,8,9)
    by (simp add: answer_of_def resolveGranted_def resolveNonOriginal_def refusal_def split: option.split)
qed

definition demo_shared :: db where
  "demo_shared = demo_db\<lparr>db_grants := [\<lparr>gw_id = ''G1'', gw_account = ''alice'', gw_assets = [''A1''],
     gw_recipient = None, gw_created = 1, gw_expires = 9000000000, gw_revoked = None\<rparr>]\<rparr>"

lemma deletion_misses_grants_witness:
  "fst (handleDownload demo_edge 4000000000 (run_request 3000000000 ''alice'' (R_MarkAssetDeleted ''A1'') demo_shared) Map.empty
      (RenditionKey (VaultKey ''alice'' ''A1'') ''loop'')
      (raw_query (granted_download_url demo_edge ''k'' (demo_media Video []) ''G1'' Loop 5000000000)))
    = Redirect (''https://s3/'' @ RenditionKey (VaultKey ''alice'' ''A1'') ''loop'')"
proof -
  have k: "vo_Key (asset_Vault (demo_media Video [])) = VaultKey ''alice'' ''A1''" by (simp add: demo_media_def)
  have t: "int64_range (unix 5000000000)" "(4000000000 :: time) \<le> time_unix (unix 5000000000)"
    by (simp_all add: int64_range_def unix_def time_unix_def)
  have g: "''G1'' \<noteq> []" "Loop \<noteq> Original" by simp_all
  have d: "AssetOwnedBy demo_shared ''alice'' ''A1''" "Live (ResolveGrantForDelivery demo_shared 4000000000 ''G1'' ''A1'')"
    "vd_Account (ResolveGrantForDelivery demo_shared 4000000000 ''G1'' ''A1'') = ''alice''"
    by (simp_all add: demo_shared_def AssetOwnedBy_def demo_db_eval table_defs asset_is_def demo_asset_def
        ResolveGrantForDelivery_def Live_def)
  show ?thesis
    using deletion_misses_grants [OF demo_edge_ready k t(1) g t(2) d refl] by (simp add: demo_edge_answer)
qed

end
