(* ===== verification/Worker.thy ===== *)
theory Worker
  imports Store_Machine Mediaspec
begin

text \<open>
  The worker (internal/worker/worker.go, transcode.go): one claimed job end to end. The bytes of
  the object store are explicit, a map from keys to contents; ffmpeg, ffprobe, the hash and the
  availability of each storage call are parameters. A job is run here without interleaving; every
  store call in it is one of the worker operations of the store machine, where all interleavings
  are covered.
\<close>

type_synonym objects = "string \<Rightarrow> string option"

record probe_result =
  pr_Kind :: media_kind
  pr_Width :: int
  pr_Height :: int
  pr_DurationS :: float64
  pr_Codec :: string
  pr_Container :: string
  pr_AudioCodec :: string
  pr_BitrateBPS :: int

text \<open>
  What runs outside: the scratch directory, the storage calls that are answered, the two probes
  and ffmpeg on file contents, SHA-256 in hexadecimal, and the text of a failing call's error.
\<close>

record outside =
  io_work :: "string option"
  io_get :: "string \<Rightarrow> bool"
  io_put :: "string \<Rightarrow> bool"
  io_delete :: "string \<Rightarrow> bool"
  io_probe_av :: "string \<Rightarrow> probe_result option"
  io_probe_image :: "string \<Rightarrow> (int \<times> int) option"
  io_ffmpeg :: "string list \<Rightarrow> string \<Rightarrow> string option"
  io_sha256 :: "string \<Rightarrow> string"
  io_error :: string

section \<open>Configuration\<close>

record worker =
  wk_scratchDir :: string
  wk_leaseTTL :: int
  wk_pollEvery :: int
  wk_maxAttempts :: int
  wk_detailMaxDurationS :: float64
  wk_preset :: string

definition minute :: int where "minute = 60 * 1000000000"

definition new_worker :: "string \<Rightarrow> worker \<Rightarrow> worker" where
  "new_worker tempDir cfg = cfg
     \<lparr>wk_scratchDir := (if wk_scratchDir cfg = [] then tempDir else wk_scratchDir cfg),
      wk_leaseTTL := (if wk_leaseTTL cfg \<le> 0 then 15 * minute else wk_leaseTTL cfg),
      wk_pollEvery := (if wk_pollEvery cfg \<le> 0 then 2 * 1000000000 else wk_pollEvery cfg),
      wk_maxAttempts := (if wk_maxAttempts cfg \<le> 0 then 3 else wk_maxAttempts cfg),
      wk_detailMaxDurationS := (if wk_detailMaxDurationS cfg \<le> 0 then 720 else wk_detailMaxDurationS cfg)\<rparr>"

section \<open>Helpers\<close>

definition ptrInt32 :: "int \<Rightarrow> int option" where
  "ptrInt32 n = (if n \<le> 0 then None else Some (wrap32 n))"

text \<open>The zero kind and size of the record are not read by the backfill; the probe's kind stands for it.\<close>

definition vaultRecordFromProbe :: "probe_result \<Rightarrow> vault_record" where
  "vaultRecordFromProbe pr =
     \<lparr>vr_Kind = pr_Kind pr, vr_Checksum = [], vr_SizeBytes = 0,
      vr_Width = (if pr_Width pr > 0 then Some (wrap32 (pr_Width pr)) else None),
      vr_Height = (if pr_Height pr > 0 then Some (wrap32 (pr_Height pr)) else None),
      vr_DurationS = (if pr_DurationS pr > 0 then Some (pr_DurationS pr) else None),
      vr_Codec = (if pr_Codec pr \<noteq> [] then Some (pr_Codec pr) else None),
      vr_Container = (if pr_Container pr \<noteq> [] then Some (pr_Container pr) else None),
      vr_ProbeStatus = [], vr_ChecksumVerified = False\<rparr>"

definition outputExt :: "intent \<Rightarrow> string" where
  "outputExt i = (if i = Poster then ''.jpg'' else ''.mp4'')"

definition contentType :: "intent \<Rightarrow> string" where
  "contentType i = (if i = Poster then ''image/jpeg'' else ''video/mp4'')"

definition renditionKey :: "string \<Rightarrow> intent \<Rightarrow> string" where
  "renditionKey vaultKey i = RenditionKey vaultKey (intent_str i)"

definition isH264 :: "string \<Rightarrow> bool" where "isH264 codec = (codec = ''h264'')"
definition isAAC :: "string \<Rightarrow> bool" where "isAAC codec = (codec = ''aac'')"
definition longEdge :: "int \<Rightarrow> int \<Rightarrow> int" where "longEdge w h = (if w > h then w else h)"

definition fetch :: "outside \<Rightarrow> objects \<Rightarrow> string \<Rightarrow> string option" where
  "fetch io obs key = (if io_get io key then obs key else None)"

section \<open>Transcoding\<close>

definition posterArgs :: "string \<Rightarrow> string \<Rightarrow> string list" where
  "posterArgs src dst = [''-hide_banner'', ''-y'', ''-i'', src, ''-frames:v'', ''1'', ''-q:v'', ''3'', dst]"

definition transcode_args :: "string \<Rightarrow> intent \<Rightarrow> string \<Rightarrow> string \<Rightarrow> string list option" where
  "transcode_args preset i src dst =
     (case i of
        Detail \<Rightarrow> Some (DetailArgs src dst preset)
      | Loop \<Rightarrow> Some (LoopArgs src dst preset)
      | Poster \<Rightarrow> Some (posterArgs src dst)
      | _ \<Rightarrow> None)"

definition Transcode :: "outside \<Rightarrow> string \<Rightarrow> intent \<Rightarrow> string \<Rightarrow> string \<Rightarrow> string \<Rightarrow> string option" where
  "Transcode io preset i src dst bytes =
     (case transcode_args preset i src dst of None \<Rightarrow> None | Some args \<Rightarrow> io_ffmpeg io args bytes)"

definition remux :: "outside \<Rightarrow> string \<Rightarrow> string \<Rightarrow> string \<Rightarrow> string option" where
  "remux io src dst bytes = io_ffmpeg io (RemuxCopyArgs src dst) bytes"

section \<open>Authored ceilings\<close>

definition authoredDetailMaxWidth :: int where "authoredDetailMaxWidth = 1920"
definition authoredDetailMaxHeight :: int where "authoredDetailMaxHeight = 1080"
definition authoredLoopMaxEdge :: int where "authoredLoopMaxEdge = 1920"
definition authoredLoopMaxDuration :: float64 where "authoredLoopMaxDuration = 30"
definition authoredDetailMaxBPS :: int where "authoredDetailMaxBPS = 8 * 1000000"
definition authoredLoopMaxBPS :: int where "authoredLoopMaxBPS = 2 * 1000000"
definition authoredMaxBytes :: int where "authoredMaxBytes = 2 * 1024 * 1024 * 1024"

text \<open>\<open>int64(f)\<close>: truncation; out of range it is the least integer, as on amd64.\<close>

definition int64_of :: "float64 \<Rightarrow> int" where
  "int64_of x = (if - (2 ^ 63) \<le> int_of x \<and> int_of x < 2 ^ 63 then int_of x else - (2 ^ 63))"

definition estBytes :: "probe_result \<Rightarrow> int" where
  "estBytes pr = int64_of (fmul (fdiv (float_of (pr_BitrateBPS pr)) 8) (pr_DurationS pr))"

text \<open>The reason of the first ceiling broken, nothing when the file passes.\<close>

definition authoredCeilingBreach :: "intent \<Rightarrow> probe_result \<Rightarrow> reason_code option" where
  "authoredCeilingBreach i pr =
     (if pr_BitrateBPS pr > 0 \<and> pr_DurationS pr > 0 \<and> estBytes pr > authoredMaxBytes
      then Some RC_AuthoredTooLarge
      else case i of
        Detail \<Rightarrow>
          if \<not> isH264 (pr_Codec pr) then Some RC_AuthoredCodecUnsupported
          else if pr_AudioCodec pr \<noteq> [] \<and> \<not> isAAC (pr_AudioCodec pr) then Some RC_AuthoredCodecUnsupported
          else if pr_Width pr > authoredDetailMaxWidth \<or> pr_Height pr > authoredDetailMaxHeight
          then Some RC_AuthoredResolutionExceeded
          else if pr_BitrateBPS pr > authoredDetailMaxBPS then Some RC_AuthoredBitrateExceeded
          else None
      | Loop \<Rightarrow>
          if \<not> isH264 (pr_Codec pr) then Some RC_AuthoredCodecUnsupported
          else if longEdge (pr_Width pr) (pr_Height pr) > authoredLoopMaxEdge then Some RC_AuthoredResolutionExceeded
          else if pr_DurationS pr > authoredLoopMaxDuration then Some RC_AuthoredLoopTooLong
          else if pr_BitrateBPS pr > authoredLoopMaxBPS then Some RC_AuthoredBitrateExceeded
          else None
      | Poster \<Rightarrow>
          if pr_Width pr > authoredDetailMaxWidth \<or> pr_Height pr > authoredDetailMaxHeight
          then Some RC_AuthoredResolutionExceeded
          else None
      | _ \<Rightarrow> None)"

section \<open>One job\<close>

definition recordChecksum :: "db \<Rightarrow> string \<Rightarrow> string \<Rightarrow> int \<Rightarrow> int \<Rightarrow> db" where
  "recordChecksum d assetID s n recorded =
     (if n \<noteq> recorded then d else case MarkChecksumVerified d assetID s of Inl _ \<Rightarrow> d | Inr (d', _) \<Rightarrow> d')"

definition probeRendition :: "outside \<Rightarrow> intent \<Rightarrow> string \<Rightarrow> rendition_record option" where
  "probeRendition io i bytes =
     (if i = Poster then
        (case io_probe_image io bytes of
           None \<Rightarrow> None
         | Some (w, h) \<Rightarrow> Some \<lparr>rc_Key = [], rc_Mode = [], rc_Width = ptrInt32 w, rc_Height = ptrInt32 h,
             rc_DurationS = None, rc_HasAudio = None\<rparr>)
      else
        (case io_probe_av io bytes of
           None \<Rightarrow> None
         | Some pr \<Rightarrow> Some \<lparr>rc_Key = [], rc_Mode = [], rc_Width = ptrInt32 (pr_Width pr), rc_Height = ptrInt32 (pr_Height pr),
             rc_DurationS = (if pr_DurationS pr > 0 then Some (pr_DurationS pr) else None),
             rc_HasAudio = Some (i = Detail)\<rparr>))"

text \<open>A result is the error that fails the job, if any, with the objects and the database reached.\<close>

type_synonym outcome = "string option \<times> objects \<times> db"

definition refuse :: "objects \<Rightarrow> db \<Rightarrow> time \<Rightarrow> claimed_job \<Rightarrow> reason_code \<Rightarrow> string \<Rightarrow> outcome" where
  "refuse obs d now job reason err =
     (case FailedRenditionForCeiling d (cj_Asset job) (cj_Intent job) reason of
        Inl _ \<Rightarrow> (Some err, obs, d)
      | Inr (d', _) \<Rightarrow> (None, obs, CompleteJobNoRendition d' now (cj_ID job)))"

definition complete :: "outside \<Rightarrow> objects \<Rightarrow> db \<Rightarrow> time \<Rightarrow> claimed_job \<Rightarrow> rendition_record \<Rightarrow> outcome" where
  "complete io obs d now job rec =
     (case CompleteJob d now (cj_ID job) rec of
        Inl _ \<Rightarrow> (Some (io_error io), obs, d) | Inr (d', _) \<Rightarrow> (None, obs, d'))"

definition processRemux :: "outside \<Rightarrow> time \<Rightarrow> claimed_job \<Rightarrow> string \<Rightarrow> string \<Rightarrow> objects \<Rightarrow> db \<Rightarrow> outcome" where
  "processRemux io now job srcPath dstPath obs d =
     (if cj_SourceKey job = [] then (Some (''remux job '' @ cj_ID job @ '' has no source_key''), obs, d)
      else case fetch io obs (cj_SourceKey job) of
        None \<Rightarrow> (Some (''pull authored file: '' @ io_error io), obs, d)
      | Some bytes \<Rightarrow>
      (case io_probe_av io bytes of
        None \<Rightarrow> refuse obs d now job RC_AuthoredCodecUnsupported (''write authored-refusal rendition: '' @ io_error io)
      | Some pr \<Rightarrow>
      (case authoredCeilingBreach (cj_Intent job) pr of
        Some reason \<Rightarrow> refuse obs d now job reason (''write authored-refusal rendition: '' @ io_error io)
      | None \<Rightarrow>
      (case remux io srcPath dstPath bytes of
        None \<Rightarrow> (Some (''remux authored file: '' @ io_error io), obs, d)
      | Some out \<Rightarrow>
          let rendKey = renditionKey (cj_VaultKey job) (cj_Intent job) in
          if \<not> io_put io rendKey then (Some (''put authored rendition: '' @ io_error io), obs, d)
          else complete io (obs(rendKey \<mapsto> out)) d now job
            \<lparr>rc_Key = rendKey, rc_Mode = mode_str Public,
             rc_Width = (if pr_Width pr > 0 then ptrInt32 (pr_Width pr) else None),
             rc_Height = (if pr_Height pr > 0 then ptrInt32 (pr_Height pr) else None),
             rc_DurationS = (if pr_DurationS pr > 0 then Some (pr_DurationS pr) else None),
             rc_HasAudio = Some (pr_AudioCodec pr \<noteq> [])\<rparr>))))"

definition process :: "outside \<Rightarrow> worker \<Rightarrow> time \<Rightarrow> claimed_job \<Rightarrow> objects \<Rightarrow> db \<Rightarrow> outcome" where
  "process io w now job obs d =
     (case io_work io of
        None \<Rightarrow> (Some (''scratch dir: '' @ io_error io), obs, d)
      | Some work \<Rightarrow>
      let srcPath = work @ ''/source''; dstPath = work @ ''/rendition'' @ outputExt (cj_Intent job) in
      if cj_Mode job = Remux then processRemux io now job srcPath dstPath obs d
      else case fetch io obs (cj_VaultKey job) of
        None \<Rightarrow> (Some (''pull vault original: '' @ io_error io), obs, d)
      | Some bytes \<Rightarrow>
      let d1 = recordChecksum d (cj_Asset job) (ChecksumPrefix @ io_sha256 io bytes) (int (length bytes)) (cj_VaultSize job) in
      (case io_probe_av io bytes of
        None \<Rightarrow> (Some (''probe source: '' @ io_error io), obs, MarkProbeFailed d1 (cj_Asset job))
      | Some srcProbe \<Rightarrow>
      let d2 = BackfillVaultProbe d1 (cj_Asset job) (vaultRecordFromProbe srcProbe) in
      if cj_Intent job = Detail \<and> wk_detailMaxDurationS w > 0 \<and> pr_DurationS srcProbe > wk_detailMaxDurationS w
      then refuse obs d2 now job RC_ExceededDurationCeiling (''write ceiling-refusal rendition: '' @ io_error io)
      else
      (case Transcode io (wk_preset w) (cj_Intent job) srcPath dstPath bytes of
        None \<Rightarrow> (Some (io_error io), obs, d2)
      | Some out \<Rightarrow>
      (case probeRendition io (cj_Intent job) out of
        None \<Rightarrow> (Some (''probe rendition: '' @ io_error io), obs, d2)
      | Some rend \<Rightarrow>
          let rendKey = renditionKey (cj_VaultKey job) (cj_Intent job) in
          if \<not> io_put io rendKey then (Some (''put rendition: '' @ io_error io), obs, d2)
          else complete io (obs(rendKey \<mapsto> out)) d2 now job (rend\<lparr>rc_Key := rendKey, rc_Mode := mode_str Public\<rparr>)))))"

definition runOne :: "outside \<Rightarrow> worker \<Rightarrow> time \<Rightarrow> claimed_job \<Rightarrow> objects \<Rightarrow> db \<Rightarrow> objects \<times> db" where
  "runOne io w now job obs d =
     (case process io w now job obs d of
        (None, obs', d') \<Rightarrow> (obs', d')
      | (Some err, obs', d') \<Rightarrow>
          (obs', case FailJob d' now (cj_ID job) (wk_maxAttempts w) RC_Failed err of Inl _ \<Rightarrow> d' | Inr (d'', _) \<Rightarrow> d''))"

text \<open>One turn of the loop: a job claimed and run, or a sleep; \<open>RunOnceForTest\<close> is the same without it.\<close>

definition run_turn :: "outside \<Rightarrow> worker \<Rightarrow> time \<Rightarrow> time \<Rightarrow> objects \<Rightarrow> db \<Rightarrow> (store_error option) \<times> objects \<times> db" where
  "run_turn io w t now obs d =
     (case ClaimNextJob d t (wk_leaseTTL w) of
        (d', Inl e) \<Rightarrow> (Some e, obs, d')
      | (d', Inr job) \<Rightarrow> (let (obs', d'') = runOne io w now job obs d' in (None, obs', d'')))"

end
