(* ===== verification/Sweeps.thy ===== *)
theory Sweeps
  imports Worker
begin

text \<open>
  The worker's housekeeping (internal/worker/reconcile.go, heartbeat.go, checksum.go): the sweep of
  orphaned uploads, the second step of the two-step delete, the heart beats, and the pass that
  hashes vault objects. A pass is a loop with a counter and fuel: \<open>None\<close> is a pass still running.
\<close>

section \<open>Reconciliation\<close>

record reconciler =
  rn_grace :: int
  rn_batchSize :: int

definition NewReconciler :: "int \<Rightarrow> int \<Rightarrow> reconciler" where
  "NewReconciler grace batchSize =
     \<lparr>rn_grace = (if grace = 0 then 6 * 60 * minute else grace),
      rn_batchSize = (if batchSize \<le> 0 then 100 else batchSize)\<rparr>"

fun sweep_uploads :: "outside \<Rightarrow> time \<Rightarrow> upload list \<Rightarrow> nat \<Rightarrow> objects \<Rightarrow> db \<Rightarrow> nat \<times> objects \<times> db" where
  "sweep_uploads io now [] cleaned obs d = (cleaned, obs, d)"
| "sweep_uploads io now (u # us) cleaned obs d =
     (if \<not> io_delete io (u_Key u) then sweep_uploads io now us cleaned obs d
      else sweep_uploads io now us (Suc cleaned) (obs(u_Key u := None)) (MarkUploadSwept d now (u_ID u)))"

definition SweepOnce :: "outside \<Rightarrow> reconciler \<Rightarrow> time \<Rightarrow> objects \<Rightarrow> db \<Rightarrow> nat \<times> objects \<times> db" where
  "SweepOnce io r now obs d = sweep_uploads io now (ReclaimableUploads d (now - rn_grace r) (rn_batchSize r)) 0 obs d"

fun sweep_deleted :: "outside \<Rightarrow> deleted_asset list \<Rightarrow> nat \<Rightarrow> objects \<Rightarrow> db \<Rightarrow> nat \<times> objects \<times> db" where
  "sweep_deleted io [] purged obs d = (purged, obs, d)"
| "sweep_deleted io (a # as) purged obs d =
     (if \<not> io_delete io (da_VaultKey a) then sweep_deleted io as purged obs d
      else sweep_deleted io as (Suc purged) (obs(da_VaultKey a := None)) (PurgeDeletedAsset d (da_ID a)))"

definition SweepDeletedAssets :: "outside \<Rightarrow> reconciler \<Rightarrow> time \<Rightarrow> objects \<Rightarrow> db \<Rightarrow> nat \<times> objects \<times> db" where
  "SweepDeletedAssets io r now obs d =
     sweep_deleted io (ReclaimableDeletedAssets d (now - rn_grace r) (rn_batchSize r)) 0 obs d"

text \<open>Both loops are one pass over reclaimed rows: each object is deleted and its row marked, and an
  object whose deletion fails is left for the next pass.\<close>

locale sweep_pass =
  fixes pass :: "outside \<Rightarrow> 'r list \<Rightarrow> nat \<Rightarrow> objects \<Rightarrow> db \<Rightarrow> nat \<times> objects \<times> db"
    and key :: "'r \<Rightarrow> string"
    and mark :: "'r \<Rightarrow> db \<Rightarrow> db"
  assumes pass_nil: "pass io [] n obs d = (n, obs, d)"
    and pass_cons: "pass io (r # rs) n obs d =
      (if \<not> io_delete io (key r) then pass io rs n obs d else pass io rs (Suc n) (obs(key r := None)) (mark r d))"
begin

lemma keeps:
  assumes "pass io rs n obs d = (m, obs', d')" "Q obs d"
    "\<And>r obs d. r \<in> set rs \<Longrightarrow> Q obs d \<Longrightarrow> Q (obs(key r := None)) (mark r d)"
  shows "Q obs' d'"
  using assms
proof (induction rs arbitrary: n obs d)
  case Nil then show ?case by (simp add: pass_nil)
next
  case (Cons r rs)
  show ?case
  proof (cases "io_delete io (key r)")
    case True
    then have run: "pass io rs (Suc n) (obs(key r := None)) (mark r d) = (m, obs', d')" using Cons.prems(1) by (simp add: pass_cons)
    have q: "Q (obs(key r := None)) (mark r d)" by (rule Cons.prems(3)) (simp_all add: Cons.prems(2))
    show ?thesis by (rule Cons.IH [OF run q], rule Cons.prems(3)) simp_all
  next
    case False
    then have run: "pass io rs n obs d = (m, obs', d')" using Cons.prems(1) by (simp add: pass_cons)
    show ?thesis by (rule Cons.IH [OF run Cons.prems(2)], rule Cons.prems(3)) simp_all
  qed
qed

lemma other: "pass io rs n obs d = (m, obs', d') \<Longrightarrow> k \<notin> key ` set rs \<Longrightarrow> obs' k = obs k"
  by (erule keeps [where Q = "\<lambda>obs' d. obs' k = obs k"]) auto

lemma rows:
  "pass io rs n obs d = (m, obs', d') \<Longrightarrow> P d \<Longrightarrow> (\<And>r d. r \<in> set rs \<Longrightarrow> P d \<Longrightarrow> P (mark r d)) \<Longrightarrow> P d'"
  by (erule keeps [where Q = "\<lambda>obs d. P d"]) auto

lemma stays_gone: "pass io rs n obs d = (m, obs', d') \<Longrightarrow> obs k = None \<Longrightarrow> obs' k = None"
  by (erule keeps [where Q = "\<lambda>obs d. obs k = None"]) auto

lemma deletes: "pass io rs n obs d = (m, obs', d') \<Longrightarrow> k \<in> key ` set rs \<Longrightarrow> io_delete io k \<Longrightarrow> obs' k = None"
proof (induction rs arbitrary: n obs d)
  case (Cons r rs)
  show ?case
  proof (cases "key r = k")
    case True
    then have "pass io rs (Suc n) (obs(k := None)) (mark r d) = (m, obs', d')" using Cons.prems by (simp add: pass_cons)
    then show ?thesis by (rule stays_gone) simp
  next
    case False
    then have k: "k \<in> key ` set rs" using Cons.prems(2) by auto
    show ?thesis using Cons.prems(1) Cons.IH [OF _ k Cons.prems(3)] by (simp add: pass_cons split: if_splits)
  qed
qed simp

end

interpretation upload_sweep: sweep_pass "\<lambda>io. sweep_uploads io now" u_Key "\<lambda>u d. MarkUploadSwept d now (u_ID u)" for now
  by unfold_locales auto

interpretation deleted_sweep: sweep_pass sweep_deleted da_VaultKey "\<lambda>a d. PurgeDeletedAsset d (da_ID a)"
  by unfold_locales auto

text \<open>Both passes; the third component is the time the sweep is reported as completed.\<close>

definition sweepBoth :: "outside \<Rightarrow> reconciler \<Rightarrow> time \<Rightarrow> objects \<Rightarrow> db \<Rightarrow> objects \<times> db \<times> time" where
  "sweepBoth io r now obs d =
     (let (n, obs1, d1) = SweepOnce io r now obs d;
          (m, obs2, d2) = SweepDeletedAssets io r now obs1 d1
      in (obs2, d2, now))"

section \<open>Heart beats\<close>

text \<open>One beat of the job's lease, and one of the worker.\<close>

definition lease_beat :: "time \<Rightarrow> string \<Rightarrow> db \<Rightarrow> db" where
  "lease_beat now jobID d = Heartbeat d now jobID (1/2)"

definition worker_beat :: "time \<Rightarrow> string \<Rightarrow> string \<Rightarrow> time option \<Rightarrow> db \<Rightarrow> db" where
  "worker_beat now workerID version lastSweep d = UpsertWorkerHeartbeat d now workerID version lastSweep"

definition beat_every :: "int \<Rightarrow> int" where
  "beat_every every = (if every \<le> 0 then 30 * 1000000000 else every)"

section \<open>The checksum pass\<close>

record checksummer =
  ck_rate :: int
  ck_retryAfter :: int
  ck_perObject :: int

definition DefaultChecksumRate :: int where "DefaultChecksumRate = 16 * 2 ^ 20"

definition NewChecksummer :: "checksummer \<Rightarrow> checksummer" where
  "NewChecksummer cfg =
     \<lparr>ck_rate = (if ck_rate cfg = 0 then DefaultChecksumRate else ck_rate cfg),
      ck_retryAfter = (if ck_retryAfter cfg \<le> 0 then 6 * 60 * minute else ck_retryAfter cfg),
      ck_perObject = (if ck_perObject cfg \<le> 0 then 60 * minute else ck_perObject cfg)\<rparr>"

record pass_result =
  ps_Hashed :: int
  ps_Failed :: int
  ps_Mismatched :: int
  ps_Bytes :: int

datatype pass_end = PassDone | PassInterrupted | PassError store_error

text \<open>
  What a pass meets in its k-th turn: whether the context has ended at the head of the loop or by
  the end of a failed read, the worker's clock and the database's, and how many bytes a broken
  read yields before it fails.
\<close>

record pass_env =
  pe_done :: "nat \<Rightarrow> bool"
  pe_interrupted :: "nat \<Rightarrow> bool"
  pe_clock :: "nat \<Rightarrow> time"
  pe_dbclock :: "nat \<Rightarrow> time"
  pe_broken :: "nat \<Rightarrow> int option"

definition hash_object :: "outside \<Rightarrow> pass_env \<Rightarrow> objects \<Rightarrow> nat \<Rightarrow> string \<Rightarrow> string option \<times> int" where
  "hash_object io e obs k key =
     (case fetch io obs key of
        None \<Rightarrow> (None, 0)
      | Some bytes \<Rightarrow>
          (case pe_broken e k of
             Some n \<Rightarrow> (None, n)
           | None \<Rightarrow> (Some (ChecksumPrefix @ io_sha256 io bytes), int (length bytes))))"

fun run_pass :: "nat \<Rightarrow> outside \<Rightarrow> pass_env \<Rightarrow> checksummer \<Rightarrow> objects \<Rightarrow> int \<Rightarrow> nat \<Rightarrow> db \<Rightarrow> pass_result
    \<Rightarrow> (pass_result \<times> pass_end \<times> db) option" where
  "run_pass 0 io e c obs maxObjects claimed d res = None"
| "run_pass (Suc fuel) io e c obs maxObjects claimed d res =
     (if \<not> (maxObjects \<le> 0 \<or> int claimed < maxObjects) then Some (res, PassDone, d)
      else if pe_done e claimed then Some (res, PassInterrupted, d)
      else case ClaimChecksumCandidate d (pe_dbclock e claimed) (pe_clock e claimed - ck_retryAfter c) of
        Inl err \<Rightarrow> Some (res, if err = ErrNoChecksumPending then PassDone else PassError err, d)
      | Inr (d1, cand) \<Rightarrow>
          (let (digest, n) = hash_object io e obs claimed (cc_VaultKey cand);
               res1 = res\<lparr>ps_Bytes := ps_Bytes res + n\<rparr>
           in case digest of
                None \<Rightarrow>
                  if pe_interrupted e claimed then Some (res1, PassInterrupted, ReleaseChecksumClaim d1 (cc_ID cand))
                  else run_pass fuel io e c obs maxObjects (Suc claimed) d1 (res1\<lparr>ps_Failed := ps_Failed res1 + 1\<rparr>)
              | Some s \<Rightarrow>
                  if n \<noteq> cc_SizeBytes cand then
                    (if pe_interrupted e claimed then Some (res1, PassInterrupted, ReleaseChecksumClaim d1 (cc_ID cand))
                     else run_pass fuel io e c obs maxObjects (Suc claimed) d1 (res1\<lparr>ps_Failed := ps_Failed res1 + 1\<rparr>))
                  else (case MarkChecksumVerified d1 (cc_ID cand) s of
                      Inl err \<Rightarrow>
                        if err = ErrChecksumMismatch
                        then run_pass fuel io e c obs maxObjects (Suc claimed) d1 (res1\<lparr>ps_Mismatched := ps_Mismatched res1 + 1\<rparr>)
                        else Some (res1, PassError err, d1)
                    | Inr (d2, _) \<Rightarrow>
                        run_pass fuel io e c obs maxObjects (Suc claimed) d2 (res1\<lparr>ps_Hashed := ps_Hashed res1 + 1\<rparr>))))"

definition RunPass :: "outside \<Rightarrow> pass_env \<Rightarrow> checksummer \<Rightarrow> objects \<Rightarrow> int \<Rightarrow> nat \<Rightarrow> db \<Rightarrow> (pass_result \<times> pass_end \<times> db) option" where
  "RunPass io e c obs maxObjects fuel d =
     run_pass fuel io e c obs maxObjects 0 d \<lparr>ps_Hashed = 0, ps_Failed = 0, ps_Mismatched = 0, ps_Bytes = 0\<rparr>"

text \<open>How long a throttled read of \<open>n\<close> bytes waits when \<open>sofar\<close> bytes were read since its start.\<close>

definition throttle_wait :: "int \<Rightarrow> int \<Rightarrow> int \<Rightarrow> int \<Rightarrow> int" where
  "throttle_wait rate n sofar elapsed =
     (if rate > 0 \<and> n > 0 then
        (let ahead = int64_of (fmul (fdiv (float_of sofar) (float_of rate)) (float_of 1000000000)) - elapsed in
         if ahead > 0 then ahead else 0)
      else 0)"

end
