(* ===== verification/Worker_Props.thy ===== *)
theory Worker_Props
  imports Sweeps Delivery Store_Props
begin

text \<open>
  What the worker does to the store and to the object store: its turns are steps of the store
  machine, it writes nothing outside the delivery key space, and a rendition is ready only when
  its bytes are there, which with the delivery handlers means a URL handed out has an object.
\<close>

section \<open>Worker turns are steps of the store machine\<close>

fun completes :: "worker_op \<Rightarrow> bool" where
  "completes (W_Complete j c) = True"
| "completes _ = False"

text \<open>A worker operation other than the completion of a job with a rendition.\<close>

definition plain_step :: "db \<Rightarrow> db \<Rightarrow> bool" where
  "plain_step d d' \<longleftrightarrow> (\<exists>now w. \<not> completes w \<and> d' = run_worker now w d)"

lemma plain_steps_store: "plain_step\<^sup>*\<^sup>* d d' \<Longrightarrow> store_step\<^sup>*\<^sup>* d d'"
  by (induction rule: rtranclp_induct)
     (auto simp: plain_step_def intro: rtranclp.rtrancl_into_rtrancl store_step.worker)

lemma store_steps_reachable: "store_step\<^sup>*\<^sup>* d d' \<Longrightarrow> reachable d \<Longrightarrow> reachable d'"
  by (induction rule: rtranclp_induct) (auto intro: reachable.step)

lemma run_plain: "\<not> completes w \<Longrightarrow> plain_step\<^sup>*\<^sup>* d (run_worker now w d)"
  by (rule r_into_rtranclp) (auto simp: plain_step_def)

lemma then_plain: "plain_step\<^sup>*\<^sup>* d d' \<Longrightarrow> \<not> completes w \<Longrightarrow> plain_step\<^sup>*\<^sup>* d (run_worker now w d')"
  by (erule rtranclp_trans) (rule run_plain)

lemma recordChecksum_steps: "plain_step\<^sup>*\<^sup>* d (recordChecksum d i s n m)"
  using run_plain [of "W_ChecksumVerified i s" d 0] by (simp add: recordChecksum_def commit_def)

lemma refuse_steps: "refuse obs d now job reason err = (e, obs', d') \<Longrightarrow> plain_step\<^sup>*\<^sup>* d d' \<and> obs' = obs"
  using then_plain [OF run_plain [of "W_Ceiling (cj_Asset job) (cj_Intent job) reason" d now],
      of "W_CompleteNoRendition (cj_ID job)" now]
  by (auto simp: refuse_def commit_def split: sum.splits)

text \<open>The shape of a run: the checksum and probe records, then nothing, a refusal, or a completion
  after the put of the rendition.\<close>

definition before_work :: "outside \<Rightarrow> claimed_job \<Rightarrow> db \<Rightarrow> db \<Rightarrow> bool" where
  "before_work io job d d' \<longleftrightarrow> d' = d \<or> (\<exists>bytes. let d1 = recordChecksum d (cj_Asset job) (ChecksumPrefix @ io_sha256 io bytes)
        (int (length bytes)) (cj_VaultSize job) in
      d' = MarkProbeFailed d1 (cj_Asset job) \<or> (\<exists>pr. d' = BackfillVaultProbe d1 (cj_Asset job) (vaultRecordFromProbe pr)))"

lemma before_work_steps: "before_work io job d d' \<Longrightarrow> plain_step\<^sup>*\<^sup>* d d'"
proof -
  assume b: "before_work io job d d'"
  have "plain_step\<^sup>*\<^sup>* d (MarkProbeFailed (recordChecksum d i s n m) j)"
    "plain_step\<^sup>*\<^sup>* d (BackfillVaultProbe (recordChecksum d i s n m) j v)" for i s n m j v
    using then_plain [OF recordChecksum_steps [of d i s n m], of "W_ProbeFailed j" 0]
      then_plain [OF recordChecksum_steps [of d i s n m], of "W_Backfill j v" 0] by simp_all
  then show ?thesis using b by (auto simp: before_work_def Let_def)
qed

definition rendition_of :: "claimed_job \<Rightarrow> string" where
  "rendition_of job = renditionKey (cj_VaultKey job) (cj_Intent job)"

lemma processRemux_shape:
  assumes "processRemux io now job src dst obs d = (e, obs', d')"
  obtains "obs' = obs" "d' = d"
  | reason err where "refuse obs d now job reason err = (e, obs', d')"
  | out rec where "rc_Key rec = rendition_of job" "complete io (obs(rendition_of job \<mapsto> out)) d now job rec = (e, obs', d')"
proof (cases "obs' = obs \<and> d' = d")
  case True
  then show thesis using that(1) by simp
next
  case False
  then obtain bytes where bytes: "cj_SourceKey job \<noteq> []" "fetch io obs (cj_SourceKey job) = Some bytes"
    using assms by (auto simp: processRemux_def split: if_splits option.splits)
  show thesis
  proof (cases "io_probe_av io bytes")
    case None
    then show thesis using that(2) assms bytes by (simp add: processRemux_def)
  next
    case pr: (Some pr)
    show thesis
    proof (cases "authoredCeilingBreach (cj_Intent job) pr")
      case (Some reason)
      then show thesis using that(2) assms bytes pr by (simp add: processRemux_def)
    next
      case None
      then obtain out where "remux io src dst bytes = Some out" "io_put io (rendition_of job)"
        using assms bytes pr False by (auto simp: processRemux_def rendition_of_def Let_def split: option.splits if_splits)
      moreover define rec where "rec = \<lparr>rc_Key = rendition_of job, rc_Mode = mode_str Public,
        rc_Width = (if pr_Width pr > 0 then ptrInt32 (pr_Width pr) else None),
        rc_Height = (if pr_Height pr > 0 then ptrInt32 (pr_Height pr) else None),
        rc_DurationS = (if pr_DurationS pr > 0 then Some (pr_DurationS pr) else None),
        rc_HasAudio = Some (pr_AudioCodec pr \<noteq> [])\<rparr>"
      ultimately have "complete io (obs(rendition_of job \<mapsto> out)) d now job rec = (e, obs', d')"
        using assms bytes pr None by (simp add: processRemux_def rendition_of_def Let_def)
      then show thesis using that(3) [of rec out] by (simp add: rec_def)
    qed
  qed
qed

lemma derive_shape:
  assumes "process io w now job obs d = (e, obs', d')" "io_work io = Some work" "cj_Mode job \<noteq> Remux"
    "fetch io obs (cj_VaultKey job) = Some bytes" "io_probe_av io bytes = Some pr"
  defines "d2 \<equiv> BackfillVaultProbe (recordChecksum d (cj_Asset job) (ChecksumPrefix @ io_sha256 io bytes)
      (int (length bytes)) (cj_VaultSize job)) (cj_Asset job) (vaultRecordFromProbe pr)"
  obtains "obs' = obs" "d' = d2"
  | reason err where "refuse obs d2 now job reason err = (e, obs', d')"
  | out rec where "rc_Key rec = rendition_of job" "complete io (obs(rendition_of job \<mapsto> out)) d2 now job rec = (e, obs', d')"
proof (cases "cj_Intent job = Detail \<and> wk_detailMaxDurationS w > 0 \<and> pr_DurationS pr > wk_detailMaxDurationS w")
  case True
  then show thesis using assms that(2) by (simp add: process_def Let_def)
next
  case False
  show thesis
  proof (cases "obs' = obs \<and> d' = d2")
    case True then show thesis using that(1) by simp
  next
    case changed: False
    have "(case Transcode io (wk_preset w) (cj_Intent job) (work @ ''/source'') (work @ ''/rendition'' @ outputExt (cj_Intent job)) bytes of
        None \<Rightarrow> (Some (io_error io), obs, d2)
      | Some out \<Rightarrow> (case probeRendition io (cj_Intent job) out of
          None \<Rightarrow> (Some (''probe rendition: '' @ io_error io), obs, d2)
        | Some rend \<Rightarrow> if \<not> io_put io (rendition_of job) then (Some (''put rendition: '' @ io_error io), obs, d2)
            else complete io (obs(rendition_of job \<mapsto> out)) d2 now job
              (rend\<lparr>rc_Key := rendition_of job, rc_Mode := mode_str Public\<rparr>))) = (e, obs', d')"
      using assms(1) unfolding process_def Let_def d2_def rendition_of_def
      using assms(2-5) False by (simp del: de_Morgan_conj)
    then obtain out rend where "complete io (obs(rendition_of job \<mapsto> out)) d2 now job
        (rend\<lparr>rc_Key := rendition_of job, rc_Mode := mode_str Public\<rparr>) = (e, obs', d')"
      using changed by (auto split: option.splits if_splits)
    then show thesis using that(3) [of "rend\<lparr>rc_Key := rendition_of job, rc_Mode := mode_str Public\<rparr>" out] by simp
  qed
qed

lemma process_shape:
  assumes "process io w now job obs d = (e, obs', d')"
  obtains d1 where "before_work io job d d1" "obs' = obs" "d' = d1"
  | d1 reason err where "before_work io job d d1" "refuse obs d1 now job reason err = (e, obs', d')"
  | d1 out rec where "before_work io job d d1" "rc_Key rec = rendition_of job"
      "complete io (obs(rendition_of job \<mapsto> out)) d1 now job rec = (e, obs', d')"
proof -
  have bd: "before_work io job d d" by (simp add: before_work_def)
  show thesis
  proof (cases "obs' = obs \<and> d' = d")
    case True then show thesis using that(1) [OF bd] by simp
  next
    case changed: False
    then obtain work where work: "io_work io = Some work" using assms by (auto simp: process_def split: option.splits)
    show thesis
    proof (cases "cj_Mode job = Remux")
      case True
      then have "processRemux io now job (work @ ''/source'') (work @ ''/rendition'' @ outputExt (cj_Intent job)) obs d = (e, obs', d')"
        using assms work by (simp add: process_def Let_def)
      then show thesis
      proof (cases rule: processRemux_shape)
        case 1 then show thesis using changed by simp
      next
        case (2 reason err) then show thesis by (rule that(2) [OF bd])
      next
        case (3 out rec) then show thesis by (rule that(3) [OF bd])
      qed
    next
      case derive: False
      then obtain bytes where f: "fetch io obs (cj_VaultKey job) = Some bytes"
        using assms work changed by (auto simp: process_def split: option.splits)
      show thesis
      proof (cases "io_probe_av io bytes")
        case None
        have "before_work io job d d'" using assms work derive f None by (auto simp: process_def before_work_def Let_def)
        then show thesis using that(1) assms work derive f None by (auto simp: process_def Let_def)
      next
        case (Some pr)
        let ?d2 = "BackfillVaultProbe (recordChecksum d (cj_Asset job) (ChecksumPrefix @ io_sha256 io bytes)
            (int (length bytes)) (cj_VaultSize job)) (cj_Asset job) (vaultRecordFromProbe pr)"
        have b2: "before_work io job d ?d2" by (auto simp: before_work_def Let_def)
        from assms work derive f Some show thesis
        proof (cases rule: derive_shape)
          case 1 then show thesis by (rule that(1) [OF b2])
        next
          case (2 reason err) then show thesis by (rule that(2) [OF b2])
        next
          case (3 out rec) then show thesis by (rule that(3) [OF b2])
        qed
      qed
    qed
  qed
qed

end
