(* ===== verification/Delivered_Bytes.thy ===== *)
theory Delivered_Bytes
  imports Worker_Props
begin

text \<open>
  The database and the object store together. Requests, client uploads through presigned URLs,
  claims, job runs (of claims however old), housekeeping and sweeps interleave freely; whatever
  they do, a rendition that is ready has its bytes at the key its delivery URL names.
\<close>

section \<open>Operations that do not make a rendition ready\<close>

definition job_ident :: "job_row \<Rightarrow> string \<times> string \<times> string \<times> intent" where
  "job_ident r = (jr_id r, jr_account r, jr_asset r, jr_intent r)"

definition ready_rows :: "db \<Rightarrow> rendition_row set" where
  "ready_rows d = {r \<in> set (db_renditions d). rr_status r = RS_Ready}"

definition quiet :: "string set \<Rightarrow> db \<Rightarrow> db \<Rightarrow> bool" where
  "quiet N d d' \<longleftrightarrow> ready_rows d' \<subseteq> ready_rows d
     \<and> (\<forall>A i. AssetOwnedBy d A i \<longrightarrow> AssetOwnedBy d' A i \<or> i \<notin> rr_asset ` ready_rows d')
     \<and> (\<forall>r' \<in> set (db_jobs d'). jr_id r' \<in> N \<or> job_ident r' \<in> job_ident ` set (db_jobs d))"

fun new_jobs :: "request \<Rightarrow> string set" where
  "new_jobs (R_EnqueueJob j i n) = {j}"
| "new_jobs (R_EnqueueRemuxJob j i n src) = {j}"
| "new_jobs _ = {}"

lemma owned_update:
  assumes "\<And>r. ar_id (f r) = ar_id r \<and> ar_account (f r) = ar_account r" "AssetOwnedBy d A i"
  shows "AssetOwnedBy (d\<lparr>db_assets := update_where p f (db_assets d)\<rparr>) A i"
  using assms by (auto simp: AssetOwnedBy_def has_row_iff set_update_where asset_is_def)

lemma owned_same: "db_assets d' = db_assets d \<Longrightarrow> AssetOwnedBy d' = AssetOwnedBy d"
  by (intro ext) (simp add: AssetOwnedBy_def)

lemma ready_same: "db_renditions d' = db_renditions d \<Longrightarrow> ready_rows d' = ready_rows d"
  by (simp add: ready_rows_def)

lemma jobs_update:
  assumes "\<And>r. job_ident (f r) = job_ident r" "r' \<in> set (update_where p f t)"
  shows "job_ident r' \<in> job_ident ` set t"
  using assms by (auto simp: set_update_where)

lemma quietI:
  assumes "ready_rows d' \<subseteq> ready_rows d" "\<And>A i. AssetOwnedBy d A i \<Longrightarrow> AssetOwnedBy d' A i"
    "\<And>r'. r' \<in> set (db_jobs d') \<Longrightarrow> jr_id r' \<in> N \<or> job_ident r' \<in> job_ident ` set (db_jobs d)"
  shows "quiet N d d'"
  using assms by (auto simp: quiet_def)

lemma quiet_tables:
  assumes "db_renditions d' = db_renditions d" "db_assets d' = db_assets d" "db_jobs d' = db_jobs d"
  shows "quiet N d d'"
  by (rule quietI) (simp_all add: ready_same [OF assms(1)] owned_same [OF assms(2)] assms(3))

lemma quiet_assets:
  assumes "db_renditions d' = db_renditions d" "db_assets d' = update_where p f (db_assets d)" "db_jobs d' = db_jobs d"
    "\<And>r. ar_id (f r) = ar_id r \<and> ar_account (f r) = ar_account r"
  shows "quiet N d d'"
proof (rule quietI)
  fix A i assume "AssetOwnedBy d A i"
  then show "AssetOwnedBy d' A i" using owned_update [of f d A i p] assms(2,4) by (simp add: AssetOwnedBy_def)
qed (simp_all add: ready_same [OF assms(1)] assms(3))

lemma quiet_jobs:
  assumes "db_renditions d' = db_renditions d" "db_assets d' = db_assets d" "db_jobs d' = update_where p f (db_jobs d)"
    "\<And>r. job_ident (f r) = job_ident r"
  shows "quiet N d d'"
proof (rule quietI)
  fix r' assume "r' \<in> set (db_jobs d')"
  then show "jr_id r' \<in> N \<or> job_ident r' \<in> job_ident ` set (db_jobs d)"
    using jobs_update [of f r' p "db_jobs d"] assms(3,4) by simp
qed (simp_all add: ready_same [OF assms(1)] owned_same [OF assms(2)])

lemma quiet_insert_job: "insert_job d r = Inr (d', x) \<Longrightarrow> jr_id r \<in> N \<Longrightarrow> quiet N d d'"
proof (rule quietI)
  fix r' assume "insert_job d r = Inr (d', x)" "jr_id r \<in> N" "r' \<in> set (db_jobs d')"
  then show "jr_id r' \<in> N \<or> job_ident r' \<in> job_ident ` set (db_jobs d)"
    by (auto simp: insert_job_def insert_row_def split: if_splits)
qed (auto simp: insert_job_def ready_rows_def AssetOwnedBy_def split: if_splits)

lemma quiet_refl: "quiet N d d" by (rule quiet_tables) simp_all

lemma quiet_put_rendition:
  assumes "d' = d\<lparr>db_renditions := upsert_row (rend_is i n) f r (db_renditions d)\<rparr>"
    "rr_status r \<noteq> RS_Ready" "\<And>x. rr_status (f x) = RS_Ready \<Longrightarrow> f x = x"
  shows "quiet N d d'"
proof (rule quietI)
  show "ready_rows d' \<subseteq> ready_rows d"
    using assms(2,3) unfolding assms(1)
    by (auto simp: ready_rows_def upsert_row_def insert_row_def set_update_where split: if_splits) (metis assms(3))+
qed (simp_all add: assms(1) AssetOwnedBy_def)

lemma request_quiet: "quiet (new_jobs r) d (run_request now A r d)"
proof (cases r)
  case (R_MarkAssetDeleted i)
  then show ?thesis
    by (auto simp: MarkAssetDeleted_def Let_def commit_def quiet_refl set_deleted_def split: sum.splits
        intro!: quiet_assets [of _ _ "asset_is A i" "set_deleted now"])
next
  case (R_FinalizeUpload i v)
  have "quiet {} d d'" if "FinalizeUpload d now A i v = Inr (d', a)" for d' a
    using that by (intro quietI) (auto simp: FinalizeUpload_def Let_def ready_rows_def AssetOwnedBy_def has_row_iff
        insert_row_def split: option.splits if_splits sum.splits)
  then show ?thesis using R_FinalizeUpload by (auto simp: commit_def quiet_refl split: sum.splits)
next
  case (R_EnqueueJob j i n)
  then show ?thesis
    by (auto simp: EnqueueJob_def commit_def quiet_refl queued_row_def split: sum.splits option.splits if_splits
        intro: quiet_insert_job)
next
  case (R_EnqueueRemuxJob j i n src)
  have "quiet {j} d (d\<lparr>db_jobs := update_where p (repoint now src) (db_jobs d)\<rparr>)" for p
    by (rule quiet_jobs [of _ _ p "repoint now src"]) (simp_all add: repoint_def job_ident_def)
  then show ?thesis using R_EnqueueRemuxJob
    by (auto simp: EnqueueRemuxJob_def commit_def quiet_refl queued_row_def split: sum.splits option.splits if_splits
        intro: quiet_insert_job)
next
  case (R_MarkNotDerived i n)
  have "quiet {} d (d\<lparr>db_renditions := upsert_row (rend_is i n) (\<lambda>x. x) (bare_rendition i n RS_NotDerived None) (db_renditions d)\<rparr>)"
    by (rule quiet_put_rendition [OF refl]) (simp_all add: bare_rendition_def)
  then show ?thesis using R_MarkNotDerived
    by (auto simp: commit_def MarkNotDerived_def insert_if_absent_upsert quiet_refl split: sum.splits)
qed ((rule quiet_tables; auto simp: commit_def CreateGrant_def RevokeGrant_def CreateExport_def RevokeExport_def
      ProvisionAccount_def CreateUpload_def Let_def split: sum.splits option.splits if_splits)[1])+

lemma purge_quiet: "quiet N d (PurgeDeletedAsset d i)"
proof -
  have "AssetOwnedBy (PurgeDeletedAsset d i) A j \<or> j \<notin> rr_asset ` ready_rows (PurgeDeletedAsset d i)" if "AssetOwnedBy d A j" for A j
    using that by (auto simp: PurgeDeletedAsset_def AssetOwnedBy_def has_row_iff delete_where_def ready_rows_def asset_is_def)
  then show ?thesis
    by (auto simp: quiet_def PurgeDeletedAsset_def ready_rows_def delete_where_def)
qed

lemma plain_quiet:
  assumes "\<not> completes w"
  shows "quiet N d (run_worker now w d)"
proof (cases w)
  case (W_Claim ttl)
  have "quiet N d (d\<lparr>db_jobs := update_where p (claim_row now) (db_jobs d)\<rparr>)" for p
    by (rule quiet_jobs [of _ _ p "claim_row now"]) (simp_all add: claim_row_def job_ident_def)
  then show ?thesis using W_Claim by (auto simp: ClaimNextJob_def Let_def quiet_refl split: option.splits)
next
  case (W_Heartbeat j p)
  then show ?thesis
    by (auto simp: Heartbeat_def beat_row_def job_ident_def
        intro!: quiet_jobs [of _ _ "\<lambda>r. jr_id r = j \<and> jr_status r = JobRunning" "beat_row now p"])
next
  case (W_CompleteNoRendition j)
  then show ?thesis
    by (auto simp: CompleteJobNoRendition_def succeed_row_def job_ident_def
        intro!: quiet_jobs [of _ _ "\<lambda>r. jr_id r = j" "succeed_row now"])
next
  case (W_Fail j m c msg)
  have "quiet N d (d\<lparr>db_jobs := update_where p (requeue_row now msg) (db_jobs d)\<rparr>)"
    "quiet N d (d\<lparr>db_jobs := update_where p (fail_row now c msg) (db_jobs d)\<rparr>)" for p
    by (rule quiet_jobs [of _ _ p "requeue_row now msg"], simp_all add: requeue_row_def job_ident_def)
       (rule quiet_jobs [of _ _ p "fail_row now c msg"], simp_all add: fail_row_def job_ident_def)
  then show ?thesis using W_Fail by (auto simp: FailJob_def commit_def quiet_refl split: option.splits sum.splits if_splits)
next
  case (W_Purge i)
  then show ?thesis by (simp add: purge_quiet)
next
  case (W_Backfill i v)
  then show ?thesis
    by (auto simp: BackfillVaultProbe_def backfill_row_def intro!: quiet_assets [of _ _ "\<lambda>r. ar_id r = i" "backfill_row v"])
next
  case (W_ProbeFailed i)
  then show ?thesis
    by (auto simp: MarkProbeFailed_def intro!: quiet_assets [of _ _ "\<lambda>r. ar_id r = i" "\<lambda>r. r\<lparr>ar_probe := ''failed''\<rparr>"])
next
  case (W_Ceiling i n c)
  have "quiet N d (d\<lparr>db_renditions := upsert_row (rend_is i n) (\<lambda>x. x\<lparr>rr_status := RS_Failed, rr_reason := Some c\<rparr>)
      (bare_rendition i n RS_Failed (Some c)) (db_renditions d)\<rparr>)"
    by (rule quiet_put_rendition [OF refl]) (simp_all add: bare_rendition_def)
  then show ?thesis using W_Ceiling
    by (auto simp: FailedRenditionForCeiling_def commit_def quiet_refl split: sum.splits if_splits)
next
  case (W_ChecksumClaim b)
  have "quiet N d (d\<lparr>db_assets := update_where p (\<lambda>x. x\<lparr>ar_checked_at := Some now\<rparr>) (db_assets d)\<rparr>)" for p
    by (rule quiet_assets [of _ _ p "\<lambda>x. x\<lparr>ar_checked_at := Some now\<rparr>"]) simp_all
  then show ?thesis using W_ChecksumClaim
    by (auto simp: ClaimChecksumCandidate_def commit_def quiet_refl split: sum.splits option.splits)
next
  case (W_ChecksumRelease i)
  then show ?thesis
    by (auto simp: ReleaseChecksumClaim_def intro!: quiet_assets [of _ _ "\<lambda>r. ar_id r = i" "\<lambda>r. r\<lparr>ar_checked_at := None\<rparr>"])
next
  case (W_ChecksumVerified i c)
  have "quiet N d (d\<lparr>db_assets := update_where p (set_checksum c) (db_assets d)\<rparr>)" for p
    by (rule quiet_assets [of _ _ p "set_checksum c"]) (simp_all add: set_checksum_def)
  then show ?thesis using W_ChecksumVerified
    by (auto simp: MarkChecksumVerified_def Let_def commit_def quiet_refl split: sum.splits if_splits)
next
  case (W_MarkSwept i)
  then show ?thesis by (auto simp: MarkUploadSwept_def intro!: quiet_tables)
next
  case (W_Beat a b c)
  then show ?thesis by (auto simp: UpsertWorkerHeartbeat_def intro!: quiet_tables)
qed (use assms in simp)

section \<open>The invariant\<close>

definition backed :: "objects \<Rightarrow> db \<Rightarrow> rendition_row \<Rightarrow> bool" where
  "backed obs d r \<longleftrightarrow> (\<exists>A. AssetOwnedBy d A (rr_asset r)
     \<and> (\<exists>bytes. obs (RenditionKey (VaultKey A (rr_asset r)) (intent_str (rr_intent r))) = Some bytes)
     \<and> rr_key r = Some (RenditionKey (VaultKey A (rr_asset r)) (intent_str (rr_intent r))))"

definition bytes_ok :: "objects \<Rightarrow> db \<Rightarrow> bool" where
  "bytes_ok obs d \<longleftrightarrow> (\<forall>r \<in> ready_rows d. backed obs d r)"

definition claims_ok :: "claimed_job set \<Rightarrow> db \<Rightarrow> bool" where
  "claims_ok cs d \<longleftrightarrow> (\<forall>c \<in> cs. cj_VaultKey c = VaultKey (cj_Account c) (cj_Asset c)
     \<and> (\<forall>r \<in> set (db_jobs d). jr_id r = cj_ID c \<longrightarrow> job_ident r = (cj_ID c, cj_Account c, cj_Asset c, cj_Intent c)))"

lemma quiet_bytes: "quiet N d d' \<Longrightarrow> bytes_ok obs d \<Longrightarrow> bytes_ok obs d'"
  unfolding bytes_ok_def
proof
  fix r assume q: "quiet N d d'" and b: "\<forall>r \<in> ready_rows d. backed obs d r" and r: "r \<in> ready_rows d'"
  then have "r \<in> ready_rows d" by (auto simp: quiet_def)
  with b have "backed obs d r" by blast
  then show "backed obs d' r" using q r unfolding quiet_def backed_def by blast
qed

lemma quiet_claims:
  assumes "quiet N d d'" "N \<inter> cj_ID ` cs = {}" "claims_ok cs d"
  shows "claims_ok cs d'"
  unfolding claims_ok_def
proof (intro ballI conjI impI)
  fix c r assume c: "c \<in> cs" and r: "r \<in> set (db_jobs d')" "jr_id r = cj_ID c"
  then have "jr_id r \<notin> N" using assms(2) by auto
  then obtain r0 where r0: "r0 \<in> set (db_jobs d)" "job_ident r = job_ident r0"
    using assms(1) r(1) unfolding quiet_def by blast
  then have "jr_id r0 = cj_ID c" using r(2) by (simp add: job_ident_def)
  then show "job_ident r = (cj_ID c, cj_Account c, cj_Asset c, cj_Intent c)"
    using assms(3) c r0 by (simp add: claims_ok_def)
qed (use assms(3) in \<open>simp add: claims_ok_def\<close>)

lemma plain_steps_ok:
  "plain_step\<^sup>*\<^sup>* d d' \<Longrightarrow> bytes_ok obs d \<and> claims_ok cs d \<Longrightarrow> bytes_ok obs d' \<and> claims_ok cs d'"
proof (induction rule: rtranclp_induct)
  case (step y z)
  then obtain now w where "\<not> completes w" "z = run_worker now w y" by (auto simp: plain_step_def)
  then have "quiet {} y z" by (simp add: plain_quiet)
  then show ?case using step quiet_bytes quiet_claims [of "{}" y z cs] by blast
qed simp

text \<open>Completing a job makes its rendition ready, at the key that was just written.\<close>

lemma bytes_mono: "bytes_ok obs d \<Longrightarrow> (\<And>k. obs k \<noteq> None \<Longrightarrow> obs' k \<noteq> None) \<Longrightarrow> bytes_ok obs' d"
  unfolding bytes_ok_def backed_def by (metis option.distinct(1) option.exhaust)

lemma complete_bytes:
  assumes "reachable d" "claims_ok {job} d" "bytes_ok obs d" "rc_Key rec = rendition_of job" "obs (rendition_of job) \<noteq> None"
    "CompleteJob d now (cj_ID job) rec = Inr (d', x)"
  shows "bytes_ok obs d'"
  unfolding bytes_ok_def
proof
  fix r assume r: "r \<in> ready_rows d'"
  obtain j where j: "j \<in> set (db_jobs d)" "jr_id j = cj_ID job"
    and d': "d' = d\<lparr>db_renditions := upsert_row (rend_is (jr_asset j) (jr_intent j))
         (\<lambda>x. x\<lparr>rr_status := RS_Ready, rr_width := rc_Width rec, rr_height := rc_Height rec, rr_dur := rc_DurationS rec,
            rr_audio := rc_HasAudio rec, rr_key := Some (rc_Key rec), rr_mode := Some (rc_Mode rec), rr_reason := None\<rparr>)
         (ready_row (jr_asset j) (jr_intent j) rec) (db_renditions d),
       db_jobs := update_where (\<lambda>x. jr_id x = cj_ID job) (succeed_row now) (db_jobs d)\<rparr>"
    using assms(6) by (auto simp: CompleteJob_def split: option.splits dest: get_row_Some_iff)
  have id: "jr_account j = cj_Account job" "jr_asset j = cj_Asset job" "jr_intent j = cj_Intent job"
    and key: "cj_VaultKey job = VaultKey (cj_Account job) (cj_Asset job)"
    using assms(2) j by (auto simp: claims_ok_def job_ident_def)
  have owned: "AssetOwnedBy d (cj_Account job) (cj_Asset job)"
    using reachable_job_asset [OF assms(1) j(1)] id by (simp add: AssetOwnedBy_def has_row_iff)
  have "r \<in> ready_rows d \<or> (rr_asset r = cj_Asset job \<and> rr_intent r = cj_Intent job \<and> rr_key r = Some (rendition_of job))"
    using r assms(4) id
    by (auto simp: d' ready_rows_def upsert_row_def set_update_where insert_row_def ready_row_def rend_is_def split: if_splits)
  then show "backed obs d' r"
  proof
    assume "r \<in> ready_rows d"
    then have "backed obs d r" using assms(3) by (simp add: bytes_ok_def)
    then show ?thesis by (simp add: backed_def d' AssetOwnedBy_def)
  next
    assume "rr_asset r = cj_Asset job \<and> rr_intent r = cj_Intent job \<and> rr_key r = Some (rendition_of job)"
    then show ?thesis using owned key assms(5)
      by (auto simp: backed_def d' AssetOwnedBy_def rendition_of_def renditionKey_def)
  qed
qed

lemma complete_claims:
  assumes "claims_ok cs d" "CompleteJob d now j rec = Inr (d', x)"
  shows "claims_ok cs d'"
proof -
  have "db_jobs d' = update_where (\<lambda>x. jr_id x = j) (succeed_row now) (db_jobs d)"
    using assms(2) by (auto simp: CompleteJob_def split: option.splits)
  then have "\<forall>r' \<in> set (db_jobs d'). job_ident r' \<in> job_ident ` set (db_jobs d)"
    using jobs_update [of "succeed_row now"] by (simp add: succeed_row_def job_ident_def)
  then show ?thesis using assms(1) unfolding claims_ok_def by (fastforce simp: job_ident_def)
qed

definition system_ok :: "objects \<Rightarrow> db \<Rightarrow> claimed_job set \<Rightarrow> bool" where
  "system_ok obs d cs \<longleftrightarrow> reachable d \<and> bytes_ok obs d \<and> claims_ok cs d"

lemma plain_steps_system:
  "plain_step\<^sup>*\<^sup>* d d' \<Longrightarrow> system_ok obs d cs \<Longrightarrow> system_ok obs d' cs"
  unfolding system_ok_def using plain_steps_ok store_steps_reachable [OF plain_steps_store] by blast

lemma complete_system:
  assumes "complete io (obs(rendition_of job \<mapsto> out)) d now job rec = (e, obs', d')" "rc_Key rec = rendition_of job"
    "system_ok obs d cs" "job \<in> cs"
  shows "system_ok obs' d' cs"
proof -
  let ?obs = "obs(rendition_of job \<mapsto> out)"
  have d: "reachable d" "bytes_ok ?obs d" "claims_ok cs d" "claims_ok {job} d"
    using assms(3,4) by (auto simp: system_ok_def claims_ok_def intro: bytes_mono)
  show ?thesis
  proof (cases "CompleteJob d now (cj_ID job) rec")
    case (Inl err)
    then show ?thesis using assms(1) d by (simp add: complete_def system_ok_def)
  next
    case (Inr x)
    obtain d1 u where x: "x = (d1, u)" by (cases x)
    then have e: "obs' = ?obs" "d' = d1" using assms(1) Inr by (simp_all add: complete_def)
    have "reachable d1" using reachable.step [OF d(1) store_step.worker [of _ now "W_Complete (cj_ID job) rec"]] Inr x by simp
    then show ?thesis
      using complete_bytes [OF d(1,4,2) assms(2) _ Inr [unfolded x]] complete_claims [OF d(3) Inr [unfolded x]] e
      by (simp add: system_ok_def)
  qed
qed

lemma process_system:
  assumes "process io w now job obs d = (e, obs', d')" "system_ok obs d cs" "job \<in> cs"
  shows "system_ok obs' d' cs"
  using assms(1)
proof (cases rule: process_shape)
  case (1 d1)
  then show ?thesis using before_work_steps plain_steps_system assms(2) by blast
next
  case (2 d1 reason err)
  have "system_ok obs d1 cs" by (rule plain_steps_system [OF before_work_steps [OF 2(1)] assms(2)])
  moreover have "plain_step\<^sup>*\<^sup>* d1 d'" "obs' = obs" using refuse_steps [OF 2(2)] by simp_all
  ultimately show ?thesis using plain_steps_system by simp
next
  case (3 d1 out rec)
  then have "system_ok obs d1 cs" using before_work_steps plain_steps_system assms(2) by blast
  then show ?thesis using complete_system [OF 3(3,2)] assms(3) by blast
qed

lemma runOne_system:
  assumes "runOne io w now job obs d = (obs', d')" "system_ok obs d cs" "job \<in> cs"
  shows "system_ok obs' d' cs"
proof -
  obtain e obs1 d1 where p: "process io w now job obs d = (e, obs1, d1)" by (cases "process io w now job obs d")
  have ok: "system_ok obs1 d1 cs" by (rule process_system [OF p assms(2,3)])
  show ?thesis
  proof (cases e)
    case None then show ?thesis using assms(1) p ok by (simp add: runOne_def)
  next
    case (Some msg)
    then have "obs' = obs1" "d' = run_worker now (W_Fail (cj_ID job) (wk_maxAttempts w) RC_Failed msg) d1"
      using assms(1) p by (auto simp: runOne_def commit_def)
    then show ?thesis
      using plain_steps_system [OF run_plain [of "W_Fail (cj_ID job) (wk_maxAttempts w) RC_Failed msg"] ok] by simp
  qed
qed

lemma claim_system:
  assumes "ClaimNextJob d now ttl = (d', res)" "system_ok obs d cs"
  shows "system_ok obs d' (case res of Inl _ \<Rightarrow> cs | Inr job \<Rightarrow> insert job cs)"
proof -
  have d': "d' = run_worker now (W_Claim ttl) d" using assms(1) by simp
  have ok: "system_ok obs d' cs" unfolding d' by (rule plain_steps_system [OF run_plain assms(2)]) simp
  show ?thesis
  proof (cases res)
    case (Inr job)
    have keys: "keys_ok d'" "reachable d'" using ok reachable_keys by (auto simp: system_ok_def)
    obtain r a where r: "r \<in> set (db_jobs d')" "jr_id r = cj_ID job"
        "job_ident r = (cj_ID job, cj_Account job, cj_Asset job, cj_Intent job)"
      and a: "a \<in> set (db_assets d')" "asset_is (cj_Account job) (cj_Asset job) a" "cj_VaultKey job = ar_vault_key a"
    proof -
      obtain r0 where r0: "pick_job d (now - ttl) = Some r0" using assms(1) Inr
        by (auto simp: ClaimNextJob_def split: option.splits)
      then have mem: "r0 \<in> set (db_jobs d)" using sort_key_head_in unfolding pick_job_def
        by (fastforce split: list.splits)
      have "d' = d\<lparr>db_jobs := update_where (\<lambda>x. jr_id x = jr_id r0) (claim_row now) (db_jobs d)\<rparr>"
        using assms(1) r0 by (auto simp: ClaimNextJob_def Let_def split: option.splits)
      moreover have "claim_row now r0 \<in> set (update_where (\<lambda>x. jr_id x = jr_id r0) (claim_row now) (db_jobs d))"
        using mem by (auto simp: set_update_where)
      ultimately show thesis using that [of "claim_row now r0"] assms(1) Inr r0
        by (auto simp: ClaimNextJob_def Let_def claim_row_def job_ident_def split: option.splits dest: get_row_Some_iff)
    qed
    have "cj_VaultKey job = VaultKey (cj_Account job) (cj_Asset job)"
      using reachable_vault_key [OF keys(2) a(1)] a(2,3) by (simp add: asset_is_def)
    moreover have "job_ident r' = (cj_ID job, cj_Account job, cj_Asset job, cj_Intent job)"
      if "r' \<in> set (db_jobs d')" "jr_id r' = cj_ID job" for r'
      using that r keys(1) distinct_key_eq [of jr_id "db_jobs d'" r' r] by (simp add: keys_ok_def)
    ultimately show ?thesis using ok Inr by (simp add: system_ok_def claims_ok_def)
  qed (use ok in simp)
qed

section \<open>Sweeps\<close>

definition private_key :: "string \<Rightarrow> bool" where
  "private_key k \<longleftrightarrow> \<not> has_prefix k DeliveryPrefix"

lemma bytes_private: "bytes_ok obs d \<Longrightarrow> private_key k \<Longrightarrow> bytes_ok (obs(k := v)) d"
proof -
  assume b: "bytes_ok obs d" and k: "private_key k"
  have "RenditionKey x n \<noteq> k" for x n using k rendition_key_public by (auto simp: private_key_def)
  then show "bytes_ok (obs(k := v)) d" using b by (simp add: bytes_ok_def backed_def)
qed

lemma upload_key_private: "reachable d \<Longrightarrow> u \<in> set (db_uploads d) \<Longrightarrow> private_key (uw_key u)"
  using reachable_upload_key vault_key_not_public staging_key_not_public
  by (fastforce simp: private_key_def split: option.splits)

lemma reclaimable_private:
  "reachable d \<Longrightarrow> u \<in> set (ReclaimableUploads d c b) \<Longrightarrow> private_key (u_Key u)"
  using upload_key_private by (auto simp: ReclaimableUploads_def Let_def dest!: in_set_takeD)

lemma deleted_private:
  assumes "reachable d" "a \<in> set (ReclaimableDeletedAssets d c b)"
  shows "private_key (da_VaultKey a)"
proof -
  have "private_key (ar_vault_key x)" if "x \<in> set (db_assets d)" for x
    using reachable_vault_key [OF assms(1) that] vault_key_not_public by (simp add: private_key_def)
  then show ?thesis using assms(2) by (auto simp: ReclaimableDeletedAssets_def Let_def dest!: in_set_takeD)
qed

lemma deleted_object_system:
  assumes "system_ok obs d cs" "private_key k" "\<not> completes op"
  shows "system_ok (obs(k := None)) (run_worker now op d) cs"
proof -
  have "system_ok (obs(k := None)) d cs" using assms(1,2) bytes_private by (simp add: system_ok_def)
  then show ?thesis by (rule plain_steps_system [OF run_plain [OF assms(3)]])
qed

lemma SweepOnce_system:
  assumes "SweepOnce io r now obs d = (m, obs', d')" "system_ok obs d cs"
  shows "system_ok obs' d' cs"
proof (rule upload_sweep.keeps [OF assms(1) [unfolded SweepOnce_def], where Q = "\<lambda>obs d. system_ok obs d cs", OF assms(2)])
  fix u obs1 d1
  assume "u \<in> set (ReclaimableUploads d (now - rn_grace r) (rn_batchSize r))" and ok: "system_ok obs1 d1 cs"
  then have "private_key (u_Key u)" using reclaimable_private assms(2) by (auto simp: system_ok_def)
  from deleted_object_system [OF ok this, of "W_MarkSwept (u_ID u)" now]
  show "system_ok (obs1(u_Key u := None)) (MarkUploadSwept d1 now (u_ID u)) cs" by simp
qed

lemma SweepDeletedAssets_system:
  assumes "SweepDeletedAssets io r now obs d = (m, obs', d')" "system_ok obs d cs"
  shows "system_ok obs' d' cs"
proof (rule deleted_sweep.keeps [OF assms(1) [unfolded SweepDeletedAssets_def], where Q = "\<lambda>obs d. system_ok obs d cs", OF assms(2)])
  fix a obs1 d1
  assume a: "a \<in> set (ReclaimableDeletedAssets d (now - rn_grace r) (rn_batchSize r))" and ok: "system_ok obs1 d1 cs"
  have "private_key (da_VaultKey a)" using deleted_private [OF _ a] assms(2) by (simp add: system_ok_def)
  from deleted_object_system [OF ok this, of "W_Purge (da_ID a)" 0]
  show "system_ok (obs1(da_VaultKey a := None)) (PurgeDeletedAsset d1 (da_ID a)) cs" by simp
qed

section \<open>The system\<close>

inductive system_step :: "objects \<times> db \<times> claimed_job set \<Rightarrow> objects \<times> db \<times> claimed_job set \<Rightarrow> bool" where
  request: "request_ok d A r \<Longrightarrow> new_jobs r \<inter> cj_ID ` cs = {} \<Longrightarrow> system_step (obs, d, cs) (obs, run_request now A r d, cs)"
| operator: "system_step (obs, d, cs) (obs, CreateAccount d now a bucket pre, cs)"
| client_put: "private_key k \<Longrightarrow> system_step (obs, d, cs) (obs(k \<mapsto> bytes), d, cs)"
| claim: "ClaimNextJob d now ttl = (d', res) \<Longrightarrow>
    system_step (obs, d, cs) (obs, d', case res of Inl _ \<Rightarrow> cs | Inr job \<Rightarrow> insert job cs)"
| job: "job \<in> cs \<Longrightarrow> runOne io w now job obs d = (obs', d') \<Longrightarrow> system_step (obs, d, cs) (obs', d', cs)"
| upkeep: "\<not> completes op \<Longrightarrow> system_step (obs, d, cs) (obs, run_worker now op d, cs)"
| sweep_uploads: "SweepOnce io r now obs d = (n, obs', d') \<Longrightarrow> system_step (obs, d, cs) (obs', d', cs)"
| sweep_deleted: "SweepDeletedAssets io r now obs d = (n, obs', d') \<Longrightarrow> system_step (obs, d, cs) (obs', d', cs)"

inductive system :: "objects \<Rightarrow> db \<Rightarrow> claimed_job set \<Rightarrow> bool" where
  start: "system Map.empty empty_db {}"
| step: "system obs d cs \<Longrightarrow> system_step (obs, d, cs) (obs', d', cs') \<Longrightarrow> system obs' d' cs'"

lemma operator_quiet: "quiet {} d (CreateAccount d now a bucket pre)"
  by (rule quiet_tables) (simp_all add: CreateAccount_def)

lemma system_ok_step: "system_step (obs, d, cs) (obs', d', cs') \<Longrightarrow> system_ok obs d cs \<Longrightarrow> system_ok obs' d' cs'"
proof (induction "(obs, d, cs)" "(obs', d', cs')" rule: system_step.induct)
  case (request A r now)
  then show ?case
    using quiet_bytes [OF request_quiet [of r d now A]] quiet_claims [OF request_quiet [of r d now A]]
      reachable.step [OF _ store_step.request [of d A r now]]
    by (simp add: system_ok_def del: run_request.simps request_ok.simps)
next
  case (operator now a bucket pre)
  then show ?case
    using quiet_bytes [OF operator_quiet] quiet_claims [OF operator_quiet] reachable.step [OF _ store_step.operator]
    by (auto simp: system_ok_def)
next
  case (client_put k bytes)
  then show ?case using bytes_private unfolding system_ok_def by blast
next
  case (upkeep op now)
  then show ?case using plain_steps_system [OF run_plain [of op d now]] by (metis (no_types))
qed (auto intro: claim_system runOne_system SweepOnce_system SweepDeletedAssets_system)

lemma system_invariant: "system obs d cs \<Longrightarrow> system_ok obs d cs"
proof (induction rule: system.induct)
  case start
  show ?case using reachable.init by (simp add: system_ok_def bytes_ok_def claims_ok_def ready_rows_def empty_db_def)
next
  case (step obs d cs obs' d' cs')
  show ?case by (rule system_ok_step [OF step.hyps(2) step.IH])
qed

section \<open>Every delivery names an object\<close>

lemma asset_rendition_row:
  assumes "GetAsset d A i = Inr a" "rendition_ready a n"
  obtains row where "row \<in> ready_rows d" "rr_asset row = i" "rr_intent row = n"
proof -
  obtain x where x: "get_row (asset_is A i) (db_assets d) = Some x"
    and a: "a = (scanAssetRow d x)\<lparr>asset_Renditions := renditionsFor d (asset_Id (scanAssetRow d x))\<rparr>"
    using assms(1) by (auto simp: GetAsset_def scanAsset_def Let_def split: option.splits)
  have id: "ar_id x = i" using get_row_Some_iff [OF x] by (simp add: asset_is_def)
  obtain r where "findRendition a n = Some r" "rend_Status r = RS_Ready"
    using assms(2) by (auto simp: rendition_ready_def split: option.splits)
  then have r: "r \<in> set (asset_Renditions a)" "rend_Intent r = n" "rend_Status r = RS_Ready"
    by (auto simp: findRendition_def find_Some_iff)
  then obtain row where "row \<in> set (db_renditions d)" "rr_asset row = i" "r = rendition_of_row row"
    using id by (auto simp: a renditionsFor_def scanAssetRow_def)
  then show thesis using r that [of row] by (simp add: ready_rows_def rendition_of_row_def)
qed

lemma ready_rendition_bytes:
  assumes "system obs d cs" "GetAsset d A i = Inr a" "rendition_ready a n"
  shows "\<exists>bytes. obs (RenditionKey (vo_Key (asset_Vault a)) (intent_str n)) = Some bytes"
proof -
  have d: "reachable d" "bytes_ok obs d" using system_invariant [OF assms(1)] by (simp_all add: system_ok_def)
  obtain row where row: "row \<in> ready_rows d" "rr_asset row = i" "rr_intent row = n"
    using asset_rendition_row [OF assms(2,3)] .
  obtain B bytes where b: "AssetOwnedBy d B i" "obs (RenditionKey (VaultKey B i) (intent_str n)) = Some bytes"
    using d(2) row by (auto simp: bytes_ok_def backed_def)
  obtain x where x: "x \<in> set (db_assets d)" "asset_is A i x" "vo_Key (asset_Vault a) = ar_vault_key x"
    using assms(2) by (auto simp: GetAsset_def scanAsset_def Let_def scanAssetRow_def split: option.splits
        dest: get_row_Some_iff)
  obtain y where y: "y \<in> set (db_assets d)" "asset_is B i y" using b(1) by (auto simp: AssetOwnedBy_def has_row_iff)
  have "x = y" using x y reachable_keys [OF d(1)] distinct_key_eq [of ar_id "db_assets d" x y]
    by (simp add: keys_ok_def asset_is_def)
  then have "vo_Key (asset_Vault a) = VaultKey B i"
    using x y reachable_vault_key [OF d(1) x(1)] by (simp add: asset_is_def)
  then show ?thesis using b(2) by simp
qed

text \<open>What is public is never taken away: jobs only write, and sweeps delete private keys only.\<close>

lemma process_only_writes:
  assumes "process io w now job obs d = (e, obs', d')" "obs k \<noteq> None"
  shows "obs' k \<noteq> None"
  using assms(1)
proof (cases rule: process_shape)
  case (2 d1 reason err)
  then show ?thesis using refuse_steps [OF 2(2)] assms(2) by simp
next
  case (3 d1 out rec)
  then have "obs' = obs(rendition_of job \<mapsto> out)" by (auto simp: complete_def split: sum.splits)
  then show ?thesis using assms(2) by simp
qed (use assms(2) in simp)

lemma runOne_only_writes: "runOne io w now job obs d = (obs', d') \<Longrightarrow> obs k \<noteq> None \<Longrightarrow> obs' k \<noteq> None"
  using process_only_writes by (fastforce simp: runOne_def split: prod.splits option.splits sum.splits)

lemma public_stays:
  assumes "system_step (obs, d, cs) (obs', d', cs')" "system_ok obs d cs" "\<not> private_key k" "obs k \<noteq> None"
  shows "obs' k \<noteq> None"
  using assms(1)
proof cases
  case (job j io w now)
  then show ?thesis using runOne_only_writes assms(4) by blast
next
  case (sweep_uploads io r now n)
  then have "k \<notin> u_Key ` set (ReclaimableUploads d (now - rn_grace r) (rn_batchSize r))"
    using reclaimable_private assms(2,3) by (auto simp: system_ok_def)
  then show ?thesis using upload_sweep.other sweep_uploads assms(4) by (metis SweepOnce_def)
next
  case (sweep_deleted io r now n)
  then have "k \<notin> da_VaultKey ` set (ReclaimableDeletedAssets d (now - rn_grace r) (rn_batchSize r))"
    using deleted_private assms(2,3) by (auto simp: system_ok_def)
  then show ?thesis using deleted_sweep.other sweep_deleted assms(4) by (metis SweepDeletedAssets_def)
qed (use assms(4) in simp_all)

lemma public_stays_on:
  assumes "system_step\<^sup>*\<^sup>* p q" "case p of (obs, d, cs) \<Rightarrow> system_ok obs d cs \<and> obs k \<noteq> None" "\<not> private_key k"
  shows "case q of (obs, d, cs) \<Rightarrow> system_ok obs d cs \<and> obs k \<noteq> None"
  using assms(1,2)
proof (induction rule: rtranclp_induct)
  case (step q r)
  obtain obs d cs obs' d' cs' where qr: "q = (obs, d, cs)" "r = (obs', d', cs')" by (cases q, cases r) auto
  have s: "system_step (obs, d, cs) (obs', d', cs')" and ok: "system_ok obs d cs" "obs k \<noteq> None"
    using step.hyps(2) step.IH [OF step.prems] qr by simp_all
  show ?case using public_stays [OF s ok(1) assms(3) ok(2)] system_ok_step [OF s ok(1)] qr by simp
qed

lemma ready_rendition_stays:
  assumes "system obs d cs" "GetAsset d A i = Inr a" "rendition_ready a n" "system_step\<^sup>*\<^sup>* (obs, d, cs) (obs', d', cs')"
  shows "\<exists>bytes. obs' (RenditionKey (vo_Key (asset_Vault a)) (intent_str n)) = Some bytes"
  using public_stays_on [OF assms(4), of "RenditionKey (vo_Key (asset_Vault a)) (intent_str n)"]
    ready_rendition_bytes [OF assms(1-3)] system_invariant [OF assms(1)] rendition_key_public
  by (auto simp: private_key_def)

text \<open>C5: A delivery URL always names bytes, and for ever: in every state the system can reach, under any
  interleaving of requests, client uploads, claims (old ones included), job runs, crashes between
  them, retries and sweeps, what the URL endpoint hands out for a video or an audio asset is an
  object under the public prefix that is in the store, then and in every later state: the rendition
  itself on the storage host, or a video's poster behind the image engine.\<close>
theorem delivered_bytes_exist:
  assumes "system obs d cs" "GetAsset d A i = Inr a" "asset_Kind a = Video \<or> asset_Kind a = Audio"
    "dr_Delivery (resolveNonOriginal s n device a) = Some dl" "system_step\<^sup>*\<^sup>* (obs, d, cs) (obs', d', cs')"
  shows "\<exists>k bytes. obs' k = Some bytes \<and> has_prefix k DeliveryPrefix
    \<and> (dl_Url dl = ub_R2PublicBase (sv_urls s) @ ''/'' @ k
       \<or> isImageLadderIntent n \<and> (\<exists>sg base preset. dl_Url dl = imgproxy_signed_url (sv_hmac s) sg base preset
           (''s3://'' @ ub_ImageSourceBucket (sv_urls s) @ ''/'' @ k) None))"
  using assms(4)
proof (cases rule: delivered_cases)
  case image
  then show ?thesis using assms(3) by simp
next
  case (poster sg base preset)
  obtain bytes where "obs' (RenditionKey (vo_Key (asset_Vault a)) ''poster'') = Some bytes"
    using ready_rendition_stays [OF assms(1,2) poster(4) assms(5)] by auto
  then show ?thesis using poster rendition_key_public by blast
next
  case r2
  obtain bytes where "obs' (RenditionKey (vo_Key (asset_Vault a)) (intent_str n)) = Some bytes"
    using ready_rendition_stays [OF assms(1,2) r2(3) assms(5)] by auto
  then show ?thesis using r2 rendition_key_public by blast
qed

section \<open>A concrete run\<close>

text \<open>A video is uploaded and finalized, its loop enqueued, claimed and transcoded.\<close>

definition film :: asset_row where
  "film = demo_asset\<lparr>ar_kind := Video\<rparr>"

definition film_db :: db where
  "film_db = run_request 30 ''alice'' (R_FinalizeUpload ''A1'' (demo_vault\<lparr>vr_Kind := Video\<rparr>)) demo_db1"

lemma film_db_eval: "film_db = demo_db\<lparr>db_assets := [film]\<rparr>"
  by (simp add: film_db_def demo_db1_eval demo_db0_eval FinalizeUpload_def empty_db_def table_defs
      has_account_def has_asset_id_def asset_of_upload_def demo_vault_def finalize_row_def getAssetTx_def
      asset_is_def demo_asset_def film_def demo_db_eval Let_def)

definition loop_job :: job_row where
  "loop_job = queued_row 40 ''J1'' ''alice'' ''A1'' Loop Derive None"

definition queued_db :: db where
  "queued_db = run_request 40 ''alice'' (R_EnqueueJob ''J1'' ''A1'' Loop) film_db"

lemma queued_db_eval: "queued_db = film_db\<lparr>db_jobs := [loop_job]\<rparr>"
  by (simp add: queued_db_def film_db_eval demo_db_eval demo_db0_eval empty_db_def EnqueueJob_def latest_job_def insert_job_def
      queued_row_def has_account_def has_asset_id_def table_defs demo_asset_def film_def loop_job_def)

lemma queued_reachable: "reachable queued_db"
proof -
  have f: "reachable film_db" unfolding film_db_def
    by (rule reachable.step [OF demo_reachable1 store_step.request]) (simp add: demo_db1_eval)
  show ?thesis unfolding queued_db_def
    by (rule reachable.step [OF f store_step.request])
       (simp add: film_db_eval demo_db_eval AssetOwnedBy_def table_defs film_def demo_asset_def asset_is_def)
qed

definition claimed :: claimed_job where
  "claimed = \<lparr>cj_ID = ''J1'', cj_Account = ''alice'', cj_Asset = ''A1'', cj_Intent = Loop,
     cj_VaultKey = VaultKey ''alice'' ''A1'', cj_VaultSize = 10, cj_Attempts = 1, cj_Mode = Derive, cj_SourceKey = []\<rparr>"

definition running_db :: db where
  "running_db = queued_db\<lparr>db_jobs := [claim_row 50 loop_job]\<rparr>"

lemma claim_eval: "ClaimNextJob queued_db 50 900 = (running_db, Inr claimed)"
  by (simp add: ClaimNextJob_def pick_job_def runnable_def queued_db_eval film_db_eval demo_db_eval demo_db0_eval
      loop_job_def queued_row_def tier_def table_defs claim_row_def asset_is_def film_def demo_asset_def
      running_db_def claimed_def str_of_def Let_def)

definition demo_outside :: outside where
  "demo_outside = \<lparr>io_work = Some ''/tmp'', io_get = \<lambda>_. True, io_put = \<lambda>_. True, io_delete = \<lambda>_. True,
     io_probe_av = \<lambda>bytes. Some \<lparr>pr_Kind = Video, pr_Width = 640, pr_Height = 360, pr_DurationS = 5, pr_Codec = ''h264'',
        pr_Container = ''mp4'', pr_AudioCodec = [], pr_BitrateBPS = 0\<rparr>,
     io_probe_image = \<lambda>bytes. None, io_ffmpeg = \<lambda>args bytes. Some (bytes @ ''!''),
     io_sha256 = \<lambda>bytes. [], io_error = []\<rparr>"

definition demo_worker :: worker where
  "demo_worker = new_worker ''/tmp'' \<lparr>wk_scratchDir = [], wk_leaseTTL = 900, wk_pollEvery = 0, wk_maxAttempts = 0,
     wk_detailMaxDurationS = 0, wk_preset = []\<rparr>"

definition film_objects :: objects where
  "film_objects = Map.empty(VaultKey ''alice'' ''A1'' \<mapsto> ''raw bytes!'')"

definition done_objects :: objects where
  "done_objects = fst (runOne demo_outside demo_worker 60 claimed film_objects running_db)"

definition done_db :: db where
  "done_db = snd (runOne demo_outside demo_worker 60 claimed film_objects running_db)"

lemma film_system: "system done_objects done_db {claimed}"
proof -
  have s0: "system Map.empty demo_db0 {}"
    unfolding demo_db0_def by (rule system.step [OF system.step [OF system.start system_step.operator] system_step.operator])
  have s1: "system Map.empty demo_db1 {}" unfolding demo_db1_def
    by (rule system.step [OF s0 system_step.request]) (simp_all add: demo_db0_eval empty_db_def demo_upload_def has_asset_id_def table_defs)
  have s2: "system film_objects demo_db1 {}" unfolding film_objects_def
    by (rule system.step [OF s1 system_step.client_put]) (simp add: private_key_def vault_key_not_public)
  have s3: "system film_objects film_db {}" unfolding film_db_def
    by (rule system.step [OF s2 system_step.request]) (simp_all add: demo_db1_eval)
  have s4: "system film_objects queued_db {}" unfolding queued_db_def
    by (rule system.step [OF s3 system_step.request]) (simp_all add: film_db_eval AssetOwnedBy_def table_defs asset_is_def film_def demo_asset_def)
  have s5: "system film_objects running_db {claimed}" using system.step [OF s4 system_step.claim [OF claim_eval]] by simp
  show ?thesis
    by (rule system.step [OF s5 system_step.job [of claimed _ demo_outside demo_worker 60]]) (simp_all add: done_objects_def done_db_def)
qed

definition film_probe :: probe_result where
  "film_probe = \<lparr>pr_Kind = Video, pr_Width = 640, pr_Height = 360, pr_DurationS = 5, pr_Codec = ''h264'',
        pr_Container = ''mp4'', pr_AudioCodec = [], pr_BitrateBPS = 0\<rparr>"

definition film_record :: rendition_record where
  "film_record = \<lparr>rc_Key = RenditionKey (VaultKey ''alice'' ''A1'') ''loop'', rc_Mode = ''public'', rc_Width = Some 640,
     rc_Height = Some 360, rc_DurationS = Some 5, rc_HasAudio = Some False\<rparr>"

lemma film_checksum: "recordChecksum running_db ''A1'' (ChecksumPrefix @ []) n m = running_db"
  by (simp add: recordChecksum_def MarkChecksumVerified_def ChecksumPrefix_def)

lemma film_complete:
  "CompleteJob (running_db\<lparr>db_assets := [a]\<rparr>) 60 ''J1'' film_record = Inr (running_db\<lparr>db_assets := [a],
     db_renditions := [ready_row ''A1'' Loop film_record], db_jobs := [succeed_row 60 (claim_row 50 loop_job)]\<rparr>, ())"
  by (simp add: CompleteJob_def running_db_def queued_db_eval film_db_eval demo_db_eval demo_db0_eval empty_db_def
      loop_job_def queued_row_def claim_row_def table_defs)

lemma film_backfill: "BackfillVaultProbe running_db ''A1'' v = running_db\<lparr>db_assets := [backfill_row v film]\<rparr>"
  by (simp add: BackfillVaultProbe_def running_db_def queued_db_eval film_db_eval table_defs film_def demo_asset_def)

lemma film_run:
  "runOne demo_outside demo_worker 60 claimed film_objects running_db
   = (film_objects(RenditionKey (VaultKey ''alice'' ''A1'') ''loop'' \<mapsto> ''raw bytes!!''),
      running_db\<lparr>db_assets := [backfill_row (vaultRecordFromProbe film_probe) film],
        db_renditions := [ready_row ''A1'' Loop film_record], db_jobs := [succeed_row 60 (claim_row 50 loop_job)]\<rparr>)"
proof -
  have t: "Transcode demo_outside preset Loop src dst bytes = Some (bytes @ ''!'')" for preset src dst bytes
    by (simp add: Transcode_def transcode_args_def demo_outside_def)
  have p: "probeRendition demo_outside Loop bytes = Some (film_record\<lparr>rc_Key := [], rc_Mode := []\<rparr>)" for bytes
    by (simp add: probeRendition_def demo_outside_def film_record_def ptrInt32_def wrap32_def)
  have f: "fetch demo_outside film_objects (VaultKey ''alice'' ''A1'') = Some ''raw bytes!''"
    by (simp add: fetch_def demo_outside_def film_objects_def)
  have o: "io_work demo_outside = Some ''/tmp''" "io_put demo_outside k" "io_sha256 demo_outside b = []"
    "io_probe_av demo_outside b = Some film_probe" for k b
    by (simp_all add: demo_outside_def film_probe_def)
  have c: "cj_Mode claimed = Derive" "cj_VaultKey claimed = VaultKey ''alice'' ''A1''" "cj_Asset claimed = ''A1''"
    "cj_Intent claimed = Loop" "cj_ID claimed = ''J1''" by (simp_all add: claimed_def)
  have r: "film_record\<lparr>rc_Key := RenditionKey (VaultKey ''alice'' ''A1'') ''loop'', rc_Mode := ''public''\<rparr> = film_record"
    by (simp add: film_record_def)
  show ?thesis
    unfolding runOne_def process_def Let_def o c f film_checksum
    by (simp add: o c t p r film_checksum [simplified] film_backfill complete_def film_complete renditionKey_def)
qed

lemma film_asset:
  obtains a where "GetAsset done_db ''alice'' ''A1'' = Inr a" "asset_Kind a = Video"
    "dr_Delivery (resolveNonOriginal demo_service Loop Mobile a) \<noteq> None"
proof -
  let ?a = "(scanAssetRow done_db (backfill_row (vaultRecordFromProbe film_probe) film))
    \<lparr>asset_Renditions := [rendition_of_row (ready_row ''A1'' Loop film_record)]\<rparr>"
  have "GetAsset done_db ''alice'' ''A1'' = Inr ?a"
    by (simp add: GetAsset_def scanAsset_def scanAssetRow_def renditionsFor_def done_db_def film_run table_defs asset_is_def
        backfill_row_def film_def demo_asset_def ready_row_def Let_def)
  moreover have "asset_Kind ?a = Video" by (simp add: scanAssetRow_def backfill_row_def film_def)
  moreover have "dr_Delivery (resolveNonOriginal demo_service Loop Mobile ?a) \<noteq> None"
    by (simp add: resolveNonOriginal_def scanAssetRow_def backfill_row_def film_def demo_asset_def Resolve_def route_cases
        rendition_of_row_def ready_row_def)
  ultimately show thesis using that by blast
qed

text \<open>Deletion does not reach what is public: after the asset is marked, swept and purged the rendition is still there.\<close>

definition gone_db :: db where
  "gone_db = run_request 70 ''alice'' (R_MarkAssetDeleted ''A1'') done_db"

definition gone_objects :: objects where
  "gone_objects = fst (snd (SweepDeletedAssets demo_outside \<lparr>rn_grace = 10, rn_batchSize = 100\<rparr> 100 done_objects gone_db))"

definition purged_db :: db where
  "purged_db = snd (snd (SweepDeletedAssets demo_outside \<lparr>rn_grace = 10, rn_batchSize = 100\<rparr> 100 done_objects gone_db))"

lemma purged_steps: "system_step\<^sup>*\<^sup>* (done_objects, done_db, {claimed}) (gone_objects, purged_db, {claimed})"
proof -
  have "system_step (done_objects, done_db, {claimed}) (done_objects, gone_db, {claimed})"
    unfolding gone_db_def by (rule system_step.request) simp_all
  moreover have "system_step (done_objects, gone_db, {claimed}) (gone_objects, purged_db, {claimed})"
    by (rule system_step.sweep_deleted [of demo_outside "\<lparr>rn_grace = 10, rn_batchSize = 100\<rparr>" 100 _ _
          "fst (SweepDeletedAssets demo_outside \<lparr>rn_grace = 10, rn_batchSize = 100\<rparr> 100 done_objects gone_db)"])
       (simp add: gone_objects_def purged_db_def)
  ultimately show ?thesis by (meson converse_rtranclp_into_rtranclp rtranclp.rtrancl_refl)
qed

lemma purged_eval: "db_assets purged_db = [] \<and> GetAsset purged_db ''alice'' ''A1'' = Inl ErrNotFound \<and> gone_objects (VaultKey ''alice'' ''A1'') = None"
proof -
  let ?x = "set_deleted 70 (backfill_row (vaultRecordFromProbe film_probe) film)"
  have g: "gone_db = done_db\<lparr>db_assets := [?x]\<rparr>"
    by (simp add: gone_db_def done_db_def film_run MarkAssetDeleted_def scanAsset_def commit_def table_defs asset_is_def set_deleted_def
        backfill_row_def film_def demo_asset_def Let_def)
  have "ReclaimableDeletedAssets gone_db 90 100 = [\<lparr>da_ID = ''A1'', da_Account = ''alice'', da_VaultKey = VaultKey ''alice'' ''A1''\<rparr>]"
    by (simp add: ReclaimableDeletedAssets_def g set_deleted_def backfill_row_def film_def demo_asset_def)
  then show ?thesis
    by (simp add: gone_objects_def purged_db_def SweepDeletedAssets_def PurgeDeletedAsset_def GetAsset_def scanAsset_def g table_defs
        demo_outside_def set_deleted_def backfill_row_def film_def demo_asset_def)
qed

lemma delivered_bytes_exist_witness:
  "\<exists>a dl k bytes. GetAsset done_db ''alice'' ''A1'' = Inr a \<and> GetAsset purged_db ''alice'' ''A1'' = Inl ErrNotFound
     \<and> dr_Delivery (resolveNonOriginal demo_service Loop Mobile a) = Some dl
     \<and> gone_objects k = Some bytes \<and> dl_Url dl = ''https://pub.io'' @ ''/'' @ k"
proof -
  obtain a dl where a: "GetAsset done_db ''alice'' ''A1'' = Inr a" "asset_Kind a = Video"
    "dr_Delivery (resolveNonOriginal demo_service Loop Mobile a) = Some dl"
    using film_asset by blast
  have "ub_R2PublicBase (sv_urls demo_service) = ''https://pub.io''" by (simp add: demo_service_def)
  then show ?thesis
    using delivered_bytes_exist [OF film_system a(1) disjI1 [OF a(2)] a(3) purged_steps] a(1,3) purged_eval by auto
qed

end
