(* ===== verification/Sweep_Props.thy ===== *)
theory Sweep_Props
  imports Delivered_Bytes
begin

text \<open>
  The sweeps and the checksum pass: they never touch the bytes of a live original, and an authored
  upload is never marked as finalized.
\<close>

section \<open>Sweeps spare live originals\<close>

lemma sweep_uploads_assets: "sweep_uploads io now us n obs d = (m, obs', d') \<Longrightarrow> db_assets d' = db_assets d"
  by (erule upload_sweep.rows [where P = "\<lambda>d'. db_assets d' = db_assets d"]) (auto simp: MarkUploadSwept_def)

lemma sweep_deleted_keeps:
  "sweep_deleted io as n obs d = (m, obs', d') \<Longrightarrow> a \<in> set (db_assets d) \<Longrightarrow> ar_id a \<notin> da_ID ` set as \<Longrightarrow> a \<in> set (db_assets d')"
  by (erule deleted_sweep.rows [where P = "\<lambda>d. a \<in> set (db_assets d)"]) (auto simp: PurgeDeletedAsset_def delete_where_def)

lemma reclaimable_uploads:
  "u \<in> set (ReclaimableUploads d cutoff n) \<Longrightarrow> \<exists>r \<in> set (db_uploads d). u_ID u = uw_id r \<and> u_Key u = uw_key r
     \<and> uw_finalized r = None \<and> uw_swept r = None \<and> uw_created r < cutoff"
  by (auto simp: ReclaimableUploads_def Let_def dest!: in_set_takeD)

lemma reclaimable_assets:
  "a \<in> set (ReclaimableDeletedAssets d cutoff n) \<Longrightarrow> \<exists>r \<in> set (db_assets d). da_ID a = ar_id r \<and> da_VaultKey a = ar_vault_key r
     \<and> (\<exists>t. ar_deleted r = Some t \<and> t < cutoff)"
  by (auto simp: ReclaimableDeletedAssets_def Let_def split: option.splits dest!: in_set_takeD) blast

definition slash_free_uploads :: "db \<Rightarrow> bool" where
  "slash_free_uploads d \<longleftrightarrow> (\<forall>u \<in> set (db_uploads d). CHR ''/'' \<notin> set (uw_account u))"

lemma orphan_key_not_original:
  assumes "reachable d" "slash_free_uploads d" "r \<in> set (db_uploads d)" "uw_finalized r = None" "a \<in> set (db_assets d)"
  shows "uw_key r \<noteq> ar_vault_key a"
proof
  assume eq: "uw_key r = ar_vault_key a"
  obtain u where u: "u \<in> set (db_uploads d)" "own_upload (ar_account a) (ar_id a) u" "uw_finalized u \<noteq> None"
    using reachable_asset_upload [OF assms(1,5)] by blast
  have v: "uw_key r = VaultKey (uw_account u) (uw_id u)"
    using eq reachable_vault_key [OF assms(1,5)] u(2) by (simp add: own_upload_def)
  have "uw_rasset r = None"
    using reachable_upload_key [OF assms(1,3)] v vault_staging_disjoint by (auto split: option.splits)
  then have "VaultKey (uw_account r) (uw_id r) = VaultKey (uw_account u) (uw_id u)"
    using reachable_upload_key [OF assms(1,3)] v by simp
  then have "uw_id r = uw_id u" using vault_key_inj [of "uw_account r" "uw_account u"] assms(2,3) u(1) by (simp add: slash_free_uploads_def)
  then have "r = u" using assms(1,3) u(1) reachable_keys distinct_key_eq [of uw_id "db_uploads d" r u] by (simp add: keys_ok_def)
  then show False using assms(4) u(3) by simp
qed

text \<open>Housekeeping never takes a live original: after both sweeps the object at an asset's vault key is
  what it was before and the asset is still there, unless the asset itself was marked deleted
  longer ago than the grace period. In particular an abandoned or authored upload can share no key
  with an original.\<close>
theorem sweeps_spare_originals:
  assumes "reachable d" "slash_free_uploads d" "a \<in> set (db_assets d)"
    "\<And>t. ar_deleted a = Some t \<Longrightarrow> now - rn_grace r \<le> t" "sweepBoth io r now obs d = (obs', d', swept)"
  shows "obs' (ar_vault_key a) = obs (ar_vault_key a) \<and> a \<in> set (db_assets d')"
proof -
  obtain n obs1 d1 m where s1: "SweepOnce io r now obs d = (n, obs1, d1)"
    and s2: "SweepDeletedAssets io r now obs1 d1 = (m, obs', d')"
    using assms(5) by (auto simp: sweepBoth_def Let_def split: prod.splits)
  have "ar_vault_key a \<notin> u_Key ` set (ReclaimableUploads d (now - rn_grace r) (rn_batchSize r))"
    using reclaimable_uploads orphan_key_not_original [OF assms(1,2) _ _ assms(3)] by fastforce
  then have o1: "obs1 (ar_vault_key a) = obs (ar_vault_key a)"
    using upload_sweep.other s1 by (simp add: SweepOnce_def)
  have d1: "db_assets d1 = db_assets d" using sweep_uploads_assets s1 by (simp add: SweepOnce_def)
  let ?as = "ReclaimableDeletedAssets d1 (now - rn_grace r) (rn_batchSize r)"
  have marked: "x \<noteq> a" if "x \<in> set (db_assets d)" "ar_deleted x = Some t" "t < now - rn_grace r" for x t
    using that assms(4) by force
  have dist: "x = a" if "x \<in> set (db_assets d)" "ar_id x = ar_id a" for x
    using that assms(1,3) reachable_keys distinct_key_eq [of ar_id "db_assets d" x a] by (simp add: keys_ok_def)
  have slash: "CHR ''/'' \<notin> set (ar_account x)" if "x \<in> set (db_assets d)" for x
    using reachable_asset_upload [OF assms(1) that] assms(2) by (auto simp: slash_free_uploads_def own_upload_def)
  have "x = a" if "x \<in> set (db_assets d)" "ar_vault_key x = ar_vault_key a" for x
    using that dist reachable_vault_key [OF assms(1) that(1)] reachable_vault_key [OF assms(1,3)]
      vault_key_inj [OF slash [OF that(1)] slash [OF assms(3)]] by simp
  then have key: "ar_vault_key x \<noteq> ar_vault_key a \<and> ar_id x \<noteq> ar_id a"
    if "x \<in> set (db_assets d)" "ar_deleted x = Some t" "t < now - rn_grace r" for x t
    using that marked dist by blast
  have "da_VaultKey x \<noteq> ar_vault_key a \<and> da_ID x \<noteq> ar_id a" if x: "x \<in> set ?as" for x
  proof -
    obtain y t where "y \<in> set (db_assets d)" "da_ID x = ar_id y" "da_VaultKey x = ar_vault_key y"
      "ar_deleted y = Some t" "t < now - rn_grace r"
      using reclaimable_assets [OF x] unfolding d1 by blast
    then show ?thesis using key [of y t] by simp
  qed
  then have "ar_vault_key a \<notin> da_VaultKey ` set ?as" "ar_id a \<notin> da_ID ` set ?as" unfolding image_iff by metis+
  then show ?thesis
    using deleted_sweep.other [OF s2 [unfolded SweepDeletedAssets_def]] sweep_deleted_keeps [OF s2 [unfolded SweepDeletedAssets_def], of a]
      o1 d1 assms(3) by simp
qed

lemma sweeps_spare_originals_witness:
  "case sweepBoth demo_outside (NewReconciler 0 0) (10 ^ 20) film_objects film_db of (obs', d', swept) \<Rightarrow>
     obs' (VaultKey ''alice'' ''A1'') = Some ''raw bytes!'' \<and> film \<in> set (db_assets d')"
proof -
  obtain obs' d' swept where s: "sweepBoth demo_outside (NewReconciler 0 0) (10 ^ 20) film_objects film_db = (obs', d', swept)"
    by (cases "sweepBoth demo_outside (NewReconciler 0 0) (10 ^ 20) film_objects film_db") auto
  have r: "reachable film_db" unfolding film_db_def
    by (rule reachable.step [OF demo_reachable1 store_step.request]) (simp add: demo_db1_eval)
  have f: "slash_free_uploads film_db" "film \<in> set (db_assets film_db)" "ar_deleted film = None"
    "ar_vault_key film = VaultKey ''alice'' ''A1''"
    by (simp_all add: slash_free_uploads_def film_db_eval demo_db_eval film_def demo_asset_def)
  show ?thesis
    using sweeps_spare_originals [OF r f(1,2) _ s] f(3,4)
    unfolding s prod.case by (simp add: film_objects_def)
qed

section \<open>Staged authored files\<close>

text \<open>An authored upload is never finalized: finalize enqueues its job and leaves the row as it was.\<close>

definition sk_authored :: "skeleton \<Rightarrow> bool" where
  "sk_authored s \<longleftrightarrow> (\<forall>(i, a, k, ra, f) \<in> set (sk_uploads s). ra \<noteq> None \<longrightarrow> \<not> f)"

lemma sk_authored_step:
  assumes "sk_step s s'" "sk_keys s" "sk_authored s"
  shows "sk_authored s'"
  using assms
proof (induction rule: sk_step.induct)
  case (finalize i a k f s)
  have "ra = None" if "(i, b, k', ra, g) \<in> set (sk_uploads s)" for b k' ra g
  proof -
    have "distinct (map fst (sk_uploads s))" using finalize.prems(1) by (simp add: sk_keys_def)
    then have "(b, k', ra, g) = (a, k, None, f)" using finalize.hyps(1) that by (metis eq_key_imp_eq_value)
    then show ?thesis by simp
  qed
  then show ?case using finalize.prems(2) by (fastforce simp: sk_authored_def mark_finalized_def)
qed (auto simp: sk_authored_def)

lemma authored_never_finalized: "reachable d \<Longrightarrow> u \<in> set (db_uploads d) \<Longrightarrow> uw_rasset u \<noteq> None \<Longrightarrow> uw_finalized u = None"
proof -
  have "sk_authored (abs_store d)" if "reachable d" for d
    using that
  proof (induction rule: reachable.induct)
    case init then show ?case by (simp add: sk_authored_def abs_store_def empty_db_def)
  next
    case (step d d')
    then show ?case using sk_authored_step [OF store_step_refines] reachable_inv by (simp add: sk_inv_def)
  qed
  then show "reachable d \<Longrightarrow> u \<in> set (db_uploads d) \<Longrightarrow> uw_rasset u \<noteq> None \<Longrightarrow> uw_finalized u = None"
    by (fastforce simp: sk_authored_def abs_store_def upload_key_def)
qed

lemma sweep_uploads_rows:
  "sweep_uploads io now us n obs d = (m, obs', d') \<Longrightarrow> v \<in> set (db_uploads d) \<Longrightarrow> uw_id v \<notin> u_ID ` set us \<Longrightarrow> v \<in> set (db_uploads d')"
  by (erule upload_sweep.rows [where P = "\<lambda>d. v \<in> set (db_uploads d)"]) (auto simp: MarkUploadSwept_def set_update_where)

end
