(* ===== verification/Checksum_Props.thy ===== *)
theory Checksum_Props
  imports Sweep_Props
begin

text \<open>
  The checksum pass: it ends on its own, and what it leaves verified is the digest of the object
  at the asset's vault key.
\<close>

section \<open>One turn of the pass\<close>

definition stale_row :: "time \<Rightarrow> asset_row \<Rightarrow> bool" where
  "stale_row h r = (case ar_checked_at r of None \<Rightarrow> True | Some t \<Rightarrow> t < h)"

definition turn_to :: "outside \<Rightarrow> pass_env \<Rightarrow> checksummer \<Rightarrow> objects \<Rightarrow> nat \<Rightarrow> db \<Rightarrow> db \<Rightarrow> bool" where
  "turn_to io e c obs k d d2 \<longleftrightarrow> (\<exists>d1 cand.
     ClaimChecksumCandidate d (pe_dbclock e k) (pe_clock e k - ck_retryAfter c) = Inr (d1, cand)
     \<and> (d2 = d1 \<or> d2 = ReleaseChecksumClaim d1 (cc_ID cand)
       \<or> (\<exists>s u. hash_object io e obs k (cc_VaultKey cand) = (Some s, cc_SizeBytes cand)
           \<and> MarkChecksumVerified d1 (cc_ID cand) s = Inr (d2, u))))"

lemma claim_error: "ClaimChecksumCandidate d now b = Inl err \<Longrightarrow> err = ErrNoChecksumPending \<and> pick_candidate d b = None"
  by (auto simp: ClaimChecksumCandidate_def split: option.splits)

text \<open>The turn of a claimed object: a failed read is counted or interrupts the pass, a full read is recorded.\<close>

lemma turn_failed:
  assumes "mx \<le> 0 \<or> int k < mx" "\<not> pe_done e k"
    "ClaimChecksumCandidate d (pe_dbclock e k) (pe_clock e k - ck_retryAfter c) = Inr (d1, cand)"
    "hash_object io e obs k (cc_VaultKey cand) = (digest, n)" "digest = None \<or> n \<noteq> cc_SizeBytes cand"
  shows "run_pass (Suc fuel) io e c obs mx k d res = (let res1 = res\<lparr>ps_Bytes := ps_Bytes res + n\<rparr> in
     if pe_interrupted e k then Some (res1, PassInterrupted, ReleaseChecksumClaim d1 (cc_ID cand))
     else run_pass fuel io e c obs mx (Suc k) d1 (res1\<lparr>ps_Failed := ps_Failed res1 + 1\<rparr>))"
  using assms by (cases digest) auto

lemma turn_read:
  assumes "mx \<le> 0 \<or> int k < mx" "\<not> pe_done e k"
    "ClaimChecksumCandidate d (pe_dbclock e k) (pe_clock e k - ck_retryAfter c) = Inr (d1, cand)"
    "hash_object io e obs k (cc_VaultKey cand) = (Some s, cc_SizeBytes cand)"
  shows "run_pass (Suc fuel) io e c obs mx k d res = (let res1 = res\<lparr>ps_Bytes := ps_Bytes res + cc_SizeBytes cand\<rparr> in
     case MarkChecksumVerified d1 (cc_ID cand) s of
       Inl err \<Rightarrow> if err = ErrChecksumMismatch
         then run_pass fuel io e c obs mx (Suc k) d1 (res1\<lparr>ps_Mismatched := ps_Mismatched res1 + 1\<rparr>)
         else Some (res1, PassError err, d1)
     | Inr (d2, _) \<Rightarrow> run_pass fuel io e c obs mx (Suc k) d2 (res1\<lparr>ps_Hashed := ps_Hashed res1 + 1\<rparr>))"
  using assms by simp

declare run_pass.simps(2) [simp del]

lemma turn_claimed:
  assumes "mx \<le> 0 \<or> int k < mx" "\<not> pe_done e k"
    "ClaimChecksumCandidate d (pe_dbclock e k) (pe_clock e k - ck_retryAfter c) = Inr (d1, cand)"
  shows "(\<exists>r e' d'. run_pass (Suc fuel) io e c obs mx k d res = Some (r, e', d') \<and> turn_to io e c obs k d d' \<and> e' \<noteq> PassDone)
    \<or> (\<exists>d2 res2. run_pass (Suc fuel) io e c obs mx k d res = run_pass fuel io e c obs mx (Suc k) d2 res2
        \<and> turn_to io e c obs k d d2 \<and> (d2 = d1 \<or> (\<exists>s u. MarkChecksumVerified d1 (cc_ID cand) s = Inr (d2, u))))"
proof -
  obtain digest n where h: "hash_object io e obs k (cc_VaultKey cand) = (digest, n)"
    by (cases "hash_object io e obs k (cc_VaultKey cand)")
  have t1: "turn_to io e c obs k d d1" "turn_to io e c obs k d (ReleaseChecksumClaim d1 (cc_ID cand))"
    using assms(3) by (auto simp: turn_to_def)
  let ?run = "run_pass (Suc fuel) io e c obs mx k d res"
  have ends: ?thesis if "?run = Some (r, e', d')" "turn_to io e c obs k d d'" "e' \<noteq> PassDone" for r e' d'
    using that by blast
  have goes: ?thesis if "?run = run_pass fuel io e c obs mx (Suc k) d2 r" "turn_to io e c obs k d d2"
      "d2 = d1 \<or> (\<exists>s u. MarkChecksumVerified d1 (cc_ID cand) s = Inr (d2, u))" for d2 r
    using that by blast
  show ?thesis
  proof (cases "digest = None \<or> n \<noteq> cc_SizeBytes cand")
    case True
    note run = turn_failed [OF assms h True, of fuel res, unfolded Let_def]
    show ?thesis
    proof (cases "pe_interrupted e k")
      case True
      show ?thesis by (rule ends) (rule run [unfolded if_P [OF True]], rule t1, simp)
    next
      case False
      show ?thesis by (rule goes) (rule run [unfolded if_not_P [OF False]], rule t1, simp)
    qed
  next
    case False
    then obtain s where h': "hash_object io e obs k (cc_VaultKey cand) = (Some s, cc_SizeBytes cand)" using h by auto
    note run = turn_read [OF assms h', of fuel res, unfolded Let_def]
    show ?thesis
    proof (cases "MarkChecksumVerified d1 (cc_ID cand) s")
      case (Inl err)
      show ?thesis
      proof (cases "err = ErrChecksumMismatch")
        case True
        show ?thesis by (rule goes) (rule run [unfolded Inl sum.case if_P [OF True]], rule t1, simp)
      next
        case False
        show ?thesis by (rule ends) (rule run [unfolded Inl sum.case if_not_P [OF False]], rule t1, simp)
      qed
    next
      case (Inr y)
      obtain d2 u where y: "y = (d2, u)" by (cases y)
      have t2: "turn_to io e c obs k d d2" using assms(3) h' Inr y by (auto simp: turn_to_def)
      show ?thesis by (rule goes) (rule run [unfolded Inr y sum.case prod.case], rule t2, use Inr y in blast)
    qed
  qed
qed

lemma pass_turn:
  obtains (stop) r e' d' where "run_pass (Suc fuel) io e c obs mx k d res = Some (r, e', d')"
      "d' = d \<or> turn_to io e c obs k d d'"
      "e' = PassDone \<Longrightarrow> mx \<le> 0 \<Longrightarrow> pick_candidate d' (pe_clock e k - ck_retryAfter c) = None"
  | (go) d1 cand d2 res2 where "run_pass (Suc fuel) io e c obs mx k d res = run_pass fuel io e c obs mx (Suc k) d2 res2"
      "turn_to io e c obs k d d2"
      "ClaimChecksumCandidate d (pe_dbclock e k) (pe_clock e k - ck_retryAfter c) = Inr (d1, cand)"
      "d2 = d1 \<or> (\<exists>s u. MarkChecksumVerified d1 (cc_ID cand) s = Inr (d2, u))"
proof (cases "\<not> (mx \<le> 0 \<or> int k < mx) \<or> pe_done e k")
  case True
  then have "run_pass (Suc fuel) io e c obs mx k d res
      = Some (res, if mx \<le> 0 \<or> int k < mx then PassInterrupted else PassDone, d)" by (auto simp: run_pass.simps(2))
  then show thesis by (rule stop) (auto split: if_splits)
next
  case False
  show thesis
  proof (cases "ClaimChecksumCandidate d (pe_dbclock e k) (pe_clock e k - ck_retryAfter c)")
    case (Inl err)
    then have "run_pass (Suc fuel) io e c obs mx k d res = Some (res, PassDone, d)"
      using False claim_error [OF Inl] by (simp add: run_pass.simps(2))
    then show thesis by (rule stop) (use claim_error [OF Inl] in simp_all)
  next
    case (Inr x)
    obtain d1 cand where x: "x = (d1, cand)" by (cases x)
    have "mx \<le> 0 \<or> int k < mx" "\<not> pe_done e k" using False by simp_all
    from turn_claimed [OF this Inr [unfolded x], of fuel io obs res] show thesis
    proof (elim disjE exE conjE)
      fix r e' d'
      assume run: "run_pass (Suc fuel) io e c obs mx k d res = Some (r, e', d')" and t: "turn_to io e c obs k d d'" "e' \<noteq> PassDone"
      show thesis by (rule stop [OF run disjI2 [OF t(1)]]) (use t(2) in blast)
    next
      fix d2 res2
      assume run: "run_pass (Suc fuel) io e c obs mx k d res = run_pass fuel io e c obs mx (Suc k) d2 res2"
        and t: "turn_to io e c obs k d d2"
      show thesis if "d2 = d1" by (rule go [OF run t Inr [unfolded x] disjI1 [OF that]])
      show thesis if "MarkChecksumVerified d1 (cc_ID cand) s = Inr (d2, u)" for s u
        by (rule go [OF run t Inr [unfolded x]]) (use that in blast)
    qed
  qed
qed

section \<open>Termination\<close>

definition stale_count :: "time \<Rightarrow> db \<Rightarrow> nat" where
  "stale_count h d = length (filter (stale_row h) (db_assets d))"

lemma pick_candidate_in: "pick_candidate d b = Some r \<Longrightarrow> r \<in> set (filter (checksum_candidate d b) (db_assets d))"
proof -
  assume "pick_candidate d b = Some r"
  then obtain rs where "sort_key (\<lambda>r. fst (checked_rank r)) (sort_key (\<lambda>r. snd (checked_rank r))
      (sort_key (\<lambda>r. - ar_created r) (sort_key ar_id (filter (checksum_candidate d b) (db_assets d))))) = r # rs"
    by (auto simp: pick_candidate_def split: list.splits)
  from arg_cong [OF this, of set] have eq: "set (filter (checksum_candidate d b) (db_assets d)) = set (r # rs)"
    by (simp only: set_sort)
  show ?thesis unfolding eq by simp
qed

lemma filter_update_le:
  "(\<And>x. p x \<Longrightarrow> \<not> q (f x)) \<Longrightarrow> length (filter q (update_where p f xs)) \<le> length (filter q xs)"
  by (induction xs) (simp_all add: update_where_def le_SucI)

lemma filter_update_less:
  assumes "\<And>x. p x \<Longrightarrow> \<not> q (f x)" "r \<in> set xs" "p r" "q r"
  shows "length (filter q (update_where p f xs)) < length (filter q xs)"
  using assms(2)
proof (induction xs)
  case (Cons a xs)
  have "length (filter q (update_where p f xs)) \<le> length (filter q xs)" by (rule filter_update_le) (rule assms(1))
  then show ?case using Cons assms by (auto simp: update_where_def)
qed simp

lemma claim_stale_count:
  assumes "ClaimChecksumCandidate d t b = Inr (d1, cand)" "b \<le> h" "h \<le> t"
  shows "stale_count h d1 < stale_count h d"
proof -
  obtain r where r: "pick_candidate d b = Some r"
    and d1: "d1 = d\<lparr>db_assets := update_where (\<lambda>x. ar_id x = ar_id r) (\<lambda>x. x\<lparr>ar_checked_at := Some t\<rparr>) (db_assets d)\<rparr>"
    using assms(1) by (auto simp: ClaimChecksumCandidate_def split: option.splits)
  have "r \<in> set (filter (checksum_candidate d b) (db_assets d))"
    by (rule pick_candidate_in [OF r])
  then have mem: "r \<in> set (db_assets d)" "stale_row b r" by (auto simp: checksum_candidate_def stale_row_def)
  then have st: "stale_row h r" using assms(2) by (auto simp: stale_row_def split: option.splits)
  have "length (filter (stale_row h) (update_where (\<lambda>x. ar_id x = ar_id r) (\<lambda>x. x\<lparr>ar_checked_at := Some t\<rparr>) (db_assets d)))
      < length (filter (stale_row h) (db_assets d))"
    by (rule filter_update_less, use assms(3) mem(1) st in \<open>simp_all add: stale_row_def\<close>)
  then show ?thesis by (simp add: stale_count_def d1)
qed

lemma mark_stale_count: "MarkChecksumVerified d i s = Inr (d', u) \<Longrightarrow> stale_count h d' = stale_count h d"
proof -
  have "length (filter (stale_row h) (update_where p (set_checksum s) xs)) = length (filter (stale_row h) xs)" for p xs
    by (induction xs) (auto simp: update_where_def stale_row_def set_checksum_def)
  then show "MarkChecksumVerified d i s = Inr (d', u) \<Longrightarrow> stale_count h d' = stale_count h d"
    by (auto simp: MarkChecksumVerified_def Let_def stale_count_def split: if_splits)
qed

text \<open>The clocks of a pass: no turn begins so late that what the pass itself claimed is due again.\<close>

definition short_pass :: "pass_env \<Rightarrow> checksummer \<Rightarrow> time \<Rightarrow> bool" where
  "short_pass e c h \<longleftrightarrow> (\<forall>k. pe_clock e k - ck_retryAfter c \<le> h \<and> h \<le> pe_dbclock e k)"

lemma pass_ends:
  "short_pass e c h \<Longrightarrow> stale_count h d < fuel \<Longrightarrow> run_pass fuel io e c obs mx k d res \<noteq> None"
proof (induction fuel arbitrary: k d res)
  case (Suc fuel)
  show ?case
  proof (cases rule: pass_turn [of fuel io e c obs mx k d res])
    case (stop r e' d') then show ?thesis by simp
  next
    case (go d1 cand d2 res2)
    have "stale_count h d1 < stale_count h d"
      by (rule claim_stale_count [OF go(3)]) (use Suc.prems(1) in \<open>simp_all add: short_pass_def\<close>)
    moreover have "stale_count h d2 = stale_count h d1" using go(4) mark_stale_count by auto
    ultimately have "stale_count h d2 < fuel" using Suc.prems(2) by simp
    then show ?thesis using Suc.IH [OF Suc.prems(1)] go(1) by simp
  qed
qed simp

section \<open>Soundness\<close>

definition digest_of_object :: "outside \<Rightarrow> objects \<Rightarrow> asset_row \<Rightarrow> bool" where
  "digest_of_object io obs a \<longleftrightarrow> (\<exists>bytes. obs (ar_vault_key a) = Some bytes \<and> int (length bytes) = ar_size a
     \<and> ar_checksum a = ChecksumPrefix @ io_sha256 io bytes)"

definition pass_sound :: "outside \<Rightarrow> objects \<Rightarrow> db \<Rightarrow> db \<Rightarrow> bool" where
  "pass_sound io obs d0 d \<longleftrightarrow> map ar_id (db_assets d) = map ar_id (db_assets d0)
     \<and> (\<forall>a \<in> set (db_assets d). verified_sha256 a \<longrightarrow> digest_of_object io obs a
          \<or> (\<exists>b \<in> set (db_assets d0). ar_id b = ar_id a \<and> verified_sha256 b \<and> ar_checksum b = ar_checksum a))"

lemma pass_sound_touch:
  assumes "pass_sound io obs d0 d" "db_assets d' = update_where p f (db_assets d)"
    "\<And>a. a \<in> set (db_assets d) \<Longrightarrow> p a \<Longrightarrow> ar_id (f a) = ar_id a \<and> (verified_sha256 (f a) \<longrightarrow> digest_of_object io obs (f a)
        \<or> verified_sha256 a \<and> ar_checksum (f a) = ar_checksum a \<and> ar_vault_key (f a) = ar_vault_key a \<and> ar_size (f a) = ar_size a)"
  shows "pass_sound io obs d0 d'"
proof -
  have "map ar_id (db_assets d') = map ar_id (db_assets d)"
    unfolding assms(2) by (simp add: update_where_def assms(3))
  moreover have "digest_of_object io obs a
      \<or> (\<exists>b \<in> set (db_assets d0). ar_id b = ar_id a \<and> verified_sha256 b \<and> ar_checksum b = ar_checksum a)"
    if a: "a \<in> set (db_assets d')" and v: "verified_sha256 a" for a
  proof -
    obtain x where x: "x \<in> set (db_assets d)" "a = x \<or> (p x \<and> a = f x)" using a by (auto simp: assms(2) set_update_where)
    show ?thesis
    proof (cases "digest_of_object io obs a \<or> a = x")
      case True then show ?thesis using assms(1) x(1) v by (auto simp: pass_sound_def)
    next
      case False
      then have p: "p x" "a = f x" using x(2) by auto
      note f = assms(3) [OF x(1) p(1)]
      then have "verified_sha256 x" "ar_checksum a = ar_checksum x" "ar_vault_key a = ar_vault_key x" "ar_size a = ar_size x"
        using False v p(2) by auto
      moreover have "digest_of_object io obs x \<Longrightarrow> digest_of_object io obs a"
        using calculation by (simp add: digest_of_object_def)
      ultimately show ?thesis using assms(1) x(1) f False p(2) by (auto simp: pass_sound_def)
    qed
  qed
  ultimately show ?thesis using assms(1) by (simp add: pass_sound_def)
qed

lemma claim_sound:
  assumes "pass_sound io obs d0 d" "ClaimChecksumCandidate d t b = Inr (d1, cand)" "distinct (map ar_id (db_assets d))"
  shows "pass_sound io obs d0 d1
    \<and> (\<forall>a \<in> set (db_assets d1). ar_id a = cc_ID cand \<longrightarrow> ar_vault_key a = cc_VaultKey cand \<and> ar_size a = cc_SizeBytes cand)"
proof -
  obtain r where r: "pick_candidate d b = Some r"
    and d1: "d1 = d\<lparr>db_assets := update_where (\<lambda>x. ar_id x = ar_id r) (\<lambda>x. x\<lparr>ar_checked_at := Some t\<rparr>) (db_assets d)\<rparr>"
    and c: "cc_ID cand = ar_id r" "cc_VaultKey cand = ar_vault_key r" "cc_SizeBytes cand = ar_size r"
    using assms(2) by (auto simp: ClaimChecksumCandidate_def split: option.splits)
  have mem: "r \<in> set (db_assets d)" using pick_candidate_in [OF r] by simp
  have key: "ar_vault_key x = ar_vault_key r \<and> ar_size x = ar_size r" if "x \<in> set (db_assets d)" "ar_id x = ar_id r" for x
  proof -
    have "x = r" using that mem assms(3) by (simp add: inj_on_def distinct_map)
    then show ?thesis by simp
  qed
  have "ar_vault_key a = cc_VaultKey cand \<and> ar_size a = cc_SizeBytes cand"
    if a: "a \<in> set (db_assets d1)" "ar_id a = cc_ID cand" for a
  proof -
    obtain x where x: "x \<in> set (db_assets d)" "a = x \<or> a = x\<lparr>ar_checked_at := Some t\<rparr>"
      using a(1) unfolding d1 by (auto simp: set_update_where)
    then have "ar_id x = ar_id r" "ar_vault_key a = ar_vault_key x" "ar_size a = ar_size x" using a(2) c(1) by auto
    then show ?thesis using key [OF x(1)] c by simp
  qed
  moreover have "pass_sound io obs d0 d1"
    by (rule pass_sound_touch [OF assms(1), where d' = d1 and p = "\<lambda>x. ar_id x = ar_id r" and f = "\<lambda>x. x\<lparr>ar_checked_at := Some t\<rparr>"])
       (simp_all add: d1 verified_sha256_def)
  ultimately show ?thesis by simp
qed

lemma turn_sound:
  assumes "turn_to io e c obs k d d2" "pass_sound io obs d0 d" "distinct (map ar_id (db_assets d0))"
  shows "pass_sound io obs d0 d2"
proof -
  have ids: "distinct (map ar_id (db_assets d))" using assms(2,3) by (simp add: pass_sound_def)
  obtain d1 cand where claim: "ClaimChecksumCandidate d (pe_dbclock e k) (pe_clock e k - ck_retryAfter c) = Inr (d1, cand)"
    and cases: "d2 = d1 \<or> d2 = ReleaseChecksumClaim d1 (cc_ID cand)
       \<or> (\<exists>s u. hash_object io e obs k (cc_VaultKey cand) = (Some s, cc_SizeBytes cand)
           \<and> MarkChecksumVerified d1 (cc_ID cand) s = Inr (d2, u))"
    using assms(1) unfolding turn_to_def by blast
  have d1: "pass_sound io obs d0 d1"
    and cand: "a \<in> set (db_assets d1) \<Longrightarrow> ar_id a = cc_ID cand \<Longrightarrow> ar_vault_key a = cc_VaultKey cand \<and> ar_size a = cc_SizeBytes cand" for a
    using claim_sound [OF assms(2) claim ids] by auto
  from cases show ?thesis
  proof (elim disjE exE conjE)
    assume "d2 = d1" then show ?thesis using d1 by simp
  next
    assume "d2 = ReleaseChecksumClaim d1 (cc_ID cand)"
    then show ?thesis
      by (intro pass_sound_touch [OF d1, where d' = d2 and p = "\<lambda>r. ar_id r = cc_ID cand" and f = "\<lambda>r. r\<lparr>ar_checked_at := None\<rparr>"])
         (simp_all add: ReleaseChecksumClaim_def verified_sha256_def)
  next
    fix s u assume h: "hash_object io e obs k (cc_VaultKey cand) = (Some s, cc_SizeBytes cand)"
      and m: "MarkChecksumVerified d1 (cc_ID cand) s = Inr (d2, u)"
    have obj: "\<exists>bytes. obs (cc_VaultKey cand) = Some bytes \<and> int (length bytes) = cc_SizeBytes cand \<and> s = ChecksumPrefix @ io_sha256 io bytes"
      using h by (auto simp: hash_object_def fetch_def split: option.splits if_splits)
    show ?thesis
      by (rule pass_sound_touch [OF d1, where d' = d2 and p = "\<lambda>r. ar_id r = cc_ID cand \<and> \<not> (verified_sha256 r \<and> ar_checksum r \<noteq> s)"
            and f = "set_checksum s"])
         (use m obj cand in \<open>auto simp: MarkChecksumVerified_def Let_def set_checksum_def digest_of_object_def split: if_splits\<close>)
  qed
qed

lemma pass_sound_all:
  "run_pass fuel io e c obs mx k d res = Some (r, e', d') \<Longrightarrow> pass_sound io obs d0 d \<Longrightarrow> distinct (map ar_id (db_assets d0)) \<Longrightarrow>
    pass_sound io obs d0 d' \<and> (e' = PassDone \<longrightarrow> mx \<le> 0 \<longrightarrow> (\<exists>k. pick_candidate d' (pe_clock e k - ck_retryAfter c) = None))"
proof (induction fuel arbitrary: k d res)
  case (Suc fuel)
  show ?case
  proof (cases rule: pass_turn [of fuel io e c obs mx k d res])
    case (stop r0 e0 d0')
    then have eq: "r0 = r" "e0 = e'" "d0' = d'" using Suc.prems(1) by simp_all
    then have "pass_sound io obs d0 d'" using stop(2) turn_sound Suc.prems(2,3) by blast
    then show ?thesis using stop(3) eq by blast
  next
    case (go d1 cand d2 res2)
    then show ?thesis using Suc turn_sound by metis
  qed
qed simp

text \<open>C32: A checksum pass ends by itself within one turn per asset when it is short, that is, when no
  object's retry interval elapses while it runs; and, short or not, whatever it meets on the way (unreadable or
  short objects, mismatches, an interrupt), a checksum that is verified afterwards either was
  verified before the pass, with the same digest (the pass does not look at such an object again),
  or is the digest of all the bytes at the asset's vault key. When an unlimited pass reports done,
  no candidate is left.\<close>
theorem checksum_pass_correct:
  assumes "distinct (map ar_id (db_assets d))"
  shows "(\<forall>h. short_pass e c h \<longrightarrow> length (db_assets d) < fuel \<longrightarrow> RunPass io e c obs mx fuel d \<noteq> None)
    \<and> (\<forall>res e' d'. RunPass io e c obs mx fuel d = Some (res, e', d') \<longrightarrow> pass_sound io obs d d'
        \<and> (e' = PassDone \<longrightarrow> mx \<le> 0 \<longrightarrow> (\<exists>k. pick_candidate d' (pe_clock e k - ck_retryAfter c) = None)))"
proof (intro conjI allI impI)
  show "RunPass io e c obs mx fuel d \<noteq> None" if "short_pass e c h" "length (db_assets d) < fuel" for h
  proof -
    have "stale_count h d \<le> length (db_assets d)" by (simp add: stale_count_def)
    then show ?thesis unfolding RunPass_def using that(2) by (intro pass_ends [OF that(1)]) simp
  qed
  fix res e' d' assume run: "RunPass io e c obs mx fuel d = Some (res, e', d')"
  have "pass_sound io obs d d" by (auto simp: pass_sound_def)
  note s = pass_sound_all [OF run [unfolded RunPass_def] this assms]
  show "pass_sound io obs d d'" using s by blast
  show "\<exists>k. pick_candidate d' (pe_clock e k - ck_retryAfter c) = None" if "e' = PassDone" "mx \<le> 0" using s that by blast
qed

text \<open>A pass over the one asset of the film, its clocks standing at 1000.\<close>

definition demo_pass :: pass_env where
  "demo_pass = \<lparr>pe_done = \<lambda>_. False, pe_interrupted = \<lambda>_. False, pe_clock = \<lambda>_. 1000, pe_dbclock = \<lambda>_. 1000,
     pe_broken = \<lambda>_. None\<rparr>"

definition demo_checksummer :: checksummer where
  "demo_checksummer = NewChecksummer \<lparr>ck_rate = 0, ck_retryAfter = 0, ck_perObject = 0\<rparr>"

lemma checksum_pass_correct_witness:
  "\<exists>res e' d'. RunPass demo_outside demo_pass demo_checksummer film_objects 0 2 film_db = Some (res, e', d')
     \<and> pass_sound demo_outside film_objects film_db d'"
proof -
  have "short_pass demo_pass demo_checksummer 1000"
    by (simp add: short_pass_def demo_pass_def demo_checksummer_def NewChecksummer_def minute_def)
  moreover have d: "distinct (map ar_id (db_assets film_db))" "length (db_assets film_db) < 2"
    by (simp_all add: film_db_eval)
  ultimately show ?thesis
    using checksum_pass_correct [OF d(1), of demo_pass demo_checksummer 2 demo_outside film_objects 0] by fast
qed

end
