(* ===== verification/Go_Parse_Float.thy ===== *)
theory Go_Parse_Float
  imports Go_Float Go_Strconv
begin

text \<open>
  \<open>strconv.ParseFloat\<close> at 64 bits, on decimal text: an optional sign, digits with an optional point,
  an optional exponent. The value is exact and then rounded once, which is what correct rounding
  means. A value past the largest float64 is a range error. The spelled values (inf, nan) and the
  hexadecimal forms are not modelled; they count as errors here.
\<close>

definition digits_of :: "string \<Rightarrow> string \<times> string" where
  "digits_of s = (takeWhile is_digit s, dropWhile is_digit s)"

definition digits_value :: "string \<Rightarrow> nat" where
  "digits_value s = foldl (\<lambda>n c. n * 10 + digit_val c) 0 s"

definition sign_of :: "string \<Rightarrow> bool \<times> string" where
  "sign_of s = (case s of [] \<Rightarrow> (False, [])
     | c # cs \<Rightarrow> if c = CHR ''-'' then (True, cs) else if c = CHR ''+'' then (False, cs) else (False, s))"

text \<open>The exponent part: the empty text is exponent 0.\<close>

definition exponent_of :: "string \<Rightarrow> int option" where
  "exponent_of s = (case s of [] \<Rightarrow> Some 0
     | c # cs \<Rightarrow>
        if c \<noteq> CHR ''e'' \<and> c \<noteq> CHR ''E'' then None
        else let (neg, t) = sign_of cs; (ds, rest) = digits_of t
             in if ds = [] \<or> rest \<noteq> [] then None
                else Some (if neg then - int (digits_value ds) else int (digits_value ds)))"

definition float_range :: rat where "float_range = (2 ^ 54 - 1) * 2 ^ 970"

definition ParseFloat :: "string \<Rightarrow> float64 option" where
  "ParseFloat s =
     (let (neg, t) = sign_of s; (whole, t1) = digits_of t;
          (frac, t2) = (case t1 of [] \<Rightarrow> ([], []) | c # cs \<Rightarrow> if c = CHR ''.'' then digits_of cs else ([], t1))
      in if whole = [] \<and> frac = [] then None
         else case exponent_of t2 of None \<Rightarrow> None
         | Some ex \<Rightarrow>
           (let q = of_nat (digits_value (whole @ frac)) * 10 powi (ex - int (length frac))
            in if q \<ge> float_range then None else Some (if neg then - fl q else fl q)))"

end
