(* ===== verification/Probe.thy ===== *)
theory Probe
  imports Worker Go_Parse_Float
begin

text \<open>
  The reading of an ffprobe answer (internal/probe/probe.go, ProbeAV): from the decoded JSON, with
  absent fields as zero values, to the result record. Running ffprobe and decoding its JSON happen
  outside.
\<close>

record ffprobe_stream =
  fs_CodecName :: string
  fs_CodecType :: string
  fs_Width :: int
  fs_Height :: int

record ffprobe_answer =
  fa_Duration :: string
  fa_FormatName :: string
  fa_BitRate :: string
  fa_Streams :: "ffprobe_stream list"

definition probe_args :: "string \<Rightarrow> string list" where
  "probe_args path = [''-hide_banner'', ''-v'', ''error'',
     ''-show_entries'', ''format=duration,format_name,bit_rate'',
     ''-show_entries'', ''stream=codec_name,width,height,codec_type'',
     ''-of'', ''json'', path]"

fun first_stream :: "string \<Rightarrow> ffprobe_stream list \<Rightarrow> ffprobe_stream option" where
  "first_stream t [] = None"
| "first_stream t (s # ss) = (if fs_CodecType s = t then Some s else first_stream t ss)"

definition probed_duration :: "ffprobe_answer \<Rightarrow> float64" where
  "probed_duration a = (if fa_Duration a \<noteq> [] then (case ParseFloat (fa_Duration a) of Some d \<Rightarrow> d | None \<Rightarrow> 0) else 0)"

definition probed_bitrate :: "ffprobe_answer \<Rightarrow> int" where
  "probed_bitrate a = (if fa_BitRate a \<noteq> [] then (case parse_int (fa_BitRate a) of Some b \<Rightarrow> b | None \<Rightarrow> 0) else 0)"

definition ProbeAV :: "ffprobe_answer \<Rightarrow> probe_result" where
  "ProbeAV a =
     (case first_stream ''video'' (fa_Streams a) of
        Some v \<Rightarrow>
          \<lparr>pr_Kind = Video, pr_Width = fs_Width v, pr_Height = fs_Height v, pr_DurationS = probed_duration a,
           pr_Codec = fs_CodecName v, pr_Container = fa_FormatName a,
           pr_AudioCodec = (case first_stream ''audio'' (fa_Streams a) of None \<Rightarrow> [] | Some s \<Rightarrow> fs_CodecName s),
           pr_BitrateBPS = probed_bitrate a\<rparr>
      | None \<Rightarrow>
          \<lparr>pr_Kind = Audio, pr_Width = 0, pr_Height = 0, pr_DurationS = probed_duration a,
           pr_Codec = (case first_stream ''audio'' (fa_Streams a) of None \<Rightarrow> [] | Some s \<Rightarrow> fs_CodecName s),
           pr_Container = fa_FormatName a, pr_AudioCodec = [], pr_BitrateBPS = probed_bitrate a\<rparr>)"

text \<open>The worker's probe of a file is this reading of what ffprobe answers, if it answers.\<close>

definition probe_with :: "(string list \<Rightarrow> string \<Rightarrow> ffprobe_answer option) \<Rightarrow> string \<Rightarrow> string \<Rightarrow> probe_result option" where
  "probe_with ffprobe path bytes = map_option ProbeAV (ffprobe (probe_args path) bytes)"

end
