(* ===== verification/Authored.thy ===== *)
theory Authored
  imports Delivered_Bytes Probe
begin

text \<open>
  The ceilings of an authored file (worker.go, authoredCeilingBreach): what the checks together
  admit, and the two things the comments promise that they do not refuse.
\<close>


text \<open>The limits that are enforced, which are weaker: nothing is said of the sound of a loop, and the size
  is an estimate from bit rate and duration, made only when both are known.\<close>

definition within_limits :: "intent \<Rightarrow> probe_result \<Rightarrow> bool" where
  "within_limits i pr \<longleftrightarrow>
     (pr_BitrateBPS pr > 0 \<and> pr_DurationS pr > 0 \<longrightarrow> estBytes pr \<le> 2147483648)
     \<and> (i = Detail \<longrightarrow> pr_Codec pr = ''h264'' \<and> pr_AudioCodec pr \<in> {[], ''aac''}
          \<and> pr_Width pr \<le> 1920 \<and> pr_Height pr \<le> 1080 \<and> pr_BitrateBPS pr \<le> 8000000)
     \<and> (i = Loop \<longrightarrow> pr_Codec pr = ''h264'' \<and> max (pr_Width pr) (pr_Height pr) \<le> 1920
          \<and> pr_DurationS pr \<le> 30 \<and> pr_BitrateBPS pr \<le> 2000000)
     \<and> (i = Poster \<longrightarrow> pr_Width pr \<le> 1920 \<and> pr_Height pr \<le> 1080)"

lemmas authored_limits = authoredDetailMaxWidth_def authoredDetailMaxHeight_def authoredLoopMaxEdge_def
  authoredLoopMaxDuration_def authoredDetailMaxBPS_def authoredLoopMaxBPS_def authoredMaxBytes_def

lemma breach_none: "authoredCeilingBreach i pr = None \<longleftrightarrow> within_limits i pr"
  by (cases i) (auto simp: authoredCeilingBreach_def within_limits_def authored_limits isH264_def isAAC_def longEdge_def max_def)















section \<open>How large a published file can be\<close>

lemma fmul_upper: "0 < x \<Longrightarrow> 0 < y \<Longrightarrow> fmul x y \<le> x * y * (1 + 1 / 2 ^ 53)"
  using fl_bounds(2) [of "x * y"] by (simp add: fmul_def)

lemma fmul_lower: "0 < x \<Longrightarrow> 0 < y \<Longrightarrow> x * y * (1 - 1 / 2 ^ 53) \<le> fmul x y"
  using fl_bounds(1) [of "x * y"] by (simp add: fmul_def)

lemma eighth_bounds:
  assumes "0 < b" "b \<le> 8000000"
  shows "of_int b / 8 * (1 - 1 / 2 ^ 53) \<le> fdiv (float_of b) 8" "fdiv (float_of b) 8 \<le> of_int b / 8 * (1 + 1 / 2 ^ 53)"
    "0 < fdiv (float_of b) 8"
proof -
  have b: "float_of b = of_int b" by (rule float_of_exact) (use assms in simp_all)
  have pos: "0 < (of_int b / 8 :: rat)" using assms by simp
  show l: "of_int b / 8 * (1 - 1 / 2 ^ 53) \<le> fdiv (float_of b) 8" and "fdiv (float_of b) 8 \<le> of_int b / 8 * (1 + 1 / 2 ^ 53)"
    using fl_bounds [OF pos] by (simp_all add: fdiv_def b)
  have "0 < of_int b / 8 * (1 - 1 / 2 ^ 53 :: rat)" using pos by (intro mult_pos_pos) simp_all
  then show "0 < fdiv (float_of b) 8" using l by linarith
qed

lemma estimate_bounds:
  assumes "0 < pr_BitrateBPS pr" "pr_BitrateBPS pr \<le> 8000000" "0 < pr_DurationS pr"
  defines "x \<equiv> fmul (fdiv (float_of (pr_BitrateBPS pr)) 8) (pr_DurationS pr)"
    and "bytes \<equiv> of_int (pr_BitrateBPS pr) / 8 * pr_DurationS pr"
  shows "bytes * (1 - 1 / 2 ^ 52) \<le> x" "x \<le> bytes * (1 + 1 / 2 ^ 51)"
proof -
  note e = eighth_bounds [OF assms(1,2)]
  let ?b = "of_int (pr_BitrateBPS pr) / 8 :: rat" and ?q = "fdiv (float_of (pr_BitrateBPS pr)) 8" and ?d = "pr_DurationS pr"
  have bytes: "0 < bytes" using assms by simp
  have "bytes * (1 - 1 / 2 ^ 53) * (1 - 1 / 2 ^ 53) = ?b * (1 - 1 / 2 ^ 53) * ?d * (1 - 1 / 2 ^ 53)" by (simp add: bytes_def)
  also have "\<dots> \<le> ?q * ?d * (1 - 1 / 2 ^ 53)" using e assms(3) by (intro mult_right_mono) simp_all
  also have "\<dots> \<le> x" unfolding x_def by (rule fmul_lower) (use e assms in simp_all)
  finally have low: "bytes * ((1 - 1 / 2 ^ 53) * (1 - 1 / 2 ^ 53)) \<le> x" by (simp only: mult.assoc)
  have "x \<le> ?q * ?d * (1 + 1 / 2 ^ 53)" unfolding x_def by (rule fmul_upper) (use e assms in simp_all)
  also have "\<dots> \<le> ?b * (1 + 1 / 2 ^ 53) * ?d * (1 + 1 / 2 ^ 53)" using e assms(3) by (intro mult_right_mono) simp_all
  finally have up: "x \<le> bytes * ((1 + 1 / 2 ^ 53) * (1 + 1 / 2 ^ 53))" by (simp add: bytes_def mult_ac)
  have "bytes * (1 - 1 / 2 ^ 52) \<le> bytes * ((1 - 1 / 2 ^ 53) * (1 - 1 / 2 ^ 53))" using bytes by (intro mult_left_mono) simp_all
  then show "bytes * (1 - 1 / 2 ^ 52) \<le> x" using low by linarith
  have "bytes * ((1 + 1 / 2 ^ 53) * (1 + 1 / 2 ^ 53)) \<le> bytes * (1 + 1 / 2 ^ 51)" using bytes by (intro mult_left_mono) simp_all
  then show "x \<le> bytes * (1 + 1 / 2 ^ 51)" using up by linarith
qed

lemma floor_le_of_less: "x < of_int (n + 1) \<Longrightarrow> \<lfloor>x\<rfloor> \<le> n" for x :: rat
  by (simp add: floor_le_iff)

lemma int64_of_pos: "0 \<le> x \<Longrightarrow> x < 2 ^ 63 \<Longrightarrow> int64_of x = \<lfloor>x\<rfloor>"
proof -
  assume x: "0 \<le> x" "x < 2 ^ 63"
  have "0 \<le> \<lfloor>x\<rfloor>" "\<lfloor>x\<rfloor> < 2 ^ 63" using x by (simp_all add: floor_less_iff)
  then show ?thesis using x by (simp add: int64_of_def int_of_def)
qed

lemma loop_estimate:
  assumes "0 < pr_BitrateBPS pr" "pr_BitrateBPS pr \<le> 2000000" "0 < pr_DurationS pr" "pr_DurationS pr \<le> 30"
  shows "estBytes pr \<le> 7500000"
proof -
  let ?b = "of_int (pr_BitrateBPS pr) / 8 :: rat" and ?d = "pr_DurationS pr"
  let ?x = "fmul (fdiv (float_of (pr_BitrateBPS pr)) 8) ?d"
  have "?b * ?d \<le> 250000 * 30" by (rule mult_mono) (use assms in simp_all)
  then have "?b * ?d * (1 + 1 / 2 ^ 51) \<le> 7500000 * (1 + 1 / 2 ^ 51)" by (intro mult_right_mono) simp_all
  moreover have "?x \<le> ?b * ?d * (1 + 1 / 2 ^ 51)" by (rule estimate_bounds(2)) (use assms in simp_all)
  ultimately have "?x \<le> 7500000 * (1 + 1 / 2 ^ 51)" by (rule order_trans [rotated])
  moreover have "7500000 * (1 + 1 / 2 ^ 51) < (of_int (7500000 + 1) :: rat)" by simp
  ultimately have up: "?x < of_int (7500000 + 1)" by (rule le_less_trans)
  have "0 \<le> ?b * ?d * (1 - 1 / 2 ^ 52)" using assms by simp
  also have "\<dots> \<le> ?x" by (rule estimate_bounds(1)) (use assms in simp_all)
  finally have "estBytes pr = \<lfloor>?x\<rfloor>" unfolding estBytes_def by (rule int64_of_pos) (rule less_trans [OF up], simp)
  then show ?thesis using floor_le_of_less [OF up] by simp
qed

text \<open>What a published authored file can weigh by its measured bit rate and duration, for a duration
  under 2^40 seconds: a loop at most 7.5 million bytes, so that the size backstop never decides
  it, a detail at most 2 GiB (plus three bytes, for the rounding of the estimate).\<close>
theorem authored_size_bounds:
  assumes "authoredCeilingBreach i pr = None" "0 < pr_BitrateBPS pr" "0 < pr_DurationS pr" "pr_DurationS pr < 2 ^ 40"
  shows "(i = Loop \<longrightarrow> of_int (pr_BitrateBPS pr) / 8 * pr_DurationS pr \<le> 7500000 \<and> estBytes pr \<le> 7500000)
    \<and> (i = Detail \<longrightarrow> of_int (pr_BitrateBPS pr) / 8 * pr_DurationS pr \<le> 2 ^ 31 + 3)"
proof (intro conjI impI)
  let ?b = "of_int (pr_BitrateBPS pr) / 8 :: rat" and ?d = "pr_DurationS pr"
  let ?x = "fmul (fdiv (float_of (pr_BitrateBPS pr)) 8) ?d"
  have limits: "within_limits i pr" using assms(1) breach_none by blast
  {
    assume i: "i = Loop"
    have b: "pr_BitrateBPS pr \<le> 2000000" "?d \<le> 30" using limits i by (simp_all add: within_limits_def)
    have "?b * ?d \<le> 250000 * 30" by (rule mult_mono) (use b assms in simp_all)
    then show "?b * ?d \<le> 7500000" by simp
    show "estBytes pr \<le> 7500000" by (rule loop_estimate) (use b assms in simp_all)
  next
    assume i: "i = Detail"
    have b: "pr_BitrateBPS pr \<le> 8000000" using limits i by (simp add: within_limits_def)
    have est: "estBytes pr \<le> 2 ^ 31" using limits assms by (simp add: within_limits_def)
    have low1: "?b * ?d * (1 - 1 / 2 ^ 52) \<le> ?x" by (rule estimate_bounds(1)) (use b assms in simp_all)
    have low2: "?x \<le> ?b * ?d * (1 + 1 / 2 ^ 51)" by (rule estimate_bounds(2)) (use b assms in simp_all)
    note low = low1 low2
    have "?b * ?d \<le> 1000000 * 2 ^ 40" by (rule mult_mono) (use b assms in simp_all)
    then have "?b * ?d * (1 + 1 / 2 ^ 51) \<le> 1000000 * 2 ^ 40 * (1 + 1 / 2 ^ 51)" by (intro mult_right_mono) simp_all
    from order_trans [OF low2 this] have small: "?x < 2 ^ 63" by (rule le_less_trans) simp
    have "0 \<le> ?b * ?d * (1 - 1 / 2 ^ 52)" using assms by simp
    then have "0 \<le> ?x" using low(1) by linarith
    then have "estBytes pr = \<lfloor>?x\<rfloor>" unfolding estBytes_def by (rule int64_of_pos) (rule small)
    then have "?x < 2 ^ 31 + 1" using est by (simp add: floor_le_iff)
    then have "?b * ?d * (1 - 1 / 2 ^ 52) < 2 ^ 31 + 1" using low(1) by linarith
    moreover have "y * (1 - 1 / 2 ^ 52) < 2 ^ 31 + 1 \<Longrightarrow> y \<le> 2 ^ 31 + 3" for y :: rat by simp
    ultimately show "?b * ?d \<le> 2 ^ 31 + 3" by blast
  }
qed

text \<open>A loop of thirty seconds at two megabits.\<close>

definition longest_loop :: probe_result where
  "longest_loop = \<lparr>pr_Kind = Video, pr_Width = 1080, pr_Height = 1920, pr_DurationS = 30, pr_Codec = ''h264'',
     pr_Container = ''mp4'', pr_AudioCodec = ''aac'', pr_BitrateBPS = 2000000\<rparr>"

lemma authored_size_bounds_witness:
  "of_int (pr_BitrateBPS longest_loop) / 8 * pr_DurationS longest_loop = (7500000 :: rat) \<and> estBytes longest_loop \<le> 7500000"
proof -
  have "estBytes longest_loop \<le> 7500000" by (rule loop_estimate) (simp_all add: longest_loop_def)
  then have "estBytes longest_loop \<le> 2147483648" by simp
  then have "authoredCeilingBreach Loop longest_loop = None"
    by (simp add: breach_none within_limits_def longest_loop_def)
  from authored_size_bounds [OF this] show ?thesis by (simp add: longest_loop_def)
qed

text \<open>What the ceilings let pass although the comments say otherwise, from the ffprobe answer on: a detail
  whose bit rate is not reported has no bound on its duration (the size backstop needs the rate
  too), a detail within the bit rate but so long that the estimate overflows 64 bits passes the
  backstop, and a loop with an audio track passes, although a loop has to be silent.\<close>
theorem authored_gaps:
  assumes "first_stream ''video'' (fa_Streams a) = Some v" "fs_CodecName v = ''h264''" "fs_Width v \<le> 1920" "fs_Height v \<le> 1080"
    "first_stream ''audio'' (fa_Streams a) = Some s" "fs_CodecName s = ''aac''"
  shows "(parse_int (fa_BitRate a) = None \<longrightarrow> authoredCeilingBreach Detail (ProbeAV a) = None)
    \<and> (probed_bitrate a = 8000000 \<and> probed_duration a = 2 ^ 44 \<longrightarrow> authoredCeilingBreach Detail (ProbeAV a) = None)
    \<and> (probed_bitrate a \<le> 2000000 \<and> probed_duration a \<le> 30
        \<longrightarrow> authoredCeilingBreach Loop (ProbeAV a) = None \<and> pr_AudioCodec (ProbeAV a) = ''aac'')"
proof (intro conjI impI)
  have pr: "pr_Codec (ProbeAV a) = ''h264''" "pr_AudioCodec (ProbeAV a) = ''aac''" "pr_Width (ProbeAV a) \<le> 1920"
    "pr_Height (ProbeAV a) \<le> 1080" "pr_BitrateBPS (ProbeAV a) = probed_bitrate a" "pr_DurationS (ProbeAV a) = probed_duration a"
    using assms by (simp_all add: ProbeAV_def)
  show "authoredCeilingBreach Detail (ProbeAV a) = None" if "parse_int (fa_BitRate a) = None"
  proof -
    have "probed_bitrate a = 0" using that by (simp add: probed_bitrate_def)
    then show ?thesis using pr by (simp add: breach_none within_limits_def)
  qed
  show "authoredCeilingBreach Detail (ProbeAV a) = None" if long: "probed_bitrate a = 8000000 \<and> probed_duration a = 2 ^ 44"
  proof -
    have "of_int 8000000 / 8 * 2 ^ 44 * (1 - 1 / 2 ^ 52) \<le> fmul (fdiv (float_of 8000000) 8) (2 ^ 44)"
      using estimate_bounds(1) [of "ProbeAV a"] pr long by simp
    then have "2 ^ 63 \<le> fmul (fdiv (float_of 8000000) 8) (2 ^ 44)" by simp
    then have "estBytes (ProbeAV a) \<le> 2147483648"
      using pr long by (simp add: estBytes_def int64_of_def int_of_def floor_less_iff)
    then show ?thesis using pr long by (simp add: breach_none within_limits_def)
  qed
  assume short: "probed_bitrate a \<le> 2000000 \<and> probed_duration a \<le> 30"
  then have "0 < probed_bitrate a \<and> 0 < probed_duration a \<longrightarrow> estBytes (ProbeAV a) \<le> 7500000"
    using loop_estimate [of "ProbeAV a"] pr by simp
  then show "authoredCeilingBreach Loop (ProbeAV a) = None" using pr short by (auto simp: breach_none within_limits_def)
  show "pr_AudioCodec (ProbeAV a) = ''aac''" by (rule pr(2))
qed

text \<open>A file of a matroska muxer that reports no bit rate, and a web-ready loop with sound.\<close>

definition sound_streams :: "ffprobe_stream list" where
  "sound_streams = [\<lparr>fs_CodecName = ''aac'', fs_CodecType = ''audio'', fs_Width = 0, fs_Height = 0\<rparr>,
     \<lparr>fs_CodecName = ''h264'', fs_CodecType = ''video'', fs_Width = 1920, fs_Height = 1080\<rparr>]"

lemma authored_gaps_witness:
  "authoredCeilingBreach Detail (ProbeAV \<lparr>fa_Duration = ''1e9'', fa_FormatName = ''matroska'', fa_BitRate = ''N/A'',
      fa_Streams = sound_streams\<rparr>) = None
   \<and> authoredCeilingBreach Loop (ProbeAV \<lparr>fa_Duration = [], fa_FormatName = ''mp4'', fa_BitRate = [],
      fa_Streams = sound_streams\<rparr>) = None"
proof -
  have v: "first_stream ''video'' sound_streams = Some \<lparr>fs_CodecName = ''h264'', fs_CodecType = ''video'', fs_Width = 1920, fs_Height = 1080\<rparr>"
    and s: "first_stream ''audio'' sound_streams = Some \<lparr>fs_CodecName = ''aac'', fs_CodecType = ''audio'', fs_Width = 0, fs_Height = 0\<rparr>"
    by (simp_all add: sound_streams_def)
  have n: "parse_int ''N/A'' = None"
    by (simp add: parse_int_def parse_uint_def is_digit_def less_eq_char_def)
  show ?thesis
    using authored_gaps [of "\<lparr>fa_Duration = ''1e9'', fa_FormatName = ''matroska'', fa_BitRate = ''N/A'', fa_Streams = sound_streams\<rparr>"]
      authored_gaps [of "\<lparr>fa_Duration = [], fa_FormatName = ''mp4'', fa_BitRate = [], fa_Streams = sound_streams\<rparr>"] v s n
    by (simp add: probed_bitrate_def probed_duration_def)
qed

end
