(* ===== verification/Go_Time.thy ===== *)
theory Go_Time
  imports Go_Float Go_Strconv
begin

text \<open>
  Go's \<open>time.Duration\<close>, an int64 of nanoseconds: \<open>String\<close>, \<open>Truncate\<close> and \<open>ParseDuration\<close>. The
  parser accumulates in uint64 values with its own overflow checks, a fraction in float64.
\<close>

section \<open>Printing\<close>

text \<open>\<open>fmtFrac\<close>: the fraction of \<open>v / 10 ^ prec\<close> without trailing zeros, put in front of \<open>out\<close>.\<close>

fun fmt_frac :: "nat \<Rightarrow> nat \<Rightarrow> bool \<Rightarrow> string \<Rightarrow> string \<times> nat" where
  "fmt_frac 0 v pr out = (if pr then ''.'' @ out else out, v)"
| "fmt_frac (Suc p) v pr out =
     (let d = v mod 10; pr' = (pr \<or> d \<noteq> 0)
      in fmt_frac p (v div 10) pr' (if pr' then digit_char d # out else out))"

definition micro_unit :: string where "micro_unit = [CHR 0xC2, CHR 0xB5, CHR ''s'']"
definition micro_unit_greek :: string where "micro_unit_greek = [CHR 0xCE, CHR 0xBC, CHR ''s'']"

definition duration_abs :: "nat \<Rightarrow> string" where
  "duration_abs u =
     (if u < 1000000000 then
        (if u = 0 then ''0s''
         else let (prec, unit) = (if u < 1000 then (0, ''ns'') else if u < 1000000 then (3, micro_unit) else (6, ''ms''));
                  (frac, v) = fmt_frac prec u False unit
              in dec_nat v @ frac)
      else let (frac, secs) = fmt_frac 9 u False ''s''; out = dec_nat (secs mod 60) @ frac; mins = secs div 60
           in if mins > 0 then
                (let out' = dec_nat (mins mod 60) @ ''m'' @ out; hours = mins div 60
                 in if hours > 0 then dec_nat hours @ ''h'' @ out' else out')
              else out)"

definition duration_String :: "int \<Rightarrow> string" where
  "duration_String d = (if d < 0 then ''-'' @ duration_abs (nat (- d)) else duration_abs (nat d))"

text \<open>Go's remainder takes the sign of the dividend.\<close>

definition go_rem :: "int \<Rightarrow> int \<Rightarrow> int" where
  "go_rem a b = (if a < 0 then - ((- a) mod b) else a mod b)"

definition duration_Truncate :: "int \<Rightarrow> int \<Rightarrow> int" where
  "duration_Truncate d m = (if m \<le> 0 then d else d - go_rem d m)"

section \<open>Parsing\<close>

fun leading_int :: "string \<Rightarrow> nat \<Rightarrow> (nat \<times> string) option" where
  "leading_int [] x = Some (x, [])"
| "leading_int (c # cs) x =
     (if \<not> is_digit c then Some (x, c # cs)
      else if x > 2 ^ 63 div 10 then None
      else let y = x * 10 + digit_val c in if y > 2 ^ 63 then None else leading_int cs y)"

fun leading_fraction :: "string \<Rightarrow> nat \<Rightarrow> float64 \<Rightarrow> bool \<Rightarrow> nat \<times> float64 \<times> string" where
  "leading_fraction [] x scale overflow = (x, scale, [])"
| "leading_fraction (c # cs) x scale overflow =
     (if \<not> is_digit c then (x, scale, c # cs)
      else if overflow \<or> x > (2 ^ 63 - 1) div 10 then leading_fraction cs x scale True
      else let y = x * 10 + digit_val c in
           if y > 2 ^ 63 then leading_fraction cs x scale True
           else leading_fraction cs y (fmul scale 10) False)"

definition unit_map :: "string \<Rightarrow> nat option" where
  "unit_map u = map_of [(''ns'', 1), (''us'', 1000), (micro_unit, 1000), (micro_unit_greek, 1000), (''ms'', 1000000),
     (''s'', 1000000000), (''m'', 60 * 1000000000), (''h'', 3600 * 1000000000)] u"

definition unit_char :: "char \<Rightarrow> bool" where
  "unit_char c = (c \<noteq> CHR ''.'' \<and> \<not> is_digit c)"

text \<open>One number with its unit: its value in nanoseconds and the rest of the text.\<close>

definition parse_term :: "string \<Rightarrow> (nat \<times> string) option" where
  "parse_term s =
     (if \<not> (s \<noteq> [] \<and> (hd s = CHR ''.'' \<or> is_digit (hd s))) then None
      else case leading_int s 0 of None \<Rightarrow> None
      | Some (v, s1) \<Rightarrow>
        (let dot = (s1 \<noteq> [] \<and> hd s1 = CHR ''.'');
             (f, scale, s2) = (if dot then leading_fraction (tl s1) 0 1 False else (0, 1, s1));
             pre = (length s1 \<noteq> length s); post = (dot \<and> length s2 \<noteq> length (tl s1));
             u = takeWhile unit_char s2; s3 = dropWhile unit_char s2
         in if \<not> pre \<and> \<not> post then None
            else if u = [] then None
            else case unit_map u of None \<Rightarrow> None
            | Some unit \<Rightarrow>
                if v > 2 ^ 63 div unit then None
                else let w = v * unit + (if f > 0 then nat (int_of (fmul (float_of (int f)) (fdiv (float_of (int unit)) scale))) else 0)
                     in if w > 2 ^ 63 then None else Some (w, s3)))"

text \<open>A term has a unit, so each turn of the loop consumes text: the length is fuel enough.\<close>

fun parse_terms :: "nat \<Rightarrow> string \<Rightarrow> nat \<Rightarrow> nat option" where
  "parse_terms fuel [] d = Some d"
| "parse_terms 0 (c # cs) d = None"
| "parse_terms (Suc fuel) (c # cs) d =
     (case parse_term (c # cs) of None \<Rightarrow> None
      | Some (v, rest) \<Rightarrow> if d + v > 2 ^ 63 then None else parse_terms fuel rest (d + v))"

definition ParseDuration :: "string \<Rightarrow> int option" where
  "ParseDuration s =
     (let (neg, body) = (case s of [] \<Rightarrow> (False, [])
            | c # cs \<Rightarrow> if c = CHR ''-'' then (True, cs) else if c = CHR ''+'' then (False, cs) else (False, s))
      in if body = ''0'' then Some 0
         else if body = [] then None
         else case parse_terms (length body) body 0 of None \<Rightarrow> None
           | Some d \<Rightarrow> if neg then Some (- int d) else if d > 2 ^ 63 - 1 then None else Some (int d))"

lemma leading_int_length: "leading_int s x = Some (y, t) \<Longrightarrow> length t \<le> length s"
  by (induction s x rule: leading_int.induct) (auto simp: Let_def split: if_splits)

lemma leading_fraction_length: "leading_fraction s x sc b = (y, sc', t) \<Longrightarrow> length t \<le> length s"
  by (induction s x sc b rule: leading_fraction.induct) (auto simp: Let_def split: if_splits)

lemma parse_term_consumes:
  assumes "parse_term s = Some (v, rest)"
  shows "length rest < length s"
proof -
  obtain v0 s1 where i: "leading_int s 0 = Some (v0, s1)"
    using assms by (auto simp: parse_term_def split: if_splits option.splits)
  define dot where "dot = (s1 \<noteq> [] \<and> hd s1 = CHR ''.'')"
  obtain f scale s2 where fr: "(if dot then leading_fraction (tl s1) 0 1 False else (0, 1, s1)) = (f, scale, s2)"
    by (cases "if dot then leading_fraction (tl s1) 0 1 False else (0, 1, s1)")
  have "takeWhile unit_char s2 \<noteq> [] \<and> rest = dropWhile unit_char s2"
    using assms i fr unfolding dot_def by (auto simp: parse_term_def Let_def split: if_splits option.splits)
  then have "length rest < length s2" by (cases s2) (auto split: if_splits simp: le_imp_less_Suc length_dropWhile_le)
  moreover have "length s2 \<le> length s1"
    using fr leading_fraction_length [of "tl s1" 0 1 False f scale s2] by (auto split: if_splits)
  ultimately show ?thesis using leading_int_length [OF i] by simp
qed

text \<open>More fuel than the length changes nothing.\<close>

lemma parse_terms_fuel: "length s \<le> n \<Longrightarrow> parse_terms n s d = parse_terms (length s) s d"
proof (induction "length s" arbitrary: s n d rule: less_induct)
  case less
  show ?case
  proof (cases s)
    case (Cons c cs)
    obtain m where m: "n = Suc m" using less.prems Cons by (cases n) auto
    have "parse_terms m rest e = parse_terms (length cs) rest e" if "parse_term s = Some (v, rest)" for v rest e
    proof -
      have l: "length rest < length s" by (rule parse_term_consumes [OF that])
      then have "length rest \<le> m" "length rest \<le> length cs" using less.prems Cons m by auto
      then show ?thesis using less.hyps [OF l] by metis
    qed
    then show ?thesis unfolding Cons m by (auto split: option.splits)
  qed simp
qed

end
