(* ===== verification/Readiness.thy ===== *)
theory Readiness
  imports Delivery_Api Go_Time
begin

text \<open>
  Readiness (internal/service/health.go): the four checks, their fold into a status, and the log of
  transitions. What a dependency answers is an argument: the ping's error text, the error text of a
  failing HEAD, and the store's answers or their error text. One clock reading serves a whole probe.
  A result \<open>None\<close> is the nil dereference of a queue that has jobs and no oldest one.
\<close>

section \<open>Configuration\<close>

record health_config =
  hcf_WorkerStaleAfter :: int
  hcf_WorkerProgressWindow :: int
  hcf_CheckTimeout :: int
  hcf_Checks :: "string list"
  hcf_Version :: string

definition defaultWorkerStaleAfter :: int where "defaultWorkerStaleAfter = 2 * 60 * second"
definition defaultWorkerProgressWindow :: int where "defaultWorkerProgressWindow = 5 * 60 * second"
definition defaultCheckTimeout :: int where "defaultCheckTimeout = 2 * second"
definition storageSentinelKey :: string where "storageSentinelKey = ''healthz/.probe''"

record health_state =
  hs_cfg :: health_config
  hs_last :: health_status

definition newHealth :: "health_config \<Rightarrow> health_state" where
  "newHealth cfg = \<lparr>hs_cfg = cfg
     \<lparr>hcf_WorkerStaleAfter := (if hcf_WorkerStaleAfter cfg \<le> 0 then defaultWorkerStaleAfter else hcf_WorkerStaleAfter cfg),
      hcf_WorkerProgressWindow := (if hcf_WorkerProgressWindow cfg \<le> 0 then defaultWorkerProgressWindow
                                   else hcf_WorkerProgressWindow cfg),
      hcf_CheckTimeout := (if hcf_CheckTimeout cfg \<le> 0 then defaultCheckTimeout else hcf_CheckTimeout cfg)\<rparr>,
     hs_last = Ok\<rparr>"

text \<open>\<open>strings.EqualFold\<close> on ASCII text.\<close>

definition equal_fold :: "string \<Rightarrow> string \<Rightarrow> bool" where
  "equal_fold s t = (to_lower s = to_lower t)"

fun any_check :: "string list \<Rightarrow> string \<Rightarrow> bool" where
  "any_check [] name = False"
| "any_check (c # cs) name = (if equal_fold (trim_space c) name then True else any_check cs name)"

definition enabled :: "health_config \<Rightarrow> string \<Rightarrow> bool" where
  "enabled cfg name = (if hcf_Checks cfg = [] then True else any_check (hcf_Checks cfg) name)"

section \<open>The checks\<close>

definition check :: "bool \<Rightarrow> string \<Rightarrow> health_check" where
  "check ok detail = \<lparr>hc_Detail = (if detail \<noteq> [] then Some detail else None), hc_Ok = ok\<rparr>"

definition ellipsis :: string where "ellipsis = [CHR 0xE2, CHR 0x80, CHR 0xA6]"

definition errText :: "string \<Rightarrow> string" where
  "errText s = (if length s > 160 then take 160 s @ ellipsis else s)"

definition db_check :: "string option \<Rightarrow> health_check" where
  "db_check ping = (case ping of Some e \<Rightarrow> check False (''ping failed: '' @ errText e) | None \<Rightarrow> check True [])"

definition storage_check :: "storage option \<Rightarrow> string \<Rightarrow> health_check" where
  "storage_check st err =
     (case st of
        None \<Rightarrow> check True ''not configured (read-only deployment)''
      | Some s \<Rightarrow> (case st_Head s storageSentinelKey of
            None \<Rightarrow> check False (''head failed: '' @ errText err)
          | Some info \<Rightarrow> check True []))"

definition worker_check :: "health_config \<Rightarrow> time \<Rightarrow> string + worker_liveness \<Rightarrow> health_check" where
  "worker_check cfg now answer =
     (case answer of
        Inl e \<Rightarrow> check False (''liveness query failed: '' @ errText e)
      | Inr wl \<Rightarrow>
          if \<not> wl_Seen wl then check False ''no worker has ever reported a heartbeat''
          else let age = duration_Truncate (now - wl_LastSeen wl) second;
                   detail = ''last heartbeat '' @ duration_String age @ '' ago''
                     @ (case wl_LastSweep wl of None \<Rightarrow> []
                        | Some t \<Rightarrow> '', last sweep '' @ duration_String (duration_Truncate (now - t) second) @ '' ago'')
               in if age > hcf_WorkerStaleAfter cfg
                  then check False (detail @ '' (stale > '' @ duration_String (hcf_WorkerStaleAfter cfg) @ '')'')
                  else check True detail)"

definition stuck :: "health_config \<Rightarrow> time \<Rightarrow> queue_lag \<Rightarrow> bool" where
  "stuck cfg now ql = (case ql_LastProgress ql of None \<Rightarrow> True | Some t \<Rightarrow> now - t > hcf_WorkerProgressWindow cfg)"

definition queue_check :: "health_config \<Rightarrow> time \<Rightarrow> string + queue_lag \<Rightarrow> health_check option" where
  "queue_check cfg now answer =
     (case answer of
        Inl e \<Rightarrow> Some (check False (''lag query failed: '' @ errText e))
      | Inr ql \<Rightarrow>
          if ql_Queued ql = 0 then Some (check True ''empty'')
          else (case ql_OldestQueued ql of
              None \<Rightarrow> None
            | Some oldest \<Rightarrow>
                let detail = dec (ql_Queued ql) @ '' queued, oldest ''
                      @ duration_String (duration_Truncate (now - oldest) second)
                in if stuck cfg now ql
                   then let noProgress = (case ql_LastProgress ql of
                              None \<Rightarrow> ''no job has ever progressed''
                            | Some t \<Rightarrow> ''no progress in '' @ duration_String (duration_Truncate (now - t) second))
                        in Some (check False (detail @ '' ('' @ noProgress @ '')''))
                   else Some (check True detail)))"

section \<open>Readiness\<close>

record answers =
  an_ping :: "string option"
  an_head_error :: string
  an_liveness :: "string + worker_liveness"
  an_lag :: "string + queue_lag"

definition failed :: "health_check option \<Rightarrow> bool" where
  "failed c = (case c of None \<Rightarrow> False | Some h \<Rightarrow> \<not> hc_Ok h)"

definition overall :: "health_checks \<Rightarrow> health_status" where
  "overall c = (if failed (hcs_Db c) \<or> failed (hcs_Storage c) then Down
     else if failed (hcs_Worker c) \<or> failed (hcs_Queue c) then Degraded else Ok)"

definition Readiness :: "storage option \<Rightarrow> health_state \<Rightarrow> time \<Rightarrow> answers
    \<Rightarrow> ((health \<times> int) \<times> health_state) option" where
  "Readiness st h now a =
     (let cfg = hs_cfg h;
          q = (if enabled cfg ''queue'' then map_option Some (queue_check cfg now (an_lag a)) else Some None)
      in case q of None \<Rightarrow> None
       | Some queue \<Rightarrow>
         let checks = \<lparr>hcs_Db = (if enabled cfg ''db'' then Some (db_check (an_ping a)) else None),
                hcs_Queue = queue,
                hcs_Storage = (if enabled cfg ''storage'' then Some (storage_check st (an_head_error a)) else None),
                hcs_Worker = (if enabled cfg ''worker'' then Some (worker_check cfg now (an_liveness a)) else None)\<rparr>;
             status = overall checks;
             code = (if status = Down then 503 else 200)
         in Some ((\<lparr>he_Checks = Some checks, he_Status = status,
                    he_Version = (if hcf_Version cfg \<noteq> [] then Some (hcf_Version cfg) else None)\<rparr>, code),
                  h\<lparr>hs_last := status\<rparr>))"

text \<open>The log line of a transition, when there is one: info or warning, and its text. The failing checks
  come in the order a Go map is walked, which is any permutation \<open>order\<close> of the four.\<close>

definition arrow :: string where "arrow = [CHR '' '', CHR 0xE2, CHR 0x86, CHR 0x92, CHR '' '']"

fun failing_names :: "(string \<times> health_check option) list \<Rightarrow> string list" where
  "failing_names [] = []"
| "failing_names ((name, c) # rest) =
     (case c of None \<Rightarrow> failing_names rest
      | Some h \<Rightarrow> if hc_Ok h then failing_names rest
          else (name @ (case hc_Detail h of None \<Rightarrow> [] | Some d \<Rightarrow> '': '' @ d)) # failing_names rest)"

fun join_with :: "string \<Rightarrow> string list \<Rightarrow> string" where
  "join_with sep [] = []"
| "join_with sep [s] = s"
| "join_with sep (s # rest) = s @ sep @ join_with sep rest"

definition logTransition :: "health_status \<Rightarrow> health_status \<Rightarrow> (string \<times> health_check option) list \<Rightarrow> (bool \<times> string) option" where
  "logTransition prev now order =
     (if prev = now then None
      else let failing = failing_names order;
               msg = ''readiness '' @ health_str prev @ arrow @ health_str now
                 @ (if failing = [] then [] else '' ['' @ join_with ''; '' failing @ '']'')
           in Some (now = Ok, msg))"

definition handleReady :: "storage option \<Rightarrow> health_state \<Rightarrow> time \<Rightarrow> answers \<Rightarrow> (response \<times> health_state) option" where
  "handleReady st h now a =
     (case Readiness st h now a of None \<Rightarrow> None
      | Some ((body, code), h') \<Rightarrow> Some ((code, B_Health body), h'))"

end
