(* ===== verification/Readiness_Props.thy ===== *)
theory Readiness_Props
  imports Readiness Store_Props
begin

text \<open>
  Readiness against the store: a probe never crashes on what the store answers, which failures take
  the machine out of routing, and what the queue check can and cannot see.
\<close>

lemma check_ok [simp]: "hc_Ok (check ok detail) = ok"
  by (simp add: check_def)

lemma least_time_none: "least_time xs = None \<longleftrightarrow> xs = []"
  by (cases xs) (auto split: option.splits)

lemma queue_lag_oldest: "ql_OldestQueued (QueueLag d) = None \<longleftrightarrow> ql_Queued (QueueLag d) = 0"
  by (simp add: QueueLag_def Let_def least_time_none)

text \<open>What each dependency has to answer for its check to fail.\<close>

definition worker_dead :: "health_config \<Rightarrow> time \<Rightarrow> string + worker_liveness \<Rightarrow> bool" where
  "worker_dead cfg now answer = (case answer of Inl e \<Rightarrow> True
     | Inr wl \<Rightarrow> \<not> wl_Seen wl \<or> duration_Truncate (now - wl_LastSeen wl) second > hcf_WorkerStaleAfter cfg)"

definition queue_stuck :: "health_config \<Rightarrow> time \<Rightarrow> string + queue_lag \<Rightarrow> bool" where
  "queue_stuck cfg now answer = (case answer of Inl e \<Rightarrow> True | Inr ql \<Rightarrow> ql_Queued ql \<noteq> 0 \<and> stuck cfg now ql)"

definition storage_dead :: "storage option \<Rightarrow> bool" where
  "storage_dead st = (case st of None \<Rightarrow> False | Some s \<Rightarrow> st_Head s storageSentinelKey = None)"

lemma db_check_ok: "hc_Ok (db_check ping) \<longleftrightarrow> ping = None"
  by (simp add: db_check_def split: option.splits)

lemma storage_check_ok: "hc_Ok (storage_check st err) \<longleftrightarrow> \<not> storage_dead st"
  by (simp add: storage_check_def storage_dead_def split: option.splits)

lemma worker_check_ok: "hc_Ok (worker_check cfg now answer) \<longleftrightarrow> \<not> worker_dead cfg now answer"
  by (simp add: worker_check_def worker_dead_def Let_def split: sum.splits)

lemma queue_check_ok: "queue_check cfg now answer = Some c \<Longrightarrow> hc_Ok c \<longleftrightarrow> \<not> queue_stuck cfg now answer"
  by (auto simp: queue_check_def queue_stuck_def Let_def split: sum.splits if_splits option.splits)

lemma queue_check_total: "answer = Inl e \<or> answer = Inr (QueueLag d) \<Longrightarrow> \<exists>c. queue_check cfg now answer = Some c"
  using queue_lag_oldest [of d] by (auto simp: queue_check_def Let_def split: option.splits)

definition down :: "health_config \<Rightarrow> storage option \<Rightarrow> answers \<Rightarrow> bool" where
  "down cfg st a \<longleftrightarrow> enabled cfg ''db'' \<and> an_ping a \<noteq> None \<or> enabled cfg ''storage'' \<and> storage_dead st"

definition background_down :: "health_config \<Rightarrow> time \<Rightarrow> answers \<Rightarrow> bool" where
  "background_down cfg now a \<longleftrightarrow> enabled cfg ''worker'' \<and> worker_dead cfg now (an_liveness a)
     \<or> enabled cfg ''queue'' \<and> queue_stuck cfg now (an_lag a)"

lemma readiness_fold:
  assumes "enabled (hs_cfg h) ''queue'' \<Longrightarrow> \<exists>c. queue_check (hs_cfg h) now (an_lag a) = Some c"
  obtains body code where
    "Readiness st h now a = Some ((body, code), h\<lparr>hs_last := he_Status body\<rparr>)"
    "he_Status body = (if down (hs_cfg h) st a then Down else if background_down (hs_cfg h) now a then Degraded else Ok)"
    "code = (if he_Status body = Down then 503 else 200)"
    "map_option hcs_Queue (he_Checks body)
      = Some (if enabled (hs_cfg h) ''queue'' then queue_check (hs_cfg h) now (an_lag a) else None)"
proof -
  let ?cfg = "hs_cfg h"
  obtain q where q: "(if enabled ?cfg ''queue'' then map_option Some (queue_check ?cfg now (an_lag a)) else Some None) = Some q"
    "q = (if enabled ?cfg ''queue'' then queue_check ?cfg now (an_lag a) else None)"
    using assms by (cases "enabled ?cfg ''queue''") auto
  have fq: "failed q \<longleftrightarrow> enabled ?cfg ''queue'' \<and> queue_stuck ?cfg now (an_lag a)"
    using assms queue_check_ok [of ?cfg now "an_lag a"] unfolding q(2)
    by (cases "enabled ?cfg ''queue''") (auto simp: failed_def)
  define checks where "checks = \<lparr>hcs_Db = (if enabled ?cfg ''db'' then Some (db_check (an_ping a)) else None),
    hcs_Queue = q,
    hcs_Storage = (if enabled ?cfg ''storage'' then Some (storage_check st (an_head_error a)) else None),
    hcs_Worker = (if enabled ?cfg ''worker'' then Some (worker_check ?cfg now (an_liveness a)) else None)\<rparr>"
  define body where "body = \<lparr>he_Checks = Some checks, he_Status = overall checks,
    he_Version = (if hcf_Version ?cfg \<noteq> [] then Some (hcf_Version ?cfg) else None)\<rparr>"
  have "Readiness st h now a = Some ((body, if he_Status body = Down then 503 else 200), h\<lparr>hs_last := he_Status body\<rparr>)"
    unfolding Readiness_def Let_def q(1) option.case by (simp add: body_def checks_def)
  moreover have "overall checks = (if down ?cfg st a then Down else if background_down ?cfg now a then Degraded else Ok)"
    by (simp add: overall_def checks_def fq [unfolded failed_def] failed_def db_check_ok storage_check_ok worker_check_ok
        down_def background_down_def)
  ultimately show thesis using that [of body] q(2) by (simp add: body_def checks_def)
qed

text \<open>C17: Readiness on what the store answers, for any configuration of checks: a probe always answers (it
  never meets a queue with jobs and no oldest one); it is 503 and down exactly when an enabled
  check of the database or of a configured storage fails; otherwise it is 200, degraded exactly
  when the worker has stopped beating or the queue is stuck. So a dead worker never takes the API
  out of routing. The status is what the next probe compares with.\<close>
theorem readiness_exact:
  assumes "an_lag a = Inl e \<or> an_lag a = Inr (QueueLag d)"
  shows "\<exists>body code h'. Readiness st h now a = Some ((body, code), h')
    \<and> (code = 503 \<longleftrightarrow> down (hs_cfg h) st a) \<and> (code = 503 \<or> code = 200)
    \<and> (he_Status body = Down \<longleftrightarrow> code = 503)
    \<and> (he_Status body = Ok \<longleftrightarrow> \<not> down (hs_cfg h) st a \<and> \<not> background_down (hs_cfg h) now a)
    \<and> hs_last h' = he_Status body \<and> hs_cfg h' = hs_cfg h"
  by (rule readiness_fold [of h now a st]) (use queue_check_total [OF assms] in auto)

lemma readiness_exact_witness:
  "\<exists>body code h'. Readiness None (newHealth \<lparr>hcf_WorkerStaleAfter = 0, hcf_WorkerProgressWindow = 0, hcf_CheckTimeout = 0,
       hcf_Checks = [], hcf_Version = []\<rparr>) 100 \<lparr>an_ping = None, an_head_error = [], an_liveness = Inr (WorkerLiveness demo_db),
       an_lag = Inr (QueueLag demo_db)\<rparr> = Some ((body, code), h') \<and> he_Status body = Degraded \<and> code = 200"
proof -
  let ?cfg = "\<lparr>hcf_WorkerStaleAfter = 0, hcf_WorkerProgressWindow = 0, hcf_CheckTimeout = 0, hcf_Checks = [], hcf_Version = []\<rparr>"
  let ?a = "\<lparr>an_ping = None, an_head_error = [], an_liveness = Inr (WorkerLiveness demo_db), an_lag = Inr (QueueLag demo_db)\<rparr>"
  have "\<not> wl_Seen (WorkerLiveness demo_db)"
    by (simp add: WorkerLiveness_def demo_db_eval demo_db0_eval empty_db_def)
  then have "background_down (hs_cfg (newHealth ?cfg)) 100 ?a" "\<not> down (hs_cfg (newHealth ?cfg)) None ?a"
    by (simp_all add: background_down_def down_def worker_dead_def storage_dead_def enabled_def newHealth_def)
  moreover have "x = Degraded" if "x \<noteq> Down" "x \<noteq> Ok" for x using that by (cases x) auto
  ultimately show ?thesis
    using readiness_exact [of ?a "[]" demo_db None "newHealth ?cfg" 100] by auto
qed

text \<open>The queue check cannot see a dead worker while jobs keep arriving: for a whole progress window
  after an enqueue that inserts a job the check is ok, whatever the worker's last sign of life is,
  and with the worker check switched off readiness stays ok.\<close>
theorem enqueue_masks_stuck_queue:
  assumes "latest_job d A i n = None" "EnqueueJob d t j A i n = Inr (d', x)"
    "now \<le> t + hcf_WorkerProgressWindow (hs_cfg h)" "an_lag a = Inr (QueueLag d')"
    "\<not> enabled (hs_cfg h) ''worker''" "\<not> down (hs_cfg h) st a"
  shows "\<exists>body h'. Readiness st h now a = Some ((body, 200), h') \<and> he_Status body = Ok"
proof -
  have lag: "an_lag a = Inl [] \<or> an_lag a = Inr (QueueLag d')" using assms(4) by simp
  have "\<not> stuck (hs_cfg h) now (QueueLag d')"
    using enqueue_counts_as_progress [OF assms(1,2)] assms(3) by (auto simp: stuck_def split: option.splits)
  then have "\<not> background_down (hs_cfg h) now a"
    using assms(4,5) by (simp add: background_down_def queue_stuck_def)
  then have idle: "\<not> down (hs_cfg h) st a \<and> \<not> background_down (hs_cfg h) now a" using assms(6) by simp
  show ?thesis
    by (rule readiness_fold [of h now a st]) (use queue_check_total [OF lag] idle in auto)
qed

lemma enqueue_masks_stuck_queue_witness:
  "\<exists>d' x body h'. EnqueueJob demo_db 40 ''J1'' ''alice'' ''A1'' Detail = Inr (d', x)
     \<and> Readiness None (newHealth \<lparr>hcf_WorkerStaleAfter = 0, hcf_WorkerProgressWindow = 0, hcf_CheckTimeout = 0,
         hcf_Checks = [''db'', ''QUEUE ''], hcf_Version = []\<rparr>) (40 + defaultWorkerProgressWindow)
         \<lparr>an_ping = None, an_head_error = [], an_liveness = Inr (WorkerLiveness d'), an_lag = Inr (QueueLag d')\<rparr>
       = Some ((body, 200), h') \<and> he_Status body = Ok"
proof -
  let ?cfg = "\<lparr>hcf_WorkerStaleAfter = 0, hcf_WorkerProgressWindow = 0, hcf_CheckTimeout = 0,
     hcf_Checks = [''db'', ''QUEUE ''], hcf_Version = []\<rparr>"
  obtain d' x where e: "EnqueueJob demo_db 40 ''J1'' ''alice'' ''A1'' Detail = Inr (d', x)"
    using demo_enqueue by blast
  let ?a = "\<lparr>an_ping = None, an_head_error = [], an_liveness = Inr (WorkerLiveness d'), an_lag = Inr (QueueLag d')\<rparr>"
  have w: "\<not> enabled (hs_cfg (newHealth ?cfg)) ''worker''"
    by (simp add: enabled_def newHealth_def equal_fold_def trim_space_def is_space_def to_lower_def lower_char_def less_eq_char_def)
  have "\<exists>body h'. Readiness None (newHealth ?cfg) (40 + defaultWorkerProgressWindow) ?a = Some ((body, 200), h')
      \<and> he_Status body = Ok"
    by (rule enqueue_masks_stuck_queue [OF demo_latest e _ _ w])
       (simp_all add: newHealth_def down_def storage_dead_def defaultWorkerProgressWindow_def second_def)
  then show ?thesis using e by blast
qed

end
