(* ===== verification/Go_Base64.thy ===== *)
theory Go_Base64
  imports Go_Strings
begin

text \<open>
  \<open>base64.StdEncoding.DecodeString\<close>: line breaks are skipped, padding is required and may only end
  the text, the unused bits of a padded group are ignored. \<open>EncodeToString\<close> is its right inverse.
\<close>

definition b64_std_val :: "char \<Rightarrow> nat option" where
  "b64_std_val c =
     (if CHR ''A'' \<le> c \<and> c \<le> CHR ''Z'' then Some (of_char c - 65)
      else if CHR ''a'' \<le> c \<and> c \<le> CHR ''z'' then Some (of_char c - 97 + 26)
      else if is_digit c then Some (of_char c - 48 + 52)
      else if c = CHR ''+'' then Some 62
      else if c = CHR ''/'' then Some 63 else None)"

definition b64_group :: "char \<Rightarrow> char \<Rightarrow> char \<Rightarrow> char \<Rightarrow> string option" where
  "b64_group a b c d =
     (case (b64_std_val a, b64_std_val b, b64_std_val c, b64_std_val d) of
        (Some i, Some j, Some k, Some l) \<Rightarrow>
          (let v = ((i * 64 + j) * 64 + k) * 64 + l
           in Some [char_of (v div 65536), char_of (v div 256 mod 256), char_of (v mod 256)])
      | _ \<Rightarrow> None)"

definition b64_last :: "char \<Rightarrow> char \<Rightarrow> char \<Rightarrow> char \<Rightarrow> string option" where
  "b64_last a b c d =
     (if d \<noteq> CHR ''='' then b64_group a b c d
      else if c = CHR ''='' then
        (case (b64_std_val a, b64_std_val b) of
           (Some i, Some j) \<Rightarrow> Some [char_of ((i * 64 + j) div 16)] | _ \<Rightarrow> None)
      else (case (b64_std_val a, b64_std_val b, b64_std_val c) of
           (Some i, Some j, Some k) \<Rightarrow>
             (let v = (i * 64 + j) * 64 + k in Some [char_of (v div 1024), char_of (v div 4 mod 256)])
         | _ \<Rightarrow> None))"

fun b64_groups :: "string \<Rightarrow> string option" where
  "b64_groups [] = Some []"
| "b64_groups [a, b, c, d] = b64_last a b c d"
| "b64_groups (a # b # c # d # rest) =
     (case b64_group a b c d of None \<Rightarrow> None
      | Some x \<Rightarrow> (case b64_groups rest of None \<Rightarrow> None | Some y \<Rightarrow> Some (x @ y)))"
| "b64_groups s = None"

definition line_break :: "char \<Rightarrow> bool" where
  "line_break c = (c = CHR 0x0A \<or> c = CHR 0x0D)"

definition b64_std_decode :: "string \<Rightarrow> string option" where
  "b64_std_decode s = b64_groups (filter (\<lambda>c. \<not> line_break c) s)"

lemma b64_line_break: "line_break c \<Longrightarrow> b64_std_decode (s @ c # t) = b64_std_decode (s @ t)"
  by (simp add: b64_std_decode_def)

section \<open>Encoding\<close>

definition b64_std_char :: "nat \<Rightarrow> char" where
  "b64_std_char n = ''ABCDEFGHIJKLMNOPQRSTUVWXYZabcdefghijklmnopqrstuvwxyz0123456789+/'' ! n"

fun b64_std_encode :: "string \<Rightarrow> string" where
  "b64_std_encode [] = []"
| "b64_std_encode [a] = (let n = of_char a in [b64_std_char (n div 4), b64_std_char (n mod 4 * 16), CHR ''='', CHR ''=''])"
| "b64_std_encode [a, b] = (let n = of_char a * 256 + of_char b in
     [b64_std_char (n div 1024), b64_std_char (n div 16 mod 64), b64_std_char (n mod 16 * 4), CHR ''=''])"
| "b64_std_encode (a # b # c # rest) = (let n = (of_char a * 256 + of_char b) * 256 + of_char c in
     [b64_std_char (n div 262144), b64_std_char (n div 4096 mod 64), b64_std_char (n div 64 mod 64), b64_std_char (n mod 64)]
       @ b64_std_encode rest)"

definition b64_plain :: "char \<Rightarrow> bool" where
  "b64_plain c \<longleftrightarrow> is_alnum c \<or> c = CHR ''+'' \<or> c = CHR ''/''"

lemma b64_std_char_table:
  "list_all (\<lambda>n. b64_std_val (b64_std_char n) = Some n \<and> b64_plain (b64_std_char n)) [0..<64]"
  by code_simp

lemma b64_std_char_ok: "n < 64 \<Longrightarrow> b64_std_val (b64_std_char n) = Some n" "n < 64 \<Longrightarrow> b64_plain (b64_std_char n)"
  using b64_std_char_table by (simp_all add: list_all_iff)

lemma b64_plain_chars:
  assumes "b64_plain c"
  shows "c \<noteq> CHR ''=''" "c \<noteq> CHR '',''" "\<not> line_break c" "\<not> is_space c"
  using assms by (auto simp: b64_plain_def is_alnum_def is_digit_def line_break_def is_space_def less_eq_char_def)

lemma of_char_less: "of_char c < (256 :: nat)"
  by (metis of_char_mod_256 mod_less_divisor zero_less_numeral)

lemma three_bytes: "(of_char a * 256 + of_char b) * 256 + of_char c < (16777216 :: nat)"
proof -
  have "of_char a * 256 + of_char b < (65536 :: nat)" using of_char_less [of a] of_char_less [of b] by linarith
  moreover have "x * 256 + z < 16777216" if "x < 65536" "z < 256" for x z :: nat using that by linarith
  ultimately show ?thesis using of_char_less [of c] by blast
qed

lemma b64_std_encode_chars: "x \<in> set (b64_std_encode s) \<Longrightarrow> b64_plain x \<or> x = CHR ''=''"
proof (induction s rule: b64_std_encode.induct)
  case (2 a)
  have "of_char a div 4 < (64 :: nat)" using of_char_less [of a] by (simp add: less_mult_imp_div_less)
  moreover have "of_char a mod 4 * 16 < (64 :: nat)" using mod_less_divisor [of 4 "of_char a :: nat"] by linarith
  ultimately show ?case using 2 b64_std_char_ok by (auto simp: Let_def)
next
  case (3 a b)
  have n: "of_char a * 256 + of_char b < (65536 :: nat)" using of_char_less [of a] of_char_less [of b] by linarith
  then have "(of_char a * 256 + of_char b) div 1024 < (64 :: nat)" by (simp add: less_mult_imp_div_less)
  moreover have "(of_char a * 256 + of_char b) mod 16 * 4 < (64 :: nat)"
    using mod_less_divisor [of 16 "of_char a * 256 + of_char b :: nat"] by linarith
  ultimately show ?case using 3 b64_std_char_ok by (auto simp: Let_def)
next
  case (4 a b c rest)
  have "((of_char a * 256 + of_char b) * 256 + of_char c) div 262144 < (64 :: nat)"
    using three_bytes [of a b c] by (simp only: less_mult_imp_div_less)
  then show ?case using 4 b64_std_char_ok by (auto simp: Let_def)
qed simp

lemma sextets: "((n div 262144 * 64 + n div 4096 mod 64) * 64 + n div 64 mod 64) * 64 + n mod 64 = (n :: nat)"
proof -
  have "n div 4096 = n div 64 div 64" "n div 262144 = n div 64 div 64 div 64" by (simp_all add: div_mult2_eq [symmetric])
  then show ?thesis by (simp add: mult.commute)
qed

lemma octets: 
  "((a * 256 + b) * 256 + c) div 65536 = a" "((a * 256 + b) * 256 + c) div 256 mod 256 = b" "((a * 256 + b) * 256 + c) mod 256 = c"
  if "b < 256" "c < (256 :: nat)" for a b c :: nat
proof -
  have "((a * 256 + b) * 256 + c) div 256 = a * 256 + b" using that by simp
  moreover have "((a * 256 + b) * 256 + c) div 65536 = ((a * 256 + b) * 256 + c) div 256 div 256" by (simp add: div_mult2_eq [symmetric])
  moreover have "((a * 256 + b) * 256 + c) mod 256 = c mod 256" by (rule mod_mult_self3)
  ultimately show "((a * 256 + b) * 256 + c) div 65536 = a" "((a * 256 + b) * 256 + c) div 256 mod 256 = b"
    "((a * 256 + b) * 256 + c) mod 256 = c" using that by simp_all
qed

lemma b64_group_chars:
  assumes "n < 16777216"
  shows "b64_group (b64_std_char (n div 262144)) (b64_std_char (n div 4096 mod 64)) (b64_std_char (n div 64 mod 64)) (b64_std_char (n mod 64))
    = Some [char_of (n div 65536), char_of (n div 256 mod 256), char_of (n mod 256)]"
proof -
  have "n div 262144 < 64" using assms by (simp add: less_mult_imp_div_less)
  then have "b64_std_val (b64_std_char (n div 262144)) = Some (n div 262144)" by (rule b64_std_char_ok)
  moreover have "b64_std_val (b64_std_char (x mod 64)) = Some (x mod 64)" for x by (rule b64_std_char_ok) simp
  ultimately show ?thesis by (simp only: b64_group_def option.case prod.case sextets Let_def)
qed

lemma b64_groups_cons:
  assumes "n < 16777216" "b64_groups r = Some s"
  shows "b64_groups ([b64_std_char (n div 262144), b64_std_char (n div 4096 mod 64), b64_std_char (n div 64 mod 64), b64_std_char (n mod 64)] @ r)
    = Some (char_of (n div 65536) # char_of (n div 256 mod 256) # char_of (n mod 256) # s)"
proof (cases r)
  case Nil
  have "b64_std_char (n mod 64) \<noteq> CHR ''=''" using b64_std_char_ok(2) [of "n mod 64"] b64_plain_chars by simp
  then show ?thesis using Nil assms b64_group_chars [OF assms(1)] by (simp add: b64_last_def)
next
  case (Cons x xs)
  then show ?thesis using assms b64_group_chars [OF assms(1)] by simp
qed

lemma b64_groups_encode: "b64_groups (b64_std_encode s) = Some s"
proof (induction s rule: b64_std_encode.induct)
  case (2 a)
  have "of_char a div 4 < (64 :: nat)" using of_char_less [of a] by (simp add: less_mult_imp_div_less)
  moreover have "of_char a mod 4 * 16 < (64 :: nat)" using mod_less_divisor [of 4 "of_char a :: nat"] by linarith
  moreover have "(x div 4 * 64 + x mod 4 * 16) div 16 = x" for x :: nat
  proof -
    have "x div 4 * 64 + x mod 4 * 16 = x * 16" using div_mult_mod_eq [of x 4] by linarith
    then show ?thesis by simp
  qed
  note this [of "of_char a"]
  ultimately show ?case by (simp add: b64_last_def b64_std_char_ok Let_def)
next
  case (3 a b)
  define n :: nat where "n = of_char a * 256 + of_char b"
  have n: "n < 65536" using of_char_less [of a] of_char_less [of b] unfolding n_def by linarith
  have "n mod 16 * 4 < 64" using mod_less_divisor [of 16 n] by linarith
  moreover have "n div 1024 < 64" using n by (simp add: less_mult_imp_div_less)
  moreover have "((n div 1024 * 64 + n div 16 mod 64) * 64 + n mod 16 * 4) = n * 4"
  proof -
    have "n div 1024 = n div 16 div 64" by (simp add: div_mult2_eq [symmetric])
    then have "n div 1024 * 64 + n div 16 mod 64 = n div 16" by (simp add: mult.commute)
    moreover have "n div 16 * 64 + n mod 16 * 4 = n * 4" using div_mult_mod_eq [of n 16] by linarith
    ultimately show ?thesis by simp
  qed
  moreover have "b64_std_char (n mod 16 * 4) \<noteq> CHR ''=''" using calculation(1) b64_std_char_ok(2) b64_plain_chars by simp
  moreover have "n * 4 div 1024 = of_char a" "n * 4 div 4 mod 256 = of_char b"
    using of_char_less [of b] by (simp_all add: n_def)
  moreover have "char_of n = b"
  proof -
    have "char_of n = (char_of (n mod 256) :: char)" by simp
    also have "n mod 256 = of_char b" using of_char_less [of b] by (simp add: n_def)
    finally show ?thesis by simp
  qed
  ultimately show ?case by (simp add: b64_last_def b64_std_char_ok Let_def n_def [symmetric])
next
  case (4 a b c rest)
  define n :: nat where "n = (of_char a * 256 + of_char b) * 256 + of_char c"
  have n: "n < 16777216" unfolding n_def by (rule three_bytes)
  have "n div 65536 = of_char a" "n div 256 mod 256 = of_char b" "n mod 256 = of_char c"
    unfolding n_def using octets [OF of_char_less of_char_less] by blast+
  then show ?case using b64_groups_cons [OF n 4] unfolding b64_std_encode.simps Let_def n_def [symmetric] by simp
qed simp

text \<open>What the encoder prints decodes to what it was given.\<close>

lemma b64_std_roundtrip [simp]: "b64_std_decode (b64_std_encode s) = Some s"
proof -
  have "filter (\<lambda>c. \<not> line_break c) (b64_std_encode s) = b64_std_encode s"
    using b64_std_encode_chars b64_plain_chars(3) by (auto simp: filter_id_conv line_break_def)
  then show ?thesis by (simp add: b64_std_decode_def b64_groups_encode)
qed

end
