(* ===== verification/Env_Config.thy ===== *)
theory Env_Config
  imports Readiness Go_Base64 Auth_Token
begin

text \<open>
  The configuration from the environment (internal/service/config.go), the construction of the
  service from it (service.go, New) and the boot of \<open>plate serve\<close> (cmd/plate/main.go). The
  environment is a function, an unset variable being empty. A malformed value refuses the boot with
  an error of \<open>config_error\<close>. Key material is the raw 32 bytes.
\<close>

type_synonym environment = "string \<Rightarrow> string"

datatype config_error =
  CE_GrantedTTL int | CE_GrantedHost | CE_NoDatabaseURL | CE_TransactionPooler
| CE_KeyEntry string | CE_Kid string | CE_DuplicateKid string | CE_ThrowawayKid string | CE_BadKey string | CE_NoKeys
| CE_BindingEntry string | CE_BindingName string | CE_DuplicateBinding string
| CE_BadPattern string pattern_error | CE_NoBindings
| CE_NotBoolean string string | CE_BindingsWithoutKeys | CE_ThrowawayLegacy | CE_LegacyKey
| CE_Verifier binding_error | CE_Unbound "string list"
| CE_PartialStorage nat | CE_Storage

section \<open>Helpers\<close>

definition envOr :: "environment \<Rightarrow> string \<Rightarrow> string \<Rightarrow> string" where
  "envOr env k d = (if env k \<noteq> [] then env k else d)"

definition parseDurationOr :: "environment \<Rightarrow> string \<Rightarrow> int \<Rightarrow> int" where
  "parseDurationOr env key d =
     (if env key \<noteq> [] then (case ParseDuration (env key) of Some t \<Rightarrow> t | None \<Rightarrow> d) else d)"

definition parseInt64Or :: "environment \<Rightarrow> string \<Rightarrow> int \<Rightarrow> int" where
  "parseInt64Or env key d = (if env key \<noteq> [] then (case parse_int (env key) of Some n \<Rightarrow> n | None \<Rightarrow> d) else d)"

text \<open>\<open>Duration.Seconds\<close>; Go's quotient truncates.\<close>

definition duration_Seconds :: "int \<Rightarrow> float64" where
  "duration_Seconds t = (let nsec = go_rem t second; sec = (t - nsec) div second
     in fadd (float_of sec) (fdiv (float_of nsec) 1000000000))"

definition DetailMaxDurationSeconds :: "environment \<Rightarrow> float64" where
  "DetailMaxDurationSeconds env = duration_Seconds (parseDurationOr env ''PLATE_DETAIL_MAX_DURATION'' (720 * second))"

definition splitCSV :: "string \<Rightarrow> string list" where
  "splitCSV v = filter (\<lambda>p. p \<noteq> []) (map trim_space (split_char CHR '','' v))"

fun firstNonEmpty :: "string list \<Rightarrow> string" where
  "firstNonEmpty [] = []"
| "firstNonEmpty (v # vs) = (if v \<noteq> [] then v else firstNonEmpty vs)"

fun contains_text :: "string \<Rightarrow> string \<Rightarrow> bool" where
  "contains_text s t = (if has_prefix s t then True else case s of [] \<Rightarrow> False | c # cs \<Rightarrow> contains_text cs t)"

declare contains_text.simps [simp del]

text \<open>\<open>strconv.ParseBool\<close>.\<close>

definition parse_bool :: "string \<Rightarrow> bool option" where
  "parse_bool s =
     (if s \<in> {''1'', ''t'', ''T'', ''true'', ''TRUE'', ''True''} then Some True
      else if s \<in> {''0'', ''f'', ''F'', ''false'', ''FALSE'', ''False''} then Some False else None)"

definition parseBoolEnv :: "environment \<Rightarrow> string \<Rightarrow> config_error + bool" where
  "parseBoolEnv env key =
     (let v = trim_space (env key) in
      if v = [] then Inr False
      else case parse_bool v of None \<Rightarrow> Inl (CE_NotBoolean key v) | Some b \<Rightarrow> Inr b)"

section \<open>Token keys\<close>

definition kid_char :: "char \<Rightarrow> bool" where
  "kid_char c = (is_alnum c \<or> c = CHR ''_'' \<or> c = CHR ''-'')"

definition validKid :: "string \<Rightarrow> bool" where
  "validKid kid = (if length kid = 0 \<or> length kid > 64 then False else list_all kid_char kid)"

definition knownThrowawayKeys :: "string list" where
  "knownThrowawayKeys = [''9SRBsqY2/qVTTwxviZ5GiTFKmxu8DY14lIZ0W890RwU='', ''SEy/Ysvsr9il4zU4jfxAmdehVhoo32K1aFVdsgA9DNc='']"

definition isThrowawayKey :: "string \<Rightarrow> bool" where
  "isThrowawayKey pub = (trim_space pub \<in> set knownThrowawayKeys)"

text \<open>A PEM block and a text that is not base64 are both errors; a block contains a minus sign, which
  is not in the alphabet, so only the message of the error tells them apart.\<close>

definition loadEd25519Public :: "string \<Rightarrow> string option" where
  "loadEd25519Public s =
     (if s = [] then None
      else case b64_std_decode s of None \<Rightarrow> None
        | Some raw \<Rightarrow> if length raw \<noteq> 32 then None else Some raw)"

definition allow_throwaway :: "environment \<Rightarrow> bool" where
  "allow_throwaway env = (env ''PLATE_ALLOW_THROWAWAY_KEYS'' = ''true'')"

definition keyset_entry :: "environment \<Rightarrow> (string \<times> string) list \<Rightarrow> string \<Rightarrow> config_error + (string \<times> string)" where
  "keyset_entry env keys entry =
     (case cut_char CHR ''='' entry of None \<Rightarrow> Inl (CE_KeyEntry entry)
      | Some (k, v) \<Rightarrow>
        let kid = trim_space k; val = trim_space v in
        if kid = [] \<or> val = [] then Inl (CE_KeyEntry entry)
        else if \<not> validKid kid then Inl (CE_Kid kid)
        else if map_of keys kid \<noteq> None then Inl (CE_DuplicateKid kid)
        else if isThrowawayKey val \<and> \<not> allow_throwaway env then Inl (CE_ThrowawayKid kid)
        else case loadEd25519Public val of None \<Rightarrow> Inl (CE_BadKey kid) | Some pub \<Rightarrow> Inr (kid, pub))"

fun keyset_loop :: "environment \<Rightarrow> string list \<Rightarrow> (string \<times> string) list \<Rightarrow> config_error + (string \<times> string) list" where
  "keyset_loop env [] keys = Inr keys"
| "keyset_loop env (e # es) keys =
     (if trim_space e = [] then keyset_loop env es keys
      else case keyset_entry env keys (trim_space e) of Inl err \<Rightarrow> Inl err
        | Inr key \<Rightarrow> keyset_loop env es (keys @ [key]))"

text \<open>\<open>Inr None\<close> is the nil map.\<close>

definition parseKeyset :: "environment \<Rightarrow> string \<Rightarrow> config_error + (string \<times> string) list option" where
  "parseKeyset env s =
     (if trim_space s = [] then Inr None
      else case keyset_loop env (split_char CHR '','' (trim_space s)) [] of Inl err \<Rightarrow> Inl err
        | Inr keys \<Rightarrow> if length keys = 0 then Inl CE_NoKeys else Inr (Some keys))"

definition binding_entry :: "(string \<times> account_pattern) list \<Rightarrow> string \<Rightarrow> config_error + (string \<times> account_pattern)" where
  "binding_entry out entry =
     (case cut_char CHR ''='' entry of None \<Rightarrow> Inl (CE_BindingEntry entry)
      | Some (n, p) \<Rightarrow>
        let name = trim_space n; pat = trim_space p in
        if name = [] \<or> pat = [] then Inl (CE_BindingEntry entry)
        else if name \<noteq> LegacyKeyName \<and> \<not> validKid name then Inl (CE_BindingName name)
        else if map_of out name \<noteq> None then Inl (CE_DuplicateBinding name)
        else case ParseAccountPattern pat of Inl e \<Rightarrow> Inl (CE_BadPattern name e) | Inr a \<Rightarrow> Inr (name, a))"

fun binding_loop :: "string list \<Rightarrow> (string \<times> account_pattern) list \<Rightarrow> config_error + (string \<times> account_pattern) list" where
  "binding_loop [] out = Inr out"
| "binding_loop (e # es) out =
     (if trim_space e = [] then binding_loop es out
      else case binding_entry out (trim_space e) of Inl err \<Rightarrow> Inl err
        | Inr b \<Rightarrow> binding_loop es (out @ [b]))"

definition parseKeyBindings :: "string \<Rightarrow> config_error + (string \<times> account_pattern) list" where
  "parseKeyBindings s =
     (if trim_space s = [] then Inr []
      else case binding_loop (split_char CHR '','' (trim_space s)) [] of Inl err \<Rightarrow> Inl err
        | Inr out \<Rightarrow> if length out = 0 then Inl CE_NoBindings else Inr out)"

section \<open>LoadEnv\<close>

record env_config =
  ec_HTTPAddr :: string
  ec_DatabaseURL :: string
  ec_Verifier :: "string verifier"
  ec_URLs :: url_builder
  ec_DeliverySigningKey :: string
  ec_ImgproxyKey :: string
  ec_ImgproxySalt :: string
  ec_GrantURLTTL :: int
  ec_GrantCacheTTL :: int
  ec_Health :: health_config

definition GrantedImageMaxTTL :: int where "GrantedImageMaxTTL = 120 * second"
definition DefaultGrantedURLTTL :: int where "DefaultGrantedURLTTL = 90 * second"

definition env_urls :: "environment \<Rightarrow> url_builder" where
  "env_urls env =
     \<lparr>ub_ImageCDNBase = env ''IMGPROXY_BASE_URL'', ub_GrantedImageBase = env ''IMGPROXY_GRANTED_BASE_URL'',
      ub_ImageSourceBucket = env ''R2_DEFAULT_BUCKET'', ub_R2PublicBase = env ''R2_PUBLIC_BASE'',
      ub_DownloadBase = envOr env ''PLATE_DOWNLOAD_BASE'' ''https://plate.example''\<rparr>"

definition env_health :: "environment \<Rightarrow> health_config" where
  "env_health env =
     \<lparr>hcf_WorkerStaleAfter = parseDurationOr env ''PLATE_WORKER_STALE_AFTER'' 0,
      hcf_WorkerProgressWindow = parseDurationOr env ''PLATE_WORKER_PROGRESS_WINDOW'' 0,
      hcf_CheckTimeout = parseDurationOr env ''PLATE_READYZ_TIMEOUT'' 0,
      hcf_Checks = splitCSV (env ''PLATE_READYZ_CHECKS''),
      hcf_Version = firstNonEmpty [env ''PLATE_VERSION'', env ''FLY_IMAGE_REF'']\<rparr>"

definition env_base :: "environment \<Rightarrow> env_config" where
  "env_base env =
     \<lparr>ec_HTTPAddr = envOr env ''PLATE_HTTP_ADDR'' '':8080'', ec_DatabaseURL = env ''DATABASE_URL'',
      ec_Verifier = DenyAllVerifier, ec_URLs = env_urls env,
      ec_DeliverySigningKey = env ''PLATE_DELIVERY_SIGNING_KEY'',
      ec_ImgproxyKey = env ''IMGPROXY_KEY'', ec_ImgproxySalt = env ''IMGPROXY_SALT'',
      ec_GrantURLTTL = parseDurationOr env ''PLATE_GRANTED_URL_TTL'' 0,
      ec_GrantCacheTTL = parseDurationOr env ''PLATE_GRANT_CACHE_TTL'' 0, ec_Health = env_health env\<rparr>"

text \<open>The legacy key: absent, refused, or loaded.\<close>

definition legacy_key :: "environment \<Rightarrow> config_error + string option" where
  "legacy_key env =
     (let s = env ''PLATE_JWT_PUBLIC_KEY'' in
      if s = [] then Inr None
      else if isThrowawayKey s \<and> \<not> allow_throwaway env then Inl CE_ThrowawayLegacy
      else case loadEd25519Public s of None \<Rightarrow> Inl CE_LegacyKey | Some k \<Rightarrow> Inr (Some k))"

definition env_verifier :: "environment \<Rightarrow> config_error + string verifier" where
  "env_verifier env =
     (case parseKeyset env (env ''PLATE_JWT_PUBLIC_KEYS'') of Inl e \<Rightarrow> Inl e
      | Inr keyset \<Rightarrow>
     (case parseKeyBindings (env ''PLATE_JWT_KEY_ACCOUNTS'') of Inl e \<Rightarrow> Inl e
      | Inr bindings \<Rightarrow>
     (case parseBoolEnv env ''PLATE_JWT_REQUIRE_KEY_BINDING'' of Inl e \<Rightarrow> Inl e
      | Inr requireBinding \<Rightarrow>
      if env ''PLATE_JWT_PUBLIC_KEY'' = [] \<and> keyset = None then
        (if length bindings > 0 then Inl CE_BindingsWithoutKeys else Inr DenyAllVerifier)
      else
     (case legacy_key env of Inl e \<Rightarrow> Inl e
      | Inr legacy \<Rightarrow>
     (case NewBoundKeysetVerifier legacy (case keyset of None \<Rightarrow> [] | Some ks \<Rightarrow> ks) bindings
             (env ''PLATE_JWT_ISSUER'') (env ''PLATE_JWT_AUDIENCE'') of Inl e \<Rightarrow> Inl (CE_Verifier e)
      | Inr v \<Rightarrow> if requireBinding \<and> length (UnboundKeys v) > 0 then Inl (CE_Unbound (UnboundKeys v)) else Inr v)))))"

definition LoadEnv :: "environment \<Rightarrow> config_error + env_config" where
  "LoadEnv env =
     (let cfg = env_base env; granted = trim_right_slash (ub_GrantedImageBase (ec_URLs cfg)) in
      if ec_GrantURLTTL cfg > GrantedImageMaxTTL then Inl (CE_GrantedTTL (ec_GrantURLTTL cfg))
      else if granted \<noteq> [] \<and> granted = trim_right_slash (ub_ImageCDNBase (ec_URLs cfg)) then Inl CE_GrantedHost
      else if ec_DatabaseURL cfg = [] then Inl CE_NoDatabaseURL
      else if contains_text (ec_DatabaseURL cfg) '':6543'' then Inl CE_TransactionPooler
      else case env_verifier env of Inl e \<Rightarrow> Inl e | Inr v \<Rightarrow> Inr (cfg\<lparr>ec_Verifier := v\<rparr>))"

text \<open>The boot report of the bindings: the unbound keys, then the bound ones with their patterns.\<close>

definition LogKeyBindings :: "'k verifier \<Rightarrow> (string \<times> string option) list" where
  "LogKeyBindings v = map (\<lambda>name. (name, None)) (UnboundKeys v)
     @ map (\<lambda>name. (name, map_option pattern_String (Binding v name))) (BoundKeys v)"

section \<open>LoadStorage\<close>

record s3_config =
  s3_Endpoint :: string
  s3_Region :: string
  s3_AccessKey :: string
  s3_SecretKey :: string
  s3_Bucket :: string
  s3_UsePathStyle :: bool

definition orAuto :: "string \<Rightarrow> string" where
  "orAuto r = (if r = [] then ''auto'' else r)"

text \<open>\<open>storage.New\<close>: the AWS client is a function of its options.\<close>

definition storage_New :: "(s3_config \<Rightarrow> storage) \<Rightarrow> s3_config \<Rightarrow> storage option" where
  "storage_New aws cfg = (if s3_Bucket cfg = [] then None else Some (aws (cfg\<lparr>s3_Region := orAuto (s3_Region cfg)\<rparr>)))"

record storage_config =
  sc_Storage :: "storage option"
  sc_Prober :: "string option"
  sc_UploadTTL :: int
  sc_UploadMaxBytes :: int

definition probe_New :: "string \<Rightarrow> string" where
  "probe_New path = (if path = [] then ''ffprobe'' else path)"

definition set_count :: "string list \<Rightarrow> nat" where
  "set_count vs = length (filter (\<lambda>v. v \<noteq> []) vs)"

definition LoadStorage :: "(s3_config \<Rightarrow> storage) \<Rightarrow> environment \<Rightarrow> config_error + storage_config" where
  "LoadStorage aws env =
     (let bucket = env ''R2_DEFAULT_BUCKET''; endpoint = env ''R2_ENDPOINT'';
          access = env ''R2_ACCESS_KEY_ID''; secret = env ''R2_SECRET_ACCESS_KEY'';
          n = set_count [bucket, endpoint, access, secret]
      in if n = 0 then Inr \<lparr>sc_Storage = None, sc_Prober = None, sc_UploadTTL = 0, sc_UploadMaxBytes = 0\<rparr>
         else if n \<noteq> 4 then Inl (CE_PartialStorage n)
         else case storage_New aws \<lparr>s3_Endpoint = endpoint, s3_Region = env ''R2_REGION'', s3_AccessKey = access,
                s3_SecretKey = secret, s3_Bucket = bucket, s3_UsePathStyle = (env ''PLATE_S3_PATH_STYLE'' = ''true'')\<rparr> of
             None \<Rightarrow> Inl CE_Storage
           | Some st \<Rightarrow> Inr \<lparr>sc_Storage = Some st, sc_Prober = Some (probe_New (env ''PLATE_FFPROBE_PATH'')),
               sc_UploadTTL = parseDurationOr env ''PLATE_UPLOAD_URL_TTL'' (3600 * second),
               sc_UploadMaxBytes = parseInt64Or env ''PLATE_UPLOAD_MAX_BYTES'' 0\<rparr>)"

section \<open>The service\<close>

definition new_service :: "hmac \<Rightarrow> env_config \<Rightarrow> storage_config \<Rightarrow> service" where
  "new_service hm cfg sc =
     (let ttl = (if sc_UploadTTL sc \<le> 0 then 3600 * second else sc_UploadTTL sc);
          gurlTTL = (if ec_GrantURLTTL cfg \<le> 0 then DefaultGrantedURLTTL else ec_GrantURLTTL cfg);
          capped = (if gurlTTL > GrantedImageMaxTTL then GrantedImageMaxTTL else gurlTTL)
      in \<lparr>sv_urls = ec_URLs cfg, sv_storage = sc_Storage sc, sv_signer = newSigner (ec_DeliverySigningKey cfg),
          sv_imgsigner = newImgproxySigner (ec_ImgproxyKey cfg) (ec_ImgproxySalt cfg), sv_hmac = hm,
          sv_grantURLTTL = capped, sv_cacheTTL = fst (newGrantCache (ec_GrantCacheTTL cfg)),
          sv_uploadTTL = ttl, sv_uploadMaxBytes = sc_UploadMaxBytes sc\<rparr>)"

text \<open>The boot of \<open>plate serve\<close>: the verifier, the service and the health state, or the refusal.\<close>

definition boot :: "hmac \<Rightarrow> (s3_config \<Rightarrow> storage) \<Rightarrow> environment
    \<Rightarrow> config_error + (string verifier \<times> service \<times> health_state)" where
  "boot hm aws env =
     (case LoadEnv env of Inl e \<Rightarrow> Inl e
      | Inr cfg \<Rightarrow> (case LoadStorage aws env of Inl e \<Rightarrow> Inl e
          | Inr sc \<Rightarrow> Inr (ec_Verifier cfg, new_service hm cfg sc, newHealth (ec_Health cfg))))"

end
