(* ===== verification/Boot_Props.thy ===== *)
theory Boot_Props
  imports Env_Config Delivery_Api
begin

text \<open>
  What a deployment that booted has: its key set and bindings are exactly the entries of its
  environment and are enforced on every token, its expiring URLs stay within the cap on
  un-revocable windows, and a way around the guard against throwaway keys.
\<close>

section \<open>Entries of the key set and of the bindings\<close>

definition key_entry :: "environment \<Rightarrow> string \<Rightarrow> string \<times> string \<Rightarrow> bool" where
  "key_entry env e key \<longleftrightarrow> (\<exists>k t. cut_char CHR ''='' e = Some (k, t) \<and> fst key = trim_space k \<and> validKid (fst key)
     \<and> loadEd25519Public (trim_space t) = Some (snd key) \<and> (isThrowawayKey (trim_space t) \<longrightarrow> allow_throwaway env))"

definition account_entry :: "string \<Rightarrow> string \<times> account_pattern \<Rightarrow> bool" where
  "account_entry e b \<longleftrightarrow> (\<exists>n p. cut_char CHR ''='' e = Some (n, p) \<and> fst b = trim_space n
     \<and> ParseAccountPattern (trim_space p) = Inr (snd b))"

definition entries :: "string \<Rightarrow> string list" where
  "entries s = filter (\<lambda>e. e \<noteq> []) (map trim_space (split_char CHR '','' (trim_space s)))"

lemma entries_blank: "trim_space s = [] \<Longrightarrow> entries s = []"
proof -
  have "trim_space [] = []" by (simp add: trim_space_def)
  then show "trim_space s = [] \<Longrightarrow> entries s = []" by (simp add: entries_def)
qed

lemma keyset_entry_ok:
  "keyset_entry env keys e = Inr key \<Longrightarrow> key_entry env e key \<and> map_of keys (fst key) = None"
  by (auto simp: keyset_entry_def key_entry_def Let_def split: option.splits if_splits)

lemma binding_entry_ok:
  "binding_entry out e = Inr b \<Longrightarrow> account_entry e b \<and> map_of out (fst b) = None"
  by (auto simp: binding_entry_def account_entry_def Let_def split: option.splits if_splits sum.splits)

text \<open>The loop both parsers run over comma-separated entries: blank ones are skipped, the first bad one
  refuses the list, a name occurs once.\<close>

locale entry_list =
  fixes entry :: "(string \<times> 'v) list \<Rightarrow> string \<Rightarrow> config_error + (string \<times> 'v)"
    and loop :: "string list \<Rightarrow> (string \<times> 'v) list \<Rightarrow> config_error + (string \<times> 'v) list"
    and good :: "string \<Rightarrow> string \<times> 'v \<Rightarrow> bool"
  assumes loop_nil: "loop [] out = Inr out"
    and loop_cons: "loop (e # es) out = (if trim_space e = [] then loop es out
      else case entry out (trim_space e) of Inl err \<Rightarrow> Inl err | Inr b \<Rightarrow> loop es (out @ [b]))"
    and entry_ok: "entry out e = Inr b \<Longrightarrow> good e b \<and> map_of out (fst b) = None"
begin

lemma loop_ok:
  "loop es out = Inr out' \<Longrightarrow> distinct (map fst out) \<Longrightarrow>
    distinct (map fst out') \<and> (\<exists>new. out' = out @ new \<and> list_all2 good (filter (\<lambda>e. e \<noteq> []) (map trim_space es)) new)"
proof (induction es arbitrary: out)
  case Nil then show ?case by (simp add: loop_nil)
next
  case (Cons e es)
  show ?case
  proof (cases "trim_space e = []")
    case True then show ?thesis using Cons by (simp add: loop_cons)
  next
    case False
    then obtain b where b: "entry out (trim_space e) = Inr b" "loop es (out @ [b]) = Inr out'"
      using Cons.prems by (auto simp: loop_cons split: sum.splits)
    note ok = entry_ok [OF b(1)]
    then have "distinct (map fst (out @ [b]))" using Cons.prems(2) by (simp add: map_of_eq_None_iff)
    from Cons.IH [OF b(2) this] show ?thesis using ok False by auto
  qed
qed

lemma list_ok:
  "loop (split_char CHR '','' (trim_space s)) [] = Inr out \<Longrightarrow> distinct (map fst out) \<and> list_all2 good (entries s) out"
  using loop_ok [of "split_char CHR '','' (trim_space s)" "[]" out] by (auto simp: entries_def)

end

interpretation key_list: entry_list "keyset_entry env" "keyset_loop env" "key_entry env" for env
  by unfold_locales (auto dest: keyset_entry_ok)

interpretation binding_list: entry_list binding_entry binding_loop account_entry
  by unfold_locales (auto dest: binding_entry_ok)

lemma parse_keyset_ok:
  assumes "parseKeyset env s = Inr ks"
  shows "case ks of None \<Rightarrow> entries s = [] | Some keys \<Rightarrow> distinct (map fst keys) \<and> list_all2 (key_entry env) (entries s) keys"
proof (cases "trim_space s = []")
  case True
  then show ?thesis using assms using entries_blank by (auto simp: parseKeyset_def)
next
  case False
  then obtain keys where "keyset_loop env (split_char CHR '','' (trim_space s)) [] = Inr keys" "ks = Some keys"
    using assms by (auto simp: parseKeyset_def split: sum.splits if_splits)
  then show ?thesis using key_list.list_ok by auto
qed

lemma parse_bindings_ok:
  assumes "parseKeyBindings s = Inr bs"
  shows "distinct (map fst bs) \<and> list_all2 account_entry (entries s) bs"
proof (cases "trim_space s = []")
  case True
  then show ?thesis using assms using entries_blank by (auto simp: parseKeyBindings_def)
next
  case False
  then have "binding_loop (split_char CHR '','' (trim_space s)) [] = Inr bs"
    using assms by (auto simp: parseKeyBindings_def split: sum.splits if_splits)
  then show ?thesis by (rule binding_list.list_ok)
qed

section \<open>The verifier of a booted deployment\<close>

definition flag_set :: "environment \<Rightarrow> bool" where
  "flag_set env \<longleftrightarrow> parse_bool (trim_space (env ''PLATE_JWT_REQUIRE_KEY_BINDING'')) = Some True"

lemma flag_read: "parseBoolEnv env ''PLATE_JWT_REQUIRE_KEY_BINDING'' = Inr b \<Longrightarrow> b \<longleftrightarrow> flag_set env"
  by (auto simp: parseBoolEnv_def flag_set_def parse_bool_def Let_def split: if_splits option.splits)

lemma env_verifier_cases:
  assumes "env_verifier env = Inr v"
  obtains (deny) "v = DenyAllVerifier" "entries (env ''PLATE_JWT_PUBLIC_KEYS'') = []"
      "entries (env ''PLATE_JWT_KEY_ACCOUNTS'') = []"
  | (keys) legacy keys bs where
      "NewBoundKeysetVerifier legacy keys bs (env ''PLATE_JWT_ISSUER'') (env ''PLATE_JWT_AUDIENCE'') = Inr v"
      "distinct (map fst keys)" "list_all2 (key_entry env) (entries (env ''PLATE_JWT_PUBLIC_KEYS'')) keys"
      "distinct (map fst bs)" "list_all2 account_entry (entries (env ''PLATE_JWT_KEY_ACCOUNTS'')) bs"
      "flag_set env \<Longrightarrow> UnboundKeys v = []"
proof -
  obtain ks bs b where ks: "parseKeyset env (env ''PLATE_JWT_PUBLIC_KEYS'') = Inr ks"
    and bs: "parseKeyBindings (env ''PLATE_JWT_KEY_ACCOUNTS'') = Inr bs"
    and b: "parseBoolEnv env ''PLATE_JWT_REQUIRE_KEY_BINDING'' = Inr b"
    using assms by (auto simp: env_verifier_def split: sum.splits)
  note K = parse_keyset_ok [OF ks] and B = parse_bindings_ok [OF bs] and F = flag_read [OF b]
  show thesis
  proof (cases "env ''PLATE_JWT_PUBLIC_KEY'' = [] \<and> ks = None")
    case True
    then have "bs = []" "v = DenyAllVerifier" using assms ks bs b by (auto simp: env_verifier_def split: if_splits)
    then show thesis using deny K B True by auto
  next
    case False
    let ?keys = "case ks of None \<Rightarrow> [] | Some k \<Rightarrow> k"
    obtain legacy where l: "legacy_key env = Inr legacy"
      using assms ks bs b False by (auto simp: env_verifier_def split: sum.splits)
    have v: "NewBoundKeysetVerifier legacy ?keys bs (env ''PLATE_JWT_ISSUER'') (env ''PLATE_JWT_AUDIENCE'') = Inr v
      \<and> \<not> (b \<and> length (UnboundKeys v) > 0)"
      using assms ks bs b l False by (auto simp: env_verifier_def split: sum.splits if_splits)
    have "distinct (map fst ?keys) \<and> list_all2 (key_entry env) (entries (env ''PLATE_JWT_PUBLIC_KEYS'')) ?keys"
      using K by (cases ks) auto
    then have K2: "distinct (map fst ?keys)" "list_all2 (key_entry env) (entries (env ''PLATE_JWT_PUBLIC_KEYS'')) ?keys" by auto
    show thesis by (rule keys [OF conjunct1 [OF v] K2]) (use v B F in auto)
  qed
qed

lemma boot_parts:
  assumes "boot hm aws env = Inr (v, s, h)"
  obtains cfg sc where "LoadEnv env = Inr cfg" "LoadStorage aws env = Inr sc" "v = ec_Verifier cfg"
    "s = new_service hm cfg sc" "h = newHealth (ec_Health cfg)"
  using assms by (auto simp: boot_def split: sum.splits)

lemma boot_verifier: "boot hm aws env = Inr (v, s, h) \<Longrightarrow> env_verifier env = Inr v"
  by (erule boot_parts) (auto simp: LoadEnv_def Let_def split: if_splits sum.splits)

lemma deny_all_verifies_nothing: "\<not> is_ok (Verify lib DenyAllVerifier tok)"
  by (auto simp: is_ok_iff verify_ok_iff verified_def trusted_key_def DenyAllVerifier_def split: option.splits if_splits)

lemma unbound_empty:
  assumes "UnboundKeys v = []" "verified lib v tok t name"
  shows "map_of (v_bindings v) name \<noteq> None"
proof -
  have none: "name \<notin> set (UnboundKeys v)" using assms(1) by simp
  obtain key where "trusted_key v t name key" using assms(2) by (auto simp: verified_def)
  then have "(name = LegacyKeyName \<and> v_pub v = Some key) \<or> map_of (v_keys v) name = Some key"
    by (auto simp: trusted_key_def split: option.splits if_splits)
  then have "(name = LegacyKeyName \<and> v_pub v \<noteq> None) \<or> name \<in> set (map fst (v_keys v))"
    using map_of_SomeD [of "v_keys v" name key] by (auto intro: rev_image_eqI)
  then show ?thesis using none by (auto simp: UnboundKeys_def split: if_splits)
qed

section \<open>Headline properties\<close>

lemma list_all2_in: "list_all2 P xs ys \<Longrightarrow> x \<in> set xs \<Longrightarrow> \<exists>y \<in> set ys. P x y"
  by (induction rule: list_all2_induct) auto

text \<open>C12: In a deployment that booted, every entry of PLATE_JWT_KEY_ACCOUNTS is in force on every token: a
  token accepted under the key an entry names is for an account the entry's pattern admits, so no
  binding is dropped or widened on the way. With PLATE_JWT_REQUIRE_KEY_BINDING set, every accepted
  token is bound.\<close>
theorem boot_bindings_enforced:
  assumes "boot hm aws env = Inr (v, s, h)" "Verify lib v tok = Inr c"
  shows "(\<forall>e n p. e \<in> set (entries (env ''PLATE_JWT_KEY_ACCOUNTS'')) \<longrightarrow> cut_char CHR ''='' e = Some (n, p)
        \<longrightarrow> trim_space n = cl_keyName c \<longrightarrow> (\<exists>a. ParseAccountPattern (trim_space p) = Inr a \<and> Matches a (cl_account c)))
    \<and> (flag_set env \<longrightarrow> (\<exists>a. cl_binding c = Some a \<and> Matches a (cl_account c)))"
  using boot_verifier [OF assms(1)]
proof (cases rule: env_verifier_cases)
  case deny
  then show ?thesis using deny_all_verifies_nothing [of lib tok] assms(2) by (simp add: is_ok_def)
next
  case (keys legacy ks bs)
  note bound = bound_verifier_bindings [OF keys(1,4)]
  obtain t where t: "verified lib v tok t (cl_keyName c)" "cl_binding c = map_of bs (cl_keyName c)"
    "\<forall>p. cl_binding c = Some p \<longrightarrow> Matches p (cl_account c)"
    using assms(2) by (auto simp: verify_ok_iff bound(1))
  show ?thesis
  proof (intro conjI allI impI)
    fix e n p
    assume e: "e \<in> set (entries (env ''PLATE_JWT_KEY_ACCOUNTS''))" "cut_char CHR ''='' e = Some (n, p)"
      "trim_space n = cl_keyName c"
    obtain b where b: "b \<in> set bs" "account_entry e b" using list_all2_in [OF keys(5) e(1)] by blast
    then have a: "fst b = cl_keyName c" "ParseAccountPattern (trim_space p) = Inr (snd b)"
      using e by (auto simp: account_entry_def)
    then have "map_of bs (cl_keyName c) = Some (snd b)" using keys(4) b(1) by (metis map_of_eq_Some_iff prod.collapse)
    then show "\<exists>a. ParseAccountPattern (trim_space p) = Inr a \<and> Matches a (cl_account c)" using a(2) t by auto
  next
    assume "flag_set env"
    then have "map_of (v_bindings v) (cl_keyName c) \<noteq> None" using unbound_empty [OF keys(6) t(1)] by blast
    then show "\<exists>a. cl_binding c = Some a \<and> Matches a (cl_account c)" using t bound(1) by auto
  qed
qed

text \<open>C13: The key set in force is the one the environment names, entry by entry: one key per entry, in order,
  under a plain and unique kid, decoded from the entry's own text to 32 bytes, and no known
  throwaway text unless the operator opted in.\<close>
theorem boot_keyset_exact:
  assumes "boot hm aws env = Inr (v, s, h)"
  shows "distinct (map fst (v_keys v)) \<and> list_all2 (key_entry env) (entries (env ''PLATE_JWT_PUBLIC_KEYS'')) (v_keys v)"
  using boot_verifier [OF assms]
proof (cases rule: env_verifier_cases)
  case deny
  then show ?thesis by (simp add: DenyAllVerifier_def)
next
  case (keys legacy ks bs)
  then show ?thesis using bound_verifier_bindings(2) [OF keys(1,4)] by simp
qed

lemma new_service_window:
  "0 < sv_grantURLTTL (new_service hm cfg sc) \<and> sv_grantURLTTL (new_service hm cfg sc) \<le> 120 * second"
  by (simp add: new_service_def Let_def DefaultGrantedURLTTL_def GrantedImageMaxTTL_def second_def)

lemma public_resolution:
  assumes "dr_Delivery (resolveNonOriginal s i device a) = Some dl"
  shows "dl_Mode dl = Public \<and> dl_Expires dl = None"
proof -
  have av: "dr_Delivery (av_resolution s i a rs) = Some dl \<Longrightarrow> dl_Mode dl = Public \<and> dl_Expires dl = None" for rs
    by (induction rs) (auto simp: refusal_def Resolve_def Let_def split: if_splits rendition_status.splits sum.splits option.splits delivery_host.splits)
  show ?thesis using assms av
    by (auto simp: resolveNonOriginal_def refusal_def public_image_def renditionStateResolution_def Resolve_def Let_def
        split: if_splits option.splits rendition_status.splits sum.splits delivery_host.splits)
qed

lemma store_error_body: "mapStoreErr e \<noteq> (code, B_Resolution r)"
  by (cases e) (simp_all add: denyNotFound_def)

lemma granted_delivery:
  "enforceGranted s now dl a g i device = Some sdl \<Longrightarrow> dl_Expires sdl = Some (now + sv_grantURLTTL s)"
  by (auto simp: enforceGranted_def Let_def split: if_splits option.splits media_kind.splits)

text \<open>C16: The window of a URL that cannot be revoked: what the delivery endpoint of a booted service hands
  out is a public URL of the owner's own request, or expires after now and within two minutes,
  however the TTL was configured; through a grant there is no other kind.\<close>
theorem booted_url_window:
  assumes "boot hm aws env = Inr (v, s, h)"
    "fst (handleResolveDeliveryURL s now cl d c i qi qd g) = (code, B_Resolution r)" "dr_Delivery r = Some dl"
  shows "(dl_Mode dl = Public \<and> g = []) \<or> (\<exists>t. dl_Expires dl = Some t \<and> now < t \<and> t \<le> now + 120 * second)"
proof -
  have w: "0 < sv_grantURLTTL s" "sv_grantURLTTL s \<le> 120 * second"
    using assms(1) new_service_window by (auto elim: boot_parts)
  have granted: "dl_Expires dl = Some (now + sv_grantURLTTL s)"
    if "fst (resolveGranted s now d c g i n dev) = (code, B_Resolution r)" for n dev
    using that assms(3) granted_delivery
    by (auto simp: resolveGranted_def unauthorized_def refusal_def Let_def split: if_splits prod.splits sum.splits option.splits)
  show ?thesis
  proof (cases "g = []")
    case True
    have "dl_Mode dl = Public \<or> dl_Expires dl = Some (now + sv_grantURLTTL s)"
      using assms(2,3) True public_resolution
      by (auto simp: handleResolveDeliveryURL_def lacks_scope_def store_error_body refusal_def Let_def
          split: if_splits option.splits sum.splits)
    then show ?thesis using w True by auto
  next
    case False
    have "dl_Expires dl = Some (now + sv_grantURLTTL s)"
      using assms(2) False granted
      by (auto simp: handleResolveDeliveryURL_def lacks_scope_def split: if_splits option.splits)
    then show ?thesis using w by auto
  qed
qed

section \<open>A deployment\<close>

text \<open>One key under the kid ops (32 zero bytes), bound to the namespace reg_, in strict mode.\<close>

definition zero_key :: string where
  "zero_key = ''AAAAAAAAAAAAAAAAAAAAAAAAAAAAAAAAAAAAAAAAAAA=''"

definition strict_env :: environment where
  "strict_env k = (if k = ''DATABASE_URL'' then ''db'' else if k = ''PLATE_JWT_PUBLIC_KEYS'' then ''ops='' @ zero_key
     else if k = ''PLATE_DELIVERY_SIGNING_KEY'' then ''k''
     else if k = ''PLATE_JWT_KEY_ACCOUNTS'' then ''ops=reg_*'' else if k = ''PLATE_JWT_REQUIRE_KEY_BINDING'' then ''true''
     else [])"

lemmas text_simps = trim_space_def is_space_def is_digit_def is_alnum_def less_eq_char_def has_suffix_def trim_suffix_def
  contains_char_def account_char_def kid_char_def

definition zero_raw :: string where "zero_raw = replicate 32 (CHR 0x00)"

lemma zero_groups:
  "b64_group CHR ''A'' CHR ''A'' CHR ''A'' CHR ''A'' = Some [CHR 0x00, CHR 0x00, CHR 0x00]"
  "b64_last CHR ''A'' CHR ''A'' CHR ''A'' CHR ''='' = Some [CHR 0x00, CHR 0x00]"
  by (simp_all add: b64_group_def b64_last_def b64_std_val_def less_eq_char_def char_of_def)

lemma zero_raw_eval: "zero_raw = [CHR 0x00, CHR 0x00, CHR 0x00, CHR 0x00, CHR 0x00, CHR 0x00, CHR 0x00, CHR 0x00, CHR 0x00, CHR 0x00, CHR 0x00, CHR 0x00, CHR 0x00, CHR 0x00, CHR 0x00, CHR 0x00,
    CHR 0x00, CHR 0x00, CHR 0x00, CHR 0x00, CHR 0x00, CHR 0x00, CHR 0x00, CHR 0x00, CHR 0x00, CHR 0x00, CHR 0x00, CHR 0x00, CHR 0x00, CHR 0x00, CHR 0x00, CHR 0x00]"
  by (simp add: zero_raw_def numeral_eq_Suc)

lemma zero_key_loads: "loadEd25519Public zero_key = Some zero_raw"
proof -
  have "b64_std_decode zero_key = Some zero_raw"
    unfolding zero_raw_eval by (simp add: b64_std_decode_def zero_key_def line_break_def zero_groups)
  moreover have "zero_key \<noteq> []" "length zero_raw = 32" by (simp_all add: zero_key_def zero_raw_def)
  ultimately show ?thesis by (simp add: loadEd25519Public_def)
qed

lemma strict_texts:
  "trim_space (''ops='' @ zero_key) = ''ops='' @ zero_key" "trim_space zero_key = zero_key" "zero_key \<noteq> []"
  "trim_space ''ops'' = ''ops''" "trim_space ''ops=reg_*'' = ''ops=reg_*''" "trim_space ''reg_*'' = ''reg_*''"
  "trim_space ''true'' = ''true''" "validKid ''ops''"
  "split_char CHR '','' (''ops='' @ zero_key) = [''ops='' @ zero_key]"
  "split_char CHR '','' ''ops=reg_*'' = [''ops=reg_*'']"
  by (simp_all add: zero_key_def validKid_def text_simps)

lemma strict_keyset: "parseKeyset env (''ops='' @ zero_key) = Inr (Some [(''ops'', zero_raw)])"
proof -
  have "\<not> isThrowawayKey zero_key"
    by (simp add: isThrowawayKey_def strict_texts) (simp add: zero_key_def knownThrowawayKeys_def)
  then show ?thesis
    unfolding parseKeyset_def strict_texts
    by (simp add: strict_texts [simplified] keyset_entry_def zero_key_loads Let_def)
qed

lemma strict_bindings: "parseKeyBindings ''ops=reg_*'' = Inr [(''ops'', \<lparr>ap_value = ''reg_'', ap_prefix = True\<rparr>)]"
  by (simp add: parseKeyBindings_def strict_texts binding_entry_def Let_def ParseAccountPattern_def has_suffix_def
      trim_suffix_def contains_char_def ValidAccountID_def account_char_def is_alnum_def is_digit_def less_eq_char_def
      LegacyKeyName_def)

definition strict_verifier :: "string verifier" where
  "strict_verifier = (NewKeysetVerifier None [(''ops'', zero_raw)] [] [])
     \<lparr>v_bindings := [(''ops'', \<lparr>ap_value = ''reg_'', ap_prefix = True\<rparr>)]\<rparr>"

lemma strict_env_verifier: "env_verifier strict_env = Inr strict_verifier"
  unfolding env_verifier_def
  by (simp add: strict_env_def strict_keyset [simplified] strict_bindings parseBoolEnv_def strict_texts parse_bool_def legacy_key_def
      Let_def NewBoundKeysetVerifier_def NewKeysetVerifier_def LegacyKeyName_def strict_verifier_def UnboundKeys_def)

lemma strict_LoadEnv: "\<exists>cfg. LoadEnv strict_env = Inr cfg \<and> ec_Verifier cfg = strict_verifier
    \<and> ec_DeliverySigningKey cfg = ''k'' \<and> ec_GrantURLTTL cfg = 0"
  by (simp add: LoadEnv_def env_base_def strict_env_verifier Let_def)
     (simp add: strict_env_def env_urls_def parseDurationOr_def contains_text.simps has_prefix_def trim_right_slash_def
        GrantedImageMaxTTL_def second_def)

lemma strict_boot:
  obtains s h where "boot hm aws strict_env = Inr (strict_verifier, s, h)" "sv_signer s = Some ''k''"
    "sv_grantURLTTL s = 90 * second"
  using strict_LoadEnv
  by (auto simp: boot_def LoadStorage_def Let_def set_count_def strict_env_def new_service_def newSigner_def
      DefaultGrantedURLTTL_def GrantedImageMaxTTL_def second_def)

text \<open>A bucket that answers nothing.\<close>

definition no_aws :: "s3_config \<Rightarrow> storage" where
  "no_aws cfg = \<lparr>st_PresignGet = \<lambda>_ _. None, st_PresignPut = \<lambda>_ _ _ _. None, st_Head = \<lambda>_. None, st_ProbeImage = \<lambda>_. None\<rparr>"

lemma boot_keyset_exact_witness:
  "list_all2 (key_entry strict_env) (entries (strict_env ''PLATE_JWT_PUBLIC_KEYS'')) (v_keys strict_verifier)
     \<and> map fst (v_keys strict_verifier) = [''ops'']"
proof -
  obtain s h where b: "boot toy_hmac no_aws strict_env = Inr (strict_verifier, s, h)" by (rule strict_boot) blast
  show ?thesis using boot_keyset_exact [OF b] by (simp add: strict_verifier_def NewKeysetVerifier_def)
qed

text \<open>A library whose tokens are their own account, signed under the kid ops.\<close>

definition ops_lib :: "string jwt_lib" where
  "ops_lib = \<lparr>jl_decode = \<lambda>tok. Some \<lparr>jt_alg = ''EdDSA'', jt_ed25519 = True, jt_kid = Some ''ops'',
     jt_account = tok, jt_scope = []\<rparr>, jl_sig_ok = \<lambda>tok key. key = zero_raw, jl_claims_ok = \<lambda>_ _ _. True\<rparr>"

lemma boot_bindings_enforced_witness:
  "\<exists>c. Verify ops_lib strict_verifier ''reg_b'' = Inr c
     \<and> (\<exists>a. cl_binding c = Some a \<and> Matches a ''reg_b'')"
proof -
  obtain s h where b: "boot toy_hmac no_aws strict_env = Inr (strict_verifier, s, h)" by (rule strict_boot) blast
  have "\<exists>c. Verify ops_lib strict_verifier ''reg_b'' = Inr c \<and> cl_account c = ''reg_b''"
    by (simp add: Verify_def parse_with_claims_def select_key_def ops_lib_def strict_verifier_def NewKeysetVerifier_def
        Matches_def has_prefix_def ValidAccountID_def account_char_def is_alnum_def is_digit_def less_eq_char_def Let_def)
  then obtain c where c: "Verify ops_lib strict_verifier ''reg_b'' = Inr c" "cl_account c = ''reg_b''" by blast
  have "flag_set strict_env" by (simp add: flag_set_def strict_env_def strict_texts parse_bool_def)
  then show ?thesis using boot_bindings_enforced [OF b c(1)] c by auto
qed

section \<open>Around the throwaway guard\<close>

lemma trim_space_solid: "s \<noteq> [] \<Longrightarrow> \<not> is_space (hd s) \<Longrightarrow> \<not> is_space (last s) \<Longrightarrow> trim_space s = s"
proof -
  assume s: "s \<noteq> []" "\<not> is_space (hd s)" "\<not> is_space (last s)"
  have d: "dropWhile is_space t = t" if "t \<noteq> []" "\<not> is_space (hd t)" for t using that by (cases t) auto
  show ?thesis unfolding trim_space_def using s by (simp add: d hd_rev)
qed

lemma throwaway_chars: "key \<in> set knownThrowawayKeys \<Longrightarrow> c \<in> set key \<Longrightarrow> \<not> is_space c"
  by (simp add: knownThrowawayKeys_def) (elim disjE; simp add: is_space_def; elim disjE; simp)

text \<open>The guard against throwaway keys is by text: with a line break inside, the text of a known throwaway
  key is not recognised, and the base64 decoder skips the break, so a boot without the opt-in takes
  the very key it would have refused.\<close>
theorem throwaway_line_break:
  assumes "key \<in> set knownThrowawayKeys" "key = x @ y" "x \<noteq> []" "y \<noteq> []"
    "env ''PLATE_JWT_PUBLIC_KEY'' = x @ CHR 0x0A # y" "\<not> allow_throwaway env"
  shows "legacy_key (env(''PLATE_JWT_PUBLIC_KEY'' := key)) = Inl CE_ThrowawayLegacy
    \<and> legacy_key env = (case loadEd25519Public key of None \<Rightarrow> Inl CE_LegacyKey | Some k \<Rightarrow> Inr (Some k))"
proof -
  let ?t = "x @ CHR 0x0A # y"
  have "hd ?t \<in> set key" "last ?t \<in> set key" using assms(2-4) by (auto simp: hd_append)
  then have trim: "trim_space ?t = ?t" using throwaway_chars [OF assms(1)] by (intro trim_space_solid) auto
  have "CHR 0x0A \<notin> set k" if "k \<in> set knownThrowawayKeys" for k
    using throwaway_chars [OF that, of "CHR 0x0A"] by (auto simp: is_space_def)
  then have "\<not> isThrowawayKey ?t" unfolding isThrowawayKey_def trim by (meson in_set_conv_decomp)
  moreover have "loadEd25519Public ?t = loadEd25519Public key"
    using b64_line_break [of "CHR 0x0A" x y] assms(2,3) by (simp add: loadEd25519Public_def line_break_def)
  moreover have "trim_space key = key"
  proof (rule trim_space_solid)
    show "key \<noteq> []" using assms(2,3) by simp
    then show "\<not> is_space (hd key)" "\<not> is_space (last key)" using throwaway_chars [OF assms(1)] by auto
  qed
  then have "isThrowawayKey key" using assms(1) by (simp add: isThrowawayKey_def)
  ultimately show ?thesis using assms by (auto simp: legacy_key_def Let_def allow_throwaway_def)
qed

lemma throwaway_line_break_witness:
  "legacy_key ((\<lambda>_. [])(''PLATE_JWT_PUBLIC_KEY'' := ''9SRB'' @ CHR 0x0A # ''sqY2/qVTTwxviZ5GiTFKmxu8DY14lIZ0W890RwU=''))
     \<noteq> Inl CE_ThrowawayLegacy
   \<and> legacy_key ((\<lambda>_. [])(''PLATE_JWT_PUBLIC_KEY'' := ''9SRBsqY2/qVTTwxviZ5GiTFKmxu8DY14lIZ0W890RwU='')) = Inl CE_ThrowawayLegacy"
proof -
  let ?key = "''9SRBsqY2/qVTTwxviZ5GiTFKmxu8DY14lIZ0W890RwU=''"
  let ?env = "(\<lambda>_. [])(''PLATE_JWT_PUBLIC_KEY'' := ''9SRB'' @ CHR 0x0A # ''sqY2/qVTTwxviZ5GiTFKmxu8DY14lIZ0W890RwU='')"
  have known: "?key \<in> set knownThrowawayKeys" by (simp add: knownThrowawayKeys_def)
  have split: "?key = ''9SRB'' @ ''sqY2/qVTTwxviZ5GiTFKmxu8DY14lIZ0W890RwU=''" by simp
  have strict: "\<not> allow_throwaway ?env" by (simp add: allow_throwaway_def)
  have env: "?env(''PLATE_JWT_PUBLIC_KEY'' := ?key) = (\<lambda>_. [])(''PLATE_JWT_PUBLIC_KEY'' := ?key)" by (rule fun_upd_upd)
  note t = throwaway_line_break [OF known split _ _ _ strict, unfolded env]
  show ?thesis using t by (simp split: option.splits)
qed

text \<open>The owner of the demo asset asks for its original.\<close>

lemma booted_url_window_witness:
  "\<exists>s t dl. fst (handleResolveDeliveryURL s 100 (Some \<lparr>cl_account = ''alice'', cl_scope = [''assets:read''], cl_keyName = [], cl_binding = None\<rparr>)
      demo_db Map.empty ''A1'' ''original'' [] []) = (200, B_Resolution \<lparr>dr_Delivery = Some dl, dr_Detail = None, dr_Intent = Original, dr_Reason = None\<rparr>)
    \<and> dl_Expires dl = Some t \<and> 100 < t \<and> t \<le> 100 + 120 * second"
proof -
  let ?cl = "Some \<lparr>cl_account = ''alice'', cl_scope = [''assets:read''], cl_keyName = [], cl_binding = None\<rparr>"
  obtain s h where b: "boot toy_hmac no_aws strict_env = Inr (strict_verifier, s, h)" "sv_signer s = Some ''k''"
    by (rule strict_boot) blast
  obtain a where a: "GetAsset demo_db ''alice'' ''A1'' = Inr a" "asset_DeletedAt a = None"
    by (simp add: GetAsset_def scanAsset_def scanAssetRow_def demo_db_eval table_defs asset_is_def demo_asset_def)
  have q: "scopeCheck ?cl ''assets:read''" "account ?cl = ''alice''" "validIntent ''original''"
    "intent_of ''original'' = Some Original" "parseDevice [] = Some Mobile"
    using intent_of_str [of Original] by (simp_all add: scopeCheck_def HasScope_def account_def validIntent_def parseDevice_def)
  obtain dl where run: "fst (handleResolveDeliveryURL s 100 ?cl demo_db Map.empty ''A1'' ''original'' [] [])
      = (200, B_Resolution \<lparr>dr_Delivery = Some dl, dr_Detail = None, dr_Intent = Original, dr_Reason = None\<rparr>)" "dl_Mode dl = Signed"
    using a unfolding handleResolveDeliveryURL_def q by (simp add: q a b(2) Let_def)
  from booted_url_window [OF b(1) run(1)] run(2) show ?thesis using run(1) by auto
qed

end
