(* ===== verification/Go_Scan.thy ===== *)
theory Go_Scan
  imports Go_Parse_Float Go_Time
begin

text \<open>
  The number texts an operator types: \<open>strconv.ParseFloat\<close> in full (spelled values, underscores,
  hexadecimal mantissas), \<open>strconv.ParseInt\<close> with the base in the text, and \<open>fmt.Sscanf\<close> with
  the verb \<open>%g\<close>, which reads the longest number at the head of the text and never looks at the
  rest. Results past the float64 range are the infinities of the scanner; \<open>gf_int64\<close> is Go's
  conversion on amd64.
\<close>

datatype go_float = Fin float64 | PosInf | NegInf | NaN

section \<open>Underscores\<close>

definition is_hex_digit :: "char \<Rightarrow> bool" where
  "is_hex_digit c = (is_digit c \<or> (CHR ''a'' \<le> lower_char c \<and> lower_char c \<le> CHR ''f''))"

datatype char_class = AtStart | AfterDigit | AfterUnderscore | AfterOther

fun underscore_loop :: "bool \<Rightarrow> char_class \<Rightarrow> string \<Rightarrow> bool" where
  "underscore_loop hex i [] = (i \<noteq> AfterUnderscore)"
| "underscore_loop hex i (c # cs) =
     (if is_digit c \<or> hex \<and> is_hex_digit c then underscore_loop hex AfterDigit cs
      else if c = CHR ''_'' then (if i \<noteq> AfterDigit then False else underscore_loop hex AfterUnderscore cs)
      else if i = AfterUnderscore then False
      else underscore_loop hex AfterOther cs)"

text \<open>A base prefix: its lower-case letter and the text behind it.\<close>

definition base_prefix :: "string \<Rightarrow> char set \<Rightarrow> (char \<times> string) option" where
  "base_prefix s letters = (case s of z # x # t \<Rightarrow> if z = CHR ''0'' \<and> lower_char x \<in> letters then Some (lower_char x, t) else None | _ \<Rightarrow> None)"

definition underscoreOK :: "string \<Rightarrow> bool" where
  "underscoreOK s0 =
     (let s = snd (sign_of s0) in
      case base_prefix s {CHR ''b'', CHR ''o'', CHR ''x''} of
        Some (x, t) \<Rightarrow> underscore_loop (x = CHR ''x'') AfterDigit t
      | None \<Rightarrow> underscore_loop False AtStart s)"

definition without_underscores :: "string \<Rightarrow> string option" where
  "without_underscores s = (if CHR ''_'' \<in> set s \<and> \<not> underscoreOK s then None else Some (filter (\<lambda>c. c \<noteq> CHR ''_'') s))"

section \<open>ParseFloat\<close>

definition hex_val :: "char \<Rightarrow> nat" where
  "hex_val c = (if is_digit c then digit_val c else of_char (lower_char c) - 87)"

definition hex_value :: "string \<Rightarrow> nat" where
  "hex_value s = foldl (\<lambda>n c. n * 16 + hex_val c) 0 s"

text \<open>A hexadecimal float behind its prefix: the binary exponent is required.\<close>

definition parse_hex_float :: "string \<Rightarrow> float64 option" where
  "parse_hex_float t =
     (let whole = takeWhile is_hex_digit t; t1 = dropWhile is_hex_digit t;
          (frac, t2) = (case t1 of c # cs \<Rightarrow> if c = CHR ''.'' then (takeWhile is_hex_digit cs, dropWhile is_hex_digit cs) else ([], t1)
                        | [] \<Rightarrow> ([], []))
      in case t2 of [] \<Rightarrow> None
         | p # t3 \<Rightarrow>
           (let (neg, t4) = sign_of t3; (ds, rest) = digits_of t4 in
            if whole = [] \<and> frac = [] \<or> lower_char p \<noteq> CHR ''p'' \<or> ds = [] \<or> rest \<noteq> [] then None
            else let ex = (if neg then - int (digits_value ds) else int (digits_value ds));
                     q = of_nat (hex_value (whole @ frac)) * 2 powi (ex - 4 * int (length frac))
                 in if q \<ge> float_range then None else Some (fl q)))"

definition special_float :: "string \<Rightarrow> go_float option" where
  "special_float s =
     (let (neg, t) = sign_of s in
      if to_lower t = ''inf'' \<or> to_lower t = ''infinity'' then Some (if neg then NegInf else PosInf)
      else if to_lower s = ''nan'' then Some NaN else None)"

definition ParseFloat64 :: "string \<Rightarrow> go_float option" where
  "ParseFloat64 s =
     (case special_float s of Some v \<Rightarrow> Some v
      | None \<Rightarrow>
        (case without_underscores s of None \<Rightarrow> None
         | Some t \<Rightarrow>
           (let (neg, b) = sign_of t in
            case base_prefix b {CHR ''x''} of
              Some (x, h) \<Rightarrow> map_option (\<lambda>q. Fin (if neg then - q else q)) (parse_hex_float h)
            | None \<Rightarrow> map_option Fin (ParseFloat t))))"

section \<open>ParseInt with base 0\<close>

definition alnum_val :: "char \<Rightarrow> nat option" where
  "alnum_val c = (if is_digit c then Some (digit_val c)
     else if CHR ''a'' \<le> lower_char c \<and> lower_char c \<le> CHR ''z'' then Some (of_char (lower_char c) - 87) else None)"

fun parse_base :: "nat \<Rightarrow> string \<Rightarrow> nat \<Rightarrow> nat option" where
  "parse_base b [] n = Some n"
| "parse_base b (c # cs) n =
     (case alnum_val c of None \<Rightarrow> None | Some d \<Rightarrow> if d \<ge> b then None else parse_base b cs (n * b + d))"

text \<open>The base and the digits of an unsigned text; a lone prefix is an octal zero with a bad digit.\<close>

definition base_of :: "string \<Rightarrow> nat \<times> string" where
  "base_of s =
     (case s of c # t \<Rightarrow>
        if c \<noteq> CHR ''0'' then (10, s)
        else if length s \<ge> 3 then
          (case base_prefix s {CHR ''b'', CHR ''o'', CHR ''x''} of
             Some (x, h) \<Rightarrow> (if x = CHR ''b'' then 2 else if x = CHR ''o'' then 8 else 16, h)
           | None \<Rightarrow> (8, t))
        else (8, t)
      | [] \<Rightarrow> (10, []))"

definition parse_int0 :: "string \<Rightarrow> int option" where
  "parse_int0 s0 =
     (let (neg, s) = sign_of s0; (b, ds) = base_of s in
      if s = [] \<or> (CHR ''_'' \<in> set s \<and> \<not> underscoreOK s) then None
      else case parse_base b (filter (\<lambda>c. c \<noteq> CHR ''_'') ds) 0 of None \<Rightarrow> None
        | Some n \<Rightarrow> (let v = (if neg then - int n else int n) in if int64_range v then Some v else None))"

section \<open>Sscanf\<close>

text \<open>\<open>s.accept\<close> moves one character from the input to the buffer; a chain of them stops at the
  first refusal but keeps what it has moved.\<close>

fun accept_seq :: "(char \<Rightarrow> bool) list \<Rightarrow> string \<times> string \<Rightarrow> bool \<times> string \<times> string" where
  "accept_seq [] st = (True, st)"
| "accept_seq (p # ps) (buf, []) = (False, buf, [])"
| "accept_seq (p # ps) (buf, c # cs) = (if p c then accept_seq ps (buf @ [c], cs) else (False, buf, c # cs))"

definition accept_all :: "(char \<Rightarrow> bool) \<Rightarrow> string \<times> string \<Rightarrow> string \<times> string" where
  "accept_all p st = (fst st @ takeWhile p (snd st), dropWhile p (snd st))"

definition letter :: "char \<Rightarrow> char \<Rightarrow> bool" where "letter x c = (lower_char c = x)"
definition sign_char :: "char \<Rightarrow> bool" where "sign_char c = (c = CHR ''+'' \<or> c = CHR ''-'')"
definition scan_digit :: "bool \<Rightarrow> char \<Rightarrow> bool" where
  "scan_digit hex c = ((if hex then is_hex_digit c else is_digit c) \<or> c = CHR ''_'')"

definition floatToken :: "string \<Rightarrow> string" where
  "floatToken s =
     (let (nan, st0) = accept_seq [letter CHR ''n'', letter CHR ''a'', letter CHR ''n''] ([], s) in
      if nan then fst st0
      else let st1 = snd (accept_seq [sign_char] st0);
               (inf, st2) = accept_seq [letter CHR ''i'', letter CHR ''n'', letter CHR ''f''] st1 in
      if inf then fst st2
      else let (hex, st3) = accept_seq [\<lambda>c. c = CHR ''0'', letter CHR ''x''] st2;
               st4 = accept_all (scan_digit hex) st3;
               (point, st5) = accept_seq [\<lambda>c. c = CHR ''.''] st4;
               st6 = (if point then accept_all (scan_digit hex) st5 else st5);
               (ex, st7) = accept_seq [\<lambda>c. letter CHR ''p'' c \<or> \<not> hex \<and> letter CHR ''e'' c] st6
           in if ex then fst (accept_all (scan_digit False) (snd (accept_seq [sign_char] st7))) else fst st7)"

text \<open>\<open>math.Ldexp\<close>.\<close>

definition ldexp :: "go_float \<Rightarrow> int \<Rightarrow> go_float" where
  "ldexp f m = (case f of
     Fin q \<Rightarrow> (let r = q * 2 powi m in if r \<ge> float_range then PosInf else if - r \<ge> float_range then NegInf else Fin (fl r))
   | _ \<Rightarrow> f)"

text \<open>Decimal digits with a binary exponent are the scanner's own mix.\<close>

definition convertFloat :: "string \<Rightarrow> go_float option" where
  "convertFloat tok =
     (case (if list_ex (letter CHR ''x'') tok then None else cut_char CHR ''p'' tok) of
        Some (mant, ex) \<Rightarrow>
          (case (ParseFloat64 mant, parse_int ex) of (Some f, Some m) \<Rightarrow> Some (ldexp f m) | _ \<Rightarrow> None)
      | None \<Rightarrow> ParseFloat64 tok)"

text \<open>\<open>SkipSpace\<close>: a line break in the leading white space is an error, unless nothing is left of it.\<close>

fun skip_space :: "string \<Rightarrow> string option" where
  "skip_space [] = Some []"
| "skip_space (c # cs) =
     (if c = CHR 0x0D \<and> cs \<noteq> [] \<and> hd cs = CHR 0x0A then skip_space cs
      else if c = CHR 0x0A then None
      else if is_space c then skip_space cs
      else Some (c # cs))"

definition Sscanf_g :: "string \<Rightarrow> go_float option" where
  "Sscanf_g s = (case skip_space s of None \<Rightarrow> None
     | Some t \<Rightarrow> if t = [] then None else convertFloat (floatToken t))"

section \<open>Arithmetic\<close>

definition gf_mul :: "go_float \<Rightarrow> float64 \<Rightarrow> go_float" where
  "gf_mul f c = (case f of
     Fin q \<Rightarrow> (let r = fmul q c in if r \<ge> float_range then PosInf else if - r \<ge> float_range then NegInf else Fin r)
   | _ \<Rightarrow> f)"

definition gf_int64 :: "go_float \<Rightarrow> int" where
  "gf_int64 f = (case f of Fin q \<Rightarrow> (if - (2 ^ 63) \<le> int_of q \<and> int_of q < 2 ^ 63 then int_of q else - (2 ^ 63)) | _ \<Rightarrow> - (2 ^ 63))"

text \<open>\<open>f \<le> 0\<close> and \<open>f \<ge> 0\<close>; every comparison with NaN is false.\<close>

definition gf_nonpos :: "go_float \<Rightarrow> bool" where
  "gf_nonpos f = (case f of Fin q \<Rightarrow> q \<le> 0 | NegInf \<Rightarrow> True | _ \<Rightarrow> False)"

definition gf_nonneg :: "go_float \<Rightarrow> bool" where
  "gf_nonneg f = (case f of Fin q \<Rightarrow> q \<ge> 0 | PosInf \<Rightarrow> True | _ \<Rightarrow> False)"

section \<open>What the scanner ignores\<close>

text \<open>A character that cannot continue a run of digits.\<close>

definition stops_number :: "char \<Rightarrow> bool" where
  "stops_number c \<longleftrightarrow> \<not> is_digit c \<and> c \<noteq> CHR ''_'' \<and> c \<noteq> CHR ''.'' \<and> \<not> letter CHR ''e'' c \<and> \<not> letter CHR ''p'' c \<and> \<not> letter CHR ''x'' c"

lemma digit_not_letter: "is_digit c \<Longrightarrow> CHR ''a'' \<le> x \<Longrightarrow> \<not> letter x c"
  by (auto simp: is_digit_def letter_def lower_char_def less_eq_char_def)

lemma digit_not_sign: "is_digit c \<Longrightarrow> \<not> sign_char c"
  by (auto simp: is_digit_def sign_char_def less_eq_char_def)

lemma digit_not_space: "is_digit c \<Longrightarrow> \<not> is_space c"
  by (auto simp: is_digit_def is_space_def less_eq_char_def)

lemma takeWhile_run: "list_all P xs \<Longrightarrow> t = [] \<or> \<not> P (hd t) \<Longrightarrow> takeWhile P (xs @ t) = xs \<and> dropWhile P (xs @ t) = t"
  by (induction xs) (cases t, auto)

lemma accept_seq_none: "s \<noteq> [] \<Longrightarrow> \<not> p (hd s) \<Longrightarrow> accept_seq (p # ps) (b, s) = (False, b, s)"
  by (cases s) auto

lemma accept_seq_end: "accept_seq (p # ps) (b, t) = (False, b, t)" if "t = [] \<or> \<not> p (hd t)"
  using that by (cases t) auto

lemma floatToken_digits:
  assumes "ds \<noteq> []" "list_all is_digit ds" "t = [] \<or> stops_number (hd t)"
  shows "floatToken (ds @ t) = ds"
proof -
  obtain c cs where ds: "ds = c # cs" using assms(1) by (cases ds) auto
  have c: "is_digit c" "list_all is_digit cs" using assms(2) ds by auto
  have no: "\<not> letter CHR ''n'' c" "\<not> letter CHR ''i'' c" "\<not> sign_char c"
    using digit_not_letter [OF c(1)] digit_not_sign [OF c(1)] by (simp_all add: less_eq_char_def)
  have run: "list_all (scan_digit False) xs" if "list_all is_digit xs" for xs
    using that by (induction xs) (auto simp: scan_digit_def)
  have stop: "t = [] \<or> \<not> scan_digit False (hd t)" using assms(3) by (auto simp: scan_digit_def stops_number_def)
  have hex: "accept_seq [\<lambda>c. c = CHR ''0'', letter CHR ''x''] ([], ds @ t)
      = (False, if c = CHR ''0'' then [c] else [], if c = CHR ''0'' then cs @ t else ds @ t)"
  proof (cases "c = CHR ''0''")
    case True
    have "cs @ t = [] \<or> \<not> letter CHR ''x'' (hd (cs @ t))"
      using assms(3) c(2) digit_not_letter [of _ "CHR ''x''"] by (cases cs) (auto simp: stops_number_def less_eq_char_def)
    then show ?thesis using True ds by (simp add: accept_seq_end)
  next
    case False then show ?thesis using ds by simp
  qed
  have all: "accept_all (scan_digit False) (if c = CHR ''0'' then [c] else [], if c = CHR ''0'' then cs @ t else ds @ t) = (ds, t)"
    using takeWhile_run [OF run [OF c(2)] stop] takeWhile_run [OF run [OF assms(2)] stop] ds by (simp add: accept_all_def)
  have rest: "accept_seq [\<lambda>c. c = CHR ''.''] (ds, t) = (False, ds, t)"
    "accept_seq [\<lambda>c. letter CHR ''p'' c \<or> \<not> False \<and> letter CHR ''e'' c] (ds, t) = (False, ds, t)"
    using assms(3) by (auto simp: stops_number_def intro!: accept_seq_end)
  have first: "accept_seq [letter CHR ''n'', letter CHR ''a'', letter CHR ''n''] ([], ds @ t) = (False, [], ds @ t)"
    "accept_seq [sign_char] ([], ds @ t) = (False, [], ds @ t)"
    "accept_seq [letter CHR ''i'', letter CHR ''n'', letter CHR ''f''] ([], ds @ t) = (False, [], ds @ t)"
    using no by (simp_all add: ds)
  show ?thesis unfolding floatToken_def Let_def first hex
    by (simp only: prod.case fst_conv snd_conv first hex all rest if_False)
qed

text \<open>Whatever stands behind a run of digits, and cannot continue it, does not matter.\<close>

lemma Sscanf_g_digits:
  assumes "ds \<noteq> []" "list_all is_digit ds" "t = [] \<or> stops_number (hd t)"
  shows "Sscanf_g (ds @ t) = convertFloat ds"
proof -
  obtain c cs where ds: "ds = c # cs" using assms(1) by (cases ds) auto
  have "is_digit c" using assms(2) ds by simp
  then have "c \<noteq> CHR 0x0D \<and> c \<noteq> CHR 0x0A \<and> \<not> is_space c"
    using digit_not_space by (auto simp: is_digit_def less_eq_char_def)
  then have "skip_space (ds @ t) = Some (ds @ t)" using ds by simp
  then show ?thesis using ds floatToken_digits [OF assms] by (simp add: Sscanf_g_def)
qed

end
