(* ===== verification/Command_Line.thy ===== *)
theory Command_Line
  imports Env_Config Sweeps Go_Scan
begin

text \<open>
  The commands of the binary (cmd/plate/main.go) beside \<open>serve\<close>: provisioning an account, minting
  a token, generating a key pair, the checksum backfill, and the set-up of the worker. A command is
  a function of its arguments (the whole \<open>os.Args\<close>), the environment and what it reads; it exits,
  fails, or is done with what it prints or changes. Whether the database can be opened is an
  argument, the JWT library's signature and Ed25519's key generation are parameters.
\<close>

section \<open>Flags\<close>

text \<open>Go's \<open>flag\<close> package for flags that take a value: parsing stops at the first argument that is
  not a flag, and the last value of a flag counts.\<close>

datatype flag_kind = FK_String | FK_Float64 | FK_Int
datatype flag_error = FE_Help | FE_Syntax | FE_Undefined | FE_NoValue | FE_BadValue

fun flag_ok :: "flag_kind \<Rightarrow> string \<Rightarrow> bool" where
  "flag_ok FK_String v = True"
| "flag_ok FK_Float64 v = (ParseFloat64 v \<noteq> None)"
| "flag_ok FK_Int v = (parse_int0 v \<noteq> None)"

definition flag_name :: "string \<Rightarrow> string" where
  "flag_name s = (if s ! 1 = CHR ''-'' then drop 2 s else drop 1 s)"

definition flag_given :: "string \<Rightarrow> string \<times> string option" where
  "flag_given name = (case cut_char CHR ''='' name of Some (n, v) \<Rightarrow> (n, Some v) | None \<Rightarrow> (name, None))"

fun parse_flags :: "(string \<times> flag_kind) list \<Rightarrow> string list \<Rightarrow> (string \<times> string) list
    \<Rightarrow> flag_error + (string \<times> string) list" where
  "parse_flags formal [] vals = Inr vals"
| "parse_flags formal (s # args) vals =
     (if length s < 2 \<or> hd s \<noteq> CHR ''-'' then Inr vals
      else if s = ''--'' then Inr vals
      else if flag_name s = [] \<or> hd (flag_name s) = CHR ''-'' \<or> hd (flag_name s) = CHR ''='' then Inl FE_Syntax
      else let (name, given) = flag_given (flag_name s) in
        case map_of formal name of
          None \<Rightarrow> Inl (if name = ''help'' \<or> name = ''h'' then FE_Help else FE_Undefined)
        | Some k \<Rightarrow>
            (case given of
               Some v \<Rightarrow> if flag_ok k v then parse_flags formal args ((name, v) # vals) else Inl FE_BadValue
             | None \<Rightarrow> (case args of [] \<Rightarrow> Inl FE_NoValue
                 | v # rest \<Rightarrow> if flag_ok k v then parse_flags formal rest ((name, v) # vals) else Inl FE_BadValue)))"

definition flag_value :: "(string \<times> string) list \<Rightarrow> string \<Rightarrow> string \<Rightarrow> string" where
  "flag_value vals name d = (case map_of vals name of None \<Rightarrow> d | Some v \<Rightarrow> v)"

text \<open>\<open>flag.ExitOnError\<close>: help is asked for or a flag is wrong.\<close>

definition flag_exit :: "flag_error \<Rightarrow> nat" where
  "flag_exit e = (if e = FE_Help then 0 else 2)"

section \<open>Outcomes\<close>

datatype cli_error =
  CL_Usage | CL_NoAccount | CL_NoScopes | CL_UnknownScope string | CL_TTL string | CL_TTLNotPositive
| CL_NoPrivateKey | CL_PrivateKey | CL_PrivateKeySize nat | CL_Kid string | CL_Sign | CL_KeyGen
| CL_NoDatabaseURL | CL_Open | CL_Config config_error | CL_NoStorage | CL_Pass pass_end

datatype 'a cli = Exit nat | Failed cli_error | Done 'a

fun exit_status :: "'a cli \<Rightarrow> nat" where
  "exit_status (Exit n) = n"
| "exit_status (Failed e) = 1"
| "exit_status (Done a) = 0"

section \<open>Text helpers\<close>

fun csv_loop :: "string list \<Rightarrow> string list \<Rightarrow> string list" where
  "csv_loop [] out = out"
| "csv_loop (part # parts) out = (let p = trim_space part in if p \<noteq> [] then csv_loop parts (out @ [p]) else csv_loop parts out)"

definition cli_splitCSV :: "string \<Rightarrow> string list" where
  "cli_splitCSV s = csv_loop (split_char CHR '','' s) []"

definition hour :: int where "hour = 3600 * 1000000000"

text \<open>\<open>days * 24 * float64(time.Hour)\<close> in this order, then the conversion to a duration.\<close>

definition parseTTL :: "string \<Rightarrow> int option" where
  "parseTTL s0 =
     (let s = trim_space s0 in
      if has_suffix s ''d'' then
        (case Sscanf_g (trim_suffix s ''d'') of None \<Rightarrow> None
         | Some days \<Rightarrow> Some (gf_int64 (gf_mul (gf_mul days 24) (float_of hour))))
      else ParseDuration s)"

definition parseMiBpsEnv :: "environment \<Rightarrow> string \<Rightarrow> int \<Rightarrow> int" where
  "parseMiBpsEnv env key d =
     (let v = env key in
      if v \<noteq> [] then
        (case Sscanf_g v of
           Some mib \<Rightarrow> if gf_nonneg mib then (if mib = Fin 0 then -1 else gf_int64 (gf_mul mib (float_of (2 ^ 20)))) else d
         | None \<Rightarrow> d)
      else d)"

definition parseDurationEnv :: "environment \<Rightarrow> string \<Rightarrow> int \<Rightarrow> int" where
  "parseDurationEnv env key d =
     (if env key \<noteq> [] then (case ParseDuration (env key) of Some t \<Rightarrow> t | None \<Rightarrow> d) else d)"

fun kid_loop :: "string \<Rightarrow> bool" where
  "kid_loop [] = True"
| "kid_loop (r # rs) =
     (if (CHR ''a'' \<le> r \<and> r \<le> CHR ''z'') \<or> (CHR ''A'' \<le> r \<and> r \<le> CHR ''Z'') \<or> (CHR ''0'' \<le> r \<and> r \<le> CHR ''9'')
         \<or> r = CHR ''_'' \<or> r = CHR ''-'' then kid_loop rs else False)"

definition validKidArg :: "string \<Rightarrow> bool" where
  "validKidArg kid = (if length kid = 0 \<or> length kid > 64 then False else kid_loop kid)"

section \<open>Tokens\<close>

definition knownScopes :: "string list" where
  "knownScopes = [''assets:read'', ''assets:write'', ''renditions:generate'', ''grants:manage'', ''assets:export'',
     ''accounts:provision'']"

text \<open>The claims of a minted token; the issuer and the audience stay empty. Dates are in seconds.\<close>

record mint_claims =
  mc_Account :: string
  mc_Scope :: "string list"
  mc_Subject :: string
  mc_IssuedAt :: int
  mc_ExpiresAt :: int

text \<open>The signing half of the JWT library: method, kid header, claims and private key to a token.\<close>

type_synonym jwt_signer = "string \<Rightarrow> string option \<Rightarrow> mint_claims \<Rightarrow> string \<Rightarrow> string option"

definition Sign :: "jwt_signer \<Rightarrow> string \<Rightarrow> mint_claims \<Rightarrow> string option" where
  "Sign jwt priv c = jwt ''EdDSA'' None c priv"

definition SignWithKid :: "jwt_signer \<Rightarrow> string \<Rightarrow> string \<Rightarrow> mint_claims \<Rightarrow> string option" where
  "SignWithKid jwt priv kid c = (if kid = [] then None else jwt ''EdDSA'' (Some kid) c priv)"

fun scopes_loop :: "string list \<Rightarrow> string option" where
  "scopes_loop [] = None"
| "scopes_loop (s # ss) = (if s \<notin> set knownScopes then Some s else scopes_loop ss)"

definition token_flags :: "(string \<times> flag_kind) list" where
  "token_flags = [(''scopes'', FK_String), (''ttl'', FK_String), (''sub'', FK_String), (''kid'', FK_String)]"

definition private_key :: "environment \<Rightarrow> cli_error + string" where
  "private_key env =
     (let b64 = env ''PLATE_JWT_PRIVATE_B64'' in
      if b64 = [] then Inl CL_NoPrivateKey
      else case b64_std_decode (trim_space b64) of None \<Rightarrow> Inl CL_PrivateKey
        | Some raw \<Rightarrow> if length raw \<noteq> 64 then Inl (CL_PrivateKeySize (length raw)) else Inr raw)"

definition sign_claims :: "jwt_signer \<Rightarrow> string \<Rightarrow> string \<Rightarrow> mint_claims \<Rightarrow> string cli" where
  "sign_claims jwt priv kid c =
     (if kid \<noteq> [] then
        (if \<not> validKidArg kid then Failed (CL_Kid kid)
         else case SignWithKid jwt priv kid c of None \<Rightarrow> Failed CL_Sign | Some tok \<Rightarrow> Done tok)
      else case Sign jwt priv c of None \<Rightarrow> Failed CL_Sign | Some tok \<Rightarrow> Done tok)"

definition mintToken :: "jwt_signer \<Rightarrow> environment \<Rightarrow> time \<Rightarrow> string list \<Rightarrow> string cli" where
  "mintToken jwt env now args =
     (if length args < 3 then Failed CL_Usage
      else let acct = args ! 2 in
      if acct = [] \<or> has_prefix acct ''-'' then Failed CL_NoAccount
      else case parse_flags token_flags (drop 3 args) [] of Inl e \<Rightarrow> Exit (flag_exit e) | Inr vals \<Rightarrow>
      let scopes = cli_splitCSV (flag_value vals ''scopes'' []) in
      if length scopes = 0 then Failed CL_NoScopes
      else case scopes_loop scopes of Some s \<Rightarrow> Failed (CL_UnknownScope s) | None \<Rightarrow>
      (case parseTTL (flag_value vals ''ttl'' ''720h'') of None \<Rightarrow> Failed (CL_TTL (flag_value vals ''ttl'' ''720h''))
       | Some ttl \<Rightarrow>
         if ttl \<le> 0 then Failed CL_TTLNotPositive
         else case private_key env of Inl e \<Rightarrow> Failed e | Inr priv \<Rightarrow>
           sign_claims jwt priv (flag_value vals ''kid'' [])
             \<lparr>mc_Account = acct, mc_Scope = scopes, mc_Subject = flag_value vals ''sub'' ''operator'',
              mc_IssuedAt = unix now, mc_ExpiresAt = unix (now + ttl)\<rparr>))"

text \<open>The two lines of \<open>plate keypair\<close>.\<close>

definition genKeypair :: "(string \<times> string) option \<Rightarrow> (string \<times> string) cli" where
  "genKeypair generated = (case generated of None \<Rightarrow> Failed CL_KeyGen
     | Some (pub, priv) \<Rightarrow> Done (''public='' @ b64_std_encode pub, ''private='' @ b64_std_encode priv))"

section \<open>Accounts\<close>

definition accounts_flags :: "(string \<times> flag_kind) list" where
  "accounts_flags = [(''bucket'', FK_String), (''prefix'', FK_String)]"

definition accounts :: "bool \<Rightarrow> environment \<Rightarrow> time \<Rightarrow> string list \<Rightarrow> db \<Rightarrow> db cli" where
  "accounts opened env now args d =
     (if length args < 4 \<or> args ! 2 \<noteq> ''create'' then Failed CL_Usage
      else let accountID = args ! 3 in
      case parse_flags accounts_flags (drop 4 args) [] of Inl e \<Rightarrow> Exit (flag_exit e) | Inr vals \<Rightarrow>
      if accountID = [] then Failed CL_NoAccount
      else if env ''DATABASE_URL'' = [] then Failed CL_NoDatabaseURL
      else if \<not> opened then Failed CL_Open
      else Done (CreateAccount d now accountID (flag_value vals ''bucket'' []) (flag_value vals ''prefix'' [])))"

section \<open>Checksums\<close>

definition checksums_flags :: "(string \<times> flag_kind) list" where
  "checksums_flags = [(''rate-mbps'', FK_Float64), (''max'', FK_Int)]"

definition float_flag :: "(string \<times> string) list \<Rightarrow> string \<Rightarrow> float64 \<Rightarrow> go_float" where
  "float_flag vals name d = (case map_of vals name of None \<Rightarrow> Fin d | Some v \<Rightarrow> (case ParseFloat64 v of None \<Rightarrow> Fin d | Some f \<Rightarrow> f))"

definition int_flag :: "(string \<times> string) list \<Rightarrow> string \<Rightarrow> int \<Rightarrow> int" where
  "int_flag vals name d = (case map_of vals name of None \<Rightarrow> d | Some v \<Rightarrow> (case parse_int0 v of None \<Rightarrow> d | Some n \<Rightarrow> n))"

definition checksum_rate :: "go_float \<Rightarrow> int" where
  "checksum_rate rate = (if gf_nonpos rate then -1 else gf_int64 (gf_mul rate (float_of (2 ^ 20))))"

text \<open>What is printed: the backlogs in order and the result of the pass, with the database reached. A
  pass still running is \<open>None\<close>.\<close>

record checksums_out =
  co_before :: checksum_backlog
  co_pass :: "pass_result option"
  co_after :: "checksum_backlog option"
  co_db :: db

datatype checksums_end = CE_Ended "checksums_out cli" | CE_Stopped cli_error checksums_out | CE_Running

definition checksums_run :: "outside \<Rightarrow> pass_env \<Rightarrow> checksummer \<Rightarrow> objects \<Rightarrow> int \<Rightarrow> nat \<Rightarrow> db \<Rightarrow> checksums_end" where
  "checksums_run io e c obs maxObjects fuel d =
     (let before = ChecksumBacklogStatus d in
      case RunPass io e c obs maxObjects fuel d of
        None \<Rightarrow> CE_Running
      | Some (res, PassDone, d') \<Rightarrow>
          CE_Ended (Done \<lparr>co_before = before, co_pass = Some res, co_after = Some (ChecksumBacklogStatus d'), co_db = d'\<rparr>)
      | Some (res, err, d') \<Rightarrow>
          CE_Stopped (CL_Pass err) \<lparr>co_before = before, co_pass = Some res, co_after = None, co_db = d'\<rparr>)"

definition checksums ::
  "bool \<Rightarrow> (s3_config \<Rightarrow> storage) \<Rightarrow> outside \<Rightarrow> pass_env \<Rightarrow> objects \<Rightarrow> nat \<Rightarrow> environment \<Rightarrow> string list \<Rightarrow> db \<Rightarrow> checksums_end" where
  "checksums opened aws io e obs fuel env args d =
     (if length args < 3 then CE_Ended (Failed CL_Usage)
      else case parse_flags checksums_flags (drop 3 args) [] of Inl err \<Rightarrow> CE_Ended (Exit (flag_exit err)) | Inr vals \<Rightarrow>
      if env ''DATABASE_URL'' = [] then CE_Ended (Failed CL_NoDatabaseURL)
      else if \<not> opened then CE_Ended (Failed CL_Open)
      else if args ! 2 = ''status'' then
        CE_Ended (Done \<lparr>co_before = ChecksumBacklogStatus d, co_pass = None, co_after = None, co_db = d\<rparr>)
      else if args ! 2 = ''run'' then
        (case LoadStorage aws env of Inl err \<Rightarrow> CE_Ended (Failed (CL_Config err)) | Inr sc \<Rightarrow>
         if sc_Storage sc = None then CE_Ended (Failed CL_NoStorage)
         else checksums_run io e
           (NewChecksummer \<lparr>ck_rate = checksum_rate (float_flag vals ''rate-mbps'' (of_int DefaultChecksumRate / 2 ^ 20)),
              ck_retryAfter = 0, ck_perObject = 0\<rparr>)
           obs (int_flag vals ''max'' 0) fuel d)
      else CE_Ended (Failed CL_Usage))"

section \<open>Setting up the worker\<close>

record ffmpeg_transcoder =
  ft_path :: string
  ft_preset :: string
  ft_timeout :: int

definition NewFFmpegTranscoder :: "string \<Rightarrow> string \<Rightarrow> int \<Rightarrow> ffmpeg_transcoder" where
  "NewFFmpegTranscoder ffmpegPath preset timeout =
     \<lparr>ft_path = (if ffmpegPath = [] then ''ffmpeg'' else ffmpegPath), ft_preset = preset,
      ft_timeout = (if timeout \<le> 0 then 30 * minute else timeout)\<rparr>"

record work_setup =
  ws_Worker :: worker
  ws_Transcoder :: ffmpeg_transcoder
  ws_Reconciler :: reconciler
  ws_SweepEvery :: int
  ws_Checksummer :: "(checksummer \<times> int) option"
  ws_WorkerID :: string
  ws_Version :: string
  ws_HeartbeatEvery :: int

definition first_set :: "string \<Rightarrow> string \<Rightarrow> string" where
  "first_set a b = (if a \<noteq> [] then a else b)"

text \<open>The checksum sweep, off when its interval is not positive.\<close>

definition checksum_sweep :: "environment \<Rightarrow> (checksummer \<times> int) option" where
  "checksum_sweep env =
     (let every = parseDurationEnv env ''PLATE_CHECKSUM_EVERY'' minute in
      if every > 0 then
        Some (NewChecksummer \<lparr>ck_rate = parseMiBpsEnv env ''PLATE_CHECKSUM_RATE_MBPS'' DefaultChecksumRate,
                ck_retryAfter = 0, ck_perObject = 0\<rparr>, every)
      else None)"

definition work :: "bool \<Rightarrow> (s3_config \<Rightarrow> storage) \<Rightarrow> string \<Rightarrow> string \<Rightarrow> environment \<Rightarrow> work_setup cli" where
  "work opened aws tempDir hostname env =
     (case LoadEnv env of Inl e \<Rightarrow> Failed (CL_Config e) | Inr cfg \<Rightarrow>
      case LoadStorage aws env of Inl e \<Rightarrow> Failed (CL_Config e) | Inr sc \<Rightarrow>
      if sc_Storage sc = None then Failed CL_NoStorage
      else if \<not> opened then Failed CL_Open
      else Done
        \<lparr>ws_Worker = new_worker tempDir \<lparr>wk_scratchDir = env ''PLATE_WORKER_SCRATCH_DIR'', wk_leaseTTL = 0, wk_pollEvery = 0,
            wk_maxAttempts = 0, wk_detailMaxDurationS = DetailMaxDurationSeconds env, wk_preset = []\<rparr>,
         ws_Transcoder = NewFFmpegTranscoder (env ''PLATE_FFMPEG_PATH'') [] 0,
         ws_Reconciler = NewReconciler (parseDurationEnv env ''PLATE_SWEEP_GRACE'' 0) 0,
         ws_SweepEvery = parseDurationEnv env ''PLATE_SWEEP_EVERY'' (15 * minute),
         ws_Checksummer = checksum_sweep env,
         ws_WorkerID = first_set (first_set (env ''FLY_MACHINE_ID'') hostname) ''worker'',
         ws_Version = first_set (env ''PLATE_VERSION'') (env ''FLY_IMAGE_REF''),
         ws_HeartbeatEvery = parseDurationEnv env ''PLATE_WORKER_HEARTBEAT_EVERY'' (30 * second)\<rparr>)"

section \<open>The dispatch of main\<close>

datatype command = Serve | Work | ImgproxyPresets | Accounts | Checksums | Token | Keypair

definition command_of :: "string \<Rightarrow> command option" where
  "command_of s = map_of [(''serve'', Serve), (''work'', Work), (''imgproxy-presets'', ImgproxyPresets),
     (''accounts'', Accounts), (''checksums'', Checksums), (''token'', Token), (''keypair'', Keypair)] s"

text \<open>The exit status: a usage error is 2, and a command's failure 1.\<close>

definition plate_main :: "(command \<Rightarrow> nat) \<Rightarrow> string list \<Rightarrow> nat" where
  "plate_main run args =
     (if length args < 2 then 2 else case command_of (args ! 1) of None \<Rightarrow> 2 | Some c \<Rightarrow> run c)"

end
