(* ===== verification/Command_Props.thy ===== *)
theory Command_Props
  imports Boot_Props Command_Line
begin

text \<open>
  Properties of the commands: what \<open>plate keypair\<close> prints configures a server and a signer, and
  what \<open>plate token\<close> mints is accepted by a booted server under exactly the stated conditions.
\<close>

section \<open>Helpers\<close>

lemma kid_loop_chars: "kid_loop s = list_all kid_char s"
  by (induction s) (auto simp: kid_char_def is_alnum_def is_digit_def)

text \<open>The check of the command and the check of the server's parser agree.\<close>

lemma validKidArg_eq: "validKidArg kid = validKid kid"
  by (simp add: validKidArg_def validKid_def kid_loop_chars)

lemma csv_loop_eq: "csv_loop ps out = out @ filter (\<lambda>p. p \<noteq> []) (map trim_space ps)"
  by (induction ps arbitrary: out) (auto simp: Let_def)

lemma cli_splitCSV_eq: "cli_splitCSV = splitCSV"
  by (rule ext) (simp add: cli_splitCSV_def splitCSV_def csv_loop_eq)

lemma scopes_loop_None: "scopes_loop ss = None \<longleftrightarrow> set ss \<subseteq> set knownScopes"
  by (induction ss) auto

section \<open>Key pairs\<close>

lemma encode_solid:
  assumes "s \<noteq> []"
  shows "b64_std_encode s \<noteq> []" "trim_space (b64_std_encode s) = b64_std_encode s"
proof -
  show ne: "b64_std_encode s \<noteq> []"
  proof
    assume "b64_std_encode s = []"
    then have "b64_std_decode [] = Some s" using b64_std_roundtrip [of s] by simp
    then show False using assms by (simp add: b64_std_decode_def)
  qed
  have "\<not> is_space c" if "c \<in> set (b64_std_encode s)" for c
    using b64_std_encode_chars [OF that] b64_plain_chars(4) [of c] by (auto simp: is_space_def)
  then show "trim_space (b64_std_encode s) = b64_std_encode s"
    using trim_space_solid [OF ne] ne by simp
qed

lemma public_loads:
  assumes "length pub = 32"
  shows "loadEd25519Public (b64_std_encode pub) = Some pub"
proof -
  have "pub \<noteq> []" using assms by auto
  then show ?thesis using assms encode_solid by (simp add: loadEd25519Public_def)
qed

lemma private_loads:
  assumes "length priv = 64" "env ''PLATE_JWT_PRIVATE_B64'' = b64_std_encode priv"
  shows "private_key env = Inr priv"
proof -
  have "priv \<noteq> []" using assms by auto
  then show ?thesis using assms encode_solid by (simp add: private_key_def)
qed

lemma kid_chars:
  assumes "validKid kid"
  shows "kid \<noteq> []" "CHR ''='' \<notin> set kid" "CHR '','' \<notin> set kid" "trim_space kid = kid"
proof -
  have k: "kid \<noteq> []" "\<And>c. c \<in> set kid \<Longrightarrow> kid_char c"
    using assms by (auto simp: validKid_def list_all_iff split: if_splits)
  have n: "c \<noteq> CHR ''='' \<and> c \<noteq> CHR '','' \<and> \<not> is_space c" if "kid_char c" for c
    using that by (auto simp: kid_char_def is_alnum_def is_digit_def is_space_def less_eq_char_def)
  then show "kid \<noteq> []" "CHR ''='' \<notin> set kid" "CHR '','' \<notin> set kid" using k by blast+
  show "trim_space kid = kid" using trim_space_solid k n by (metis hd_in_set last_in_set)
qed

lemma keypair_entry:
  assumes "length pub = 32" "validKid kid" "\<not> isThrowawayKey (b64_std_encode pub)"
  shows "parseKeyset env (kid @ ''='' @ b64_std_encode pub) = Inr (Some [(kid, pub)])"
proof -
  let ?v = "b64_std_encode pub" and ?e = "kid @ ''='' @ b64_std_encode pub"
  have pub: "pub \<noteq> []" using assms(1) by auto
  note kid = kid_chars [OF assms(2)] and v = encode_solid [OF pub]
  have vc: "c \<in> set ?v \<Longrightarrow> c \<noteq> CHR '','' \<and> \<not> is_space c" for c
    using b64_std_encode_chars [of c pub] b64_plain_chars(2,4) [of c] by (auto simp: is_space_def)
  have "\<not> is_space (hd kid)" using assms(2) kid(1)
    by (cases kid) (auto simp: validKid_def kid_char_def is_alnum_def is_digit_def is_space_def less_eq_char_def split: if_splits)
  then have t: "trim_space ?e = ?e" using trim_space_solid [of ?e] kid(1) v(1) vc by simp
  have "split_char CHR '','' ?e = [?e]" by (rule split_char_no_sep) (use kid(3) vc in auto)
  moreover have "cut_char CHR ''='' ?e = Some (kid, ?v)" using cut_char_append [OF kid(2), of ?v] by simp
  ultimately show ?thesis
    using t kid v assms by (simp add: parseKeyset_def keyset_entry_def public_loads Let_def)
qed

section \<open>Minting\<close>

text \<open>
  What the JWT library documents: a token it signs decodes to its header and claims, is one word, its
  signature verifies under the public half of the signing key and no other, and the registered
  claims hold at a time \<open>t\<close> before the expiry when no issuer and no audience are required, which
  the claims of this command do not carry.
\<close>

definition jwt_agrees :: "string jwt_lib \<Rightarrow> jwt_signer \<Rightarrow> (string \<Rightarrow> string) \<Rightarrow> time \<Rightarrow> bool" where
  "jwt_agrees lib jwt public t \<longleftrightarrow> (\<forall>kid c priv tok. jwt ''EdDSA'' kid c priv = Some tok \<longrightarrow>
     jl_decode lib tok = Some \<lparr>jt_alg = ''EdDSA'', jt_ed25519 = True, jt_kid = kid, jt_account = mc_Account c, jt_scope = mc_Scope c\<rparr>
     \<and> tok \<noteq> [] \<and> list_all (\<lambda>x. \<not> is_space x) tok
     \<and> (\<forall>key. jl_sig_ok lib tok key \<longleftrightarrow> key = public priv)
     \<and> (\<forall>iss aud. jl_claims_ok lib iss aud tok \<longleftrightarrow> iss = [] \<and> aud = [] \<and> t < mc_ExpiresAt c * second))"

lemma sign_claims_Done:
  assumes "sign_claims jwt priv kid c = Done tok"
  shows "jwt ''EdDSA'' (if kid = [] then None else Some kid) c priv = Some tok" "kid = [] \<or> validKid kid"
  using assms
  by (auto simp: sign_claims_def Sign_def SignWithKid_def validKidArg_eq split: if_splits option.splits)

lemma mintToken_Done:
  assumes "mintToken jwt cenv now args = Done tok"
  obtains vals ttl priv where
    "parse_flags token_flags (drop 3 args) [] = Inr vals" "args ! 2 \<noteq> []"
    "splitCSV (flag_value vals ''scopes'' []) \<noteq> []"
    "set (splitCSV (flag_value vals ''scopes'' [])) \<subseteq> set knownScopes"
    "parseTTL (flag_value vals ''ttl'' ''720h'') = Some ttl" "0 < ttl" "private_key cenv = Inr priv"
    "sign_claims jwt priv (flag_value vals ''kid'' [])
       \<lparr>mc_Account = args ! 2, mc_Scope = splitCSV (flag_value vals ''scopes'' []),
        mc_Subject = flag_value vals ''sub'' ''operator'', mc_IssuedAt = unix now, mc_ExpiresAt = unix (now + ttl)\<rparr> = Done tok"
proof -
  have n: "\<not> length args < 3" and acct: "args ! 2 \<noteq> []" "\<not> has_prefix (args ! 2) ''-''"
    using assms by (auto simp: mintToken_def Let_def split: if_splits)
  obtain vals where v: "parse_flags token_flags (drop 3 args) [] = Inr vals"
    using assms n acct by (cases "parse_flags token_flags (drop 3 args) []") (auto simp: mintToken_def Let_def)
  let ?s = "splitCSV (flag_value vals ''scopes'' [])"
  have s: "?s \<noteq> []" using assms n acct v by (auto simp: mintToken_def Let_def cli_splitCSV_eq)
  have k: "scopes_loop ?s = None"
    using assms n acct v s by (cases "scopes_loop ?s") (auto simp: mintToken_def Let_def cli_splitCSV_eq)
  obtain ttl where t: "parseTTL (flag_value vals ''ttl'' ''720h'') = Some ttl"
    using assms n acct v s k by (cases "parseTTL (flag_value vals ''ttl'' ''720h'')") (auto simp: mintToken_def Let_def cli_splitCSV_eq)
  have pos: "0 < ttl"
    using assms n acct v s k t by (auto simp: mintToken_def Let_def cli_splitCSV_eq split: if_splits)
  obtain priv where p: "private_key cenv = Inr priv"
    using assms n acct v s k t pos by (cases "private_key cenv") (auto simp: mintToken_def Let_def cli_splitCSV_eq)
  have np: "\<not> ttl \<le> 0" using pos by simp
  have sub: "set ?s \<subseteq> set knownScopes" using k by (simp only: scopes_loop_None)
  have "sign_claims jwt priv (flag_value vals ''kid'' []) \<lparr>mc_Account = args ! 2, mc_Scope = ?s,
      mc_Subject = flag_value vals ''sub'' ''operator'', mc_IssuedAt = unix now, mc_ExpiresAt = unix (now + ttl)\<rparr> = Done tok"
    using assms unfolding mintToken_def Let_def cli_splitCSV_eq
    by (simp only: n acct v s k t np p length_0_conv if_False if_True simp_thms sum.case option.case)
  then show thesis by (rule that [OF v acct(1) s sub t pos p])
qed

text \<open>The key a booted verifier selects for a minted token, and what it lets through.\<close>

definition key_name :: "string \<Rightarrow> string" where
  "key_name kid = (if kid = [] then LegacyKeyName else kid)"

definition key_under :: "string verifier \<Rightarrow> string \<Rightarrow> string option" where
  "key_under v kid = (if kid = [] then v_pub v else map_of (v_keys v) kid)"

lemma booted_issuer:
  assumes "boot hm aws env = Inr (v, s, h)" "key_under v kid = Some key"
  shows "v_issuer v = env ''PLATE_JWT_ISSUER'' \<and> v_audience v = env ''PLATE_JWT_AUDIENCE'' \<and> v_methods v = [''EdDSA'']"
  using boot_verifier [OF assms(1)]
proof (cases rule: env_verifier_cases)
  case deny
  then show ?thesis using assms(2) by (simp add: key_under_def DenyAllVerifier_def split: if_splits)
next
  case (keys legacy ks bs)
  then show ?thesis
    by (auto simp: NewBoundKeysetVerifier_def NewKeysetVerifier_def Let_def split: if_splits sum.splits)
qed

lemma minted_claims:
  assumes "boot hm aws env = Inr (v, s, hs)" "mintToken jwt cenv now args = Done tok" "jwt_agrees lib jwt public t"
  shows "\<exists>vals ttl priv. parse_flags token_flags (drop 3 args) [] = Inr vals
    \<and> parseTTL (flag_value vals ''ttl'' ''720h'') = Some ttl \<and> 0 < ttl \<and> private_key cenv = Inr priv
    \<and> splitCSV (flag_value vals ''scopes'' []) \<noteq> [] \<and> set (splitCSV (flag_value vals ''scopes'' [])) \<subseteq> set knownScopes
    \<and> (\<forall>c. Verify lib v tok = Inr c \<longleftrightarrow>
         env ''PLATE_JWT_ISSUER'' = [] \<and> env ''PLATE_JWT_AUDIENCE'' = [] \<and> t < unix (now + ttl) * second
         \<and> key_under v (flag_value vals ''kid'' []) = Some (public priv)
         \<and> (\<forall>p. cl_binding c = Some p \<longrightarrow> Matches p (args ! 2))
         \<and> c = \<lparr>cl_account = args ! 2, cl_scope = splitCSV (flag_value vals ''scopes'' []),
                cl_keyName = key_name (flag_value vals ''kid'' []),
                cl_binding = map_of (v_bindings v) (key_name (flag_value vals ''kid'' []))\<rparr>)"
  using assms(2)
proof (cases rule: mintToken_Done)
  case (1 vals ttl priv)
  define kid where "kid = flag_value vals ''kid'' []"
  define scopes where "scopes = splitCSV (flag_value vals ''scopes'' [])"
  note sig = sign_claims_Done [OF 1(8), folded kid_def scopes_def]
  define h where "h = \<lparr>jt_alg = ''EdDSA'', jt_ed25519 = True, jt_kid = (if kid = [] then None else Some kid),
      jt_account = args ! 2, jt_scope = scopes\<rparr>"
  have lib: "jl_decode lib tok = Some h" "\<And>key. jl_sig_ok lib tok key \<longleftrightarrow> key = public priv"
    "\<And>iss aud. jl_claims_ok lib iss aud tok \<longleftrightarrow> iss = [] \<and> aud = [] \<and> t < unix (now + ttl) * second"
    using assms(3) sig(1) unfolding jwt_agrees_def h_def by fastforce+
  have key: "trusted_key v h name k \<longleftrightarrow> name = key_name kid \<and> key_under v kid = Some k" for name k
    by (auto simp: h_def trusted_key_def key_name_def key_under_def)
  have hd: "jt_ed25519 h" "jt_alg h = ''EdDSA''" "jt_account h = args ! 2" "jt_scope h = scopes" by (simp_all add: h_def)
  have "verified lib v tok h name \<longleftrightarrow> name = key_name kid \<and> key_under v kid = Some (public priv)
      \<and> env ''PLATE_JWT_ISSUER'' = [] \<and> env ''PLATE_JWT_AUDIENCE'' = [] \<and> t < unix (now + ttl) * second" for name
    using booted_issuer [OF assms(1), of kid "public priv"] by (auto simp: verified_def lib key hd)
  moreover have "verified lib v tok u name \<longleftrightarrow> u = h \<and> verified lib v tok h name" for u name
    by (auto simp: verified_def lib)
  ultimately have "verified lib v tok u name \<longleftrightarrow> u = h \<and> name = key_name kid \<and> key_under v kid = Some (public priv)
      \<and> env ''PLATE_JWT_ISSUER'' = [] \<and> env ''PLATE_JWT_AUDIENCE'' = [] \<and> t < unix (now + ttl) * second" for u name
    by blast
  then have "Verify lib v tok = Inr c \<longleftrightarrow>
         env ''PLATE_JWT_ISSUER'' = [] \<and> env ''PLATE_JWT_AUDIENCE'' = [] \<and> t < unix (now + ttl) * second
         \<and> key_under v kid = Some (public priv) \<and> (\<forall>p. cl_binding c = Some p \<longrightarrow> Matches p (args ! 2))
         \<and> c = \<lparr>cl_account = args ! 2, cl_scope = scopes, cl_keyName = key_name kid, cl_binding = map_of (v_bindings v) (key_name kid)\<rparr>" for c
    using 1(2) by (cases c) (auto simp: verify_ok_iff hd)
  then show ?thesis using 1 unfolding kid_def scopes_def by blast
qed

text \<open>C14: A minted token, exactly: \<open>plate token\<close> signs only for a named account, a non-empty list of
  known scopes and a positive life time, and a booted deployment then accepts the token if and only
  if it requires neither an issuer nor an audience, the token has not expired, the deployment
  trusts the public half of the signing key under the token's kid (as its legacy key without one),
  and that key's binding admits the account; the accepted claims are the minted account and
  scopes. A deployment that sets an issuer or an audience refuses every token of this command.\<close>
theorem minted_token_exact:
  assumes "boot hm aws env = Inr (v, s, hs)" "mintToken jwt cenv now args = Done tok" "jwt_agrees lib jwt public t"
  shows "\<exists>vals ttl priv. parse_flags token_flags (drop 3 args) [] = Inr vals
    \<and> parseTTL (flag_value vals ''ttl'' ''720h'') = Some ttl \<and> 0 < ttl \<and> private_key cenv = Inr priv
    \<and> splitCSV (flag_value vals ''scopes'' []) \<noteq> [] \<and> set (splitCSV (flag_value vals ''scopes'' [])) \<subseteq> set knownScopes
    \<and> (\<forall>c. Verify lib v tok = Inr c \<longleftrightarrow>
         env ''PLATE_JWT_ISSUER'' = [] \<and> env ''PLATE_JWT_AUDIENCE'' = [] \<and> t < unix (now + ttl) * second
         \<and> key_under v (flag_value vals ''kid'' []) = Some (public priv)
         \<and> (\<forall>p. cl_binding c = Some p \<longrightarrow> Matches p (args ! 2))
         \<and> c = \<lparr>cl_account = args ! 2, cl_scope = splitCSV (flag_value vals ''scopes'' []),
                cl_keyName = key_name (flag_value vals ''kid'' []),
                cl_binding = map_of (v_bindings v) (key_name (flag_value vals ''kid'' []))\<rparr>)"
  using minted_claims [OF assms] .

section \<open>From a key pair to a request\<close>

lemma bearer_word:
  assumes "tok \<noteq> []" "list_all (\<lambda>x. \<not> is_space x) tok"
  shows "bearer (''Bearer '' @ tok) = tok"
proof -
  have "trim_space tok = tok" by (rule trim_space_solid) (use assms in \<open>auto simp: list_all_iff\<close>)
  then show ?thesis using assms(1) by (simp add: bearer_def)
qed

lemma single_key_verifier:
  assumes "env_verifier env = Inr v" "parseKeyset env (env ''PLATE_JWT_PUBLIC_KEYS'') = Inr (Some ks)"
  shows "v_keys v = ks"
  using assms
  by (auto simp: env_verifier_def NewBoundKeysetVerifier_def NewKeysetVerifier_def Let_def split: sum.splits if_splits)

text \<open>C15: The operator's path from nothing to a served request: the two lines \<open>plate keypair\<close> prints,
  put into the server's key set under a kid and into the issuer's environment, give tokens the
  booted server authenticates. For every pair of an Ed25519 key, every valid kid and every command
  that mints under it, the request that carries the token reaches the handlers with exactly the
  minted account and scopes, while the token lasts and the key's binding admits the account.\<close>
theorem keypair_token_roundtrip:
  assumes "genKeypair (Some (pub, priv)) = Done (''public='' @ p, ''private='' @ q)" "length pub = 32" "length priv = 64"
    "env ''PLATE_JWT_PUBLIC_KEYS'' = kid @ ''='' @ p" "cenv ''PLATE_JWT_PRIVATE_B64'' = q"
    "validKid kid" "\<not> isThrowawayKey p" "env ''PLATE_JWT_ISSUER'' = []" "env ''PLATE_JWT_AUDIENCE'' = []"
    "boot hm aws env = Inr (v, s, h)"
    "mintToken jwt cenv now args = Done tok" "parse_flags token_flags (drop 3 args) [] = Inr vals"
    "flag_value vals ''kid'' [] = kid" "parseTTL (flag_value vals ''ttl'' ''720h'') = Some ttl"
    "jwt_agrees lib jwt public t" "public priv = pub" "t < unix (now + ttl) * second"
    "\<And>b. map_of (v_bindings v) kid = Some b \<Longrightarrow> Matches b (args ! 2)"
  shows "Middleware lib v (''Bearer '' @ tok) = AO_Next
     \<lparr>cl_account = args ! 2, cl_scope = splitCSV (flag_value vals ''scopes'' []), cl_keyName = kid,
      cl_binding = map_of (v_bindings v) kid\<rparr>"
proof -
  have pq: "p = b64_std_encode pub" "q = b64_std_encode priv" using assms(1) by (auto simp: genKeypair_def)
  have k: "kid \<noteq> []" using kid_chars(1) [OF assms(6)] .
  have "v_keys v = [(kid, pub)]"
    using single_key_verifier [OF boot_verifier [OF assms(10)]] keypair_entry [OF assms(2,6)] assms(4,7) pq(1) by simp
  then have key: "key_under v kid = Some (public priv)" using k assms(16) by (simp add: key_under_def)
  obtain vals' ttl' priv' where m: "parse_flags token_flags (drop 3 args) [] = Inr vals'"
    "parseTTL (flag_value vals' ''ttl'' ''720h'') = Some ttl'" "private_key cenv = Inr priv'"
    and V: "\<And>c. Verify lib v tok = Inr c \<longleftrightarrow>
         env ''PLATE_JWT_ISSUER'' = [] \<and> env ''PLATE_JWT_AUDIENCE'' = [] \<and> t < unix (now + ttl') * second
         \<and> key_under v (flag_value vals' ''kid'' []) = Some (public priv')
         \<and> (\<forall>p. cl_binding c = Some p \<longrightarrow> Matches p (args ! 2))
         \<and> c = \<lparr>cl_account = args ! 2, cl_scope = splitCSV (flag_value vals' ''scopes'' []),
                cl_keyName = key_name (flag_value vals' ''kid'' []),
                cl_binding = map_of (v_bindings v) (key_name (flag_value vals' ''kid'' []))\<rparr>"
    using minted_claims [OF assms(10,11,15)] by blast
  have "private_key cenv = Inr priv" using private_loads [OF assms(3)] assms(5) pq(2) by simp
  then have eq: "vals' = vals" "ttl' = ttl" "priv' = priv" using m assms(12,14) by auto
  obtain ttl2 where "sign_claims jwt priv (flag_value vals ''kid'' []) \<lparr>mc_Account = args ! 2,
      mc_Scope = splitCSV (flag_value vals ''scopes'' []), mc_Subject = flag_value vals ''sub'' ''operator'',
      mc_IssuedAt = unix now, mc_ExpiresAt = unix (now + ttl2)\<rparr> = Done tok"
    by (rule mintToken_Done [OF assms(11)]) (use assms(12) \<open>private_key cenv = Inr priv\<close> in auto)
  from sign_claims_Done(1) [OF this] have word: "tok \<noteq> []" "list_all (\<lambda>x. \<not> is_space x) tok"
    using assms(15) unfolding jwt_agrees_def by blast+
  let ?c = "\<lparr>cl_account = args ! 2, cl_scope = splitCSV (flag_value vals ''scopes'' []), cl_keyName = kid,
      cl_binding = map_of (v_bindings v) kid\<rparr>"
  have "Verify lib v tok = Inr ?c"
    using V [of ?c] eq key assms(8,9,13,17,18) k by (simp add: key_name_def)
  then show ?thesis using word bearer_word [OF word] by (simp add: Middleware_def)
qed

section \<open>Life times\<close>

lemma digits_value_parse: "list_all is_digit s \<Longrightarrow> parse_digits s n = Some (foldl (\<lambda>n c. n * 10 + digit_val c) n s)"
  by (induction s arbitrary: n) auto

lemma dec_nat_all: "list_all is_digit (dec_nat n)"
  by (auto simp: list_all_iff dest: dec_nat_digits)

lemma digits_value_dec: "digits_value (dec_nat n) = n"
  using digits_value_parse [OF dec_nat_all, of n 0] parse_digits_dec [of n] by (simp add: digits_value_def)

lemma float_range_big: "(2 :: rat) ^ 63 < float_range"
proof -
  have "(1 :: rat) \<le> 2 ^ 970" by simp
  then have "(2 ^ 54 - 1) * 1 \<le> (2 ^ 54 - 1) * (2 :: rat) ^ 970" by (intro mult_left_mono) auto
  have "(2 :: rat) ^ 63 = 1024 * 2 ^ 53" by simp
  also have "\<dots> < (2 ^ 54 - 1) * 1024" by simp
  also have "\<dots> \<le> (2 ^ 54 - 1) * (2 :: rat) ^ 970"
  proof (rule mult_left_mono)
    have "(2 :: rat) ^ 10 \<le> 2 ^ 970" by (rule power_increasing) auto
    then show "1024 \<le> (2 :: rat) ^ 970" by simp
  qed simp
  finally show ?thesis by (simp only: float_range_def)
qed

lemma ParseFloat_dec:
  assumes "n < 2 ^ 53"
  shows "ParseFloat (dec_nat n) = Some (of_nat n)"
proof -
  obtain c cs where c: "dec_nat n = c # cs" by (cases "dec_nat n") auto
  have d: "is_digit c" "c \<noteq> CHR ''-''" "c \<noteq> CHR ''+''"
    using dec_nat_head [of c n] dec_nat_digits [of c n] c by auto
  have sg: "sign_of (dec_nat n) = (False, dec_nat n)" using d c by (simp add: sign_of_def)
  have dg: "digits_of (dec_nat n) = (dec_nat n, [])"
    using dec_nat_all [of n] by (auto simp: digits_of_def list_all_iff)
  have "fl (rat_of_nat n) = of_nat n" using fl_int [of "int n"] assms by simp
  moreover have "\<not> float_range \<le> rat_of_nat n"
  proof -
    have "rat_of_nat n < of_nat (2 ^ 53)" using assms by (simp only: of_nat_less_iff)
    then show ?thesis using float_range_big by simp
  qed
  ultimately show ?thesis
    by (simp add: ParseFloat_def sg dg exponent_of_def digits_value_dec)
qed

lemma convertFloat_dec:
  assumes "n < 2 ^ 53"
  shows "convertFloat (dec_nat n) = Some (Fin (of_nat n))"
proof -
  obtain c cs where c: "dec_nat n = c # cs" by (cases "dec_nat n") auto
  have dig: "is_digit x" if "x \<in> set (dec_nat n)" for x using dec_nat_digits that .
  have no: "x \<in> set (dec_nat n) \<Longrightarrow> \<not> letter CHR ''x'' x \<and> x \<noteq> CHR ''p'' \<and> x \<noteq> CHR ''_'' \<and> lower_char x = x" for x
    using dig [of x] digit_not_letter [of x "CHR ''x''"] by (auto simp: is_digit_def less_eq_char_def letter_def lower_char_def)
  have "\<not> list_ex (letter CHR ''x'') (dec_nat n)" "cut_char CHR ''p'' (dec_nat n) = None" "CHR ''_'' \<notin> set (dec_nat n)"
    using no by (auto simp: list_ex_iff cut_char_None)
  moreover have "to_lower (dec_nat n) = dec_nat n" using no by (simp add: to_lower_def map_idI)
  moreover have sg: "sign_of (dec_nat n) = (False, dec_nat n)"
    using dec_nat_head [of c n] c by (simp add: sign_of_def)
  moreover have "dec_nat n \<noteq> ''inf''" "dec_nat n \<noteq> ''infinity''" "dec_nat n \<noteq> ''nan''"
  proof -
    have "c \<noteq> CHR ''i'' \<and> c \<noteq> CHR ''n''" using dig [of c] c by (auto simp: is_digit_def less_eq_char_def)
    then show "dec_nat n \<noteq> ''inf''" "dec_nat n \<noteq> ''infinity''" "dec_nat n \<noteq> ''nan''" using c by auto
  qed
  moreover have "base_prefix (dec_nat n) {CHR ''x''} = None"
    using no no [of "CHR ''x''"] by (auto simp: base_prefix_def letter_def split: list.splits)
  moreover have "filter (\<lambda>x. x \<noteq> CHR ''_'') (dec_nat n) = dec_nat n" using no by (simp add: filter_id_conv)
  ultimately show ?thesis
    by (simp add: convertFloat_def ParseFloat64_def special_float_def without_underscores_def ParseFloat_dec [OF assms])
qed

lemma ttl_number:
  assumes "ds \<noteq> []" "list_all is_digit ds" "t = [] \<or> stops_number (hd t)"
  shows "parseTTL (ds @ t @ ''d'') = (case convertFloat ds of None \<Rightarrow> None
    | Some days \<Rightarrow> Some (gf_int64 (gf_mul (gf_mul days 24) (float_of hour))))"
proof -
  have "\<not> is_space (hd ds)" using assms(1,2) digit_not_space by (cases ds) auto
  then have "trim_space ((ds @ t) @ ''d'') = (ds @ t) @ ''d''"
    using assms(1) by (intro trim_space_solid) (simp_all add: is_space_def)
  then show ?thesis
    using Sscanf_g_digits [OF assms] trim_suffix_append [of "ds @ t" "''d''"] has_suffix_append [of "ds @ t" "''d''"]
    by (simp add: parseTTL_def Let_def)
qed

text \<open>A whole number of days, whatever the rounding of the float64 product.\<close>

lemma ttl_days:
  assumes "n \<le> 100" "t = [] \<or> stops_number (hd t)"
  shows "parseTTL (dec_nat n @ t @ ''d'') = Some (int n * 24 * hour)"
proof -
  have h: "float_of hour = 3600000000000" using float_of_exact [of hour] by (simp add: hour_def)
  have a: "fl (rat_of_nat n * 24) = of_int (int n * 24)" using fl_int [of "int n * 24"] assms(1) by simp
  have b: "fl (rat_of_int (int n * 24) * 3600000000000) = of_int (int n * 24 * 3600000000000)"
    using fl_int [of "int n * 24 * 3600000000000"] assms(1) by simp
  have r: "gf_mul (Fin (of_int k)) c = Fin (of_int m)" if "fl (of_int k * c) = of_int m" "0 \<le> m" "m < 2 ^ 63" for k m c
  proof -
    have "rat_of_int m < of_int (2 ^ 63)" using that(3) by (simp only: of_int_less_iff)
    then have "rat_of_int m < float_range" using float_range_big by simp
    moreover have "\<not> float_range \<le> - rat_of_int m"
    proof -
      have "(0 :: rat) < float_range" using float_range_big by (rule less_trans [rotated]) simp
      moreover have "- rat_of_int m \<le> 0" using that(2) by simp
      ultimately show ?thesis by linarith
    qed
    ultimately show ?thesis using that(1) by (simp add: gf_mul_def fmul_def)
  qed
  have m1: "gf_mul (Fin (of_nat n)) 24 = Fin (of_int (int n * 24))" using r [of "int n" 24 "int n * 24"] a assms(1) by simp
  have m2: "gf_mul (Fin (of_int (int n * 24))) (float_of hour) = Fin (of_int (int n * 24 * 3600000000000))"
    unfolding h by (rule r [OF b]) (use assms(1) in auto)
  have int64: "gf_int64 (Fin (of_int m)) = m" if "0 \<le> m" "m < 2 ^ 63" for m
    using that by (simp add: gf_int64_def int_of_def)
  have "gf_int64 (Fin (of_int (int n * 24 * 3600000000000))) = int n * 24 * 3600000000000"
    by (rule int64) (use assms(1) in simp_all)
  moreover have "convertFloat (dec_nat n) = Some (Fin (of_nat n))" using assms(1) by (intro convertFloat_dec) simp
  ultimately have "(case convertFloat (dec_nat n) of None \<Rightarrow> None
      | Some days \<Rightarrow> Some (gf_int64 (gf_mul (gf_mul days 24) (float_of hour)))) = Some (int n * 24 * 3600000000000)"
    by (simp only: m1 m2 option.case)
  then show ?thesis using ttl_number [OF dec_nat_nonempty dec_nat_all assms(2), of n] by (simp add: hour_def)
qed

text \<open>A life time in days is read up to the first character that cannot continue its number, and the rest
  is dropped: an operator who writes hours and days together, \<open>12h90d\<close>, gets a token for twelve
  days instead of a refusal. Up to a hundred days the number itself is read exactly, despite the
  float64 product.\<close>
theorem ttl_ignores_tail:
  assumes "n \<le> 100" "t = [] \<or> stops_number (hd t)"
  shows "parseTTL (dec_nat n @ t @ ''d'') = Some (int n * 24 * hour)"
  using assms by (rule ttl_days)

lemma ttl_ignores_tail_witness: "parseTTL ''12h90d'' = Some (12 * 24 * hour) \<and> parseTTL ''30d'' = Some (30 * 24 * hour)"
  using ttl_ignores_tail [of 12 "''h90''"] ttl_ignores_tail [of 30 "[]"]
  by (simp add: dec_nat.simps digit_char_def stops_number_def letter_def lower_char_def less_eq_char_def is_digit_def)

section \<open>A concrete deployment\<close>

definition ops_args :: "string list" where
  "ops_args = [''plate'', ''token'', ''reg_1'', ''--scopes'', ''assets:read,assets:write'', ''--ttl=1d'', ''-kid'', ''ops'']"

definition ops_claims :: mint_claims where
  "ops_claims = \<lparr>mc_Account = ''reg_1'', mc_Scope = [''assets:read'', ''assets:write''], mc_Subject = ''operator'',
     mc_IssuedAt = 0, mc_ExpiresAt = 86400\<rparr>"

definition zero_private :: string where "zero_private = replicate 64 (CHR 0x00)"

definition ops_jwt :: jwt_signer where
  "ops_jwt alg kid c priv = (if kid = Some ''ops'' \<and> c = ops_claims \<and> priv = zero_private then Some ''tok'' else None)"

definition ops_jwt_lib :: "time \<Rightarrow> string jwt_lib" where
  "ops_jwt_lib t = \<lparr>jl_decode = \<lambda>tok. Some \<lparr>jt_alg = ''EdDSA'', jt_ed25519 = True, jt_kid = Some ''ops'', jt_account = ''reg_1'',
        jt_scope = [''assets:read'', ''assets:write'']\<rparr>,
     jl_sig_ok = \<lambda>tok key. key = zero_raw, jl_claims_ok = \<lambda>iss aud tok. iss = [] \<and> aud = [] \<and> t < 86400 * second\<rparr>"

definition ops_cenv :: environment where
  "ops_cenv k = (if k = ''PLATE_JWT_PRIVATE_B64'' then b64_std_encode zero_private else [])"

lemma ops_agrees: "jwt_agrees (ops_jwt_lib t) ops_jwt (\<lambda>_. zero_raw) t"
  by (auto simp: jwt_agrees_def ops_jwt_def ops_jwt_lib_def ops_claims_def is_space_def split: if_splits)

lemma ops_flags: "parse_flags token_flags (drop 3 ops_args) []
    = Inr [(''kid'', ''ops''), (''ttl'', ''1d''), (''scopes'', ''assets:read,assets:write'')]"
  by (simp add: ops_args_def token_flags_def flag_name_def flag_given_def)

lemma ttl_day: "parseTTL ''1d'' = Some 86400000000000"
  using ttl_days [of 1 "[]"] by (simp add: dec_nat.simps digit_char_def hour_def)

lemma ops_scopes: "splitCSV ''assets:read,assets:write'' = [''assets:read'', ''assets:write'']"
  by code_simp

lemma ops_mint: "mintToken ops_jwt ops_cenv 0 ops_args = Done ''tok''"
proof -
  have a: "length ops_args = 8" "ops_args ! 2 = ''reg_1''" by (simp_all add: ops_args_def)
  have p: "private_key ops_cenv = Inr zero_private"
    by (rule private_loads) (simp_all add: ops_cenv_def zero_private_def)
  have "scopes_loop [''assets:read'', ''assets:write''] = None" by (simp add: knownScopes_def)
  then show ?thesis
    by (simp add: mintToken_def Let_def a ops_flags cli_splitCSV_eq flag_value_def ops_scopes ttl_day p sign_claims_def
        validKidArg_eq strict_texts SignWithKid_def ops_jwt_def ops_claims_def unix_def has_prefix_def)
qed

lemma minted_token_exact_witness:
  "\<exists>c. Verify (ops_jwt_lib 5) strict_verifier ''tok'' = Inr c \<and> cl_account c = ''reg_1'' \<and> cl_scope c = [''assets:read'', ''assets:write'']"
proof -
  obtain s h where b: "boot (\<lambda>_ _. []) no_aws strict_env = Inr (strict_verifier, s, h)" using strict_boot by metis
  show ?thesis
    using minted_token_exact [OF b ops_mint ops_agrees [of 5], unfolded ops_flags]
    by (auto simp: flag_value_def ttl_day ops_scopes strict_env_def key_under_def strict_verifier_def NewKeysetVerifier_def
        ops_args_def key_name_def Matches_def unix_def second_def has_prefix_def ValidAccountID_def account_char_def
        is_alnum_def is_digit_def less_eq_char_def)
qed

lemma zero_key_encoded: "b64_std_encode zero_raw = zero_key"
  unfolding zero_raw_eval by (simp add: zero_key_def b64_std_char_def Let_def)

lemma keypair_token_roundtrip_witness:
  "Middleware (ops_jwt_lib 5) strict_verifier ''Bearer tok'' = AO_Next
     \<lparr>cl_account = ''reg_1'', cl_scope = [''assets:read'', ''assets:write''], cl_keyName = ''ops'',
      cl_binding = map_of (v_bindings strict_verifier) ''ops''\<rparr>"
proof -
  obtain s h where b: "boot (\<lambda>_ _. []) no_aws strict_env = Inr (strict_verifier, s, h)" using strict_boot by metis
  have g: "genKeypair (Some (zero_raw, zero_private)) = Done (''public='' @ zero_key, ''private='' @ b64_std_encode zero_private)"
    by (simp add: genKeypair_def zero_key_encoded)
  have l: "length zero_raw = 32" "length zero_private = 64" by (simp_all add: zero_raw_def zero_private_def)
  have e: "strict_env ''PLATE_JWT_PUBLIC_KEYS'' = ''ops'' @ ''='' @ zero_key" "strict_env ''PLATE_JWT_ISSUER'' = []"
    "strict_env ''PLATE_JWT_AUDIENCE'' = []" "ops_cenv ''PLATE_JWT_PRIVATE_B64'' = b64_std_encode zero_private"
    by (simp_all add: strict_env_def ops_cenv_def)
  have t: "\<not> isThrowawayKey zero_key"
    by (simp add: isThrowawayKey_def strict_texts) (simp add: zero_key_def knownThrowawayKeys_def)
  let ?vals = "[(''kid'', ''ops''), (''ttl'', ''1d''), (''scopes'', ''assets:read,assets:write'')]"
  have f: "flag_value ?vals ''kid'' [] = ''ops''" "flag_value ?vals ''scopes'' [] = ''assets:read,assets:write''"
    "parseTTL (flag_value ?vals ''ttl'' ''720h'') = Some 86400000000000"
    "(5 :: time) < unix (0 + 86400000000000) * second" "ops_args ! 2 = ''reg_1''"
    by (simp_all add: flag_value_def ttl_day unix_def second_def ops_args_def)
  have m: "Matches b (ops_args ! 2)" if "map_of (v_bindings strict_verifier) ''ops'' = Some b" for b
    using that by (auto simp: strict_verifier_def ops_args_def Matches_def has_prefix_def ValidAccountID_def account_char_def
        is_alnum_def is_digit_def less_eq_char_def)
  show ?thesis
    using keypair_token_roundtrip [OF g l e(1,4) strict_texts(8) t e(2,3) b ops_mint ops_flags f(1,3) ops_agrees refl f(4) m] f(2,5)
    by (simp add: ops_scopes)
qed

section \<open>Accounts are created unchecked\<close>

text \<open>The command takes any text for an account id, one that no bound key may claim and that would split
  the storage keys too: the download edge finds no owner in them.\<close>

lemma account_id_unchecked:
  assumes "env ''DATABASE_URL'' \<noteq> []"
  shows "accounts True env now [''plate'', ''accounts'', ''create'', ''a/b''] d = Done (CreateAccount d now ''a/b'' [] [])"
    and "\<not> ValidAccountID ''a/b''" and "CHR ''/'' \<notin> set j \<Longrightarrow> vaultKeyParts (VaultKey ''a/b'' j) = None"
  using assms by (simp_all add: accounts_def flag_value_def ValidAccountID_def account_char_def is_alnum_def is_digit_def
      less_eq_char_def vaultKeyParts_def VaultKey_def VaultPrefix_def split_char_no_sep)

end
