(* ===== verification/Store_Types.thy ===== *)
theory Store_Types
  imports Sweep_Props
begin

text \<open>
  Well-typedness of the database: the keys and references of the schema
  (internal/store/migrations), and the shapes of job and rendition rows that its column comments
  and the worker rely on, are kept by every operation in every interleaving.
\<close>

section \<open>Rows of the right shape\<close>

text \<open>A queued job holds no lease, a running one a full lease it was counted for, a failed one its reason;
  the mode and the source agree.\<close>

definition job_ok :: "job_row \<Rightarrow> bool" where
  "job_ok r \<longleftrightarrow> 0 \<le> jr_retries r
     \<and> ((jr_mode r = Remux) = (jr_source_key r \<noteq> None))
     \<and> (case jr_status r of
          JobQueued \<Rightarrow> jr_locked_at r = None \<and> jr_heartbeat_at r = None
        | JobRunning \<Rightarrow> jr_locked_at r \<noteq> None \<and> jr_heartbeat_at r \<noteq> None \<and> 1 \<le> jr_retries r
        | JobSucceeded \<Rightarrow> jr_progress r = Some 1
        | JobFailed \<Rightarrow> jr_reason r \<noteq> None \<and> jr_last_error r \<noteq> None)"

text \<open>Only a failed rendition has a reason, a ready one names its object, and none is stored as pending.\<close>

definition rendition_ok :: "rendition_row \<Rightarrow> bool" where
  "rendition_ok r \<longleftrightarrow> rr_status r \<noteq> RS_Pending \<and> ((rr_reason r \<noteq> None) = (rr_status r = RS_Failed))
     \<and> (rr_status r = RS_Ready \<longrightarrow> rr_key r \<noteq> None \<and> rr_mode r \<noteq> None)"

definition rows_ok :: "db \<Rightarrow> bool" where
  "rows_ok d \<longleftrightarrow> list_all job_ok (db_jobs d) \<and> list_all rendition_ok (db_renditions d)"

definition references_ok :: "db \<Rightarrow> bool" where
  "references_ok d \<longleftrightarrow>
     list_all (\<lambda>a. has_account d (ar_account a)) (db_assets d)
   \<and> list_all (\<lambda>r. has_asset_id d (rr_asset r)) (db_renditions d)
   \<and> list_all (\<lambda>j. has_account d (jr_account j) \<and> has_asset_id d (jr_asset j)) (db_jobs d)
   \<and> list_all (\<lambda>g. has_account d (gw_account g)) (db_grants d)
   \<and> list_all (\<lambda>x. has_account d (xw_account x)) (db_exports d)
   \<and> list_all (\<lambda>u. has_account d (uw_account u)) (db_uploads d)"

section \<open>Tables\<close>

lemma all_update_where: "list_all P t \<Longrightarrow> (\<And>r. p r \<Longrightarrow> P r \<Longrightarrow> P (f r)) \<Longrightarrow> list_all P (update_where p f t)"
  by (auto simp: list_all_iff set_update_where)

lemma all_insert_row: "list_all P t \<Longrightarrow> P r \<Longrightarrow> list_all P (insert_row r t)"
  by (simp add: insert_row_def)

lemma all_delete_where: "list_all P t \<Longrightarrow> list_all P (delete_where p t)"
  by (auto simp: list_all_iff delete_where_def)

lemma all_upsert_row: "list_all P t \<Longrightarrow> P r \<Longrightarrow> (\<And>r. p r \<Longrightarrow> P r \<Longrightarrow> P (f r)) \<Longrightarrow> list_all P (upsert_row p f r t)"
  by (simp add: upsert_row_def all_insert_row all_update_where)

lemma all_insert_if_absent: "list_all P t \<Longrightarrow> P r \<Longrightarrow> list_all P (insert_if_absent p r t)"
  by (simp add: insert_if_absent_def all_insert_row)

lemmas all_rows = all_update_where all_insert_row all_delete_where all_upsert_row all_insert_if_absent

lemma rows_same: "db_jobs d' = db_jobs d \<Longrightarrow> db_renditions d' = db_renditions d \<Longrightarrow> rows_ok d' = rows_ok d"
  by (simp add: rows_ok_def)

lemma job_moves:
  "job_ok r \<Longrightarrow> job_ok (repoint now k r)"
  "job_ok r \<Longrightarrow> job_ok (claim_row now r)"
  "job_ok r \<Longrightarrow> jr_status r = JobRunning \<Longrightarrow> job_ok (beat_row now p r)"
  "job_ok r \<Longrightarrow> job_ok (succeed_row now r)"
  "job_ok r \<Longrightarrow> job_ok (requeue_row now m r)"
  "job_ok r \<Longrightarrow> job_ok (fail_row now c m r)"
  "job_ok (queued_row now j a i n Derive None)"
  "job_ok (queued_row now j a i n Remux (Some k))"
  by (simp_all add: job_ok_def repoint_def claim_row_def beat_row_def succeed_row_def requeue_row_def fail_row_def
      queued_row_def split: job_status.splits)

lemma rendition_moves:
  "rendition_ok (ready_row a i c)"
  "rendition_ok (bare_rendition a i RS_Failed (Some c'))"
  "rendition_ok (bare_rendition a i RS_NotDerived None)"
  by (simp_all add: rendition_ok_def ready_row_def bare_rendition_def)

section \<open>Operations\<close>

lemma insert_job_rows: "insert_job d r = Inr (d', x) \<Longrightarrow> job_ok r \<Longrightarrow> rows_ok d \<Longrightarrow> rows_ok d'"
  by (auto simp: insert_job_def rows_ok_def intro: all_insert_row split: if_splits)

lemma request_rows: "rows_ok d \<Longrightarrow> rows_ok (run_request now A r d)"
proof (cases r)
  case (R_EnqueueJob jid i n)
  assume "rows_ok d"
  then have "rows_ok d'" if "EnqueueJob d now jid A i n = Inr (d', x)" for d' x
    using that by (auto simp: EnqueueJob_def intro: insert_job_rows job_moves split: option.splits if_splits)
  then show ?thesis using R_EnqueueJob \<open>rows_ok d\<close> by (auto simp: commit_def split: sum.split)
next
  case (R_EnqueueRemuxJob jid i n src)
  assume ok: "rows_ok d"
  have "rows_ok (d\<lparr>db_jobs := update_where p (repoint now src) (db_jobs d)\<rparr>)" for p
    using ok by (auto simp: rows_ok_def intro!: all_update_where job_moves)
  then have "rows_ok d'" if "EnqueueRemuxJob d now jid A i n src = Inr (d', x)" for d' x
    using that ok by (auto simp: EnqueueRemuxJob_def intro: insert_job_rows job_moves split: option.splits if_splits)
  then show ?thesis using R_EnqueueRemuxJob ok by (auto simp: commit_def split: sum.split)
next
  case (R_MarkNotDerived i n)
  then show "rows_ok d \<Longrightarrow> ?thesis"
    by (auto simp: MarkNotDerived_def commit_def rows_ok_def intro!: all_insert_if_absent rendition_moves split: sum.splits if_splits)
qed (subst rows_same [of _ d]; auto simp: commit_def CreateGrant_def RevokeGrant_def CreateExport_def RevokeExport_def
      ProvisionAccount_def CreateUpload_def FinalizeUpload_def MarkAssetDeleted_def Let_def
      split: sum.splits option.splits if_splits)+

lemma worker_rows: "rows_ok d \<Longrightarrow> rows_ok (run_worker now w d)"
proof (cases w)
  case (W_Claim ttl)
  assume ok: "rows_ok d"
  have "rows_ok (d\<lparr>db_jobs := update_where p (claim_row now) (db_jobs d)\<rparr>)" for p
    using ok by (auto simp: rows_ok_def intro!: all_update_where job_moves)
  then show ?thesis using W_Claim ok by (auto simp: ClaimNextJob_def Let_def split: option.splits)
next
  case (W_Heartbeat j p)
  then show "rows_ok d \<Longrightarrow> ?thesis" by (auto simp: Heartbeat_def rows_ok_def intro!: all_update_where job_moves)
next
  case (W_Complete j c)
  then show "rows_ok d \<Longrightarrow> ?thesis"
    by (auto simp: CompleteJob_def commit_def rows_ok_def
        intro!: all_update_where all_upsert_row job_moves rendition_moves split: option.splits sum.splits)
       (simp add: rendition_ok_def)
next
  case (W_CompleteNoRendition j)
  then show "rows_ok d \<Longrightarrow> ?thesis" by (auto simp: CompleteJobNoRendition_def rows_ok_def intro!: all_update_where job_moves)
next
  case (W_Fail j m c msg)
  then show "rows_ok d \<Longrightarrow> ?thesis"
    by (auto simp: FailJob_def commit_def rows_ok_def intro!: all_update_where job_moves split: option.splits)
next
  case (W_Purge i)
  then show "rows_ok d \<Longrightarrow> ?thesis" by (auto simp: PurgeDeletedAsset_def rows_ok_def intro!: all_delete_where)
next
  case (W_Ceiling i n c)
  then show "rows_ok d \<Longrightarrow> ?thesis"
    by (auto simp: FailedRenditionForCeiling_def commit_def rows_ok_def
        intro!: all_upsert_row rendition_moves)
       (simp add: rendition_ok_def)
qed (subst rows_same [of _ d]; auto simp: commit_def BackfillVaultProbe_def MarkProbeFailed_def ClaimChecksumCandidate_def
      ReleaseChecksumClaim_def MarkChecksumVerified_def MarkUploadSwept_def UpsertWorkerHeartbeat_def Let_def
      split: sum.splits option.splits if_splits)+

lemma reachable_rows: "reachable d \<Longrightarrow> rows_ok d"
proof (induction rule: reachable.induct)
  case init then show ?case by (simp add: rows_ok_def empty_db_def)
next
  case (step d d')
  from step.hyps(2) step.IH show ?case
  proof (cases rule: store_step.cases)
    case (operator now a bucket pre)
    then show ?thesis using step.IH by (simp add: rows_ok_def CreateAccount_def)
  qed (simp_all add: request_rows worker_rows)
qed

section \<open>References\<close>

lemma reachable_references:
  assumes "reachable d"
  shows "references_ok d"
proof -
  let ?s = "abs_store d"
  have inv: "sk_layout ?s" "sk_refs ?s" using reachable_inv [OF assms] by (simp_all add: sk_inv_def)
  have u: "has_account d (uw_account u)" if "u \<in> set (db_uploads d)" for u
  proof -
    have "upload_key u \<in> set (sk_uploads ?s)" using that by (simp add: abs_store_def)
    then show ?thesis using inv(1) by (auto simp: sk_layout_def upload_key_def abs_has_account)
  qed
  have a: "has_account d (ar_account a)" if "a \<in> set (db_assets d)" for a
    using reachable_asset_upload [OF assms that] u by (metis own_upload_def)
  have r: "has_asset_id d (rr_asset r)" if "r \<in> set (db_renditions d)" for r
  proof -
    have "rendition_key_of r \<in> set (sk_renditions ?s)" using that by (simp add: abs_store_def)
    then show ?thesis using inv(2) by (auto simp: sk_refs_def rendition_key_of_def abs_has_asset)
  qed
  have j: "has_account d (jr_account j) \<and> has_asset_id d (jr_asset j)" if j: "j \<in> set (db_jobs d)" for j
  proof -
    obtain y where y: "y \<in> set (db_assets d)" "ar_account y = jr_account j" "ar_id y = jr_asset j"
      using reachable_job_asset [OF assms j] by (auto simp: asset_is_def)
    show ?thesis using a [OF y(1)] y by (auto simp: has_asset_id_def has_row_iff)
  qed
  have g: "has_account d (gw_account g)" if "g \<in> set (db_grants d)" for g
  proof -
    have "grant_key g \<in> set (sk_grants ?s)" using that by (simp add: abs_store_def)
    then show ?thesis using inv(2) by (auto simp: sk_refs_def grant_key_def abs_has_account)
  qed
  have x: "has_account d (xw_account x)" if "x \<in> set (db_exports d)" for x
  proof -
    have "export_key x \<in> set (sk_exports ?s)" using that by (simp add: abs_store_def)
    then show ?thesis using inv(2) by (auto simp: sk_refs_def export_key_def abs_has_account)
  qed
  show ?thesis using u a r j g x by (simp add: references_ok_def list_all_iff)
qed

text \<open>C10: The database stays well typed, whatever interleaving of requests, worker and operator operations
  made it: primary keys are unique and every reference of the schema has its target; a queued job
  holds no lease, a running one holds one and was counted, a failed one says why, the mode of a job
  and its source agree; only a failed rendition has a reason, a ready one names its object, no row
  is ever pending; and an authored upload is never finalized.\<close>
theorem store_well_typed:
  assumes "reachable d"
  shows "keys_ok d \<and> references_ok d \<and> rows_ok d
    \<and> (\<forall>u \<in> set (db_uploads d). uw_rasset u = None \<or> uw_finalized u = None)"
proof (intro conjI ballI)
  show "keys_ok d" by (rule reachable_keys [OF assms])
  show "references_ok d" by (rule reachable_references [OF assms])
  show "rows_ok d" by (rule reachable_rows [OF assms])
  fix u assume "u \<in> set (db_uploads d)"
  then show "uw_rasset u = None \<or> uw_finalized u = None"
    using authored_never_finalized [OF assms] by (cases "uw_rasset u = None") simp_all
qed

lemma store_well_typed_witness:
  "list_all job_ok (db_jobs running_db) \<and> db_jobs running_db \<noteq> []"
proof -
  have "running_db = run_worker 50 (W_Claim 900) queued_db" using claim_eval by simp
  then have "reachable running_db" using reachable.step [OF queued_reachable store_step.worker] by metis
  from store_well_typed [OF this] show ?thesis by (simp add: rows_ok_def running_db_def)
qed

end
