(* ===== verification/Store_Api.thy ===== *)
theory Store_Api
  imports Store_Types Capabilities
begin

text \<open>
  The interface the service has of its store (store/store.go, Store), as a record of operations on
  some state, the promises of its comments as the laws of a locale, and the methods of Postgres
  (store/postgres.go, queue.go, health.go) as an instance that keeps them in every reachable
  database. What follows from the promises is proved once, for any such store.
\<close>

section \<open>The interface\<close>

text \<open>Reads return a value or an error, writes a new state too. The clock and the identifiers that are
  drawn are arguments; \<open>Ping\<close> has no counterpart, since connections are not modelled.\<close>

record 's store_api =
  sto_WorkerLiveness :: "'s \<Rightarrow> worker_liveness"
  sto_QueueLag :: "'s \<Rightarrow> queue_lag"
  sto_GetAsset :: "'s \<Rightarrow> string \<Rightarrow> string \<Rightarrow> store_error + asset"
  sto_ListAssets :: "'s \<Rightarrow> string \<Rightarrow> string \<Rightarrow> int \<Rightarrow> asset_page"
  sto_MarkAssetDeleted :: "'s \<Rightarrow> time \<Rightarrow> string \<Rightarrow> string \<Rightarrow> store_error + 's \<times> asset"
  sto_GetJob :: "'s \<Rightarrow> string \<Rightarrow> string \<Rightarrow> store_error + job"
  sto_GetGrant :: "'s \<Rightarrow> string \<Rightarrow> string \<Rightarrow> store_error + grant"
  sto_RevokeGrant :: "'s \<Rightarrow> time \<Rightarrow> string \<Rightarrow> string \<Rightarrow> store_error + 's \<times> grant"
  sto_CreateGrant :: "'s \<Rightarrow> time \<Rightarrow> string \<Rightarrow> string \<Rightarrow> grant_request \<Rightarrow> store_error + 's \<times> grant"
  sto_AssetPurged :: "'s \<Rightarrow> string \<Rightarrow> string \<Rightarrow> bool"
  sto_ResolveGrantForDelivery :: "'s \<Rightarrow> time \<Rightarrow> string \<Rightarrow> string \<Rightarrow> verdict"
  sto_AssetOwnedBy :: "'s \<Rightarrow> string \<Rightarrow> string \<Rightarrow> bool"
  sto_RenditionStatusFor :: "'s \<Rightarrow> string \<Rightarrow> intent \<Rightarrow> rendition_status option"
  sto_GetExport :: "'s \<Rightarrow> string \<Rightarrow> string \<Rightarrow> store_error + export"
  sto_RevokeExport :: "'s \<Rightarrow> time \<Rightarrow> string \<Rightarrow> string \<Rightarrow> store_error + 's \<times> export"
  sto_CreateExport :: "'s \<Rightarrow> time \<Rightarrow> string \<Rightarrow> string \<Rightarrow> export_request \<Rightarrow> store_error + 's \<times> export"
  sto_ResolveExportForDelivery :: "'s \<Rightarrow> time \<Rightarrow> string \<Rightarrow> string \<Rightarrow> verdict"
  sto_ProvisionAccount :: "'s \<Rightarrow> time \<Rightarrow> string \<Rightarrow> store_error + 's \<times> account \<times> bool"
  sto_CreateUpload :: "'s \<Rightarrow> time \<Rightarrow> string \<Rightarrow> upload \<Rightarrow> store_error + 's \<times> unit"
  sto_GetUpload :: "'s \<Rightarrow> string \<Rightarrow> string \<Rightarrow> store_error + upload"
  sto_FinalizeUpload :: "'s \<Rightarrow> time \<Rightarrow> string \<Rightarrow> string \<Rightarrow> vault_record \<Rightarrow> store_error + 's \<times> asset"
  sto_ReclaimableUploads :: "'s \<Rightarrow> time \<Rightarrow> int \<Rightarrow> upload list"
  sto_MarkUploadSwept :: "'s \<Rightarrow> time \<Rightarrow> string \<Rightarrow> 's"
  sto_EnqueueJob :: "'s \<Rightarrow> time \<Rightarrow> string \<Rightarrow> string \<Rightarrow> string \<Rightarrow> intent \<Rightarrow> store_error + 's \<times> job"
  sto_EnqueueRemuxJob :: "'s \<Rightarrow> time \<Rightarrow> string \<Rightarrow> string \<Rightarrow> string \<Rightarrow> intent \<Rightarrow> string \<Rightarrow> store_error + 's \<times> job"
  sto_MarkNotDerived :: "'s \<Rightarrow> string \<Rightarrow> intent \<Rightarrow> store_error + 's \<times> unit"

definition Postgres :: "db store_api" where
  "Postgres = \<lparr>sto_WorkerLiveness = WorkerLiveness, sto_QueueLag = QueueLag, sto_GetAsset = GetAsset,
     sto_ListAssets = ListAssets, sto_MarkAssetDeleted = MarkAssetDeleted, sto_GetJob = GetJob,
     sto_GetGrant = GetGrant, sto_RevokeGrant = RevokeGrant, sto_CreateGrant = CreateGrant,
     sto_AssetPurged = AssetPurged, sto_ResolveGrantForDelivery = ResolveGrantForDelivery,
     sto_AssetOwnedBy = AssetOwnedBy, sto_RenditionStatusFor = RenditionStatusFor, sto_GetExport = GetExport,
     sto_RevokeExport = RevokeExport, sto_CreateExport = CreateExport,
     sto_ResolveExportForDelivery = ResolveExportForDelivery, sto_ProvisionAccount = ProvisionAccount,
     sto_CreateUpload = CreateUpload, sto_GetUpload = GetUpload, sto_FinalizeUpload = FinalizeUpload,
     sto_ReclaimableUploads = ReclaimableUploads, sto_MarkUploadSwept = MarkUploadSwept,
     sto_EnqueueJob = EnqueueJob, sto_EnqueueRemuxJob = EnqueueRemuxJob, sto_MarkNotDerived = MarkNotDerived\<rparr>"

text \<open>An id of the account: of an asset that is there, or of one that was purged.\<close>

definition known_id :: "'s store_api \<Rightarrow> 's \<Rightarrow> string \<Rightarrow> string \<Rightarrow> bool" where
  "known_id S s A i \<longleftrightarrow> is_ok (sto_GetAsset S s A i) \<or> sto_AssetPurged S s A i"

definition live_id :: "'s store_api \<Rightarrow> 's \<Rightarrow> string \<Rightarrow> string \<Rightarrow> bool" where
  "live_id S s A i \<longleftrightarrow> (case sto_GetAsset S s A i of Inl e \<Rightarrow> False | Inr a \<Rightarrow> asset_DeletedAt a = None)"

definition gone_of :: "string list option \<Rightarrow> string list" where
  "gone_of g = (case g of None \<Rightarrow> [] | Some l \<Rightarrow> l)"

section \<open>Opening and migrating\<close>

text \<open>The connection pool and goose (store/postgres.go, Open; store/migrate.go, Migrate) are parameters: whether
  a pool can be made and answers a ping, whether the handle opens, the dialect is known, and what the
  up migrations make of the schema. A pool that does not answer is closed again: the last component.\<close>

datatype open_error = PoolError | PingError | MigrateOpenError | DialectError | UpError

definition Open :: "(string \<Rightarrow> 'p option) \<Rightarrow> ('p \<Rightarrow> bool) \<Rightarrow> string \<Rightarrow> (open_error + 'p) \<times> 'p list" where
  "Open new_pool ping connString =
     (case new_pool connString of
        None \<Rightarrow> (Inl PoolError, [])
      | Some pool \<Rightarrow> if \<not> ping pool then (Inl PingError, [pool]) else (Inr pool, []))"

definition Migrate :: "(string \<Rightarrow> string \<Rightarrow> 'h option) \<Rightarrow> (string \<Rightarrow> bool) \<Rightarrow> ('h \<Rightarrow> string \<Rightarrow> 's \<Rightarrow> bool \<times> 's)
    \<Rightarrow> string \<Rightarrow> 's \<Rightarrow> open_error option \<times> 's" where
  "Migrate sql_open set_dialect up connString schema =
     (case sql_open ''pgx'' connString of
        None \<Rightarrow> (Some MigrateOpenError, schema)
      | Some h \<Rightarrow>
          if \<not> set_dialect ''postgres'' then (Some DialectError, schema)
          else (let (ok, schema') = up h ''migrations'' schema in (if ok then None else Some UpError, schema')))"

section \<open>What it promises\<close>

locale store_contract =
  fixes S :: "'s store_api" and ok :: "'s \<Rightarrow> bool"
  assumes scoped_asset: "sto_GetAsset S s A i = Inr a \<Longrightarrow> asset_Account a = A \<and> asset_Id a = i"
    and no_asset: "sto_GetAsset S s A i = Inl e \<Longrightarrow> e = ErrNotFound"
    and one_owner: "ok s \<Longrightarrow> known_id S s A i \<Longrightarrow> known_id S s B i \<Longrightarrow> A = B"
    and owned_iff: "sto_AssetOwnedBy S s A i \<longleftrightarrow> is_ok (sto_GetAsset S s A i)"
    and purged_absent: "sto_AssetPurged S s A i \<Longrightarrow> sto_GetAsset S s B i = Inl ErrNotFound"
    and listed: "ok s \<Longrightarrow> a \<in> set (page_Items (sto_ListAssets S s A cursor limit)) \<Longrightarrow> sto_GetAsset S s A (asset_Id a) = Inr a"
    and deleted: "sto_MarkAssetDeleted S s t A i = Inr (s', a) \<Longrightarrow>
      sto_GetAsset S s' A i = Inr a \<and> asset_DeletedAt a = Some t \<and> is_ok (sto_GetAsset S s A i)"
    and delete_refused: "sto_MarkAssetDeleted S s t A i = Inl e \<Longrightarrow> sto_GetAsset S s A i = Inl ErrNotFound \<and> e = ErrNotFound"
    and delete_keeps_verdicts: "sto_MarkAssetDeleted S s t A i = Inr (s', a) \<Longrightarrow>
      sto_ResolveGrantForDelivery S s' now g j = sto_ResolveGrantForDelivery S s now g j
      \<and> sto_ResolveExportForDelivery S s' now g j = sto_ResolveExportForDelivery S s now g j"
    and grant_foreign: "ok s \<Longrightarrow> \<exists>i \<in> set (grr_Assets req). \<not> known_id S s A i \<Longrightarrow> sto_CreateGrant S s t g A req = Inl ErrForeignAsset"
    and granted: "ok s \<Longrightarrow> sto_CreateGrant S s t g A req = Inr (s', gr) \<Longrightarrow>
      gr_Account gr = A \<and> gr_Assets gr = grr_Assets req
      \<and> set (gone_of (gr_GoneAssets gr)) = {i \<in> set (grr_Assets req). \<not> live_id S s A i}
      \<and> sto_ResolveGrantForDelivery S s' now g j = \<lparr>vd_Found = True, vd_Covers = (j \<in> set (grr_Assets req)),
          vd_Revoked = False, vd_Expired = (grr_Expires req \<le> now), vd_Account = A\<rparr>"
    and grant_revoked: "ok s \<Longrightarrow> sto_RevokeGrant S s t A g = Inr (s', gr) \<Longrightarrow> vd_Revoked (sto_ResolveGrantForDelivery S s' now g j)"
    and export_foreign: "ok s \<Longrightarrow> \<exists>i \<in> set (exr_Assets xreq). \<not> known_id S s A i \<Longrightarrow> sto_CreateExport S s t x A xreq = Inl ErrForeignAsset"
    and export_gone: "ok s \<Longrightarrow> \<forall>i \<in> set (exr_Assets xreq). known_id S s A i \<and> \<not> live_id S s A i \<Longrightarrow>
      sto_CreateExport S s t x A xreq = Inl ErrAssetsGone"
    and exported: "ok s \<Longrightarrow> sto_CreateExport S s t x A xreq = Inr (s', ex) \<Longrightarrow>
      set (ex_Assets ex) = {i \<in> set (exr_Assets xreq). live_id S s A i}
      \<and> Live (sto_ResolveExportForDelivery S s' now x j) = (j \<in> set (ex_Assets ex) \<and> now < exr_Expires xreq)"
    and export_revoked: "ok s \<Longrightarrow> sto_RevokeExport S s t A x = Inr (s', ex) \<Longrightarrow> vd_Revoked (sto_ResolveExportForDelivery S s' now x j)"
    and provisioned: "sto_ProvisionAccount S s t A = Inr (s', acc, new) \<Longrightarrow>
      acct_Id acc = A \<and> sto_ProvisionAccount S s' t' A = Inr (s', acc, False)"
    and uploaded: "ok s \<Longrightarrow> sto_CreateUpload S s t A u = Inr (s', ()) \<Longrightarrow>
      sto_GetUpload S s' A (u_ID u) = Inr (u\<lparr>u_Account := A, u_SweptAt := None\<rparr>)"
    and finalized: "sto_FinalizeUpload S s t A i v = Inr (s', a) \<Longrightarrow>
      is_ok (sto_GetAsset S s' A i) \<and> asset_Id a = i \<and> sto_FinalizeUpload S s' t' A i v' = Inr (s', a)"
    and swept_refused: "sto_GetUpload S s A i = Inr u \<Longrightarrow> u_SweptAt u \<noteq> None \<Longrightarrow> sto_FinalizeUpload S s t A i v = Inl ErrUploadGone"
    and swept: "sto_GetUpload S s A i = Inr u \<Longrightarrow> sto_GetUpload S (sto_MarkUploadSwept S s t i) A i = Inr (u\<lparr>u_SweptAt := Some t\<rparr>)"
    and swept_not_reclaimed: "i \<notin> u_ID ` set (sto_ReclaimableUploads S (sto_MarkUploadSwept S s t i) c b)"
    and enqueued: "sto_EnqueueJob S s t j A i n = Inr (s', job) \<Longrightarrow> ok s \<Longrightarrow>
      job_Status job \<noteq> JobFailed \<and> (\<exists>job'. sto_GetJob S s' A (job_Id job) = Inr job' \<and> job_Asset job' = i \<and> job_Intent job' = n)"
    and not_derived: "sto_MarkNotDerived S s i n = Inr (s', ()) \<Longrightarrow>
      sto_RenditionStatusFor S s' i n = Some (case sto_RenditionStatusFor S s i n of None \<Rightarrow> RS_NotDerived | Some st \<Rightarrow> st)"
    and ok_deleted: "ok s \<Longrightarrow> sto_MarkAssetDeleted S s t A i = Inr (s', a) \<Longrightarrow> ok s'"
    and ok_granted: "ok s \<Longrightarrow> sto_CreateGrant S s t g A req = Inr (s', gr) \<Longrightarrow> ok s'"
begin

text \<open>Nobody else gets anything out of an id the account owns or has owned.\<close>

lemma foreigner:
  assumes "ok s" "known_id S s A i" "B \<noteq> A"
  shows "sto_GetAsset S s B i = Inl ErrNotFound" "sto_MarkAssetDeleted S s t B i = Inl ErrNotFound" "\<not> sto_AssetOwnedBy S s B i"
    "i \<in> set (grr_Assets req) \<Longrightarrow> sto_CreateGrant S s t g B req = Inl ErrForeignAsset"
    "i \<in> set (exr_Assets req') \<Longrightarrow> sto_CreateExport S s t x B req' = Inl ErrForeignAsset"
    "i \<notin> asset_Id ` set (page_Items (sto_ListAssets S s B cursor limit))"
proof -
  have un: "\<not> known_id S s B i" using one_owner [OF assms(1,2)] assms(3) by blast
  then show none: "sto_GetAsset S s B i = Inl ErrNotFound"
    using no_asset [of s B i] by (cases "sto_GetAsset S s B i") (simp_all add: known_id_def)
  then show "\<not> sto_AssetOwnedBy S s B i" by (simp add: owned_iff)
  show "sto_MarkAssetDeleted S s t B i = Inl ErrNotFound"
    using none deleted [of s t B i] delete_refused [of s t B i] by (cases "sto_MarkAssetDeleted S s t B i") auto
  show "i \<in> set (grr_Assets req) \<Longrightarrow> sto_CreateGrant S s t g B req = Inl ErrForeignAsset" using grant_foreign [OF assms(1)] un by blast
  show "i \<in> set (exr_Assets req') \<Longrightarrow> sto_CreateExport S s t x B req' = Inl ErrForeignAsset" using export_foreign [OF assms(1)] un by blast
  show "i \<notin> asset_Id ` set (page_Items (sto_ListAssets S s B cursor limit))" using listed [OF assms(1)] none by fastforce
qed

text \<open>Deleting an asset leaves the capabilities over it alone; new ones say that it is gone.\<close>

lemma deleted_is_gone: "sto_MarkAssetDeleted S s t A i = Inr (s', a) \<Longrightarrow> known_id S s' A i \<and> \<not> live_id S s' A i"
  using deleted by (fastforce simp: known_id_def live_id_def)

lemma deletion_and_capabilities:
  assumes "ok s" "sto_CreateGrant S s t g A req = Inr (s1, gr)" "i \<in> set (grr_Assets req)" "sto_MarkAssetDeleted S s1 t' A i = Inr (s2, a)"
  shows "Live (sto_ResolveGrantForDelivery S s2 now g i) \<longleftrightarrow> now < grr_Expires req"
    "sto_CreateGrant S s2 t2 g2 A req2 = Inr (s3, gr2) \<Longrightarrow> i \<in> set (grr_Assets req2) \<Longrightarrow> i \<in> set (gone_of (gr_GoneAssets gr2))"
    "sto_CreateExport S s2 t2 x A req' = Inr (s4, ex) \<Longrightarrow> \<not> Live (sto_ResolveExportForDelivery S s4 now x i)"
    "sto_RevokeGrant S s2 t2 A g = Inr (s5, gr5) \<Longrightarrow> \<not> Live (sto_ResolveGrantForDelivery S s5 now g i)"
proof -
  have ok: "ok s1" "ok s2" using ok_granted [OF assms(1,2)] ok_deleted assms(4) by blast+
  have gone: "\<not> live_id S s2 A i" using deleted_is_gone [OF assms(4)] by blast
  show "Live (sto_ResolveGrantForDelivery S s2 now g i) \<longleftrightarrow> now < grr_Expires req"
    using granted [OF assms(1,2)] delete_keeps_verdicts [OF assms(4)] assms(3) by (auto simp: Live_def)
  show "sto_CreateGrant S s2 t2 g2 A req2 = Inr (s3, gr2) \<Longrightarrow> i \<in> set (grr_Assets req2) \<Longrightarrow> i \<in> set (gone_of (gr_GoneAssets gr2))"
    using granted [OF ok(2)] gone by blast
  show "sto_CreateExport S s2 t2 x A req' = Inr (s4, ex) \<Longrightarrow> \<not> Live (sto_ResolveExportForDelivery S s4 now x i)"
    using exported [OF ok(2)] gone by blast
  show "sto_RevokeGrant S s2 t2 A g = Inr (s5, gr5) \<Longrightarrow> \<not> Live (sto_ResolveGrantForDelivery S s5 now g i)"
    using grant_revoked [OF ok(2)] by (simp add: Live_def)
qed

text \<open>A swept upload is gone for good: it is not reclaimed again and no finalize brings it back.\<close>

lemma swept_for_good:
  assumes "sto_GetUpload S s A i = Inr u"
  shows "sto_FinalizeUpload S (sto_MarkUploadSwept S s t i) t' A i v = Inl ErrUploadGone"
    "i \<notin> u_ID ` set (sto_ReclaimableUploads S (sto_MarkUploadSwept S s t i) c b)"
  using swept_refused [OF swept [OF assms]] swept_not_reclaimed by simp_all

end

section \<open>Postgres keeps the promises\<close>

lemma postgres_methods:
  "sto_GetAsset Postgres = GetAsset" "sto_ListAssets Postgres = ListAssets" "sto_MarkAssetDeleted Postgres = MarkAssetDeleted"
  "sto_GetJob Postgres = GetJob" "sto_RevokeGrant Postgres = RevokeGrant" "sto_CreateGrant Postgres = CreateGrant"
  "sto_AssetPurged Postgres = AssetPurged" "sto_ResolveGrantForDelivery Postgres = ResolveGrantForDelivery"
  "sto_AssetOwnedBy Postgres = AssetOwnedBy" "sto_RenditionStatusFor Postgres = RenditionStatusFor"
  "sto_RevokeExport Postgres = RevokeExport" "sto_CreateExport Postgres = CreateExport"
  "sto_ResolveExportForDelivery Postgres = ResolveExportForDelivery" "sto_ProvisionAccount Postgres = ProvisionAccount"
  "sto_CreateUpload Postgres = CreateUpload" "sto_GetUpload Postgres = GetUpload" "sto_FinalizeUpload Postgres = FinalizeUpload"
  "sto_ReclaimableUploads Postgres = ReclaimableUploads" "sto_MarkUploadSwept Postgres = MarkUploadSwept"
  "sto_EnqueueJob Postgres = EnqueueJob" "sto_MarkNotDerived Postgres = MarkNotDerived"
  by (simp_all add: Postgres_def)

lemma pg_scoped: "GetAsset d A i = Inr a \<Longrightarrow> asset_Account a = A \<and> asset_Id a = i"
  by (auto simp: GetAsset_def scanAsset_def scanAssetRow_def asset_is_def Let_def split: option.splits dest!: get_row_Some_iff)

lemma pg_no_asset: "GetAsset d A i = Inl e \<Longrightarrow> e = ErrNotFound"
  by (auto simp: GetAsset_def scanAsset_def Let_def split: option.splits)

lemma pg_has_asset: "is_ok (GetAsset d A i) \<longleftrightarrow> AssetOwnedBy d A i"
  by (auto simp: GetAsset_def scanAsset_def owned_row Let_def is_ok_iff split: option.splits)

lemma pg_known: "reachable d \<Longrightarrow> known_id Postgres d A i \<longleftrightarrow> ever_owned d A i"
  using owned_ever_owned ever_owned_cases
  by (auto simp: known_id_def postgres_methods pg_has_asset purged_ever_owned)

lemma pg_live: "reachable d \<Longrightarrow> live_id Postgres d A i \<longleftrightarrow> classify d A i = ClassLive"
proof -
  assume d: "reachable d"
  have row: "get_row (asset_is A i) (db_assets d) = Some a" if "a \<in> set (db_assets d)" "asset_is A i a" for a
    using get_asset_row [OF reachable_keys [OF d] that(1)] that(2) by (simp add: asset_is_def)
  have "live_id Postgres d A i \<longleftrightarrow> (\<exists>a. get_row (asset_is A i) (db_assets d) = Some a \<and> ar_deleted a = None)"
    by (auto simp: live_id_def postgres_methods GetAsset_def scanAsset_def scanAssetRow_def Let_def split: option.splits)
  then show ?thesis using classify_live_iff [OF d] row by (auto dest: get_row_Some_iff)
qed

lemma pg_one_owner: "reachable d \<Longrightarrow> ever_owned d A i \<Longrightarrow> ever_owned d B i \<Longrightarrow> A = B"
  using reachable_keys distinct_key_eq [of uw_id "db_uploads d"] by (fastforce simp: ever_owned_def own_upload_def keys_ok_def)

lemma pg_purged: "AssetPurged d A i \<Longrightarrow> GetAsset d B i = Inl ErrNotFound"
  by (auto simp: AssetPurged_def has_asset_id_def has_row_iff GetAsset_def scanAsset_def asset_is_def split: option.splits dest!: get_row_Some_iff)

lemma pg_listed:
  assumes "reachable d" "a \<in> set (page_Items (ListAssets d A c l))"
  shows "GetAsset d A (asset_Id a) = Inr a"
proof -
  obtain r where r: "r \<in> set (db_assets d)" "ar_account r = A" "a = (scanAssetRow d r)\<lparr>asset_Renditions := renditionsFor d (asset_Id (scanAssetRow d r))\<rparr>"
    using assms(2) by (auto simp: ListAssets_def Let_def split: if_splits dest!: in_set_takeD)
  then show ?thesis using get_asset_row [OF reachable_keys [OF assms(1)] r(1)]
    by (simp add: GetAsset_def scanAsset_def Let_def scanAssetRow_def)
qed

lemma pg_deleted:
  assumes "MarkAssetDeleted d t A i = Inr (d', a)"
  shows "GetAsset d' A i = Inr a \<and> asset_DeletedAt a = Some t \<and> is_ok (GetAsset d A i)"
    "db_grants d' = db_grants d \<and> db_exports d' = db_exports d"
proof -
  have d': "d' = d\<lparr>db_assets := update_where (asset_is A i) (set_deleted t) (db_assets d)\<rparr>" and a: "GetAsset d' A i = Inr a"
    using assms by (auto simp: MarkAssetDeleted_def GetAsset_def Let_def split: sum.splits)
  then show "db_grants d' = db_grants d \<and> db_exports d' = db_exports d" by simp
  have "get_row (asset_is A i) (db_assets d') = map_option (set_deleted t) (get_row (asset_is A i) (db_assets d))"
    by (simp add: d' get_row_update_where set_deleted_def asset_is_def)
  then obtain r where "get_row (asset_is A i) (db_assets d) = Some r" "get_row (asset_is A i) (db_assets d') = Some (set_deleted t r)"
    using a by (cases "get_row (asset_is A i) (db_assets d)") (simp_all add: GetAsset_def scanAsset_def)
  then show "GetAsset d' A i = Inr a \<and> asset_DeletedAt a = Some t \<and> is_ok (GetAsset d A i)"
    using a by (auto simp: GetAsset_def scanAsset_def scanAssetRow_def set_deleted_def Let_def is_ok_iff)
qed

lemma pg_delete_refused: "MarkAssetDeleted d t A i = Inl e \<Longrightarrow> GetAsset d A i = Inl ErrNotFound \<and> e = ErrNotFound"
  by (auto simp: MarkAssetDeleted_def Let_def GetAsset_def scanAsset_def get_row_update_where set_deleted_def asset_is_def
      split: sum.splits option.splits)

lemma pg_verdicts:
  "db_grants d' = db_grants d \<Longrightarrow> ResolveGrantForDelivery d' = ResolveGrantForDelivery d"
  "db_exports d' = db_exports d \<Longrightarrow> ResolveExportForDelivery d' = ResolveExportForDelivery d"
  by (simp_all add: fun_eq_iff ResolveGrantForDelivery_def ResolveExportForDelivery_def)

lemma pg_grant_foreign: "reachable d \<Longrightarrow> \<exists>i \<in> set (grr_Assets req). \<not> ever_owned d A i \<Longrightarrow> CreateGrant d t g A req = Inl ErrForeignAsset"
  using classify_refused_iff by (simp add: CreateGrant_def grant_gone_eval classes_refused_iff)

lemma pg_granted:
  assumes "reachable d" "CreateGrant d t g A req = Inr (d', gr)"
  shows "gr_Account gr = A \<and> gr_Assets gr = grr_Assets req
    \<and> set (gone_of (gr_GoneAssets gr)) = {i \<in> set (grr_Assets req). classify d A i \<noteq> ClassLive}
    \<and> ResolveGrantForDelivery d' now g j = \<lparr>vd_Found = True, vd_Covers = (j \<in> set (grr_Assets req)),
        vd_Revoked = False, vd_Expired = (grr_Expires req \<le> now), vd_Account = A\<rparr>"
proof -
  have known: "\<not> (\<exists>i \<in> set (grr_Assets req). classify d A i = ClassRefused)"
    using pg_grant_foreign [OF assms(1)] assms(2) classify_refused_iff [OF assms(1)] by (metis Inl_Inr_False)
  let ?gone = "filter (\<lambda>i. classify d A i = ClassGone) (distinct_sorted (grr_Assets req))"
  have "grant_gone (classifyAssetSet d A (grr_Assets req)) [] = Inr ?gone"
    using known by (simp add: grant_gone_eval classes_refused_iff classes_gone)
  then obtain row where fresh: "\<not> has_row (\<lambda>r. gw_id r = g) (db_grants d)" and d': "d' = d\<lparr>db_grants := insert_row row (db_grants d)\<rparr>"
    and row: "gw_id row = g" "gw_assets row = grr_Assets req" "gw_revoked row = None" "gw_expires row = grr_Expires req" "gw_account row = A"
    and g: "gr_Assets gr = grr_Assets req" "gr_Account gr = A" "gr_GoneAssets gr = (if ?gone = [] then None else Some ?gone)"
    using assms(2) by (auto simp: CreateGrant_def scanGrantRow_def Let_def split: if_splits)
  have "gone_of (gr_GoneAssets gr) = ?gone" by (simp add: g(3) gone_of_def)
  moreover have "set ?gone = {i \<in> set (grr_Assets req). classify d A i \<noteq> ClassLive}"
    using known asset_class.exhaust by auto
  ultimately show ?thesis using g(1,2) fresh_grant_resolves [OF fresh row(1), of now j] row d' by simp
qed

lemma pg_export_foreign: "reachable d \<Longrightarrow> \<exists>i \<in> set (exr_Assets req). \<not> ever_owned d A i \<Longrightarrow> CreateExport d t x A req = Inl ErrForeignAsset"
  using classify_refused_iff classes_refused_iff [of d A "exr_Assets req"] by (simp add: CreateExport_def list_ex_iff)

lemma pg_live_ids:
  "set (filter (\<lambda>i. map_of (classifyAssetSet d A ids) i = Some ClassLive) (dedup_seen [] ids)) = {i \<in> set ids. classify d A i = ClassLive}"
  by (auto simp: set_dedup_seen classes_map_of)

lemma pg_export_gone:
  assumes "reachable d" "\<forall>i \<in> set (exr_Assets req). ever_owned d A i \<and> classify d A i \<noteq> ClassLive"
  shows "CreateExport d t x A req = Inl ErrAssetsGone"
proof -
  have "filter (\<lambda>i. map_of (classifyAssetSet d A (exr_Assets req)) i = Some ClassLive) (dedup_seen [] (exr_Assets req)) = []"
    using pg_live_ids [of d A "exr_Assets req"] assms(2) by (simp add: set_empty [symmetric] del: set_empty)
  moreover have "\<not> list_ex (\<lambda>(i, c). c = ClassRefused) (classifyAssetSet d A (exr_Assets req))"
    using classes_refused_iff [of d A "exr_Assets req"] classify_refused_iff [OF assms(1)] assms(2) by (simp add: list_ex_iff)
  ultimately show ?thesis by (simp add: CreateExport_def Let_def)
qed

lemma pg_exported:
  assumes "CreateExport d t x A req = Inr (d', ex)"
  shows "set (ex_Assets ex) = {i \<in> set (exr_Assets req). classify d A i = ClassLive}
    \<and> Live (ResolveExportForDelivery d' now x j) = (j \<in> set (ex_Assets ex) \<and> now < exr_Expires req)"
proof -
  let ?live = "filter (\<lambda>i. map_of (classifyAssetSet d A (exr_Assets req)) i = Some ClassLive) (dedup_seen [] (exr_Assets req))"
  obtain row where fresh: "\<not> has_row (\<lambda>r. xw_id r = x) (db_exports d)" and d': "d' = d\<lparr>db_exports := insert_row row (db_exports d)\<rparr>"
    and row: "xw_id row = x" "xw_assets row = ?live" "xw_revoked row = None" "xw_expires row = exr_Expires req" and ex: "ex_Assets ex = ?live"
    using assms by (auto simp: CreateExport_def scanExportRow_def Let_def split: if_splits)
  show ?thesis unfolding ex d' fresh_export_resolves [OF fresh row(1)] row(2-4) using pg_live_ids by (auto simp: Live_def)
qed

lemma pg_provisioned:
  assumes "ProvisionAccount d t A = Inr (d', a, new)"
  shows "acct_Id a = A \<and> ProvisionAccount d' t' A = Inr (d', a, False)"
proof (cases "has_account d A")
  case True
  then show ?thesis using assms
    by (auto simp: ProvisionAccount_def Let_def has_account_def insert_if_absent_def split: option.splits if_splits dest!: get_row_Some_iff)
next
  case False
  then have "get_row (\<lambda>r. cw_id r = A) (db_accounts d) = None" by (auto simp: has_account_def has_row_iff get_row_None_iff)
  then show ?thesis using assms False
    by (auto simp: ProvisionAccount_def Let_def has_account_def insert_if_absent_def get_row_insert_row)
qed

lemma pg_uploaded:
  assumes "reachable d" "CreateUpload d t A u = Inr (d', ())"
  shows "GetUpload d' A (u_ID u) = Inr (u\<lparr>u_Account := A, u_SweptAt := None\<rparr>)"
proof -
  have s: "str_of (nullStr x) = x" for x by (simp add: str_of_def nullStr_def)
  have "get_row (\<lambda>r. uw_account r = A \<and> uw_id r = u_ID u) (db_uploads d) = None"
    using assms(2) by (auto simp: CreateUpload_def get_row_None_iff has_row_iff split: if_splits)
  then show ?thesis using assms(2)
    by (auto simp: CreateUpload_def GetUpload_def get_row_insert_row upload_of_row_def s split: if_splits)
qed

lemma pg_finalized:
  assumes "FinalizeUpload d t A i v = Inr (d', a)"
  shows "is_ok (GetAsset d' A i) \<and> asset_Id a = i \<and> FinalizeUpload d' t' A i v' = Inr (d', a)"
proof -
  let ?p = "\<lambda>r. uw_account r = A \<and> uw_id r = i"
  obtain u where u: "get_row ?p (db_uploads d') = Some u" "uw_swept u = None" "uw_finalized u \<noteq> None" and tx: "getAssetTx d' A i = Inr a"
    using assms by (auto simp: FinalizeUpload_def Let_def get_row_update_where finalize_row_def split: option.splits if_splits sum.splits)
  have "is_ok (GetAsset d' A i) \<and> asset_Id a = i" using tx
    by (auto simp: getAssetTx_def GetAsset_def scanAsset_def scanAssetRow_def asset_is_def Let_def is_ok_iff split: option.splits dest!: get_row_Some_iff)
  then show ?thesis using u tx by (simp add: FinalizeUpload_def Let_def)
qed

lemma pg_swept_refused: "GetUpload d A i = Inr u \<Longrightarrow> u_SweptAt u \<noteq> None \<Longrightarrow> FinalizeUpload d t A i v = Inl ErrUploadGone"
  by (auto simp: GetUpload_def FinalizeUpload_def upload_of_row_def Let_def split: option.splits)

lemma pg_swept:
  assumes "GetUpload d A i = Inr u"
  shows "GetUpload (MarkUploadSwept d t i) A i = Inr (u\<lparr>u_SweptAt := Some t\<rparr>)"
proof -
  let ?p = "\<lambda>r. uw_account r = A \<and> uw_id r = i"
  have f: "get_row ?p (update_where (\<lambda>r. uw_id r = i) (\<lambda>r. r\<lparr>uw_swept := Some t\<rparr>) us) = map_option (\<lambda>r. r\<lparr>uw_swept := Some t\<rparr>) (get_row ?p us)"
    for us :: "upload_row list" by (induction us) (simp_all add: table_defs)
  obtain r where "get_row ?p (db_uploads d) = Some r" "u = upload_of_row r" using assms by (auto simp: GetUpload_def split: option.splits)
  then show ?thesis using f [of "db_uploads d"] by (simp add: GetUpload_def MarkUploadSwept_def upload_of_row_def)
qed

lemma reclaimed_row: "u \<in> set (ReclaimableUploads d c b) \<Longrightarrow> \<exists>r \<in> set (db_uploads d). uw_swept r = None \<and> uw_id r = u_ID u"
  by (fastforce simp: ReclaimableUploads_def Let_def dest!: in_set_takeD)

lemma pg_not_reclaimed: "i \<notin> u_ID ` set (ReclaimableUploads (MarkUploadSwept d t i) c b)"
proof
  assume "i \<in> u_ID ` set (ReclaimableUploads (MarkUploadSwept d t i) c b)"
  then obtain u where "u \<in> set (ReclaimableUploads (MarkUploadSwept d t i) c b)" "u_ID u = i" by blast
  then obtain r where r: "r \<in> set (db_uploads (MarkUploadSwept d t i))" "uw_swept r = None" "uw_id r = i" using reclaimed_row by blast
  then have "r \<in> (\<lambda>x. if uw_id x = i then x\<lparr>uw_swept := Some t\<rparr> else x) ` set (db_uploads d)"
    by (simp only: MarkUploadSwept_def update_where_def list.set_map) simp
  then obtain x where x: "r = (if uw_id x = i then x\<lparr>uw_swept := Some t\<rparr> else x)" by blast
  show False by (cases "uw_id x = i") (use r(2,3) in \<open>simp_all add: x\<close>)
qed

lemma pg_enqueued:
  assumes "EnqueueJob d t j A i n = Inr (d', job)" "reachable d"
  shows "job_Status job \<noteq> JobFailed \<and> (\<exists>job'. GetJob d' A (job_Id job) = Inr job' \<and> job_Asset job' = i \<and> job_Intent job' = n)"
proof -
  have fresh: ?thesis if ins: "insert_job d (queued_row t j A i n Derive None) = Inr (d', job)"
  proof -
    have "get_row (\<lambda>r. jr_account r = A \<and> jr_id r = j) (db_jobs d) = None"
      using ins by (auto simp: insert_job_def get_row_None_iff has_row_iff queued_row_def split: if_splits)
    then show ?thesis using ins
      by (auto simp: insert_job_def GetJob_def get_row_insert_row scanJobBasic_def job_of_row_def queued_row_def split: if_splits)
  qed
  show ?thesis
  proof (cases "latest_job d A i n")
    case None then show ?thesis using assms(1) fresh by (simp add: EnqueueJob_def)
  next
    case (Some r)
    show ?thesis
    proof (cases "jr_status r = JobFailed")
      case True then show ?thesis using assms(1) Some fresh by (simp add: EnqueueJob_def)
    next
      case False
      have r: "r \<in> set (db_jobs d)" "jr_account r = A" "jr_asset r = i" "jr_intent r = n" using latest_job_Some [OF Some] by auto
      have "get_row (\<lambda>x. jr_account x = A \<and> jr_id x = jr_id r) (db_jobs d) = Some r"
        by (rule get_row_by_key [of jr_id]) (use r reachable_keys [OF assms(2)] in \<open>simp_all add: keys_ok_def\<close>)
      then show ?thesis using assms(1) Some False r by (auto simp: EnqueueJob_def GetJob_def reused_job_def job_of_row_def)
    qed
  qed
qed

lemma pg_not_derived:
  assumes "MarkNotDerived d i n = Inr (d', ())"
  shows "RenditionStatusFor d' i n = Some (case RenditionStatusFor d i n of None \<Rightarrow> RS_NotDerived | Some st \<Rightarrow> st)"
proof -
  let ?p = "\<lambda>r. rr_asset r = i \<and> rr_intent r = n"
  have d': "d' = d\<lparr>db_renditions := insert_if_absent ?p (bare_rendition i n RS_NotDerived None) (db_renditions d)\<rparr>"
    using assms by (simp add: MarkNotDerived_def rend_is_def [abs_def] split: if_splits)
  show ?thesis
  proof (cases "get_row ?p (db_renditions d)")
    case None
    then have "\<not> has_row ?p (db_renditions d)" by (auto simp: has_row_iff get_row_None_iff)
    then show ?thesis using None by (simp add: d' RenditionStatusFor_def insert_if_absent_def get_row_insert_row bare_rendition_def)
  next
    case (Some r)
    then have "has_row ?p (db_renditions d)" using get_row_Some_iff [OF Some] by (auto simp: has_row_iff)
    then show ?thesis using Some by (simp add: d' RenditionStatusFor_def insert_if_absent_def)
  qed
qed

lemma pg_reachable:
  "reachable d \<Longrightarrow> MarkAssetDeleted d t A i = Inr (d', a) \<Longrightarrow> reachable d'"
  "reachable d \<Longrightarrow> CreateGrant d t g A req = Inr (d', gr) \<Longrightarrow> reachable d'"
  using reachable.step [of d, OF _ store_step.request [of d A "R_MarkAssetDeleted i" t]]
    reachable.step [of d, OF _ store_step.request [of d A "R_CreateGrant g req" t]] by simp_all

text \<open>The same facts, in the words of the interface.\<close>

lemma pg_ids:
  "reachable d \<Longrightarrow> known_id Postgres d A i \<Longrightarrow> known_id Postgres d B i \<Longrightarrow> A = B"
  "AssetOwnedBy d A i \<longleftrightarrow> is_ok (GetAsset d A i)"
  using pg_one_owner by (simp_all add: pg_known pg_has_asset)

lemma pg_delete_keeps:
  "MarkAssetDeleted d t A i = Inr (d', a) \<Longrightarrow> ResolveGrantForDelivery d' now g j = ResolveGrantForDelivery d now g j
    \<and> ResolveExportForDelivery d' now g j = ResolveExportForDelivery d now g j"
  using pg_deleted(2) pg_verdicts by metis

lemma pg_grants:
  "reachable d \<Longrightarrow> \<exists>i \<in> set (grr_Assets req). \<not> known_id Postgres d A i \<Longrightarrow> CreateGrant d t g A req = Inl ErrForeignAsset"
  "reachable d \<Longrightarrow> CreateGrant d t g A req = Inr (d', gr) \<Longrightarrow> gr_Account gr = A \<and> gr_Assets gr = grr_Assets req
    \<and> set (gone_of (gr_GoneAssets gr)) = {i \<in> set (grr_Assets req). \<not> live_id Postgres d A i}
    \<and> ResolveGrantForDelivery d' now g j = \<lparr>vd_Found = True, vd_Covers = (j \<in> set (grr_Assets req)),
        vd_Revoked = False, vd_Expired = (grr_Expires req \<le> now), vd_Account = A\<rparr>"
  "reachable d \<Longrightarrow> RevokeGrant d t A g = Inr (d', gr) \<Longrightarrow> vd_Revoked (ResolveGrantForDelivery d' now g j)"
  using pg_grant_foreign pg_granted grants.revoke_sets [OF reachable_keys] by (simp_all add: pg_known pg_live)

lemma pg_exports:
  "reachable d \<Longrightarrow> \<exists>i \<in> set (exr_Assets req). \<not> known_id Postgres d A i \<Longrightarrow> CreateExport d t x A req = Inl ErrForeignAsset"
  "reachable d \<Longrightarrow> \<forall>i \<in> set (exr_Assets req). known_id Postgres d A i \<and> \<not> live_id Postgres d A i \<Longrightarrow>
    CreateExport d t x A req = Inl ErrAssetsGone"
  "reachable d \<Longrightarrow> CreateExport d t x A req = Inr (d', ex) \<Longrightarrow>
    set (ex_Assets ex) = {i \<in> set (exr_Assets req). live_id Postgres d A i}
    \<and> Live (ResolveExportForDelivery d' now x j) = (j \<in> set (ex_Assets ex) \<and> now < exr_Expires req)"
  "reachable d \<Longrightarrow> RevokeExport d t A x = Inr (d', ex) \<Longrightarrow> vd_Revoked (ResolveExportForDelivery d' now x j)"
  using pg_export_foreign pg_export_gone pg_exported exports.revoke_sets [OF reachable_keys] by (simp_all add: pg_known pg_live)

lemmas postgres_laws = pg_scoped pg_no_asset pg_ids pg_purged pg_listed pg_deleted(1) pg_delete_refused pg_delete_keeps pg_grants
  pg_exports pg_provisioned pg_uploaded pg_finalized pg_swept_refused pg_swept pg_not_reclaimed pg_enqueued pg_not_derived pg_reachable

interpretation postgres: store_contract Postgres reachable
  by unfold_locales (unfold postgres_methods, (fact postgres_laws)+)

end
