(* ===== verification/Wire.thy ===== *)
theory Wire
  imports Service_Run
begin

text \<open>
  Request bodies: how the handlers read JSON into the request types of the contract
  (plate/plate.gen.go, through \<open>json.NewDecoder(r.Body).Decode(&req)\<close> in service/handlers.go, upload.go
  and exports.go). A body is the JSON value its text denotes, or nothing when it is not JSON;
  decoding follows encoding/json: the tags of the struct name its members, a member matches its
  name exactly or up to the case of letters, others are skipped, a later member overwrites an
  earlier one, null leaves a value alone and clears a pointer or a slice, and any mismatch of types
  fails the whole. Two letters outside ASCII that Go folds onto k and s are left out.
\<close>

section \<open>Instants\<close>

text \<open>\<open>time.Time\<close> reads RFC 3339: \<open>parseStrictRFC3339\<close> of Go's time package. An instant is in nanoseconds since 1970.\<close>

definition leap_year :: "int \<Rightarrow> bool" where
  "leap_year y = (4 dvd y \<and> (\<not> 100 dvd y \<or> 400 dvd y))"

definition days_in :: "int \<Rightarrow> int \<Rightarrow> int" where
  "days_in mon y = (if mon = 2 then (if leap_year y then 29 else 28) else if mon \<in> {4, 6, 9, 11} then 30 else 31)"

definition days_before_year :: "int \<Rightarrow> int" where
  "days_before_year y = (let p = y - 1 in 365 * p + p div 4 - p div 100 + p div 400)"

fun days_before_month :: "nat \<Rightarrow> int \<Rightarrow> int" where
  "days_before_month 0 y = 0"
| "days_before_month (Suc k) y = days_before_month k y + days_in (int k + 1) y"

text \<open>Days since 1970; \<open>k\<close> is the month less one.\<close>

definition day_number :: "int \<Rightarrow> nat \<Rightarrow> int \<Rightarrow> int" where
  "day_number y k d = days_before_year y + days_before_month k y + d - 1 - 719162"

definition uint_in :: "string \<Rightarrow> int \<Rightarrow> int \<Rightarrow> int option" where
  "uint_in s lo hi = (case parse_uint s of None \<Rightarrow> None | Some n \<Rightarrow> if lo \<le> int n \<and> int n \<le> hi then Some (int n) else None)"

definition slice :: "string \<Rightarrow> nat \<Rightarrow> nat \<Rightarrow> string" where
  "slice s i j = take (j - i) (drop i s)"

text \<open>The fraction, to nine digits, and what follows it.\<close>

definition parse_fraction :: "string \<Rightarrow> int \<times> string" where
  "parse_fraction s =
     (if length s \<ge> 2 \<and> s ! 0 = CHR ''.'' \<and> is_digit (s ! 1)
      then let ds = takeWhile is_digit (tl s); nine = take 9 (ds @ replicate 9 (CHR ''0'')) in
        (case parse_uint nine of None \<Rightarrow> 0 | Some n \<Rightarrow> int n, drop (length ds) (tl s))
      else (0, s))"

text \<open>Seconds east of UTC.\<close>

definition parse_zone :: "string \<Rightarrow> int option" where
  "parse_zone z =
     (if z = ''Z'' then Some 0
      else if length z \<noteq> 6 \<or> z ! 0 \<notin> {CHR ''+'', CHR ''-''} \<or> z ! 3 \<noteq> CHR '':'' then None
      else case (uint_in (slice z 1 3) 0 23, uint_in (slice z 4 6) 0 59) of
        (Some h, Some m) \<Rightarrow> Some ((if z ! 0 = CHR ''-'' then - 1 else 1) * (h * 60 + m) * 60)
      | _ \<Rightarrow> None)"

definition parse_rfc3339 :: "string \<Rightarrow> time option" where
  "parse_rfc3339 s =
     (if length s < 19 \<or> s ! 4 \<noteq> CHR ''-'' \<or> s ! 7 \<noteq> CHR ''-'' \<or> s ! 10 \<noteq> CHR ''T'' \<or> s ! 13 \<noteq> CHR '':'' \<or> s ! 16 \<noteq> CHR '':'' then None
      else case (uint_in (slice s 0 4) 0 9999, uint_in (slice s 5 7) 1 12) of
        (Some y, Some mon) \<Rightarrow>
          (case (uint_in (slice s 8 10) 1 (days_in mon y), uint_in (slice s 11 13) 0 23, uint_in (slice s 14 16) 0 59, uint_in (slice s 17 19) 0 59) of
             (Some d, Some h, Some mi, Some sec) \<Rightarrow>
               (let (ns, z) = parse_fraction (drop 19 s) in
                case parse_zone z of None \<Rightarrow> None
                | Some off \<Rightarrow> Some ((day_number y (nat mon - 1) d * 86400 + h * 3600 + mi * 60 + sec - off) * second + ns))
           | _ \<Rightarrow> None)
      | _ \<Rightarrow> None)"

text \<open>The zero \<open>time.Time\<close>: the first instant of the year 1.\<close>

definition zero_time :: time where
  "zero_time = - 62135596800 * second"

section \<open>Decoding\<close>

text \<open>A number is kept as its literal.\<close>

datatype json =
  J_Null | J_Bool bool | J_Num string | J_Str string | J_Arr "json list" | J_Obj "(string \<times> json) list"

type_synonym 'r fields = "(string \<times> ('r \<Rightarrow> json \<Rightarrow> 'r option)) list"

definition field_for :: "'r fields \<Rightarrow> string \<Rightarrow> ('r \<Rightarrow> json \<Rightarrow> 'r option) option" where
  "field_for fs name =
     (case map_of fs name of Some f \<Rightarrow> Some f
      | None \<Rightarrow> map_option snd (find (\<lambda>(n, f). to_lower n = to_lower name) fs))"

fun decode_members :: "'r fields \<Rightarrow> (string \<times> json) list \<Rightarrow> 'r \<Rightarrow> 'r option" where
  "decode_members fs [] r = Some r"
| "decode_members fs ((name, v) # ms) r =
     (case field_for fs name of
        None \<Rightarrow> decode_members fs ms r
      | Some f \<Rightarrow> (case f r v of None \<Rightarrow> None | Some r' \<Rightarrow> decode_members fs ms r'))"

definition decode_struct :: "'r fields \<Rightarrow> 'r \<Rightarrow> json \<Rightarrow> 'r option" where
  "decode_struct fs r v = (case v of J_Null \<Rightarrow> Some r | J_Obj ms \<Rightarrow> decode_members fs ms r | _ \<Rightarrow> None)"

definition dec_string :: "string \<Rightarrow> json \<Rightarrow> string option" where
  "dec_string old v = (case v of J_Null \<Rightarrow> Some old | J_Str s \<Rightarrow> Some s | _ \<Rightarrow> None)"

definition dec_int64 :: "int \<Rightarrow> json \<Rightarrow> int option" where
  "dec_int64 old v = (case v of J_Null \<Rightarrow> Some old | J_Num lit \<Rightarrow> parse_int lit | _ \<Rightarrow> None)"

definition dec_bool :: "bool \<Rightarrow> json \<Rightarrow> bool option" where
  "dec_bool old v = (case v of J_Null \<Rightarrow> Some old | J_Bool b \<Rightarrow> Some b | _ \<Rightarrow> None)"

definition dec_time :: "time \<Rightarrow> json \<Rightarrow> time option" where
  "dec_time old v = (case v of J_Null \<Rightarrow> Some old | J_Str s \<Rightarrow> parse_rfc3339 s | _ \<Rightarrow> None)"

definition dec_pointer :: "('a \<Rightarrow> json \<Rightarrow> 'a option) \<Rightarrow> 'a \<Rightarrow> 'a option \<Rightarrow> json \<Rightarrow> 'a option option" where
  "dec_pointer f zero old v =
     (if v = J_Null then Some None else map_option Some (f (case old of None \<Rightarrow> zero | Some x \<Rightarrow> x) v))"

text \<open>A slice: a null element leaves what an earlier member of the same name put there.\<close>

fun dec_elements :: "string list \<Rightarrow> json list \<Rightarrow> string list option" where
  "dec_elements old [] = Some []"
| "dec_elements old (v # vs) =
     (case (dec_string (case old of [] \<Rightarrow> [] | o1 # _ \<Rightarrow> o1) v, dec_elements (tl old) vs) of
        (Some s, Some ss) \<Rightarrow> Some (s # ss) | _ \<Rightarrow> None)"

definition dec_strings :: "string list \<Rightarrow> json \<Rightarrow> string list option" where
  "dec_strings old v = (case v of J_Null \<Rightarrow> Some [] | J_Arr vs \<Rightarrow> dec_elements old vs | _ \<Rightarrow> None)"

section \<open>The request types\<close>

definition grant_fields :: "grant_request fields" where
  "grant_fields = [
     (''assets'', \<lambda>r v. map_option (\<lambda>x. r\<lparr>grr_Assets := x\<rparr>) (dec_strings (grr_Assets r) v)),
     (''expires'', \<lambda>r v. map_option (\<lambda>x. r\<lparr>grr_Expires := x\<rparr>) (dec_time (grr_Expires r) v)),
     (''recipient'', \<lambda>r v. map_option (\<lambda>x. r\<lparr>grr_Recipient := x\<rparr>) (dec_pointer dec_string [] (grr_Recipient r) v))]"

definition GrantRequest :: "json \<Rightarrow> grant_request option" where
  "GrantRequest = decode_struct grant_fields \<lparr>grr_Assets = [], grr_Expires = zero_time, grr_Recipient = None\<rparr>"

definition export_fields :: "export_request fields" where
  "export_fields = [
     (''assets'', \<lambda>r v. map_option (\<lambda>x. r\<lparr>exr_Assets := x\<rparr>) (dec_strings (exr_Assets r) v)),
     (''expires'', \<lambda>r v. map_option (\<lambda>x. r\<lparr>exr_Expires := x\<rparr>) (dec_time (exr_Expires r) v)),
     (''note'', \<lambda>r v. map_option (\<lambda>x. r\<lparr>exr_Note := x\<rparr>) (dec_pointer dec_string [] (exr_Note r) v))]"

definition ExportRequest :: "json \<Rightarrow> export_request option" where
  "ExportRequest = decode_struct export_fields \<lparr>exr_Assets = [], exr_Expires = zero_time, exr_Note = None\<rparr>"

definition binding_fields :: "authored_rendition_binding fields" where
  "binding_fields = [
     (''asset_id'', \<lambda>r v. map_option (\<lambda>x. r\<lparr>arb_AssetId := x\<rparr>) (dec_string (arb_AssetId r) v)),
     (''intent'', \<lambda>r v. map_option (\<lambda>x. r\<lparr>arb_Intent := x\<rparr>) (dec_string (arb_Intent r) v))]"

definition upload_fields :: "upload_request fields" where
  "upload_fields = [
     (''content_type'', \<lambda>r v. map_option (\<lambda>x. r\<lparr>ur_ContentType := x\<rparr>) (dec_string (ur_ContentType r) v)),
     (''filename'', \<lambda>r v. map_option (\<lambda>x. r\<lparr>ur_Filename := x\<rparr>) (dec_pointer dec_string [] (ur_Filename r) v)),
     (''rendition'', \<lambda>r v. map_option (\<lambda>x. r\<lparr>ur_Rendition := x\<rparr>)
        (dec_pointer (decode_struct binding_fields) \<lparr>arb_AssetId = [], arb_Intent = []\<rparr> (ur_Rendition r) v)),
     (''size_bytes'', \<lambda>r v. map_option (\<lambda>x. r\<lparr>ur_SizeBytes := x\<rparr>) (dec_int64 (ur_SizeBytes r) v)),
     (''skip_derivations'', \<lambda>r v. map_option (\<lambda>x. r\<lparr>ur_SkipDerivations := x\<rparr>) (dec_pointer dec_bool False (ur_SkipDerivations r) v))]"

definition UploadRequest :: "json \<Rightarrow> upload_request option" where
  "UploadRequest = decode_struct upload_fields
     \<lparr>ur_ContentType = [], ur_Filename = None, ur_Rendition = None, ur_SizeBytes = 0, ur_SkipDerivations = None\<rparr>"

text \<open>A finalize request is its checksum; a rendition request its device class and its intent, as texts.\<close>

definition FinalizeRequest :: "json \<Rightarrow> string option" where
  "FinalizeRequest = decode_struct [(''checksum'', dec_string)] []"

record rendition_request =
  rnr_Device :: "string option"
  rnr_Intent :: string

definition RenditionRequest :: "json \<Rightarrow> rendition_request option" where
  "RenditionRequest = decode_struct [
     (''device'', \<lambda>r v. map_option (\<lambda>x. r\<lparr>rnr_Device := x\<rparr>) (dec_pointer dec_string [] (rnr_Device r) v)),
     (''intent'', \<lambda>r v. map_option (\<lambda>x. r\<lparr>rnr_Intent := x\<rparr>) (dec_string (rnr_Intent r) v))] \<lparr>rnr_Device = None, rnr_Intent = []\<rparr>"

section \<open>What the decoder lets through\<close>

text \<open>Members that no tag names are skipped, and a field no member names keeps its zero value.\<close>

lemma unnamed_members:
  "decode_members fs ms r = decode_members fs (filter (\<lambda>(name, v). field_for fs name \<noteq> None) ms) r"
  by (induction fs ms r rule: decode_members.induct) (auto split: option.splits)

lemma untouched:
  assumes "decode_members fs ms r = Some r'"
    "\<And>name f x v y. name \<in> fst ` set ms \<Longrightarrow> field_for fs name = Some f \<Longrightarrow> f x v = Some y \<Longrightarrow> g y = g x"
  shows "g r' = g r"
  using assms
proof (induction ms arbitrary: r)
  case (Cons m ms)
  obtain name v where m: "m = (name, v)" by (cases m)
  have later: "g y = g x" if "name \<in> fst ` set ms" "field_for fs name = Some f" "f x v = Some y" for name f x v y
    using Cons.prems(2) [OF _ that(2,3)] that(1) by simp
  show ?case
  proof (cases "field_for fs name")
    case None
    then have "decode_members fs ms r = Some r'" using Cons.prems(1) m by simp
    from Cons.IH [OF this later] show ?thesis .
  next
    case (Some f)
    then obtain r1 where r1: "f r v = Some r1" "decode_members fs ms r1 = Some r'" using Cons.prems(1) m by (auto split: option.splits)
    have "g r' = g r1" by (rule Cons.IH [OF r1(2) later])
    moreover have "g r1 = g r" using Cons.prems(2) [OF _ Some r1(1)] m by simp
    ultimately show ?thesis by simp
  qed
qed simp

text \<open>So a grant request without \<open>expires\<close>, which the contract requires, is read as one that expired in the year 1.\<close>

lemma grant_without_expires:
  assumes "GrantRequest (J_Obj ms) = Some req" "\<forall>m \<in> set ms. to_lower (fst m) \<noteq> ''expires''"
  shows "grr_Expires req = zero_time"
proof -
  have d: "decode_members grant_fields ms \<lparr>grr_Assets = [], grr_Expires = zero_time, grr_Recipient = None\<rparr> = Some req"
    using assms(1) by (simp add: GrantRequest_def decode_struct_def)
  have l: "to_lower ''expires'' = ''expires''" by (simp add: to_lower_def lower_char_def less_eq_char_def)
  have "grr_Expires y = grr_Expires x" if n: "name \<in> fst ` set ms" and f: "field_for grant_fields name = Some f" "f x v = Some y" for name f x v y
  proof -
    have "to_lower name \<noteq> ''expires''" using n assms(2) by auto
    then have "name \<noteq> ''expires''" "to_lower name \<noteq> to_lower ''expires''" using l by auto
    then have "f \<in> {snd (grant_fields ! 0), snd (grant_fields ! 2)}"
      using f(1) by (auto simp: field_for_def grant_fields_def split: if_splits option.splits)
    then show ?thesis using f(2) by (auto simp: grant_fields_def)
  qed
  from untouched [where g = grr_Expires, OF d this] show ?thesis by simp
qed

lemma grant_without_expires_is_dead:
  assumes "handleCreateGrant now newID cl d (GrantRequest (J_Obj ms)) = ((201, b), d')"
    "\<forall>m \<in> set ms. to_lower (fst m) \<noteq> ''expires''" "zero_time \<le> t"
  shows "\<not> Live (ResolveGrantForDelivery d' t newID i)"
proof -
  obtain req where req: "GrantRequest (J_Obj ms) = Some req"
    using assms(1) by (auto simp: handleCreateGrant_def lacks_scope_def split: if_splits option.splits)
  have "mapStoreErr e \<noteq> (201, b)" for e by (cases e) (simp_all add: denyNotFound_def)
  then obtain g where "CreateGrant d now newID (account cl) req = Inr (d', g)"
    using assms(1) req by (auto simp: handleCreateGrant_def reply_write_def lacks_scope_def split: if_splits sum.splits)
  then obtain row where "d' = d\<lparr>db_grants := insert_row row (db_grants d)\<rparr>" "\<not> has_row (\<lambda>r. gw_id r = newID) (db_grants d)"
    "gw_id row = newID" "gw_expires row = grr_Expires req"
    by (auto simp: CreateGrant_def scanGrantRow_def Let_def split: sum.splits if_splits)
  then show ?thesis using fresh_grant_resolves [of newID d row t i] grant_without_expires [OF req assms(2)] assms(3) by (simp add: Live_def)
qed

lemma days_before_month_numeral [simp]:
  "days_before_month (numeral k) y = days_before_month (pred_numeral k) y + days_in (int (pred_numeral k) + 1) y"
  by (simp add: numeral_eq_Suc)

lemma instants:
  "parse_rfc3339 ''1970-01-01T00:00:00Z'' = Some 0"
  "parse_rfc3339 ''2026-02-28T23:30:00-01:00'' = Some (1772325000 * second)"
  "parse_rfc3339 ''2026-02-29T00:00:00Z'' = None"
  "parse_rfc3339 ''0001-01-01T00:00:00Z'' = Some zero_time"
  by (simp_all add: parse_rfc3339_def uint_in_def slice_def parse_uint_def parse_fraction_def parse_zone_def day_number_def
      days_before_year_def days_in_def leap_year_def is_digit_def less_eq_char_def digit_val_def zero_time_def second_def Let_def)

end
