(* ===== verification/Http_Front.thy ===== *)
theory Http_Front
  imports Wire Readiness
begin

text \<open>
  The front of the service (service/router.go, Router): from an HTTP request, its method, its path
  and query as they were sent, its Authorization header and its body, to the handler that answers
  it. The patterns are matched as \<open>http.ServeMux\<close> does: segments are unescaped one by one, a
  wildcard takes one non-empty segment, GET stands for HEAD too, a path that is not clean is
  redirected, a known path under another method is 405.
\<close>

section \<open>Requests and patterns\<close>

record http_request =
  hr_method :: string
  hr_path :: string
  hr_query :: string
  hr_auth :: string
  hr_body :: "json option"

definition path_unescape :: "string \<Rightarrow> string" where
  "path_unescape s = (case unescape EncodePath s of None \<Rightarrow> s | Some t \<Rightarrow> t)"

definition raw_segments :: "string \<Rightarrow> string list" where
  "raw_segments p = split_char CHR ''/'' (tl p)"

text \<open>The path is the one \<open>cleanPath\<close> makes of it: rooted, no dot segments, no empty segment but the last.\<close>

definition clean_path :: "string \<Rightarrow> bool" where
  "clean_path p \<longleftrightarrow> p \<noteq> [] \<and> hd p = CHR ''/'' \<and> ''.'' \<notin> set (raw_segments p) \<and> ''..'' \<notin> set (raw_segments p)
     \<and> [] \<notin> set (butlast (raw_segments p))"

definition segments :: "string \<Rightarrow> string list" where
  "segments p = map path_unescape (raw_segments p)"

datatype pattern_segment = Lit string | Wild

text \<open>A wildcard takes a segment that is neither empty nor, once unescaped, a slash alone.\<close>

fun match_pattern :: "pattern_segment list \<Rightarrow> string list \<Rightarrow> string list option" where
  "match_pattern [] [] = Some []"
| "match_pattern (Lit l # ps) (s # ss) = (if s = l then match_pattern ps ss else None)"
| "match_pattern (Wild # ps) (s # ss) = (if s = [] \<or> s = ''/'' then None else map_option ((#) s) (match_pattern ps ss))"
| "match_pattern _ _ = None"

definition method_ok :: "string \<Rightarrow> string \<Rightarrow> bool" where
  "method_ok want got \<longleftrightarrow> got = want \<or> want = ''GET'' \<and> got = ''HEAD''"

definition query_get :: "http_request \<Rightarrow> string \<Rightarrow> string" where
  "query_get r k = values_get (parse_query (hr_query r)) k"

definition body_as :: "(json \<Rightarrow> 'a option) \<Rightarrow> http_request \<Rightarrow> 'a option" where
  "body_as f r = Option.bind (hr_body r) f"

type_synonym route = "string \<times> pattern_segment list \<times> (string list \<Rightarrow> http_request \<Rightarrow> call)"

definition api_routes :: "route list" where
  "api_routes = [
     (''GET'', [Lit ''v1'', Lit ''assets'', Wild, Lit ''url''], \<lambda>w r. C_ResolveURL (hd w) (query_get r ''intent'') (query_get r ''device'') (query_get r ''grant'')),
     (''GET'', [Lit ''v1'', Lit ''assets'', Wild], \<lambda>w r. C_GetAsset (hd w)),
     (''DELETE'', [Lit ''v1'', Lit ''assets'', Wild], \<lambda>w r. C_DeleteAsset (hd w)),
     (''GET'', [Lit ''v1'', Lit ''assets''], \<lambda>w r. C_ListAssets (query_get r ''limit'') (query_get r ''cursor'')),
     (''POST'', [Lit ''v1'', Lit ''assets'', Wild, Lit ''renditions''], \<lambda>w r. C_RequestRendition (hd w) (map_option rnr_Intent (body_as RenditionRequest r))),
     (''GET'', [Lit ''v1'', Lit ''jobs'', Wild], \<lambda>w r. C_GetJob (hd w)),
     (''POST'', [Lit ''v1'', Lit ''uploads''], \<lambda>w r. C_CreateUpload (body_as UploadRequest r)),
     (''POST'', [Lit ''v1'', Lit ''uploads'', Wild, Lit ''finalize''], \<lambda>w r. C_FinalizeUpload (hd w) (body_as FinalizeRequest r)),
     (''POST'', [Lit ''v1'', Lit ''grants''], \<lambda>w r. C_CreateGrant (body_as GrantRequest r)),
     (''GET'', [Lit ''v1'', Lit ''grants'', Wild], \<lambda>w r. C_GetGrant (hd w)),
     (''DELETE'', [Lit ''v1'', Lit ''grants'', Wild], \<lambda>w r. C_RevokeGrant (hd w)),
     (''POST'', [Lit ''v1'', Lit ''exports''], \<lambda>w r. C_CreateExport (body_as ExportRequest r)),
     (''GET'', [Lit ''v1'', Lit ''exports'', Wild], \<lambda>w r. C_GetExport (hd w)),
     (''DELETE'', [Lit ''v1'', Lit ''exports'', Wild], \<lambda>w r. C_RevokeExport (hd w)),
     (''PUT'', [Lit ''v1'', Lit ''account''], \<lambda>w r. C_ProvisionAccount)]"

definition matches :: "http_request \<Rightarrow> route \<Rightarrow> bool" where
  "matches r rt \<longleftrightarrow> method_ok (fst rt) (hr_method r) \<and> match_pattern (fst (snd rt)) (segments (hr_path r)) \<noteq> None"

datatype routed = R_Call call | R_MethodNotAllowed | R_NotFound

definition api_route :: "http_request \<Rightarrow> routed" where
  "api_route r =
     (case find (matches r) api_routes of
        Some (m, p, f) \<Rightarrow> (case match_pattern p (segments (hr_path r)) of Some w \<Rightarrow> R_Call (f w r) | None \<Rightarrow> R_NotFound)
      | None \<Rightarrow> if list_ex (\<lambda>rt. match_pattern (fst (snd rt)) (segments (hr_path r)) \<noteq> None) api_routes
                then R_MethodNotAllowed else R_NotFound)"

section \<open>The two muxes\<close>

datatype http_answer =
  H_Response response | H_Download download | H_Ready "(response \<times> health_state) option" | H_Moved | H_BadRequest
| H_NotFound | H_MethodNotAllowed

text \<open>What the probe asks of the store and of storage is an argument.\<close>

definition reads :: "http_request \<Rightarrow> bool" where
  "reads r \<longleftrightarrow> method_ok ''GET'' (hr_method r)"

definition behind_token :: "'k jwt_lib \<Rightarrow> 'k verifier \<Rightarrow> service \<Rightarrow> time \<Rightarrow> string \<Rightarrow> http_request \<Rightarrow> server \<Rightarrow> http_answer \<times> server" where
  "behind_token lib v s now newID r st =
     (case Middleware lib v (hr_auth r) of
        AO_Next cl \<Rightarrow>
          (case api_route r of
             R_Call q \<Rightarrow> (let (resp, st') = dispatch s now newID (Some cl) q st in (H_Response resp, st'))
           | R_MethodNotAllowed \<Rightarrow> (H_MethodNotAllowed, st)
           | R_NotFound \<Rightarrow> (H_NotFound, st))
      | _ \<Rightarrow> (H_Response (401, B_Error ''unauthorized''), st))"

definition http_serve ::
  "'k jwt_lib \<Rightarrow> 'k verifier \<Rightarrow> service \<Rightarrow> health_state \<Rightarrow> answers \<Rightarrow> time \<Rightarrow> string \<Rightarrow> http_request \<Rightarrow> server \<Rightarrow> http_answer \<times> server" where
  "http_serve lib v s h a now newID r st =
     (if hr_path r = ''*'' then (H_BadRequest, st)
      else if hr_method r \<noteq> ''CONNECT'' \<and> \<not> clean_path (hr_path r) then (H_Moved, st)
      else case segments (hr_path r) of
        seg # rest \<Rightarrow>
          if seg \<noteq> ''v1'' then (H_NotFound, st)
          else if rest = [] then (H_Moved, st)
          else if reads r \<and> rest = [''healthz''] then (H_Response handleHealth, st)
          else if reads r \<and> rest = [''readyz''] then (H_Ready (handleReady (sv_storage s) h now a), st)
          else if reads r \<and> rest = [''download''] then (H_Moved, st)
          else if reads r \<and> hd rest = ''download'' then
            (let key = path_unescape (join_char CHR ''/'' (drop 2 (raw_segments (hr_path r))));
                 (answer, c') = handleDownload s now (fst st) (snd st) key (hr_query r)
             in (H_Download answer, fst st, c'))
          else behind_token lib v s now newID r st
      | [] \<Rightarrow> (H_NotFound, st))"

section \<open>The patterns are unambiguous\<close>

text \<open>No request matches two patterns, so their order does not matter.\<close>

fun overlap :: "pattern_segment list \<Rightarrow> pattern_segment list \<Rightarrow> bool" where
  "overlap [] [] = True"
| "overlap (Lit a # ps) (Lit b # qs) = (a = b \<and> overlap ps qs)"
| "overlap (p # ps) (q # qs) = overlap ps qs"
| "overlap _ _ = False"

lemma match_nil: "match_pattern p [] = Some w \<Longrightarrow> p = []"
  by (cases "(p, [] :: string list)" rule: match_pattern.cases) simp_all

lemma match_cons:
  assumes "match_pattern p (s # ss) = Some w"
  obtains x ps w' where "p = x # ps" "match_pattern ps ss = Some w'" "\<forall>l. x = Lit l \<longrightarrow> s = l"
proof (cases p)
  case (Cons x ps)
  show thesis by (cases x) (use assms Cons that in \<open>auto split: if_splits\<close>)
qed (use assms in simp)

lemma both_match: "match_pattern p ss = Some w \<Longrightarrow> match_pattern q ss = Some w' \<Longrightarrow> overlap p q"
proof (induction ss arbitrary: p q w w')
  case Nil
  then have "p = []" "q = []" by (simp_all add: match_nil)
  then show ?case by simp
next
  case (Cons s ss)
  obtain x ps w1 where p: "p = x # ps" "match_pattern ps ss = Some w1" "\<forall>l. x = Lit l \<longrightarrow> s = l" by (rule match_cons [OF Cons.prems(1)])
  obtain y qs w2 where q: "q = y # qs" "match_pattern qs ss = Some w2" "\<forall>l. y = Lit l \<longrightarrow> s = l" by (rule match_cons [OF Cons.prems(2)])
  have "overlap ps qs" by (rule Cons.IH [OF p(2) q(2)])
  then show ?case using p(1,3) q(1,3) by (cases x; cases y) auto
qed

lemma same_method: "method_ok m x \<Longrightarrow> method_ok m' x \<Longrightarrow> m \<noteq> ''HEAD'' \<Longrightarrow> m' \<noteq> ''HEAD'' \<Longrightarrow> m = m'"
  by (auto simp: method_ok_def)

lemma routes_apart:
  "sorted_wrt (\<lambda>a b. fst a \<noteq> fst b \<or> \<not> overlap (fst (snd a)) (fst (snd b))) api_routes \<and> (\<forall>a \<in> set api_routes. fst a \<noteq> ''HEAD'')"
  by (simp add: api_routes_def)

lemma routes_unambiguous: "sorted_wrt (\<lambda>a b. \<not> (matches r a \<and> matches r b)) api_routes"
proof (rule sorted_wrt_mono_rel [OF _ conjunct1 [OF routes_apart]])
  fix a b
  assume ab: "a \<in> set api_routes" "b \<in> set api_routes" and "fst a \<noteq> fst b \<or> \<not> overlap (fst (snd a)) (fst (snd b))"
  moreover have "fst a \<noteq> ''HEAD'' \<and> fst b \<noteq> ''HEAD''" using routes_apart ab by blast
  ultimately show "\<not> (matches r a \<and> matches r b)" using both_match same_method by (auto simp: matches_def) (metis option.exhaust)+
qed

text \<open>Every pattern is reached by a path that spells it out.\<close>

definition plain_id :: "string \<Rightarrow> bool" where
  "plain_id i \<longleftrightarrow> i \<noteq> [] \<and> CHR ''/'' \<notin> set i \<and> CHR ''%'' \<notin> set i"

lemma path_unescape_plain: "CHR ''%'' \<notin> set s \<Longrightarrow> path_unescape s = s"
proof -
  have "unescape EncodePath s = Some s" if "CHR ''%'' \<notin> set s" for s using that by (induction s) auto
  then show "CHR ''%'' \<notin> set s \<Longrightarrow> path_unescape s = s" by (simp add: path_unescape_def)
qed

fun spelled :: "call \<Rightarrow> (string \<times> string \<times> string) option" where
  "spelled (C_GetAsset i) = Some (''GET'', ''/v1/assets/'' @ i, i)"
| "spelled (C_DeleteAsset i) = Some (''DELETE'', ''/v1/assets/'' @ i, i)"
| "spelled (C_GetJob i) = Some (''GET'', ''/v1/jobs/'' @ i, i)"
| "spelled (C_GetGrant i) = Some (''GET'', ''/v1/grants/'' @ i, i)"
| "spelled (C_RevokeGrant i) = Some (''DELETE'', ''/v1/grants/'' @ i, i)"
| "spelled (C_GetExport i) = Some (''GET'', ''/v1/exports/'' @ i, i)"
| "spelled (C_RevokeExport i) = Some (''DELETE'', ''/v1/exports/'' @ i, i)"
| "spelled _ = None"

lemma spelled_segments:
  assumes "plain_id i"
  shows "segments (''/v1/assets/'' @ i) = [''v1'', ''assets'', i]" "segments (''/v1/jobs/'' @ i) = [''v1'', ''jobs'', i]"
    "segments (''/v1/grants/'' @ i) = [''v1'', ''grants'', i]" "segments (''/v1/exports/'' @ i) = [''v1'', ''exports'', i]"
  using assms split_char_no_sep [of "CHR ''/''" i] path_unescape_plain [of i]
  by (simp_all add: segments_def raw_segments_def plain_id_def path_unescape_plain)

lemma spelled_reached:
  assumes "spelled q = Some (m, p, i)" "plain_id i" "hr_method r = m" "hr_path r = p"
  shows "api_route r = R_Call q"
proof -
  have "i \<noteq> []" "i \<noteq> ''/''" using assms(2) by (auto simp: plain_id_def)
  then show ?thesis using assms(1,3,4) spelled_segments [OF assms(2)]
    by (cases q) (auto simp: api_route_def api_routes_def matches_def method_ok_def)
qed

section \<open>The front door\<close>

lemma dispatch_served: "Middleware lib v h = AO_Next cl \<Longrightarrow> dispatch s now newID (Some cl) q st = serve lib v s now newID h q st"
  by (simp add: serve_def)

lemma behind_token_steps:
  assumes "reachable d" "uploads_ok d" "newID \<noteq> []" "\<not> has_asset_id d newID"
    "behind_token lib v s now newID r (d, c) = (out, d', c')"
  shows "case Middleware lib v (hr_auth r) of AO_Next cl \<Rightarrow> (account_step (cl_account cl))\<^sup>*\<^sup>* d d'
    | _ \<Rightarrow> d' = d \<and> c' = c \<and> out = H_Response (401, B_Error ''unauthorized'')"
proof (cases "Middleware lib v (hr_auth r)")
  case (AO_Next cl)
  show ?thesis
  proof (cases "api_route r")
    case (R_Call q)
    obtain resp st' where q: "dispatch s now newID (Some cl) q (d, c) = (resp, st')" by (cases "dispatch s now newID (Some cl) q (d, c)")
    have st: "st' = (d', c')" using assms(5) AO_Next R_Call q by (simp add: behind_token_def)
    have "serve lib v s now newID (hr_auth r) q (d, c) = (resp, d', c')" using q st dispatch_served [OF AO_Next] by metis
    from serve_steps [OF assms(1-4) this] show ?thesis using AO_Next by simp
  qed (use assms(5) AO_Next in \<open>simp_all add: behind_token_def\<close>)
qed (use assms(5) in \<open>simp_all add: behind_token_def\<close>)

text \<open>The muxes as cases: an answer of the mux itself, one of the three open doors, or the API behind the token.\<close>

lemma front_cases:
  assumes "http_serve lib v s h a now newID r (d, c) = (out, d', c')"
  obtains (mux) "out \<in> {H_Moved, H_BadRequest, H_NotFound}" "d' = d" "c' = c"
  | (health) "out = H_Response handleHealth" "d' = d" "c' = c" "reads r" "segments (hr_path r) = [''v1'', ''healthz'']"
  | (ready) "out = H_Ready (handleReady (sv_storage s) h now a)" "d' = d" "c' = c" "reads r" "segments (hr_path r) = [''v1'', ''readyz'']"
  | (down) key answer where "out = H_Download answer" "d' = d" "reads r" "take 2 (segments (hr_path r)) = [''v1'', ''download'']"
      "handleDownload s now d c key (hr_query r) = (answer, c')"
  | (api) "behind_token lib v s now newID r (d, c) = (out, d', c')"
proof -
  have "segments (hr_path r) \<noteq> []" by (simp add: segments_def raw_segments_def)
  then obtain seg rest where segs: "segments (hr_path r) = seg # rest" by (cases "segments (hr_path r)") auto
  let ?key = "path_unescape (join_char CHR ''/'' (drop 2 (raw_segments (hr_path r))))"
  obtain answer c1 where dl: "handleDownload s now d c ?key (hr_query r) = (answer, c1)" by fastforce
  show thesis
  proof (cases "out \<in> {H_Moved, H_BadRequest, H_NotFound} \<and> d' = d \<and> c' = c")
    case True then show thesis using that(1) by blast
  next
    case False
    then have top: "hr_path r \<noteq> ''*''" "\<not> (hr_method r \<noteq> ''CONNECT'' \<and> \<not> clean_path (hr_path r))" "seg = ''v1''" "rest \<noteq> []"
      "\<not> (reads r \<and> rest = [''download''])" using assms segs by (auto simp: http_serve_def split: if_splits)
    have serve: "http_serve lib v s h a now newID r (d, c) =
       (if reads r \<and> rest = [''healthz''] then (H_Response handleHealth, d, c)
        else if reads r \<and> rest = [''readyz''] then (H_Ready (handleReady (sv_storage s) h now a), d, c)
        else if reads r \<and> hd rest = ''download'' then (H_Download answer, d, c1)
        else behind_token lib v s now newID r (d, c))"
      using top segs dl by (auto simp: http_serve_def)
    consider "reads r \<and> rest = [''healthz'']" | "reads r \<and> rest = [''readyz'']"
      | "reads r \<and> hd rest = ''download''" "rest \<noteq> [''healthz'']" "rest \<noteq> [''readyz'']"
      | "http_serve lib v s h a now newID r (d, c) = behind_token lib v s now newID r (d, c)" using serve by argo
    then show thesis
    proof cases
      case 1 then show thesis using that(2) assms segs top(3) by (auto simp: serve)
    next
      case 2 then show thesis using that(3) assms segs top(3) by (auto simp: serve)
    next
      case 3
      then have "out = H_Download answer" "d' = d" "c' = c1" using assms by (simp_all add: serve)
      moreover have "take 2 (segments (hr_path r)) = [''v1'', ''download'']" using 3 segs top(3,4) by (cases rest) simp_all
      ultimately show thesis using that(4) dl 3 by blast
    next
      case 4 then show thesis using that(5) assms by simp
    qed
  qed
qed

text \<open>C3: The front door: after any run of the service, for every request as it comes over HTTP, whatever its
  method, path, query and body, the database changes only by steps of the account the token names,
  and not at all without a token that verifies. Without one, three doors are open and no other: the
  two probes and the download edge answer reads, every other path under the API is a 401, and the
  rest is a redirect, a 400 or a 404 of the mux.\<close>
theorem http_front_door:
  assumes "(service_step lib v s)\<^sup>*\<^sup>* (empty_db, Map.empty) (d, c)" "newID \<noteq> []" "\<not> has_asset_id d newID"
    "http_serve lib v s h a now newID r (d, c) = (out, d', c')"
  shows "(case Middleware lib v (hr_auth r) of
        AO_Next cl \<Rightarrow> (account_step (cl_account cl))\<^sup>*\<^sup>* d d'
      | _ \<Rightarrow> d' = d \<and> (case out of
          H_Response resp \<Rightarrow> c' = c \<and> (resp = (401, B_Error ''unauthorized'') \<or> resp = handleHealth \<and> segments (hr_path r) = [''v1'', ''healthz''] \<and> reads r)
        | H_Ready p \<Rightarrow> c' = c \<and> p = handleReady (sv_storage s) h now a \<and> segments (hr_path r) = [''v1'', ''readyz''] \<and> reads r
        | H_Download dl \<Rightarrow> take 2 (segments (hr_path r)) = [''v1'', ''download''] \<and> reads r
            \<and> (\<exists>key. handleDownload s now d c key (hr_query r) = (dl, c'))
        | H_MethodNotAllowed \<Rightarrow> False
        | _ \<Rightarrow> c' = c))
    \<and> reachable d'"
proof -
  have d: "reachable d" "uploads_ok d" using service_run_store [OF assms(1)] by simp_all
  show ?thesis using assms(4)
  proof (cases rule: front_cases)
    case api
    note steps = behind_token_steps [OF d assms(2,3) api]
    show ?thesis
    proof (cases "Middleware lib v (hr_auth r)")
      case (AO_Next cl)
      then have "(account_step (cl_account cl))\<^sup>*\<^sup>* d d'" using steps by simp
      then show ?thesis using AO_Next account_steps_reachable [OF _ d] by simp
    qed (use steps d in simp_all)
  qed (use d in \<open>auto split: auth_outcome.split\<close>)
qed

definition account_request :: http_request where
  "account_request = \<lparr>hr_method = ''PUT'', hr_path = ''/v1/account'', hr_query = [], hr_auth = ''Bearer reg_b'', hr_body = None\<rparr>"

lemma account_segments: "segments ''/v1/account'' = [''v1'', ''account'']" "clean_path ''/v1/account''"
  by (simp_all add: segments_def clean_path_def raw_segments_def path_unescape_def)

lemma account_route: "api_route account_request = R_Call C_ProvisionAccount"
  by (simp add: api_route_def api_routes_def matches_def method_ok_def account_request_def account_segments)

lemma http_front_door_witness:
  "\<forall>h a. \<exists>out d' c'. http_serve demo_lib demo_verifier demo_service h a 5 ''N1'' account_request demo_run0 = (out, d', c')
     \<and> map cw_id (db_accounts d') = [''alice'', ''reg_b''] \<and> (account_step ''reg_b'')\<^sup>*\<^sup>* (fst demo_run0) d' \<and> reachable d'"
proof (intro allI)
  fix h a
  let ?d = "fst demo_run0" and ?c = "snd demo_run0"
  have auth: "Middleware demo_lib demo_verifier (hr_auth account_request) = AO_Next demo_claims"
    by (simp add: account_request_def demo_middleware)
  obtain out d' c' where run: "http_serve demo_lib demo_verifier demo_service h a 5 ''N1'' account_request (?d, ?c) = (out, d', c')"
    by (metis prod_cases3)
  have "(d', c') = demo_run1" using run auth account_route
    by (auto simp: http_serve_def account_segments behind_token_def demo_run1_def serve_def demo_middleware account_request_def reads_def
        method_ok_def split: prod.splits)
  then have acc: "map cw_id (db_accounts d') = [''alice'', ''reg_b'']" using demo_run1_accounts by (metis fst_conv)
  have start: "(service_step demo_lib demo_verifier demo_service)\<^sup>*\<^sup>* (empty_db, Map.empty) (?d, ?c)"
    using demo_run0_step by (simp add: r_into_rtranclp)
  have fresh: "\<not> has_asset_id ?d ''N1''" by (simp add: demo_run0_def has_asset_id_def has_row_def CreateAccount_def empty_db_def)
  have "(account_step ''reg_b'')\<^sup>*\<^sup>* ?d d' \<and> reachable d'"
    using http_front_door [OF start _ fresh run] auth by (simp add: demo_claims_def)
  then show "\<exists>out d' c'. http_serve demo_lib demo_verifier demo_service h a 5 ''N1'' account_request demo_run0 = (out, d', c')
     \<and> map cw_id (db_accounts d') = [''alice'', ''reg_b''] \<and> (account_step ''reg_b'')\<^sup>*\<^sup>* ?d d' \<and> reachable d'"
    using run acc by auto
qed

end
