(* ===== verification/Object_Store.thy ===== *)
theory Object_Store
  imports Asset_Api Env_Config Worker
begin

text \<open>
  The object storage (internal/storage/s3.go, errors.go): the calls of the S3 implementation over the
  AWS client, which is a parameter: a record of its operations on a world of buckets. A call of the
  service or of the worker becomes one operation with its input, and the client's error is
  classified or passed on.
\<close>

section \<open>The AWS client\<close>

text \<open>What \<open>errors.As\<close> finds in the chain of an error: the two typed misses and the code of an API error.\<close>

record aws_error =
  ae_NoSuchKey :: bool
  ae_NotFound :: bool
  ae_Code :: "string option"
  ae_BucketAlreadyOwnedByYou :: bool
  ae_BucketAlreadyExists :: bool

record put_input =
  pi_Bucket :: string
  pi_Key :: string
  pi_ContentType :: string
  pi_ContentLength :: "int option"

record presigned_request =
  pq_URL :: string
  pq_Method :: string
  pq_SignedHeader :: "(string \<times> string list) list"

record head_output =
  ho_ContentLength :: "int option"
  ho_ContentType :: "string option"
  ho_ETag :: "string option"

record 'w aws_client =
  aws_presign_put :: "put_input \<Rightarrow> int \<Rightarrow> presigned_request option"
  aws_presign_get :: "string \<Rightarrow> string \<Rightarrow> int \<Rightarrow> presigned_request option"
  aws_head :: "'w \<Rightarrow> string \<Rightarrow> string \<Rightarrow> aws_error + head_output"
  aws_get :: "'w \<Rightarrow> string \<Rightarrow> string \<Rightarrow> string option \<Rightarrow> aws_error + string"
  aws_put :: "'w \<Rightarrow> put_input \<Rightarrow> string \<Rightarrow> aws_error option \<times> 'w"
  aws_delete :: "'w \<Rightarrow> string \<Rightarrow> string \<Rightarrow> aws_error option \<times> 'w"
  aws_create_bucket :: "'w \<Rightarrow> string \<Rightarrow> aws_error option \<times> 'w"

definition isNotFound :: "aws_error \<Rightarrow> bool" where
  "isNotFound err =
     (if ae_NoSuchKey err then True
      else if ae_NotFound err then True
      else case ae_Code err of None \<Rightarrow> False | Some c \<Rightarrow> c \<in> {''NoSuchKey'', ''NotFound'', ''404''})"

section \<open>The calls\<close>

record 'w s3 =
  s3_client :: "'w aws_client"
  s3_bucket :: string

datatype s3_error = SE_PresignPut | SE_PresignGet | SE_Head string | SE_Get string | SE_GetRange string string
  | SE_Put string | SE_Delete string | SE_EnsureBucket string

record put_constraints =
  pc_Key :: string
  pc_ContentType :: string
  pc_ContentLength :: int
  pc_Expiry :: int

record presigned_put =
  pp_URL :: string
  pp_Method :: string
  pp_Headers :: "(string \<times> string) list"
  pp_Expires :: time

definition put_object_input :: "'w s3 \<Rightarrow> put_constraints \<Rightarrow> put_input" where
  "put_object_input s c =
     \<lparr>pi_Bucket = s3_bucket s, pi_Key = pc_Key c, pi_ContentType = pc_ContentType c,
      pi_ContentLength = (if pc_ContentLength c > 0 then Some (pc_ContentLength c) else None)\<rparr>"

text \<open>The first value of each signed header; the headers are a map, so their order is free.\<close>

fun first_values :: "(string \<times> string list) list \<Rightarrow> (string \<times> string) list" where
  "first_values [] = []"
| "first_values ((k, v) # hs) = (case v of [] \<Rightarrow> first_values hs | x # xs \<Rightarrow> (k, x) # first_values hs)"

definition PresignPut :: "'w s3 \<Rightarrow> time \<Rightarrow> put_constraints \<Rightarrow> s3_error + presigned_put" where
  "PresignPut s now c0 =
     (let c = (if pc_Expiry c0 \<le> 0 then c0\<lparr>pc_Expiry := 3600 * second\<rparr> else c0) in
      case aws_presign_put (s3_client s) (put_object_input s c) (pc_Expiry c) of
        None \<Rightarrow> Inl SE_PresignPut
      | Some req \<Rightarrow> Inr
          \<lparr>pp_URL = pq_URL req, pp_Method = pq_Method req,
           pp_Headers = AList.update ''Content-Type'' (pc_ContentType c) (first_values (pq_SignedHeader req)),
           pp_Expires = now + pc_Expiry c\<rparr>)"

definition PresignGet :: "'w s3 \<Rightarrow> string \<Rightarrow> int \<Rightarrow> s3_error + string" where
  "PresignGet s key expiry0 =
     (let expiry = (if expiry0 \<le> 0 then 300 * second else expiry0) in
      case aws_presign_get (s3_client s) (s3_bucket s) key expiry of
        None \<Rightarrow> Inl SE_PresignGet
      | Some req \<Rightarrow> Inr (pq_URL req))"

definition Head :: "'w s3 \<Rightarrow> 'w \<Rightarrow> string \<Rightarrow> s3_error + object_info" where
  "Head s w key =
     (case aws_head (s3_client s) w (s3_bucket s) key of
        Inl err \<Rightarrow>
          if isNotFound err then Inr \<lparr>oi_Size = 0, oi_ContentType = [], oi_ETag = [], oi_Exists = False\<rparr>
          else Inl (SE_Head key)
      | Inr out \<Rightarrow> Inr
          \<lparr>oi_Size = (case ho_ContentLength out of None \<Rightarrow> 0 | Some n \<Rightarrow> n),
           oi_ContentType = str_of (ho_ContentType out), oi_ETag = str_of (ho_ETag out), oi_Exists = True\<rparr>)"

definition Get :: "'w s3 \<Rightarrow> 'w \<Rightarrow> string \<Rightarrow> s3_error + string" where
  "Get s w key = (case aws_get (s3_client s) w (s3_bucket s) key None of Inl _ \<Rightarrow> Inl (SE_Get key) | Inr body \<Rightarrow> Inr body)"

definition range_header :: "int \<Rightarrow> int \<Rightarrow> string" where
  "range_header start len = ''bytes='' @ dec start @ ''-'' @ dec (start + len - 1)"

definition GetRange :: "'w s3 \<Rightarrow> 'w \<Rightarrow> string \<Rightarrow> int \<Rightarrow> int \<Rightarrow> s3_error + string" where
  "GetRange s w key start len =
     (let rng = range_header start len in
      case aws_get (s3_client s) w (s3_bucket s) key (Some rng) of
        Inl _ \<Rightarrow> Inl (SE_GetRange key rng)
      | Inr body \<Rightarrow> Inr body)"

definition Put :: "'w s3 \<Rightarrow> 'w \<Rightarrow> string \<Rightarrow> string \<Rightarrow> string \<Rightarrow> int \<Rightarrow> s3_error option \<times> 'w" where
  "Put s w key ctype body size' =
     (let (e, w') = aws_put (s3_client s) w \<lparr>pi_Bucket = s3_bucket s, pi_Key = key, pi_ContentType = ctype,
            pi_ContentLength = (if size' > 0 then Some size' else None)\<rparr> body
      in (map_option (\<lambda>_. SE_Put key) e, w'))"

definition Delete :: "'w s3 \<Rightarrow> 'w \<Rightarrow> string \<Rightarrow> s3_error option \<times> 'w" where
  "Delete s w key =
     (let (e, w') = aws_delete (s3_client s) w (s3_bucket s) key in (map_option (\<lambda>_. SE_Delete key) e, w'))"

definition EnsureBucket :: "'w s3 \<Rightarrow> 'w \<Rightarrow> s3_error option \<times> 'w" where
  "EnsureBucket s w =
     (let (e, w') = aws_create_bucket (s3_client s) w (s3_bucket s) in
      case e of None \<Rightarrow> (None, w')
      | Some err \<Rightarrow> (if ae_BucketAlreadyOwnedByYou err \<or> ae_BucketAlreadyExists err then None
                     else Some (SE_EnsureBucket (s3_bucket s)), w'))"

section \<open>The service's view\<close>

text \<open>The image probe of finalize: the header through a ranged read, decoded by the image library.\<close>

definition imageProbePrefixBytes :: int where "imageProbePrefixBytes = 1024 * 1024"

record image_config =
  ic_Width :: int
  ic_Height :: int
  ic_Format :: string

definition ProbeImageReader :: "(string \<Rightarrow> image_config option) \<Rightarrow> string \<Rightarrow> probe_result option" where
  "ProbeImageReader decode r =
     (case decode r of None \<Rightarrow> None
      | Some cfg \<Rightarrow> Some \<lparr>pr_Kind = Image, pr_Width = ic_Width cfg, pr_Height = ic_Height cfg, pr_DurationS = 0, pr_Codec = [],
          pr_Container = ic_Format cfg, pr_AudioCodec = [], pr_BitrateBPS = 0\<rparr>)"

definition probeImageHead :: "'w s3 \<Rightarrow> (string \<Rightarrow> image_config option) \<Rightarrow> 'w \<Rightarrow> string \<Rightarrow> probe_result option" where
  "probeImageHead s decode w key =
     (case GetRange s w key 0 imageProbePrefixBytes of Inl _ \<Rightarrow> None | Inr body \<Rightarrow> ProbeImageReader decode body)"

text \<open>The interface the handlers are given, in a world \<open>w\<close> at a time \<open>now\<close>.\<close>

definition s3_storage :: "'w s3 \<Rightarrow> (string \<Rightarrow> image_config option) \<Rightarrow> 'w \<Rightarrow> time \<Rightarrow> storage" where
  "s3_storage s decode w now =
     \<lparr>st_PresignGet = \<lambda>key ttl. (case PresignGet s key ttl of Inl _ \<Rightarrow> None | Inr url \<Rightarrow> Some url),
      st_PresignPut = \<lambda>key ct size ttl.
        (case PresignPut s now \<lparr>pc_Key = key, pc_ContentType = ct, pc_ContentLength = size, pc_Expiry = ttl\<rparr> of
           Inl _ \<Rightarrow> None | Inr p \<Rightarrow> Some (pp_URL p, pp_Headers p, pp_Expires p)),
      st_Head = \<lambda>key. (case Head s w key of Inl _ \<Rightarrow> None | Inr info \<Rightarrow> Some info),
      st_ProbeImage = \<lambda>key. (case probeImageHead s decode w key of None \<Rightarrow> None
        | Some r \<Rightarrow> Some (pr_Width r, pr_Height r, pr_Container r))\<rparr>"

end
