(* ===== verification/Ingest.thy ===== *)
theory Ingest
  imports Object_Store Service_Run Sweep_Props
begin

text \<open>
  The whole deployment around the originals: requests through the router with the S3 storage behind
  them, uploads by clients and workers, worker operations, and housekeeping at the granularity of
  single storage calls. A listing of the sweep and the deletions it leads to are separate steps, so
  requests fall between them. Every live asset keeps its original, as long as an upload that a
  sweep may already have listed is not finalized; without that, it may lose it.
\<close>

section \<open>What storage calls say of the objects\<close>

text \<open>
  What the object service documents: an object that is found has its length, one that is not found
  is not there, and a read returns the bytes. Other errors say nothing.
\<close>

definition serves_objects :: "'w s3 \<Rightarrow> 'w \<Rightarrow> objects \<Rightarrow> bool" where
  "serves_objects s w obs \<longleftrightarrow> (\<forall>key.
     (case aws_head (s3_client s) w (s3_bucket s) key of
        Inl e \<Rightarrow> isNotFound e \<longrightarrow> obs key = None
      | Inr h \<Rightarrow> \<exists>bytes. obs key = Some bytes \<and> ho_ContentLength h = Some (int (length bytes)))
   \<and> (\<forall>body. aws_get (s3_client s) w (s3_bucket s) key None = Inr body \<longrightarrow> obs key = Some body))"

lemma Head_exists:
  assumes "serves_objects s w obs" "Head s w key = Inr info"
  shows "case obs key of None \<Rightarrow> \<not> oi_Exists info | Some bytes \<Rightarrow> oi_Exists info \<and> oi_Size info = int (length bytes)"
proof (cases "aws_head (s3_client s) w (s3_bucket s) key")
  case (Inl e)
  then show ?thesis using assms spec [OF assms(1) [unfolded serves_objects_def], of key] by (auto simp: Head_def split: if_splits)
next
  case (Inr h)
  then show ?thesis using assms spec [OF assms(1) [unfolded serves_objects_def], of key] by (auto simp: Head_def)
qed

section \<open>Calm changes\<close>

definition live_keys :: "db \<Rightarrow> string set" where
  "live_keys d = ar_vault_key ` {a \<in> set (db_assets d). ar_deleted a = None}"

text \<open>The upload rows only grow in number and towards finalized; their ids are old or in \<open>N\<close>.\<close>

definition upload_grows :: "upload_row \<Rightarrow> upload_row \<Rightarrow> bool" where
  "upload_grows u v \<longleftrightarrow> uw_id v = uw_id u \<and> uw_account v = uw_account u \<and> uw_key v = uw_key u \<and> uw_created v = uw_created u
     \<and> uw_rasset v = uw_rasset u \<and> (uw_finalized u \<noteq> None \<longrightarrow> uw_finalized v \<noteq> None)"

definition uploads_grow :: "string set \<Rightarrow> db \<Rightarrow> db \<Rightarrow> bool" where
  "uploads_grow N d d' \<longleftrightarrow> (\<forall>u \<in> set (db_uploads d). \<exists>v \<in> set (db_uploads d'). upload_grows u v)
     \<and> uw_id ` set (db_uploads d') \<subseteq> uw_id ` set (db_uploads d) \<union> N"

definition calm :: "string set \<Rightarrow> db \<Rightarrow> db \<Rightarrow> bool" where
  "calm N d d' \<longleftrightarrow> live_keys d' \<subseteq> live_keys d \<and> uploads_grow N d d'"

lemma upload_grows_refl [simp]: "upload_grows u u"
  by (simp add: upload_grows_def)

lemma uploads_grow_same: "db_uploads d' = db_uploads d \<Longrightarrow> uploads_grow N d d'"
  by (auto simp: uploads_grow_def intro: upload_grows_refl)

lemma uploads_grow_update:
  assumes "db_uploads d' = update_where p f (db_uploads d)" "\<And>u. upload_grows u (f u)"
  shows "uploads_grow N d d'"
proof -
  have "\<exists>v \<in> set (db_uploads d'). upload_grows u v" if "u \<in> set (db_uploads d)" for u
    using that assms by (cases "p u") (auto simp: set_update_where intro: upload_grows_refl)
  moreover have "uw_id v \<in> uw_id ` set (db_uploads d)" if "v \<in> set (db_uploads d')" for v
    using that assms by (auto simp: set_update_where upload_grows_def)
  ultimately show ?thesis by (auto simp: uploads_grow_def)
qed

lemma calm_refl: "calm N d d"
  by (simp add: calm_def uploads_grow_same)

lemma upload_grows_trans: "upload_grows u v \<Longrightarrow> upload_grows v w \<Longrightarrow> upload_grows u w"
  by (simp add: upload_grows_def)

lemma uploads_grow_trans: "uploads_grow N d d' \<Longrightarrow> uploads_grow N d' d'' \<Longrightarrow> uploads_grow N d d''"
  unfolding uploads_grow_def
proof (elim conjE, intro conjI ballI)
  fix u assume "\<forall>u \<in> set (db_uploads d). \<exists>v \<in> set (db_uploads d'). upload_grows u v"
    "\<forall>u \<in> set (db_uploads d'). \<exists>v \<in> set (db_uploads d''). upload_grows u v" "u \<in> set (db_uploads d)"
  then show "\<exists>v \<in> set (db_uploads d''). upload_grows u v" by (meson upload_grows_trans)
qed blast

lemma calm_trans: "calm N d d' \<Longrightarrow> calm N d' d'' \<Longrightarrow> calm N d d''"
  unfolding calm_def using uploads_grow_trans by blast

lemma live_same: "db_assets d' = db_assets d \<Longrightarrow> live_keys d' = live_keys d"
  by (simp add: live_keys_def)

lemma live_update:
  assumes "db_assets d' = update_where p f (db_assets d)"
    "\<And>r. ar_vault_key (f r) = ar_vault_key r \<and> (ar_deleted (f r) = None \<longrightarrow> ar_deleted r = None)"
  shows "live_keys d' \<subseteq> live_keys d"
proof
  fix k assume "k \<in> live_keys d'"
  then obtain a where a: "a \<in> set (update_where p f (db_assets d))" "ar_deleted a = None" "k = ar_vault_key a"
    using assms(1) by (auto simp: live_keys_def)
  then obtain x where "x \<in> set (db_assets d)" "a = x \<or> a = f x" by (auto simp: set_update_where)
  then show "k \<in> live_keys d" using a assms(2) [of x] by (auto simp: live_keys_def)
qed

lemma calm_tables: "db_assets d' = db_assets d \<Longrightarrow> db_uploads d' = db_uploads d \<Longrightarrow> calm N d d'"
  unfolding calm_def using live_same uploads_grow_same by blast

lemma calm_assets:
  assumes "db_assets d' = update_where p f (db_assets d)" "db_uploads d' = db_uploads d"
    "\<And>r. ar_vault_key (f r) = ar_vault_key r \<and> (ar_deleted (f r) = None \<longrightarrow> ar_deleted r = None)"
  shows "calm N d d'"
  using live_update [OF assms(1,3)] uploads_grow_same [OF assms(2)] by (simp add: calm_def)

fun new_ids :: "request \<Rightarrow> string set" where
  "new_ids (R_CreateUpload u) = {u_ID u}"
| "new_ids _ = {}"

text \<open>Every request but a finalize, and every worker and operator operation, is calm.\<close>

lemma request_calm:
  assumes "\<And>i v. r \<noteq> R_FinalizeUpload i v"
  shows "calm (new_ids r) d (run_request now A r d)"
proof (cases r)
  case (R_MarkAssetDeleted i)
  then show ?thesis
    by (auto simp: MarkAssetDeleted_def Let_def commit_def calm_refl set_deleted_def split: sum.splits
        intro!: calm_assets [of _ "asset_is A i" "set_deleted now"])
next
  case (R_CreateUpload u)
  then show ?thesis
    by (auto simp: CreateUpload_def commit_def calm_def live_keys_def uploads_grow_def insert_row_def
        intro: upload_grows_refl split: sum.splits if_splits)
next
  case (R_FinalizeUpload i v)
  then show ?thesis using assms by simp
qed ((rule calm_tables; auto simp: commit_def CreateGrant_def RevokeGrant_def CreateExport_def RevokeExport_def ProvisionAccount_def
      EnqueueJob_def EnqueueRemuxJob_def insert_job_def MarkNotDerived_def Let_def
      split: sum.splits option.splits if_splits)[1])+

lemma worker_calm: "calm {} d (run_worker now w d)"
proof (cases w)
  case (W_Purge i)
  have "live_keys (PurgeDeletedAsset d i) \<subseteq> live_keys d"
    by (auto simp: PurgeDeletedAsset_def live_keys_def delete_where_def)
  moreover have "uploads_grow {} d (PurgeDeletedAsset d i)" by (rule uploads_grow_same) (simp add: PurgeDeletedAsset_def)
  ultimately show ?thesis using W_Purge by (simp add: calm_def)
next
  case (W_Backfill i v)
  then show ?thesis
    by (auto simp: BackfillVaultProbe_def backfill_row_def intro!: calm_assets [of _ "\<lambda>r. ar_id r = i" "backfill_row v"])
next
  case (W_ProbeFailed i)
  then show ?thesis
    by (auto simp: MarkProbeFailed_def intro!: calm_assets [of _ "\<lambda>r. ar_id r = i" "\<lambda>r. r\<lparr>ar_probe := ''failed''\<rparr>"])
next
  case (W_ChecksumClaim b)
  have "calm {} d (d\<lparr>db_assets := update_where p (\<lambda>x. x\<lparr>ar_checked_at := Some now\<rparr>) (db_assets d)\<rparr>)" for p
    by (rule calm_assets [of _ p "\<lambda>x. x\<lparr>ar_checked_at := Some now\<rparr>"]) simp_all
  then show ?thesis using W_ChecksumClaim
    by (auto simp: ClaimChecksumCandidate_def commit_def calm_refl split: sum.splits option.splits)
next
  case (W_ChecksumRelease i)
  then show ?thesis
    by (auto simp: ReleaseChecksumClaim_def intro!: calm_assets [of _ "\<lambda>r. ar_id r = i" "\<lambda>r. r\<lparr>ar_checked_at := None\<rparr>"])
next
  case (W_ChecksumVerified i c)
  have "calm {} d (d\<lparr>db_assets := update_where p (set_checksum c) (db_assets d)\<rparr>)" for p
    by (rule calm_assets [of _ p "set_checksum c"]) (simp_all add: set_checksum_def)
  then show ?thesis using W_ChecksumVerified
    by (auto simp: MarkChecksumVerified_def Let_def commit_def calm_refl split: sum.splits if_splits)
next
  case (W_MarkSwept i)
  have "uploads_grow {} d (MarkUploadSwept d now i)"
    by (rule uploads_grow_update [of _ "\<lambda>r. uw_id r = i" "\<lambda>r. r\<lparr>uw_swept := Some now\<rparr>"])
       (simp_all add: MarkUploadSwept_def upload_grows_def)
  moreover have "live_keys (MarkUploadSwept d now i) = live_keys d" by (rule live_same) (simp add: MarkUploadSwept_def)
  ultimately show ?thesis using W_MarkSwept by (simp add: calm_def)
qed ((rule calm_tables; auto simp: ClaimNextJob_def Heartbeat_def CompleteJob_def CompleteJobNoRendition_def FailJob_def
      FailedRenditionForCeiling_def UpsertWorkerHeartbeat_def Let_def commit_def
      split: option.splits sum.splits if_splits)[1])+

lemma operator_calm: "calm {} d (CreateAccount d now a bucket pre)"
  by (rule calm_tables) (simp_all add: CreateAccount_def)

section \<open>What a request changes\<close>

lemma calm_mono: "calm N d d' \<Longrightarrow> N \<subseteq> M \<Longrightarrow> calm M d d'"
  unfolding calm_def uploads_grow_def by blast

lemma commit_calm:
  assumes "commit d e = run_request now A r d" "\<And>i v. r \<noteq> R_FinalizeUpload i v" "new_ids r \<subseteq> N"
  shows "calm N d (commit d e)"
  unfolding assms(1) using calm_mono [OF request_calm [OF assms(2)] assms(3)] .

lemma handlers_calm:
  "calm N d (snd (handleDeleteAsset now cl d i))"
  "calm N d (snd (handleCreateGrant now newID cl d gq))"
  "calm N d (snd (handleRevokeGrant now cl d i))"
  "calm N d (snd (handleCreateExport s now newID cl d eq))"
  "calm N d (snd (handleRevokeExport now cl d i))"
  by (auto simp: handleDeleteAsset_def handleCreateGrant_def handleRevokeGrant_def handleCreateExport_def
      handleRevokeExport_def calm_refl simp del: run_request.simps
      intro: commit_calm [OF commit_is_request(1)] commit_calm [OF commit_is_request(2)]
        commit_calm [OF commit_is_request(3)] commit_calm [OF commit_is_request(4)]
        commit_calm [OF commit_is_request(5)] split: option.splits)

lemma provision_calm: "calm N d (snd (handleProvisionAccount now cl d))"
proof -
  have "calm N d (commit d (ProvisionAccount d now A))" for A
    by (rule commit_calm [OF commit_is_request(6)]) simp_all
  then have "calm N d d'" if "ProvisionAccount d now A = Inr (d', x)" for A d' x
    using that by (metis commit_simps(2))
  then show ?thesis by (auto simp: handleProvisionAccount_def calm_refl split: option.splits sum.splits)
qed

lemma request_rendition_calm: "calm N d (snd (handleRequestRendition now j cl d i req))"
proof -
  have "calm N d (commit d (EnqueueJob d now j (account cl) i n))" for n
    by (rule commit_calm [OF commit_is_request(9)]) simp_all
  then show ?thesis by (auto simp: handleRequestRendition_def calm_refl split: option.splits sum.splits)
qed

lemma create_upload_calm: "calm {newID} d (snd (handleCreateUpload s now newID cl d req0))"
proof (cases req0)
  case None then show ?thesis by (simp add: handleCreateUpload_def calm_refl split: option.split)
next
  case (Some req)
  let ?u = "upload_of_request (account cl) newID req"
  have "calm {newID} d (commit d (CreateUpload d now (account cl) ?u))"
    by (rule commit_calm [OF commit_is_request(7)]) (simp_all add: upload_of_request_def)
  then show ?thesis using Some create_upload_result [of s now newID cl d req] calm_refl [of "{newID}" d] by metis
qed

lemma not_derived_calm: "calm N d (fst (mark_not_derived d i ns))"
proof (induction ns arbitrary: d)
  case (Cons n ns)
  show ?case
  proof (cases "MarkNotDerived d i n")
    case (Inr x)
    obtain d' y where x: "x = (d', y)" by (cases x)
    have "calm N d (commit d (MarkNotDerived d i n))" by (rule commit_calm [OF commit_is_request(11)]) simp_all
    then have "calm N d d'" using Inr x by simp
    then show ?thesis using Cons.IH [of d'] calm_trans Inr x by simp
  qed (simp add: calm_refl)
qed (simp add: calm_refl)

lemma after_finalize_calm: "calm N d (snd (after_finalize now j A up k d i a))"
proof -
  have "calm N d (commit d (EnqueueJob d now j A i Detail))" by (rule commit_calm [OF commit_is_request(9)]) simp_all
  moreover have "snd (after_finalize now j A up k d i a) = d \<or> snd (after_finalize now j A up k d i a) = commit d (EnqueueJob d now j A i Detail)
     \<or> snd (after_finalize now j A up k d i a) = fst (mark_not_derived d i (derivableIntents k))"
    by (auto simp: after_finalize_def commit_def split: sum.splits prod.splits)
  ultimately show ?thesis using not_derived_calm calm_refl by (elim disjE) simp_all
qed

text \<open>A finalize that makes an asset has found the object at the upload's key.\<close>

definition promotes :: "storage option \<Rightarrow> string \<Rightarrow> string \<Rightarrow> db \<Rightarrow> db \<Rightarrow> upload_row \<Rightarrow> bool" where
  "promotes st A i d d' u \<longleftrightarrow> u \<in> set (db_uploads d) \<and> uw_id u = i \<and> uw_account u = A \<and> uw_finalized u = None \<and> uw_rasset u = None
     \<and> (\<exists>s info. st = Some s \<and> st_Head s (uw_key u) = Some info \<and> oi_Exists info)
     \<and> live_keys d' \<subseteq> insert (uw_key u) (live_keys d) \<and> uploads_grow {} d d'"

lemma finalize_promotes:
  assumes "FinalizeUpload d now A i v = Inr (d', a)" "u \<in> set (db_uploads d)" "uw_id u = i" "uw_account u = A"
    "distinct (map uw_id (db_uploads d))"
  shows "d' = d \<or> (uw_finalized u = None \<and> live_keys d' \<subseteq> insert (uw_key u) (live_keys d) \<and> uploads_grow {} d d')"
proof -
  let ?p = "\<lambda>r. uw_account r = A \<and> uw_id r = i"
  have row: "get_row ?p (db_uploads d) = Some u"
    by (rule get_row_by_key [of uw_id]) (use assms in auto)
  show ?thesis
  proof (cases "uw_finalized u = None")
    case False
    then show ?thesis using assms(1) row by (auto simp: FinalizeUpload_def Let_def split: if_splits sum.splits)
  next
    case True
    then have d': "d' = d\<lparr>db_assets := insert_row (asset_of_upload now A u v) (db_assets d),
        db_uploads := update_where ?p (finalize_row now) (db_uploads d)\<rparr>"
      using assms(1) row by (auto simp: FinalizeUpload_def Let_def split: if_splits sum.splits)
    have "uploads_grow {} d d'"
      by (rule uploads_grow_update [of _ ?p "finalize_row now"]) (simp_all add: d' upload_grows_def finalize_row_def)
    moreover have "live_keys d' \<subseteq> insert (uw_key u) (live_keys d)"
      by (auto simp: d' live_keys_def insert_row_def asset_of_upload_def)
    ultimately show ?thesis using True by simp
  qed
qed

lemma upload_of_get:
  assumes "GetUpload d A i = Inr up"
  obtains u where "u \<in> set (db_uploads d)" "uw_account u = A" "uw_id u = i" "u_Key up = uw_key u"
    "u_RenditionAsset up = str_of (uw_rasset u)" "u_RenditionIntent up = str_of (uw_rintent u)"
  using assms by (auto simp: GetUpload_def upload_of_row_def split: option.splits dest!: get_row_Some_iff)

lemma finalize_head:
  assumes "GetUpload d (account cl) i = Inr up" "snd (handleFinalizeUpload s now j cl d i req) \<noteq> d"
  shows "\<exists>st info. sv_storage s = Some st \<and> st_Head st (u_Key up) = Some info \<and> oi_Exists info"
  using assms by (auto simp: handleFinalizeUpload_def split: option.splits if_splits)

lemma finalize_change:
  fixes s :: service
  assumes "reachable d" "uploads_ok d" and d'_def: "d' = snd (handleFinalizeUpload s now j cl d i req)"
  shows "calm {} d d' \<or> (\<exists>u. promotes (sv_storage s) (account cl) i d d' u)"
proof (cases "d' = d")
  case False
  let ?A = "account cl"
  obtain up where up: "GetUpload d ?A i = Inr up" using False
    by (auto simp: d'_def handleFinalizeUpload_def split: option.splits sum.splits if_splits)
  obtain u where u: "u \<in> set (db_uploads d)" "uw_account u = ?A" "uw_id u = i" "u_Key up = uw_key u"
    "u_RenditionAsset up = str_of (uw_rasset u)" "u_RenditionIntent up = str_of (uw_rintent u)"
    using upload_of_get [OF up] by blast
  note head = finalize_head [OF up False [unfolded d'_def], folded d'_def, unfolded u(4)]
  from finalize_result [OF up, of s now j req, folded d'_def] False
  show ?thesis
  proof (elim disjE conjE exE)
    fix n assume "d' = commit d (EnqueueRemuxJob d now j ?A (u_RenditionAsset up) n (u_Key up))"
    then show ?thesis using commit_calm [OF commit_is_request(10), where N = "{}"] by simp
  next
    fix v d1 a
    assume orig: "\<not> (u_RenditionAsset up \<noteq> [] \<and> u_RenditionIntent up \<noteq> [])"
      and fin: "FinalizeUpload d now ?A i v = Inr (d1, a)" and r: "d' = snd (after_finalize now j ?A up (vr_Kind v) d1 i a)"
    have "distinct (map uw_id (db_uploads d))" using reachable_keys [OF assms(1)] by (simp add: keys_ok_def)
    from finalize_promotes [OF fin u(1,3,2) this] show ?thesis
    proof
      assume "d1 = d"
      then show ?thesis using after_finalize_calm r by simp
    next
      assume p: "uw_finalized u = None \<and> live_keys d1 \<subseteq> insert (uw_key u) (live_keys d) \<and> uploads_grow {} d d1"
      have c: "calm {} d1 d'" unfolding r by (rule after_finalize_calm)
      have "uw_rasset u = None" using orig u assms(2) by (auto simp: uploads_ok_def str_of_def split: option.splits)
      moreover have "uploads_grow {} d d'" using p c uploads_grow_trans unfolding calm_def by blast
      moreover have "live_keys d' \<subseteq> insert (uw_key u) (live_keys d)" using p c unfolding calm_def by blast
      ultimately show ?thesis using u p head unfolding promotes_def by blast
    qed
  qed simp
qed (simp add: calm_refl)

lemma dispatch_change:
  assumes "reachable d" "uploads_ok d"
  shows "calm {newID} d (fst (snd (dispatch s now newID cl q (d, c))))
    \<or> (\<exists>i req u. q = C_FinalizeUpload i req \<and> promotes (sv_storage s) (account cl) i d (fst (snd (dispatch s now newID cl q (d, c)))) u)"
proof (cases q)
  case (C_FinalizeUpload i req)
  then show ?thesis using finalize_change [OF assms refl, of s now newID cl i req] calm_mono [of "{}" d _ "{newID}"]
    by (auto simp: keep_cache_def)
qed (use handlers_calm provision_calm request_rendition_calm create_upload_calm calm_refl in
    \<open>simp_all add: keep_cache_def keep_db_def\<close>)

section \<open>The deployment\<close>

text \<open>
  The state is the objects, the server's database and grant cache, the keys some sweep has listed
  for deletion, and the latest cutoff of an orphan listing. \<open>timely\<close> says that a finalize is
  not asked for an upload that is already older than that cutoff. Worker operations are any store
  operation of a worker, and writes of any bytes at any key.
\<close>

type_synonym deployment = "objects \<times> server \<times> string set \<times> time"

fun timely :: "time \<Rightarrow> db \<Rightarrow> call \<Rightarrow> bool" where
  "timely h d (C_FinalizeUpload i req) \<longleftrightarrow> (\<forall>u \<in> set (db_uploads d). uw_id u = i \<longrightarrow> h \<le> uw_created u)"
| "timely h d _ \<longleftrightarrow> True"

definition with_s3 :: "service \<Rightarrow> 'w s3 \<Rightarrow> (string \<Rightarrow> image_config option) \<Rightarrow> 'w \<Rightarrow> time \<Rightarrow> service" where
  "with_s3 svc s decode w now = svc\<lparr>sv_storage := Some (s3_storage s decode w now)\<rparr>"

inductive ingest :: "'k jwt_lib \<Rightarrow> 'k verifier \<Rightarrow> service \<Rightarrow> 'w s3 \<Rightarrow> (string \<Rightarrow> image_config option) \<Rightarrow> deployment \<Rightarrow> deployment \<Rightarrow> bool"
  for lib v svc s decode where
  http: "newID \<noteq> [] \<Longrightarrow> CHR ''/'' \<notin> set newID \<Longrightarrow> \<not> has_asset_id d newID \<Longrightarrow> serves_objects s w obs \<Longrightarrow> timely h d q \<Longrightarrow>
    serve lib v (with_s3 svc s decode w now) now newID hdr q (d, c) = (resp, st) \<Longrightarrow>
    ingest lib v svc s decode (obs, (d, c), D, h) (obs, st, D, h)"
| downloaded: "handleDownload (with_s3 svc s decode w now) now d c key rawQuery = (answer, c') \<Longrightarrow>
    ingest lib v svc s decode (obs, (d, c), D, h) (obs, (d, c'), D, h)"
| worked: "ingest lib v svc s decode (obs, (d, c), D, h) (obs, (run_worker now op d, c), D, h)"
| operated: "ingest lib v svc s decode (obs, (d, c), D, h) (obs, (CreateAccount d now a bucket pre, c), D, h)"
| stored: "ingest lib v svc s decode (obs, st, D, h) (obs(k \<mapsto> bytes), st, D, h)"
| list_orphans: "us = ReclaimableUploads d cutoff n \<Longrightarrow>
    ingest lib v svc s decode (obs, (d, c), D, h) (obs, (d, c), D \<union> u_Key ` set us, max h cutoff)"
| list_deleted: "as = ReclaimableDeletedAssets d cutoff n \<Longrightarrow>
    ingest lib v svc s decode (obs, (d, c), D, h) (obs, (d, c), D \<union> da_VaultKey ` set as, h)"
| removed: "k \<in> D \<Longrightarrow> ingest lib v svc s decode (obs, st, D, h) (obs(k := None), st, D, h)"

definition deployed :: "deployment \<Rightarrow> bool" where
  "deployed s \<longleftrightarrow> s = (Map.empty, (empty_db, Map.empty), {}, 0)"

text \<open>A pass of either sweep is a listing followed by removals and marks, as single steps.\<close>

lemma sweep_pass_runs:
  assumes "SweepOnce io r now obs d = (n, obs', d')"
  shows "(ingest lib v svc s decode)\<^sup>*\<^sup>* (obs, (d, c), D, h)
    (obs', (d', c), D \<union> u_Key ` set (ReclaimableUploads d (now - rn_grace r) (rn_batchSize r)), max h (now - rn_grace r))"
proof -
  let ?us = "ReclaimableUploads d (now - rn_grace r) (rn_batchSize r)"
  let ?st = "\<lambda>obs d. (obs, (d, c), D \<union> u_Key ` set ?us, max h (now - rn_grace r))"
  let ?run = "(ingest lib v svc s decode)\<^sup>*\<^sup>*"
  have start: "?run (obs, (d, c), D, h) (?st obs d)" by (rule r_into_rtranclp, rule ingest.list_orphans) (rule refl)
  show ?thesis
  proof (rule upload_sweep.keeps [where Q = "\<lambda>obs' d'. ?run (obs, (d, c), D, h) (?st obs' d')"])
    show "sweep_uploads io now ?us 0 obs d = (n, obs', d')" using assms by (simp add: SweepOnce_def)
    fix u obs1 d1 assume "u \<in> set ?us" "?run (obs, (d, c), D, h) (?st obs1 d1)"
    moreover from this(1) have "ingest lib v svc s decode (?st obs1 d1) (?st (obs1(u_Key u := None)) d1)"
      by (intro ingest.removed) simp
    moreover have "ingest lib v svc s decode (?st (obs1(u_Key u := None)) d1) (?st (obs1(u_Key u := None)) (MarkUploadSwept d1 now (u_ID u)))"
      using ingest.worked [where op = "W_MarkSwept (u_ID u)"] by simp
    ultimately show "?run (obs, (d, c), D, h) (?st (obs1(u_Key u := None)) (MarkUploadSwept d1 now (u_ID u)))"
      by (meson rtranclp.rtrancl_into_rtrancl)
  qed (rule start)
qed

lemma deleted_pass_runs:
  assumes "SweepDeletedAssets io r now obs d = (n, obs', d')"
  shows "(ingest lib v svc s decode)\<^sup>*\<^sup>* (obs, (d, c), D, h)
    (obs', (d', c), D \<union> da_VaultKey ` set (ReclaimableDeletedAssets d (now - rn_grace r) (rn_batchSize r)), h)"
proof -
  let ?as = "ReclaimableDeletedAssets d (now - rn_grace r) (rn_batchSize r)"
  let ?st = "\<lambda>obs d. (obs, (d, c), D \<union> da_VaultKey ` set ?as, h)"
  let ?run = "(ingest lib v svc s decode)\<^sup>*\<^sup>*"
  have start: "?run (obs, (d, c), D, h) (?st obs d)" by (rule r_into_rtranclp, rule ingest.list_deleted) (rule refl)
  show ?thesis
  proof (rule deleted_sweep.keeps [where Q = "\<lambda>obs' d'. ?run (obs, (d, c), D, h) (?st obs' d')"])
    show "sweep_deleted io ?as 0 obs d = (n, obs', d')" using assms by (simp add: SweepDeletedAssets_def)
    fix a obs1 d1 assume "a \<in> set ?as" "?run (obs, (d, c), D, h) (?st obs1 d1)"
    moreover from this(1) have "ingest lib v svc s decode (?st obs1 d1) (?st (obs1(da_VaultKey a := None)) d1)"
      by (intro ingest.removed) simp
    moreover have "ingest lib v svc s decode (?st (obs1(da_VaultKey a := None)) d1) (?st (obs1(da_VaultKey a := None)) (PurgeDeletedAsset d1 (da_ID a)))"
      using ingest.worked [where op = "W_Purge (da_ID a)"] by simp
    ultimately show "?run (obs, (d, c), D, h) (?st (obs1(da_VaultKey a := None)) (PurgeDeletedAsset d1 (da_ID a)))"
      by (meson rtranclp.rtrancl_into_rtrancl)
  qed (rule start)
qed

section \<open>The invariant of the deployment\<close>

definition ids_plain :: "db \<Rightarrow> bool" where
  "ids_plain d \<longleftrightarrow> (\<forall>u \<in> set (db_uploads d). CHR ''/'' \<notin> set (uw_id u))"

definition listed_ok :: "db \<Rightarrow> string set \<Rightarrow> time \<Rightarrow> bool" where
  "listed_ok d D h \<longleftrightarrow> (\<forall>k \<in> D. \<exists>u \<in> set (db_uploads d). uw_key u = k \<and> (uw_finalized u = None \<longrightarrow> uw_created u < h))"

fun deployment_ok :: "deployment \<Rightarrow> bool" where
  "deployment_ok (obs, (d, c), D, h) \<longleftrightarrow> reachable d \<and> uploads_ok d \<and> ids_plain d
     \<and> live_keys d \<subseteq> dom obs \<and> D \<inter> live_keys d = {} \<and> listed_ok d D h"

lemma ids_plain_grow:
  assumes "uploads_grow N d d'" "ids_plain d" "\<forall>i \<in> N. CHR ''/'' \<notin> set i"
  shows "ids_plain d'"
proof -
  have "\<forall>i \<in> uw_id ` set (db_uploads d) \<union> N. CHR ''/'' \<notin> set i" using assms(2,3) by (auto simp: ids_plain_def)
  then show ?thesis using assms(1) by (auto simp: uploads_grow_def ids_plain_def)
qed

lemma listed_ok_grow:
  assumes "uploads_grow N d d'" "listed_ok d D h"
  shows "listed_ok d' D h"
  unfolding listed_ok_def
proof
  fix k assume "k \<in> D"
  then obtain u where u: "u \<in> set (db_uploads d)" "uw_key u = k" "uw_finalized u = None \<longrightarrow> uw_created u < h"
    using assms(2) by (auto simp: listed_ok_def)
  obtain v where "v \<in> set (db_uploads d')" "upload_grows u v" using assms(1) u(1) by (auto simp: uploads_grow_def)
  then show "\<exists>v \<in> set (db_uploads d'). uw_key v = k \<and> (uw_finalized v = None \<longrightarrow> uw_created v < h)"
    using u(2,3) by (intro bexI [of _ v]) (auto simp: upload_grows_def)
qed

lemma vault_key_plain:
  assumes "CHR ''/'' \<notin> set i" "CHR ''/'' \<notin> set j" "VaultKey a i = VaultKey b j"
  shows "i = j"
proof -
  have "takeWhile (\<lambda>c. c \<noteq> CHR ''/'') (rev (VaultKey a i)) = rev i" if i: "CHR ''/'' \<notin> set i" for a i
  proof -
    have "rev (VaultKey a i) = rev i @ CHR ''/'' # rev (VaultPrefix @ a)" by (simp add: VaultKey_def)
    moreover have "\<forall>c \<in> set (rev i). c \<noteq> CHR ''/''" using i by auto
    ultimately show ?thesis using takeWhile_append2 [of "rev i" "\<lambda>c. c \<noteq> CHR ''/''"] by simp
  qed
  from this [OF assms(1), of a] this [OF assms(2), of b] show ?thesis using assms(3) by simp
qed

text \<open>Two originals at one key are one upload.\<close>

lemma original_unique:
  assumes "reachable d" "ids_plain d" "u \<in> set (db_uploads d)" "v \<in> set (db_uploads d)" "uw_key u = uw_key v" "uw_rasset v = None"
  shows "u = v"
proof -
  have v: "uw_key v = VaultKey (uw_account v) (uw_id v)" using reachable_upload_key [OF assms(1,4)] assms(6) by simp
  then have "uw_rasset u = None"
    using reachable_upload_key [OF assms(1,3)] assms(5) vault_staging_disjoint by (auto split: option.splits)
  then have "VaultKey (uw_account u) (uw_id u) = VaultKey (uw_account v) (uw_id v)"
    using reachable_upload_key [OF assms(1,3)] v assms(5) by simp
  then have "uw_id u = uw_id v" using vault_key_plain assms(2-4) by (simp add: ids_plain_def)
  then show ?thesis using assms(1,3,4) reachable_keys distinct_key_eq [of uw_id "db_uploads d" u v] by (simp add: keys_ok_def)
qed

lemma live_original:
  assumes "reachable d" "k \<in> live_keys d"
  obtains a u where "a \<in> set (db_assets d)" "ar_deleted a = None" "ar_vault_key a = k" "u \<in> set (db_uploads d)" "uw_key u = k"
    "uw_id u = ar_id a" "uw_rasset u = None" "uw_finalized u \<noteq> None"
proof -
  obtain a where a: "a \<in> set (db_assets d)" "ar_deleted a = None" "ar_vault_key a = k" using assms(2) by (auto simp: live_keys_def)
  obtain u where u: "u \<in> set (db_uploads d)" "own_upload (ar_account a) (ar_id a) u" "uw_finalized u \<noteq> None" "uw_key u = ar_vault_key a"
    using reachable_asset_upload [OF assms(1) a(1)] by blast
  moreover have "uw_rasset u = None" "uw_id u = ar_id a" using u(2) by (auto simp: own_upload_def)
  ultimately show ?thesis using a that by blast
qed

lemma orphans_not_live:
  assumes "reachable d" "ids_plain d"
  shows "u_Key ` set (ReclaimableUploads d cutoff n) \<inter> live_keys d = {}"
proof (rule ccontr)
  assume "\<not> ?thesis"
  then obtain r where r: "r \<in> set (db_uploads d)" "uw_finalized r = None" "uw_key r \<in> live_keys d"
    using reclaimable_uploads by fastforce
  obtain u where "u \<in> set (db_uploads d)" "uw_key u = uw_key r" "uw_rasset u = None" "uw_finalized u \<noteq> None"
    using live_original [OF assms(1) r(3)] by metis
  then show False using original_unique [OF assms r(1)] r(2) by metis
qed

lemma deleted_not_live:
  assumes "reachable d" "ids_plain d"
  shows "da_VaultKey ` set (ReclaimableDeletedAssets d cutoff n) \<inter> live_keys d = {}"
proof (rule ccontr)
  assume "\<not> ?thesis"
  then obtain r where r: "r \<in> set (db_assets d)" "ar_deleted r \<noteq> None" "ar_vault_key r \<in> live_keys d"
    using reclaimable_assets by fastforce
  obtain a u where a: "a \<in> set (db_assets d)" "ar_deleted a = None" "u \<in> set (db_uploads d)" "uw_key u = ar_vault_key r"
    "uw_id u = ar_id a" "uw_rasset u = None"
    using live_original [OF assms(1) r(3)] by metis
  obtain w where w: "w \<in> set (db_uploads d)" "own_upload (ar_account r) (ar_id r) w" "uw_key w = ar_vault_key r"
    using reachable_asset_upload [OF assms(1) r(1)] by blast
  have "w = u" using original_unique [OF assms w(1) a(3)] w(3) a(4,6) by simp
  then have "ar_id r = ar_id a" using w(2) a(5) by (simp add: own_upload_def)
  then have "r = a" using assms(1) r(1) a(1) reachable_keys distinct_key_eq [of ar_id "db_assets d" r a] by (simp add: keys_ok_def)
  then show False using r(2) a(2) by simp
qed

lemma calm_deployment:
  assumes "deployment_ok (obs, (d, c), D, h)" "calm N d d'" "reachable d'" "uploads_ok d'" "\<forall>i \<in> N. CHR ''/'' \<notin> set i"
  shows "deployment_ok (obs, (d', c'), D, h)"
  using assms ids_plain_grow [of N d d'] listed_ok_grow [of N d d' D h] unfolding calm_def by auto

text \<open>A promotion finds the object, and its key is on no list: the upload there is the promoted one.\<close>

lemma promoted_deployment:
  assumes ok: "deployment_ok (obs, (d, c), D, h)" and p: "promotes (Some (s3_storage s decode w now)) A i d d' u"
    and sees: "serves_objects s w obs" and t: "h \<le> uw_created u" and d': "reachable d'" "uploads_ok d'"
  shows "deployment_ok (obs, (d', c'), D, h)"
proof -
  have u: "u \<in> set (db_uploads d)" "uw_finalized u = None" "uw_rasset u = None" "uploads_grow {} d d'"
    and live: "live_keys d' \<subseteq> insert (uw_key u) (live_keys d)"
    using p by (simp_all add: promotes_def)
  obtain info where "st_Head (s3_storage s decode w now) (uw_key u) = Some info" "oi_Exists info"
    using p by (auto simp: promotes_def)
  then have "Head s w (uw_key u) = Inr info" "oi_Exists info" by (auto simp: s3_storage_def split: sum.splits)
  then have there: "obs (uw_key u) \<noteq> None" using Head_exists [OF sees] by (cases "obs (uw_key u)") fastforce+
  have "uw_key u \<notin> D"
  proof
    assume "uw_key u \<in> D"
    then obtain v where v: "v \<in> set (db_uploads d)" "uw_key v = uw_key u" "uw_finalized v = None \<longrightarrow> uw_created v < h"
      using ok by (auto simp: listed_ok_def)
    have "v = u" using original_unique [of d v u] ok v(1,2) u(1,3) by simp
    then show False using v(3) u(2) t by simp
  qed
  then have "D \<inter> live_keys d' = {}" "live_keys d' \<subseteq> dom obs" using ok live there by auto
  moreover have "ids_plain d'" by (rule ids_plain_grow [OF u(4)]) (use ok in simp_all)
  moreover have "listed_ok d' D h" by (rule listed_ok_grow [OF u(4)]) (use ok in simp)
  ultimately show ?thesis using d' by simp
qed

lemma http_deployment:
  assumes ok: "deployment_ok (obs, (d, c), D, h)" and new: "newID \<noteq> []" "CHR ''/'' \<notin> set newID" "\<not> has_asset_id d newID"
    and sees: "serves_objects s w obs" and t: "timely h d q"
    and run: "serve lib v (with_s3 svc s decode w now) now newID hdr q (d, c) = (resp, d', c')"
  shows "deployment_ok (obs, (d', c'), D, h)"
proof (cases "Middleware lib v hdr")
  case (AO_Next cl)
  have d: "reachable d" "uploads_ok d" using ok by simp_all
  have steps: "(account_step (cl_account cl))\<^sup>*\<^sup>* d d'"
    using serve_steps [OF d new(1,3) run] AO_Next by simp
  have d': "reachable d'" "uploads_ok d'" using account_steps_reachable [OF steps d] by simp_all
  have e: "d' = fst (snd (dispatch (with_s3 svc s decode w now) now newID (Some cl) q (d, c)))"
    using run AO_Next by (simp add: serve_def)
  from dispatch_change [OF d, of newID "with_s3 svc s decode w now" now "Some cl" q c, folded e] show ?thesis
  proof (elim disjE exE conjE)
    assume "calm {newID} d d'"
    then show ?thesis by (rule calm_deployment [OF ok _ d']) (use new(2) in simp)
  next
    fix i req u assume q: "q = C_FinalizeUpload i req"
      and p: "promotes (sv_storage (with_s3 svc s decode w now)) (account (Some cl)) i d d' u"
    show ?thesis
    proof (rule promoted_deployment [OF ok _ sees _ d'])
      show "promotes (Some (s3_storage s decode w now)) (account (Some cl)) i d d' u" using p by (simp add: with_s3_def)
      show "h \<le> uw_created u" using t q p by (simp add: promotes_def)
    qed
  qed
qed (use ok run in \<open>simp_all add: serve_def\<close>)

lemma listed_ok_more:
  assumes "listed_ok d D h" "h \<le> h'" "\<And>k. k \<in> E \<Longrightarrow> \<exists>u \<in> set (db_uploads d). uw_key u = k \<and> (uw_finalized u = None \<longrightarrow> uw_created u < h')"
  shows "listed_ok d (D \<union> E) h'"
  using assms unfolding listed_ok_def by (metis Un_iff order_less_le_trans)

lemma deployment_step:
  assumes "ingest lib v svc s decode x y" "deployment_ok x"
  shows "deployment_ok y"
  using assms
proof (induction rule: ingest.induct)
  case (http newID d w obs h q now hdr c resp st D)
  then show ?case using http_deployment [of obs d c D h newID s w q lib v svc decode now hdr resp "fst st" "snd st"] by simp
next
  case (worked obs d c D h now op)
  have "reachable (run_worker now op d)" using worked reachable.step [OF _ store_step.worker] by simp
  moreover have "uploads_ok (run_worker now op d)" using worked uploads_ok_worker by simp
  ultimately show ?case by (rule calm_deployment [OF worked worker_calm]) simp
next
  case (operated obs d c D h now a bucket pre)
  have "reachable (CreateAccount d now a bucket pre)" using operated reachable.step [OF _ store_step.operator] by simp
  moreover have "uploads_ok (CreateAccount d now a bucket pre)" using operated uploads_ok_operator by simp
  ultimately show ?case by (rule calm_deployment [OF operated operator_calm]) simp
next
  case (stored obs st D h k bytes)
  then show ?case by (cases st) auto
next
  case (list_orphans us d cutoff n obs c D h)
  have "listed_ok d (D \<union> u_Key ` set us) (max h cutoff)"
    by (rule listed_ok_more [of d D h]) (use list_orphans reclaimable_uploads in \<open>fastforce+\<close>)
  moreover have "u_Key ` set us \<inter> live_keys d = {}" using orphans_not_live list_orphans by simp
  ultimately show ?case using list_orphans by auto
next
  case (list_deleted as d cutoff n obs c D h)
  have "\<exists>u \<in> set (db_uploads d). uw_key u = k \<and> (uw_finalized u = None \<longrightarrow> uw_created u < h)" if k: "k \<in> da_VaultKey ` set as" for k
  proof -
    obtain x where "x \<in> set as" "k = da_VaultKey x" using k by blast
    then obtain r where "r \<in> set (db_assets d)" "ar_vault_key r = k"
      using reclaimable_assets [of x d cutoff n] list_deleted(1) by auto
    then show ?thesis using reachable_asset_upload [of d r] list_deleted(2) by fastforce
  qed
  then have "listed_ok d (D \<union> da_VaultKey ` set as) h" using listed_ok_more [of d D h h] list_deleted by simp
  moreover have "da_VaultKey ` set as \<inter> live_keys d = {}" using deleted_not_live list_deleted by simp
  ultimately show ?case using list_deleted by auto
next
  case (removed k D obs st h)
  then show ?case by (cases st) auto
qed simp

lemma deployed_ok:
  assumes "(ingest lib v svc s decode)\<^sup>*\<^sup>* (Map.empty, (empty_db, Map.empty), {}, h0) x"
  shows "deployment_ok x"
  using assms
proof (induction rule: rtranclp_induct)
  case base
  then show ?case using reachable.init by (simp add: uploads_ok_def ids_plain_def live_keys_def listed_ok_def empty_db_def)
qed (rule deployment_step)

text \<open>C8: What the vault promises, across the service, the object store and housekeeping: whenever an
  asset is answered that is not deleted, its original is there. For every interleaving of requests
  through the S3 storage, downloads, worker and operator operations, writes of anything to the
  store, and the listings, deletions and marks of any number of concurrent sweeps; as long as no
  finalize is asked for an upload older than the cutoff of an orphan listing that was taken.\<close>
theorem live_original_exists:
  assumes "(ingest lib v svc s decode)\<^sup>*\<^sup>* (Map.empty, (empty_db, Map.empty), {}, h0) (obs, (d, c), D, h)"
    "GetAsset d A i = Inr a" "asset_DeletedAt a = None"
  shows "asset_Account a = A \<and> asset_Id a = i \<and> obs (vo_Key (asset_Vault a)) \<noteq> None"
proof -
  have live: "live_keys d \<subseteq> dom obs" using deployed_ok [OF assms(1)] by simp
  obtain r where "r \<in> set (db_assets d)" "asset_is A i r" "a = (scanAssetRow d r)\<lparr>asset_Renditions := renditionsFor d i\<rparr>"
    using assms(2) by (auto simp: GetAsset_def scanAsset_def Let_def scanAssetRow_def asset_is_def split: option.splits dest!: get_row_Some_iff)
  then show ?thesis using live assms(3) by (auto simp: live_keys_def scanAssetRow_def asset_is_def)
qed

section \<open>A concrete deployment\<close>

definition demo_aws :: "objects aws_client" where
  "demo_aws = \<lparr>aws_presign_put = \<lambda>_ _. Some \<lparr>pq_URL = ''https://s3.io/put'', pq_Method = ''PUT'', pq_SignedHeader = []\<rparr>,
     aws_presign_get = \<lambda>_ _ _. Some \<lparr>pq_URL = ''https://s3.io/get'', pq_Method = ''GET'', pq_SignedHeader = []\<rparr>,
     aws_head = \<lambda>w _ k. (case w k of
        None \<Rightarrow> Inl \<lparr>ae_NoSuchKey = False, ae_NotFound = True, ae_Code = None, ae_BucketAlreadyOwnedByYou = False, ae_BucketAlreadyExists = False\<rparr>
      | Some bytes \<Rightarrow> Inr \<lparr>ho_ContentLength = Some (int (length bytes)), ho_ContentType = None, ho_ETag = None\<rparr>),
     aws_get = \<lambda>w _ k _. (case w k of
        None \<Rightarrow> Inl \<lparr>ae_NoSuchKey = True, ae_NotFound = False, ae_Code = None, ae_BucketAlreadyOwnedByYou = False, ae_BucketAlreadyExists = False\<rparr>
      | Some bytes \<Rightarrow> Inr bytes),
     aws_put = \<lambda>w i body. (None, w(pi_Key i \<mapsto> body)), aws_delete = \<lambda>w _ k. (None, w(k := None)),
     aws_create_bucket = \<lambda>w _. (None, w)\<rparr>"

definition demo_s3 :: "objects s3" where
  "demo_s3 = \<lparr>s3_client = demo_aws, s3_bucket = ''media''\<rparr>"

lemma demo_serves: "serves_objects demo_s3 w w"
  by (simp add: serves_objects_def demo_s3_def demo_aws_def split: option.split)

definition pdf_request :: upload_request where
  "pdf_request = \<lparr>ur_ContentType = ''application/pdf'', ur_Filename = None, ur_Rendition = None, ur_SizeBytes = 4, ur_SkipDerivations = None\<rparr>"

definition pdf_service :: "objects \<Rightarrow> time \<Rightarrow> service" where
  "pdf_service obs now = with_s3 demo_service demo_s3 (\<lambda>_. None) obs now"

definition pdf_key :: string where "pdf_key = VaultKey ''reg_b'' ''U1''"

definition pdf_db0 :: db where "pdf_db0 = CreateAccount empty_db 0 ''reg_b'' [] []"

definition pdf_db1 :: db where
  "pdf_db1 = fst (snd (serve demo_lib demo_verifier (pdf_service Map.empty 10) 10 ''U1'' ''Bearer reg_b'' (C_CreateUpload (Some pdf_request)) (pdf_db0, Map.empty)))"

definition pdf_db2 :: db where
  "pdf_db2 = fst (snd (serve demo_lib demo_verifier (pdf_service [pdf_key \<mapsto> ''%PDF''] 20) 20 ''N2'' ''Bearer reg_b'' (C_FinalizeUpload ''U1'' (Some ''md5:0'')) (pdf_db1, Map.empty)))"

lemma pdf_db1_eval: "pdf_db1 = pdf_db0\<lparr>db_uploads :=
    [\<lparr>uw_id = ''U1'', uw_account = ''reg_b'', uw_key = pdf_key, uw_ctype = ''application/pdf'', uw_size = 4, uw_filename = None,
      uw_created = 10, uw_finalized = None, uw_swept = None, uw_skip = False, uw_rasset = None, uw_rintent = None\<rparr>]\<rparr>"
  by (simp add: pdf_db1_def pdf_db0_def serve_def demo_middleware keep_cache_def handleCreateUpload_def scopeCheck_def HasScope_def
      demo_claims_def pdf_service_def with_s3_def s3_storage_def pdf_request_def demo_service_def PresignPut_def put_object_input_def
      demo_s3_def demo_aws_def CreateUpload_def CreateAccount_def empty_db_def table_defs has_account_def upload_of_request_def
      new_upload_key_def account_def pdf_key_def nullStr_def str_of_def Let_def second_def)

definition pdf_row :: asset_row where
  "pdf_row = \<lparr>ar_id = ''U1'', ar_account = ''reg_b'', ar_kind = Document, ar_filename = None,
      ar_vault_key = pdf_key, ar_checksum = [], ar_size = 4, ar_width = None,
      ar_height = None, ar_dur = None, ar_codec = None, ar_container = None, ar_created = 20,
      ar_deleted = None, ar_probe = ''ready'', ar_verified = False, ar_checked_at = None\<rparr>"

lemma pdf_db2_assets: "db_assets pdf_db2 = [pdf_row]"
  by (simp add: pdf_db2_def pdf_db1_eval pdf_db0_def serve_def demo_middleware keep_cache_def handleFinalizeUpload_def scopeCheck_def
      HasScope_def demo_claims_def pdf_service_def with_s3_def s3_storage_def demo_service_def Head_def demo_s3_def demo_aws_def
      FinalizeUpload_def GetUpload_def CreateAccount_def empty_db_def table_defs has_account_def has_asset_id_def
      account_def str_of_def Let_def upload_of_row_def vault_record_of_def kindFromContentType_def
      verifyChecksumFromETag_def trim_quotes_def asset_of_upload_def finalize_row_def getAssetTx_def asset_is_def
      after_finalize_def pdf_row_def has_prefix_def)

lemma pdf_run:
  "\<exists>c. (ingest demo_lib demo_verifier demo_service demo_s3 (\<lambda>_. None))\<^sup>*\<^sup>* (Map.empty, (empty_db, Map.empty), {}, 0)
     ([pdf_key \<mapsto> ''%PDF''], (pdf_db2, c), {}, 0)"
proof -
  let ?i = "ingest demo_lib demo_verifier demo_service demo_s3 (\<lambda>_. None)"
  let ?q1 = "serve demo_lib demo_verifier (pdf_service Map.empty 10) 10 ''U1'' ''Bearer reg_b'' (C_CreateUpload (Some pdf_request)) (pdf_db0, Map.empty)"
  let ?q2 = "serve demo_lib demo_verifier (pdf_service [pdf_key \<mapsto> ''%PDF''] 20) 20 ''N2'' ''Bearer reg_b'' (C_FinalizeUpload ''U1'' (Some ''md5:0''))"
  have s0: "?i (Map.empty, (empty_db, Map.empty), {}, 0) (Map.empty, (pdf_db0, Map.empty), {}, 0)"
    unfolding pdf_db0_def by (rule ingest.operated)
  have s1: "?i (Map.empty, (pdf_db0, Map.empty), {}, 0) (Map.empty, snd ?q1, {}, 0)"
    by (rule ingest.http [where newID = "''U1''" and w = Map.empty and now = 10 and hdr = "''Bearer reg_b''" and resp = "fst ?q1"
          and q = "C_CreateUpload (Some pdf_request)"])
       (simp_all add: demo_serves pdf_db0_def pdf_service_def has_asset_id_def table_defs CreateAccount_def empty_db_def)
  obtain c where c: "snd ?q1 = (pdf_db1, c)" unfolding pdf_db1_def by (metis prod.collapse)
  have s2: "?i (Map.empty, (pdf_db1, c), {}, 0) ([pdf_key \<mapsto> ''%PDF''], (pdf_db1, c), {}, 0)" by (rule ingest.stored)
  have s3: "?i ([pdf_key \<mapsto> ''%PDF''], (pdf_db1, c), {}, 0) ([pdf_key \<mapsto> ''%PDF''], snd (?q2 (pdf_db1, c)), {}, 0)"
    by (rule ingest.http [where newID = "''N2''" and w = "[pdf_key \<mapsto> ''%PDF'']" and now = 20 and hdr = "''Bearer reg_b''"
          and resp = "fst (?q2 (pdf_db1, c))" and q = "C_FinalizeUpload ''U1'' (Some ''md5:0'')"])
       (simp_all add: demo_serves pdf_db1_eval pdf_db0_def pdf_service_def has_asset_id_def table_defs CreateAccount_def empty_db_def)
  have "fst (snd (?q2 (pdf_db1, c))) = pdf_db2" unfolding pdf_db2_def by (simp add: serve_def demo_middleware keep_cache_def)
  then have "snd (?q2 (pdf_db1, c)) = (pdf_db2, snd (snd (?q2 (pdf_db1, c))))" by (metis prod.collapse)
  then have "?i\<^sup>*\<^sup>* (Map.empty, (empty_db, Map.empty), {}, 0) ([pdf_key \<mapsto> ''%PDF''], (pdf_db2, snd (snd (?q2 (pdf_db1, c)))), {}, 0)"
    using s0 s1 [unfolded c] s2 s3 by (auto intro: rtranclp.rtrancl_into_rtrancl)
  then show ?thesis by blast
qed

lemma live_original_exists_witness:
  "(case GetAsset pdf_db2 ''reg_b'' ''U1'' of Inl e \<Rightarrow> False
    | Inr a \<Rightarrow> asset_DeletedAt a = None \<and> [pdf_key \<mapsto> ''%PDF''] (vo_Key (asset_Vault a)) \<noteq> None)"
proof -
  obtain c where run: "(ingest demo_lib demo_verifier demo_service demo_s3 (\<lambda>_. None))\<^sup>*\<^sup>* (Map.empty, (empty_db, Map.empty), {}, 0)
     ([pdf_key \<mapsto> ''%PDF''], (pdf_db2, c), {}, 0)" using pdf_run by blast
  obtain a where a: "GetAsset pdf_db2 ''reg_b'' ''U1'' = Inr a" "asset_DeletedAt a = None"
    by (simp add: GetAsset_def pdf_db2_assets table_defs asset_is_def pdf_row_def scanAsset_def scanAssetRow_def Let_def)
  show ?thesis using live_original_exists [OF run a] a by simp
qed

section \<open>Finalizing what a sweep has listed\<close>

context sweep_pass
begin

lemma marks:
  "pass io rs n obs d = (m, obs', d') \<Longrightarrow> r \<in> set rs \<Longrightarrow> io_delete io (key r) \<Longrightarrow> (\<And>d. P (mark r d))
     \<Longrightarrow> (\<And>q d. P d \<Longrightarrow> P (mark q d)) \<Longrightarrow> P d'"
proof (induction rs arbitrary: n obs d)
  case (Cons q rs)
  show ?case
  proof (cases "q = r")
    case True
    then have "pass io rs (Suc n) (obs(key r := None)) (mark r d) = (m, obs', d')" using Cons.prems by (simp add: pass_cons)
    then show ?thesis by (rule rows) (use Cons.prems(4,5) in simp_all)
  next
    case False
    then have r: "r \<in> set rs" using Cons.prems(2) by simp
    show ?thesis using Cons.prems(1) Cons.IH [OF _ r Cons.prems(3-5)] by (simp add: pass_cons split: if_splits)
  qed
qed simp

end

lemma update_where_keeps_row: "\<exists>z \<in> set t. p z \<Longrightarrow> (\<And>z. p z \<Longrightarrow> p (f z)) \<Longrightarrow> \<exists>z \<in> set (update_where q f t). p z"
  by (auto simp: update_where_def)

text \<open>C39: A sweep is not safe to run beside ingest: an upload that a pass has listed can still be
  finalized, with 201 and a live asset, before the pass comes to delete it; the pass then deletes
  the new asset's original and marks its upload swept. The asset stays live and answers as if it
  were there, while finalizing again is refused as gone.\<close>
theorem sweep_races_finalize:
  assumes "reachable d" "u \<in> set (ReclaimableUploads d cutoff n)"
    "FinalizeUpload d now A (u_ID u) v = Inr (d1, a)" "io_delete io (u_Key u)"
    "sweep_uploads io t (ReclaimableUploads d cutoff n) 0 obs d1 = (m, obs', d')"
  shows "(\<exists>b. GetAsset d' A (u_ID u) = Inr b \<and> asset_DeletedAt b = None \<and> obs' (vo_Key (asset_Vault b)) = None)
    \<and> FinalizeUpload d' later A (u_ID u) v' = Inl ErrUploadGone"
proof -
  obtain r where r: "r \<in> set (db_uploads d)" "u_ID u = uw_id r" "u_Key u = uw_key r" "uw_finalized r = None" "uw_swept r = None"
    using reclaimable_uploads [OF assms(2)] by blast
  let ?p = "\<lambda>x. uw_account x = A \<and> uw_id x = u_ID u"
  have dist: "distinct (map uw_id (db_uploads d))" using reachable_keys [OF assms(1)] by (simp add: keys_ok_def)
  obtain x where x: "get_row ?p (db_uploads d) = Some x"
    using assms(3) by (auto simp: FinalizeUpload_def Let_def split: option.splits)
  then have "x = r" using get_row_Some_iff [OF x] r(1,2) dist distinct_key_eq [of uw_id "db_uploads d" x r] by simp
  then have row: "get_row ?p (db_uploads d) = Some r" and A: "uw_account r = A" using x get_row_Some_iff [OF x] by auto
  then have d1: "d1 = d\<lparr>db_assets := insert_row (asset_of_upload now A r v) (db_assets d),
      db_uploads := update_where ?p (finalize_row now) (db_uploads d)\<rparr>" and new: "\<not> has_asset_id d (u_ID u)"
    using assms(3) r by (auto simp: FinalizeUpload_def Let_def split: if_splits sum.splits)
  have "get_row (asset_is A (u_ID u)) (db_assets d) = None"
    using new by (auto simp: get_row_None_iff has_asset_id_def has_row_iff asset_is_def)
  then have "get_row (asset_is A (u_ID u)) (db_assets d') = Some (asset_of_upload now A r v)"
    using sweep_uploads_assets [OF assms(5)] r(2) by (simp add: d1 get_row_insert_row asset_is_def asset_of_upload_def)
  then obtain b where b: "GetAsset d' A (u_ID u) = Inr b" "asset_DeletedAt b = None" "vo_Key (asset_Vault b) = uw_key r"
    by (simp add: GetAsset_def scanAsset_def scanAssetRow_def asset_of_upload_def Let_def)
  have gone: "obs' (uw_key r) = None"
    using upload_sweep.deletes [OF assms(5) imageI [OF assms(2)] assms(4)] r(3) by simp
  have "\<exists>z. get_row ?p (db_uploads d') = Some z \<and> uw_swept z \<noteq> None"
  proof -
    have "\<exists>z \<in> set (db_uploads d). ?p z" using r(1,2) A by auto
    then have "\<exists>z \<in> set (db_uploads d1). ?p z"
      unfolding d1 by simp (rule update_where_keeps_row, simp_all add: finalize_row_def)
    then have "\<exists>z \<in> set (db_uploads d'). ?p z"
      by (rule upload_sweep.rows [OF assms(5), where P = "\<lambda>d. \<exists>z \<in> set (db_uploads d). ?p z"])
         (simp add: MarkUploadSwept_def, rule update_where_keeps_row, simp_all)
    then have "get_row ?p (db_uploads d') \<noteq> None" by (auto simp: get_row_None_iff)
    then obtain z where z: "get_row ?p (db_uploads d') = Some z" by auto
    have "\<forall>z \<in> set (db_uploads d'). uw_id z = u_ID u \<longrightarrow> uw_swept z \<noteq> None"
      by (rule upload_sweep.marks [OF assms(5,2,4), where P = "\<lambda>d. \<forall>z \<in> set (db_uploads d). uw_id z = u_ID u \<longrightarrow> uw_swept z \<noteq> None"])
         (auto simp: MarkUploadSwept_def set_update_where)
    then have "uw_swept z \<noteq> None" using get_row_Some_iff [OF z] by simp
    then show ?thesis using z by blast
  qed
  then obtain z where "get_row ?p (db_uploads d') = Some z" "uw_swept z \<noteq> None" by blast
  then have "FinalizeUpload d' later A (u_ID u) v' = Inl ErrUploadGone" unfolding FinalizeUpload_def Let_def by simp
  then show ?thesis using b gone by auto
qed

lemma sweep_races_finalize_witness:
  "(\<exists>n obs' d'. sweep_uploads demo_outside 40 (ReclaimableUploads demo_db1 25 100) 0 [VaultKey ''alice'' ''A1'' \<mapsto> ''0123456789''] demo_db = (n, obs', d')
     \<and> obs' (VaultKey ''alice'' ''A1'') = None \<and> FinalizeUpload d' 50 ''alice'' ''A1'' demo_vault = Inl ErrUploadGone)"
proof -
  let ?us = "ReclaimableUploads demo_db1 25 100"
  obtain n obs' d' where s: "sweep_uploads demo_outside 40 ?us 0 [VaultKey ''alice'' ''A1'' \<mapsto> ''0123456789''] demo_db = (n, obs', d')"
    by (metis prod_cases3)
  have us: "?us = [\<lparr>u_ID = ''A1'', u_Account = ''alice'', u_Key = VaultKey ''alice'' ''A1'', u_ContentType = ''image/png'', u_SizeBytes = 10,
      u_Filename = [], u_SkipDerivations = False, u_RenditionAsset = [], u_RenditionIntent = [], u_SweptAt = None\<rparr>]"
    by (simp add: ReclaimableUploads_def demo_db1_eval str_of_def)
  obtain a where f: "FinalizeUpload demo_db1 30 ''alice'' ''A1'' demo_vault = Inr (demo_db, a)"
    unfolding demo_db_def by (simp add: demo_db1_eval demo_db0_eval FinalizeUpload_def empty_db_def table_defs
      has_account_def has_asset_id_def asset_of_upload_def demo_vault_def finalize_row_def getAssetTx_def asset_is_def Let_def)
  have gone: "FinalizeUpload d' 50 ''alice'' ''A1'' demo_vault = Inl ErrUploadGone \<and> (\<exists>b. GetAsset d' ''alice'' ''A1'' = Inr b \<and> obs' (vo_Key (asset_Vault b)) = None)"
    using sweep_races_finalize [OF demo_reachable1, of "hd ?us" 25 100 30 "''alice''" demo_vault demo_db a demo_outside 40
        "[VaultKey ''alice'' ''A1'' \<mapsto> ''0123456789'']" n obs' d' 50 demo_vault] f s by (simp add: us demo_outside_def) blast
  have "db_assets d' = [demo_asset]" using sweep_uploads_assets [OF s] by (simp add: demo_db_eval)
  then have "obs' (VaultKey ''alice'' ''A1'') = None"
    using gone by (simp add: GetAsset_def scanAsset_def scanAssetRow_def table_defs asset_is_def demo_asset_def Let_def)
  then show ?thesis using s gone by blast
qed

end
