(* ===== verification/Conformance.thy ===== *)
theory Conformance
  imports Ingest
begin

text \<open>
  The isolation conformance suite (test/support/isolation.go, test/service_wiring_test.go,
  test/account_isolation_test.go) as a specification: the account-scoped endpoints and their shapes,
  the call the suite makes on each against another account's resource, and what it demands of the
  answer. The suite checks it of one database; here it holds of every database the service can
  reach, for every pair of accounts and every resource.
\<close>

section \<open>The suite\<close>

datatype EndpointID =
  EpResolveDeliveryUrl | EpGetAsset | EpDeleteAsset | EpListAssets | EpRequestRendition | EpGetJob
| EpFinalizeUpload | EpCreateUpload | EpCreateGrant | EpGetGrant | EpRevokeGrant | EpCreateExport
| EpGetExport | EpRevokeExport | EpProvisionAccount

datatype ResourceKind = ResourceAsset | ResourceJob | ResourceGrant | ResourceUpload | ResourceExport

datatype IsolationShape = ShapeDenyTarget | ShapeScopedEnumeration

definition AllScopes :: "string list" where
  "AllScopes = [''assets:read'', ''assets:write'', ''renditions:generate'', ''grants:manage'', ''assets:export'',
     ''accounts:provision'']"

definition AllAccountScopedEndpoints :: "EndpointID list" where
  "AllAccountScopedEndpoints = [EpResolveDeliveryUrl, EpGetAsset, EpDeleteAsset, EpListAssets, EpRequestRendition,
     EpGetJob, EpFinalizeUpload, EpCreateGrant, EpGetGrant, EpRevokeGrant, EpCreateExport, EpGetExport, EpRevokeExport]"

definition endpointShapes :: "(EndpointID \<times> IsolationShape) list" where
  "endpointShapes = [(EpResolveDeliveryUrl, ShapeDenyTarget), (EpGetAsset, ShapeDenyTarget), (EpDeleteAsset, ShapeDenyTarget),
     (EpListAssets, ShapeScopedEnumeration), (EpRequestRendition, ShapeDenyTarget), (EpGetJob, ShapeDenyTarget),
     (EpFinalizeUpload, ShapeDenyTarget), (EpCreateGrant, ShapeDenyTarget), (EpGetGrant, ShapeDenyTarget),
     (EpRevokeGrant, ShapeDenyTarget), (EpCreateExport, ShapeDenyTarget), (EpGetExport, ShapeDenyTarget),
     (EpRevokeExport, ShapeDenyTarget)]"

definition ShapeOf :: "EndpointID \<Rightarrow> IsolationShape" where
  "ShapeOf ep = (case map_of endpointShapes ep of None \<Rightarrow> ShapeDenyTarget | Some s \<Rightarrow> s)"

definition IsDenied :: "int \<Rightarrow> bool" where
  "IsDenied status \<longleftrightarrow> status = 403 \<or> status = 404 \<or> status = 401"

fun targetKind :: "EndpointID \<Rightarrow> ResourceKind" where
  "targetKind EpGetJob = ResourceJob"
| "targetKind EpGetGrant = ResourceGrant"
| "targetKind EpRevokeGrant = ResourceGrant"
| "targetKind EpGetExport = ResourceExport"
| "targetKind EpRevokeExport = ResourceExport"
| "targetKind ep = ResourceAsset"

text \<open>The request made on an endpoint for a target id; \<open>far\<close> is the expiry of a requested capability. The
  two endpoints without a target are not mapped.\<close>

fun CallCrossAccount :: "time \<Rightarrow> EndpointID \<Rightarrow> string \<Rightarrow> call option" where
  "CallCrossAccount far EpResolveDeliveryUrl i = Some (C_ResolveURL i ''lightbox'' [] [])"
| "CallCrossAccount far EpGetAsset i = Some (C_GetAsset i)"
| "CallCrossAccount far EpDeleteAsset i = Some (C_DeleteAsset i)"
| "CallCrossAccount far EpListAssets i = Some (C_ListAssets [] [])"
| "CallCrossAccount far EpRequestRendition i = Some (C_RequestRendition i (Some ''lightbox''))"
| "CallCrossAccount far EpGetJob i = Some (C_GetJob i)"
| "CallCrossAccount far EpFinalizeUpload i = Some (C_FinalizeUpload i (Some ''sha256:x''))"
| "CallCrossAccount far EpCreateGrant i = Some (C_CreateGrant (Some \<lparr>grr_Assets = [i], grr_Expires = far, grr_Recipient = None\<rparr>))"
| "CallCrossAccount far EpGetGrant i = Some (C_GetGrant i)"
| "CallCrossAccount far EpRevokeGrant i = Some (C_RevokeGrant i)"
| "CallCrossAccount far EpCreateExport i = Some (C_CreateExport (Some \<lparr>exr_Assets = [i], exr_Expires = far, exr_Note = None\<rparr>))"
| "CallCrossAccount far EpGetExport i = Some (C_GetExport i)"
| "CallCrossAccount far EpRevokeExport i = Some (C_RevokeExport i)"
| "CallCrossAccount far ep i = None"

fun owned_by :: "db \<Rightarrow> string \<Rightarrow> ResourceKind \<Rightarrow> string \<Rightarrow> bool" where
  "owned_by d B ResourceAsset i \<longleftrightarrow> (\<exists>a \<in> set (db_assets d). ar_id a = i \<and> ar_account a = B)"
| "owned_by d B ResourceJob i \<longleftrightarrow> (\<exists>j \<in> set (db_jobs d). jr_id j = i \<and> jr_account j = B)"
| "owned_by d B ResourceGrant i \<longleftrightarrow> (\<exists>g \<in> set (db_grants d). gw_id g = i \<and> gw_account g = B)"
| "owned_by d B ResourceUpload i \<longleftrightarrow> (\<exists>u \<in> set (db_uploads d). uw_id u = i \<and> uw_account u = B)"
| "owned_by d B ResourceExport i \<longleftrightarrow> (\<exists>x \<in> set (db_exports d). xw_id x = i \<and> xw_account x = B)"

text \<open>What is demanded: a denial whose body is an error code and nothing else, with nothing changed; or a
  listing with both halves of the suite's assertion, rows of the caller alone and every asset of
  the caller. The suite has one asset, so one page; here an asset may be missing only behind the
  cursor of the page, and the cursor is the id of a listed asset.\<close>

definition lists_own :: "db \<Rightarrow> string \<Rightarrow> asset_page \<Rightarrow> bool" where
  "lists_own d A p \<longleftrightarrow> list_all (\<lambda>r. ar_account r = A \<longrightarrow> ar_id r \<in> asset_Id ` set (page_Items p)
       \<or> (case page_NextCursor p of None \<Rightarrow> False | Some next \<Rightarrow> next \<in> asset_Id ` set (page_Items p) \<and> next < ar_id r)) (db_assets d)"

definition conforms :: "IsolationShape \<Rightarrow> string \<Rightarrow> server \<Rightarrow> response \<Rightarrow> server \<Rightarrow> bool" where
  "conforms shape A st resp st' = (case shape of
     ShapeDenyTarget \<Rightarrow> IsDenied (fst resp) \<and> snd resp \<in> {B_Error ''not_found'', B_Error ''forbidden''} \<and> st' = st
   | ShapeScopedEnumeration \<Rightarrow> fst resp = 200 \<and> (case snd resp of
        B_Page p \<Rightarrow> list_all (\<lambda>a. asset_Account a = A) (page_Items p) \<and> lists_own (fst st) A p | _ \<Rightarrow> False) \<and> st' = st)"

section \<open>Another account's ids are no ids of the caller\<close>

lemma foreign_row:
  assumes "distinct (map key t)" "r \<in> set t" "key r = i" "owner r \<noteq> A"
  shows "get_row (\<lambda>x. owner x = A \<and> key x = i) t = None"
  unfolding get_row_None_iff using assms distinct_key_eq [OF assms(1)] by metis

lemma foreign_asset:
  assumes "reachable d" "owned_by d B ResourceAsset i" "B \<noteq> A"
  shows "get_row (asset_is A i) (db_assets d) = None" "\<not> AssetOwnedBy d A i"
    "get_row (\<lambda>r. uw_account r = A \<and> uw_id r = i) (db_uploads d) = None" "classify d A i = ClassRefused"
proof -
  obtain a where a: "a \<in> set (db_assets d)" "ar_id a = i" "ar_account a = B" using assms(2) by auto
  show none: "get_row (asset_is A i) (db_assets d) = None"
    unfolding get_row_None_iff asset_is_def
    using a assms(1,3) reachable_keys distinct_key_eq [of ar_id "db_assets d"] unfolding keys_ok_def by metis
  then show "\<not> AssetOwnedBy d A i" by (auto simp: AssetOwnedBy_def has_row_iff get_row_None_iff)
  show "get_row (\<lambda>r. uw_account r = A \<and> uw_id r = i) (db_uploads d) = None"
    using a assms(3) reachable_origins [OF assms(1)] by (auto simp: get_row_None_iff origins_ok_def)
  have "has_asset_id d i" using a by (auto simp: has_asset_id_def has_row_iff)
  then show "classify d A i = ClassRefused" using none by (simp add: classify_def AssetPurged_def)
qed

lemma refused_set: "classify d A i = ClassRefused \<Longrightarrow> classifyAssetSet d A [i] = [(i, ClassRefused)]"
  by (simp add: classifyAssetSet_def distinct_sorted_def)

lemma foreign_write:
  assumes "get_row p t = None" "\<And>r. p (f r) = p r"
  shows "get_row p (update_where p f t) = None"
  using get_row_update_where [of p f t] assms by simp

lemma has_scopes: "set AllScopes \<subseteq> set (cl_scope c) \<Longrightarrow> s \<in> set AllScopes \<Longrightarrow> scopeCheck (Some c) s"
proof -
  have "scope_loop xs s \<longleftrightarrow> s \<in> set xs" for xs s by (induction xs) auto
  then show "set AllScopes \<subseteq> set (cl_scope c) \<Longrightarrow> s \<in> set AllScopes \<Longrightarrow> scopeCheck (Some c) s"
    by (auto simp: scopeCheck_def HasScope_def)
qed

section \<open>The endpoints\<close>

lemma foreign_asset_denied:
  assumes "reachable d" "owned_by d B ResourceAsset i" "B \<noteq> A" "cl_account c = A" "set AllScopes \<subseteq> set (cl_scope c)"
    "sv_storage s \<noteq> None" "sv_signer s \<noteq> None" "now < far" "far \<le> now + ExportMaxTTL"
    "ep \<in> {EpResolveDeliveryUrl, EpGetAsset, EpDeleteAsset, EpRequestRendition, EpFinalizeUpload, EpCreateGrant, EpCreateExport}"
  shows "fst (dispatch s now newID (Some c) (the (CallCrossAccount far ep i)) (d, ca)) \<in> {denyNotFound, (403, B_Error ''forbidden'')}
    \<and> snd (dispatch s now newID (Some c) (the (CallCrossAccount far ep i)) (d, ca)) = (d, ca)"
proof -
  note f = foreign_asset [OF assms(1-3)]
  have sc: "scopeCheck (Some c) x" if "x \<in> set AllScopes" for x using has_scopes [OF assms(5) that] .
  have scopes: "scopeCheck (Some c) ''assets:read''" "scopeCheck (Some c) ''assets:write''" "scopeCheck (Some c) ''renditions:generate''"
    "scopeCheck (Some c) ''grants:manage''" "scopeCheck (Some c) ''assets:export''"
    by (simp_all add: sc AllScopes_def)
  have acct: "account (Some c) = A" using assms(4) by (simp add: account_def)
  have get: "GetAsset d A i = Inl ErrNotFound" by (simp add: GetAsset_def f(1) scanAsset_def)
  have del: "MarkAssetDeleted d now A i = Inl ErrNotFound"
    using foreign_write [OF f(1), of "set_deleted now"] by (simp add: MarkAssetDeleted_def Let_def scanAsset_def asset_is_def set_deleted_def)
  have up: "GetUpload d A i = Inl ErrNotFound" by (simp add: GetUpload_def f(3))
  have gr: "CreateGrant d now newID A \<lparr>grr_Assets = [i], grr_Expires = far, grr_Recipient = None\<rparr> = Inl ErrForeignAsset"
    by (simp add: CreateGrant_def refused_set [OF f(4)])
  have ex: "CreateExport d now newID A \<lparr>exr_Assets = [i], exr_Expires = far, exr_Note = None\<rparr> = Inl ErrForeignAsset"
    by (simp add: CreateExport_def refused_set [OF f(4)] Let_def)
  obtain st where st: "sv_storage s = Some st" using assms(6) by blast
  have lb: "validIntent ''lightbox''" "intent_of ''lightbox'' = Some Lightbox" "parseDevice [] \<noteq> None"
    by (simp_all add: validIntent_def intent_of_def all_intents_def parseDevice_def)
  from assms(10) show ?thesis
  proof (elim insertE emptyE)
    assume "ep = EpResolveDeliveryUrl"
    then show ?thesis using lb by (auto simp: handleResolveDeliveryURL_def keep_db_def scopes acct get)
  next
    assume "ep = EpGetAsset"
    then show ?thesis by (simp add: handleGetAsset_def scopes acct get reply_def)
  next
    assume "ep = EpDeleteAsset"
    then show ?thesis by (simp add: handleDeleteAsset_def keep_cache_def scopes acct del reply_write_def)
  next
    assume "ep = EpRequestRendition"
    then show ?thesis by (simp add: handleRequestRendition_def keep_cache_def scopes acct f(2))
  next
    assume "ep = EpFinalizeUpload"
    then show ?thesis by (simp add: handleFinalizeUpload_def keep_cache_def scopes acct up st)
  next
    assume "ep = EpCreateGrant"
    then show ?thesis by (simp add: handleCreateGrant_def keep_cache_def scopes acct gr reply_write_def)
  next
    assume "ep = EpCreateExport"
    then show ?thesis using assms(7-9) by (auto simp: handleCreateExport_def keep_cache_def scopes acct ex reply_write_def)
  qed
qed

lemma foreign_capability_denied:
  assumes "reachable d" "owned_by d B (targetKind ep) i" "B \<noteq> A" "cl_account c = A" "set AllScopes \<subseteq> set (cl_scope c)"
    "ep \<in> {EpGetJob, EpGetGrant, EpRevokeGrant, EpGetExport, EpRevokeExport}"
  shows "fst (dispatch s now newID (Some c) (the (CallCrossAccount far ep i)) (d, ca)) = denyNotFound
    \<and> snd (dispatch s now newID (Some c) (the (CallCrossAccount far ep i)) (d, ca)) = (d, ca)"
proof -
  have keys: "keys_ok d" using reachable_keys [OF assms(1)] .
  have sc: "scopeCheck (Some c) x" if "x \<in> set AllScopes" for x using has_scopes [OF assms(5) that] .
  have scopes: "scopeCheck (Some c) ''assets:read''" "scopeCheck (Some c) ''grants:manage''" "scopeCheck (Some c) ''assets:export''"
    by (simp_all add: sc AllScopes_def)
  have acct: "account (Some c) = A" using assms(4) by (simp add: account_def)
  have job: "get_row (\<lambda>r. jr_account r = A \<and> jr_id r = i) (db_jobs d) = None" if "owned_by d B ResourceJob i"
    using that assms(3) keys foreign_row [of jr_id "db_jobs d" _ i jr_account A] by (auto simp: keys_ok_def)
  have gr: "get_row (\<lambda>r. gw_account r = A \<and> gw_id r = i) (db_grants d) = None" if "owned_by d B ResourceGrant i"
    using that assms(3) keys foreign_row [of gw_id "db_grants d" _ i gw_account A] by (auto simp: keys_ok_def)
  have ex: "get_row (\<lambda>r. xw_account r = A \<and> xw_id r = i) (db_exports d) = None" if "owned_by d B ResourceExport i"
    using that assms(3) keys foreign_row [of xw_id "db_exports d" _ i xw_account A] by (auto simp: keys_ok_def)
  from assms(6) show ?thesis
  proof (elim insertE emptyE)
    assume "ep = EpGetJob"
    then show ?thesis using assms(2) job by (simp add: handleGetJob_def scopes acct GetJob_def reply_def del: owned_by.simps)
  next
    assume "ep = EpGetGrant"
    then show ?thesis using assms(2) gr by (simp add: handleGetGrant_def scopes acct GetGrant_def scanGrantRow_def reply_def del: owned_by.simps)
  next
    assume ep: "ep = EpRevokeGrant"
    have "get_row (\<lambda>r. gw_account r = A \<and> gw_id r = i) (update_where (\<lambda>r. gw_account r = A \<and> gw_id r = i) (revoke_grant_row now) (db_grants d)) = None"
      by (rule foreign_write) (use ep assms(2) gr in \<open>simp_all add: revoke_grant_row_def del: owned_by.simps\<close>)
    then show ?thesis using ep
      by (simp add: handleRevokeGrant_def keep_cache_def scopes acct RevokeGrant_def Let_def scanGrantRow_def reply_write_def)
  next
    assume "ep = EpGetExport"
    then show ?thesis using assms(2) ex by (simp add: handleGetExport_def scopes acct GetExport_def scanExportRow_def reply_def del: owned_by.simps)
  next
    assume ep: "ep = EpRevokeExport"
    have "get_row (\<lambda>r. xw_account r = A \<and> xw_id r = i) (update_where (\<lambda>r. xw_account r = A \<and> xw_id r = i) (revoke_export_row now) (db_exports d)) = None"
      by (rule foreign_write) (use ep assms(2) ex in \<open>simp_all add: revoke_export_row_def del: owned_by.simps\<close>)
    then show ?thesis using ep
      by (simp add: handleRevokeExport_def keep_cache_def scopes acct RevokeExport_def Let_def scanExportRow_def reply_write_def)
  qed
qed

lemma own_page: "a \<in> set (page_Items (ListAssets d A cur l)) \<Longrightarrow> asset_Account a = A"
  by (auto simp: ListAssets_def Let_def scanAssetRow_def dest!: in_set_takeD split: if_splits)

lemma listing_complete:
  assumes "reachable d"
  shows "lists_own d A (ListAssets d A [] l)"
proof -
  let ?rows = "own_rows d A []" and ?k = "page_limit l" and ?p = "ListAssets d A [] l"
  have keys: "distinct (map ar_id (db_assets d))" using reachable_keys [OF assms] by (simp add: keys_ok_def)
  have sorted: "sorted (map ar_id ?rows)" and dist: "distinct (map ar_id ?rows)"
    using distinct_map_filter [OF keys] by (simp_all add: own_rows_def distinct_map)
  have ids: "asset_Id ` set (page_Items ?p) = ar_id ` set (take ?k ?rows)"
    using arg_cong [OF list_assets_page(1) [of d A "[]" l], of set] by (simp add: take_map)
  have "ar_id r \<in> ar_id ` set (take ?k ?rows) \<or> (case page_NextCursor ?p of None \<Rightarrow> False
      | Some next \<Rightarrow> next \<in> ar_id ` set (take ?k ?rows) \<and> next < ar_id r)"
    if r: "r \<in> set (db_assets d)" "ar_account r = A" for r
  proof -
    have "r \<in> set ?rows" using r by (simp add: own_rows_def)
    then obtain m where m: "m < length ?rows" "?rows ! m = r" by (metis in_set_conv_nth)
    show ?thesis
    proof (cases "m < ?k")
      case True
      then have "r \<in> set (take ?k ?rows)" using m by (auto simp: in_set_conv_nth)
      then show ?thesis by blast
    next
      case False
      let ?c = "?rows ! (?k - 1)"
      have k: "0 < ?k" "?k - 1 < m" "?k - 1 < length ?rows" using False m(1) page_limit_pos [of l] by linarith+
      have "ar_id ?c \<le> ar_id r" using sorted_nth_mono [OF sorted, of "?k - 1" m] k m by simp
      moreover have "ar_id ?c \<noteq> ar_id r" using dist k m by (auto simp: distinct_conv_nth)
      moreover have "?c \<in> set (take ?k ?rows)" using nth_mem [of "?k - 1" "take ?k ?rows"] k by simp
      ultimately show ?thesis using list_assets_page(2) [of d A "[]" l] False m(1) by auto
    qed
  qed
  then show ?thesis unfolding lists_own_def list_all_iff ids by blast
qed

lemma endpoint_conforms:
  assumes "reachable d" "owned_by d B (targetKind ep) i" "B \<noteq> cl_account c" "set AllScopes \<subseteq> set (cl_scope c)"
    "ep \<in> set AllAccountScopedEndpoints" "sv_storage s \<noteq> None" "sv_signer s \<noteq> None" "now < far" "far \<le> now + ExportMaxTTL"
  shows "case dispatch s now newID (Some c) (the (CallCrossAccount far ep i)) (d, ca) of (resp, st') \<Rightarrow>
    conforms (ShapeOf ep) (cl_account c) (d, ca) resp st'"
proof (cases "ep = EpListAssets")
  case True
  have "scopeCheck (Some c) ''assets:read''" by (rule has_scopes [OF assms(4)]) (simp add: AllScopes_def)
  then show ?thesis using True
    by (auto simp: conforms_def ShapeOf_def endpointShapes_def handleListAssets_def account_def list_all_iff
        listing_complete [OF assms(1)] dest: own_page)
next
  case False
  then have shape: "ShapeOf ep = ShapeDenyTarget" by (cases ep) (simp_all add: ShapeOf_def endpointShapes_def)
  obtain resp st' where r: "dispatch s now newID (Some c) (the (CallCrossAccount far ep i)) (d, ca) = (resp, st')" by (metis surj_pair)
  have "resp \<in> {denyNotFound, (403, B_Error ''forbidden'')} \<and> st' = (d, ca)"
  proof (cases "ep \<in> {EpGetJob, EpGetGrant, EpRevokeGrant, EpGetExport, EpRevokeExport}")
    case True
    show ?thesis using foreign_capability_denied [OF assms(1-3) refl assms(4) True, of s now newID far ca] r by simp
  next
    case no: False
    then have ep: "ep \<in> {EpResolveDeliveryUrl, EpGetAsset, EpDeleteAsset, EpRequestRendition, EpFinalizeUpload, EpCreateGrant, EpCreateExport}"
      using False assms(5) by (auto simp: AllAccountScopedEndpoints_def)
    then have "owned_by d B ResourceAsset i" using assms(2) by auto
    from foreign_asset_denied [OF assms(1) this assms(3) refl assms(4,6-9) ep, of newID ca] show ?thesis using r by simp
  qed
  then show ?thesis unfolding r by (auto simp: conforms_def shape IsDenied_def denyNotFound_def)
qed

text \<open>C4: The repository's isolation suite passes on every database, not only its own: in any state the
  service can reach, a caller with every scope, on every account-scoped endpoint, against any
  resource of any other account, is denied with a bare error code and changes nothing; the listing
  answers rows of the caller's account only and has every asset of that account, up to the page's
  cursor.\<close>
theorem isolation_conformance:
  assumes "reachable d" "owned_by d B (targetKind ep) i" "B \<noteq> cl_account c" "set AllScopes \<subseteq> set (cl_scope c)"
    "ep \<in> set AllAccountScopedEndpoints" "sv_storage s \<noteq> None" "sv_signer s \<noteq> None" "now < far" "far \<le> now + ExportMaxTTL"
  shows "\<exists>q. CallCrossAccount far ep i = Some q
    \<and> (case dispatch s now newID (Some c) q (d, ca) of (resp, st') \<Rightarrow> conforms (ShapeOf ep) (cl_account c) (d, ca) resp st')"
proof -
  obtain q where "CallCrossAccount far ep i = Some q" using assms(5) by (auto simp: AllAccountScopedEndpoints_def)
  then show ?thesis using endpoint_conforms [OF assms, where newID = newID and ca = ca] by simp
qed

lemma isolation_conformance_witness:
  "conforms ShapeDenyTarget ''bob'' (demo_db, Map.empty)
     (fst (dispatch (pdf_service Map.empty 40) 40 ''N3'' (Some (demo_claims\<lparr>cl_account := ''bob'', cl_scope := AllScopes\<rparr>))
        (C_FinalizeUpload ''A1'' (Some ''sha256:x'')) (demo_db, Map.empty)))
     (snd (dispatch (pdf_service Map.empty 40) 40 ''N3'' (Some (demo_claims\<lparr>cl_account := ''bob'', cl_scope := AllScopes\<rparr>))
        (C_FinalizeUpload ''A1'' (Some ''sha256:x'')) (demo_db, Map.empty)))"
proof -
  have o: "owned_by demo_db ''alice'' (targetKind EpFinalizeUpload) ''A1''" by (simp add: demo_db_eval demo_asset_def)
  have h: "''alice'' \<noteq> cl_account (demo_claims\<lparr>cl_account := ''bob'', cl_scope := AllScopes\<rparr>)"
    "set AllScopes \<subseteq> set (cl_scope (demo_claims\<lparr>cl_account := ''bob'', cl_scope := AllScopes\<rparr>))"
    "EpFinalizeUpload \<in> set AllAccountScopedEndpoints"
    "sv_storage (pdf_service Map.empty 40) \<noteq> None" "sv_signer (pdf_service Map.empty 40) \<noteq> None" "(40::int) < 50" "50 \<le> 40 + ExportMaxTTL"
    by (simp_all add: AllAccountScopedEndpoints_def pdf_service_def with_s3_def demo_service_def ExportMaxTTL_def second_def)
  have "ShapeOf EpFinalizeUpload = ShapeDenyTarget" by (simp add: ShapeOf_def endpointShapes_def)
  then show ?thesis using isolation_conformance [OF demo_reachable o h, where newID = "''N3''" and ca = Map.empty] by (simp add: case_prod_beta)
qed

section \<open>The upload broker\<close>

lemma binding_refusal: "check_binding d A b \<noteq> Some (201, x)"
  by (simp add: check_binding_def denyNotFound_def split: option.split)

lemma ticket_path:
  assumes "handleCreateUpload s now newID cl d (Some req) = ((201, B_Ticket t), d')"
  obtains st url headers expires where "sv_storage s = Some st" "1 \<le> ur_SizeBytes req"
    "0 < sv_uploadMaxBytes s \<longrightarrow> ur_SizeBytes req \<le> sv_uploadMaxBytes s"
    "st_PresignPut st (new_upload_key (account cl) newID (ur_Rendition req)) (ur_ContentType req) (ur_SizeBytes req) (sv_uploadTTL s)
       = Some (url, headers, expires)"
    "CreateUpload d now (account cl) (upload_of_request (account cl) newID req) = Inr (d', ())"
    "t = \<lparr>ut_Expires = expires, ut_Headers = headers, ut_Method = ''PUT'', ut_UploadId = newID, ut_Url = url\<rparr>"
  using assms binding_refusal
  by (auto simp: handleCreateUpload_def Let_def lacks_scope_def split: option.splits if_splits sum.splits)

text \<open>C9: A ticket of the upload broker is good for one object of the caller's own key space and nothing else: the
  presigned request behind it is for the deployment's bucket, the caller's key, exactly the
  announced type and size (between one byte and the configured maximum), for the configured time,
  and the ticket says so; the key holds no live original, and the row that finalize will read
  carries the same key and type.\<close>
theorem upload_ticket_bound:
  assumes "reachable d" "ids_plain d" "CHR ''/'' \<notin> set newID"
    "handleCreateUpload (with_s3 svc s decode w now) now newID (Some c) d (Some req) = ((201, B_Ticket t), d')"
  defines "key \<equiv> new_upload_key (cl_account c) newID (ur_Rendition req)"
    and "ttl \<equiv> (if sv_uploadTTL svc \<le> 0 then 3600 * second else sv_uploadTTL svc)"
  shows "(\<exists>signed. aws_presign_put (s3_client s) \<lparr>pi_Bucket = s3_bucket s, pi_Key = key, pi_ContentType = ur_ContentType req,
            pi_ContentLength = Some (ur_SizeBytes req)\<rparr> ttl = Some signed
          \<and> ut_Url t = pq_URL signed \<and> ut_Expires t = now + ttl \<and> map_of (ut_Headers t) ''Content-Type'' = Some (ur_ContentType req))
    \<and> ut_Method t = ''PUT'' \<and> ut_UploadId t = newID
    \<and> 1 \<le> ur_SizeBytes req \<and> (0 < sv_uploadMaxBytes svc \<longrightarrow> ur_SizeBytes req \<le> sv_uploadMaxBytes svc)
    \<and> (has_prefix key (VaultPrefix @ cl_account c @ ''/'') \<or> has_prefix key (StagingPrefix @ cl_account c @ ''/''))
    \<and> key \<notin> live_keys d
    \<and> (\<exists>u \<in> set (db_uploads d'). uw_id u = newID \<and> uw_account u = cl_account c \<and> uw_key u = key \<and> uw_ctype u = ur_ContentType req)"
proof -
  let ?A = "cl_account c"
  let ?s = "with_s3 svc s decode w now"
  obtain st url headers expires where raw: "sv_storage ?s = Some st" "1 \<le> ur_SizeBytes req"
    "0 < sv_uploadMaxBytes ?s \<longrightarrow> ur_SizeBytes req \<le> sv_uploadMaxBytes ?s"
    "st_PresignPut st (new_upload_key (account (Some c)) newID (ur_Rendition req)) (ur_ContentType req) (ur_SizeBytes req) (sv_uploadTTL ?s)
       = Some (url, headers, expires)"
    "CreateUpload d now (account (Some c)) (upload_of_request (account (Some c)) newID req) = Inr (d', ())"
    and t: "t = \<lparr>ut_Expires = expires, ut_Headers = headers, ut_Method = ''PUT'', ut_UploadId = newID, ut_Url = url\<rparr>"
    by (rule ticket_path [OF assms(4)])
  have same: "sv_uploadMaxBytes ?s = sv_uploadMaxBytes svc" "sv_uploadTTL ?s = sv_uploadTTL svc" "account (Some c) = ?A"
    by (simp_all add: with_s3_def account_def)
  note h = raw(1-4) [unfolded same, folded key_def] and c = raw(5) [unfolded same]
  have st: "st = s3_storage s decode w now" using h(1) by (simp add: with_s3_def)
  have signed: "\<exists>signed. aws_presign_put (s3_client s) \<lparr>pi_Bucket = s3_bucket s, pi_Key = key, pi_ContentType = ur_ContentType req,
            pi_ContentLength = Some (ur_SizeBytes req)\<rparr> ttl = Some signed
          \<and> url = pq_URL signed \<and> expires = now + ttl \<and> map_of headers ''Content-Type'' = Some (ur_ContentType req)"
    using h(2,4) unfolding st ttl_def
    by (auto simp: s3_storage_def PresignPut_def put_object_input_def Let_def AList.update_conv' split: option.splits if_splits)
  have new: "\<not> has_row (\<lambda>r. uw_id r = newID) (db_uploads d)"
    using c by (auto simp: CreateUpload_def upload_of_request_def split: if_splits)
  have row: "\<exists>u \<in> set (db_uploads d'). uw_id u = newID \<and> uw_account u = ?A \<and> uw_key u = key \<and> uw_ctype u = ur_ContentType req"
    using c by (auto simp: CreateUpload_def upload_of_request_def key_def insert_row_def split: if_splits)
  have "key \<notin> live_keys d"
  proof
    assume "key \<in> live_keys d"
    then obtain v where v: "v \<in> set (db_uploads d)" "uw_key v = key" "uw_rasset v = None"
      using live_original [OF assms(1)] by metis
    have vk: "key = VaultKey (uw_account v) (uw_id v)" using reachable_upload_key [OF assms(1) v(1)] v(2,3) by simp
    then have "key = VaultKey ?A newID" 
      using vault_staging_disjoint [THEN not_sym] by (auto simp: key_def new_upload_key_def split: option.splits)
    then have "uw_id v = newID" using vk vault_key_plain assms(2,3) v(1) unfolding ids_plain_def by metis
    then show False using new v(1) by (auto simp: has_row_iff)
  qed
  moreover have "has_prefix key (VaultPrefix @ ?A @ ''/'') \<or> has_prefix key (StagingPrefix @ ?A @ ''/'')"
    by (auto simp: key_def new_upload_key_def VaultKey_def StagingKey_def has_prefix_def split: option.splits)
  ultimately show ?thesis using signed h(2,3) row t by auto
qed

lemma upload_ticket_bound_witness:
  "\<exists>t d'. handleCreateUpload (with_s3 demo_service demo_s3 (\<lambda>_. None) Map.empty 10) 10 ''U1'' (Some demo_claims) pdf_db0 (Some pdf_request)
      = ((201, B_Ticket t), d') \<and> ut_Expires t = 10 + 3600 * second
    \<and> map_of (ut_Headers t) ''Content-Type'' = Some ''application/pdf'' \<and> pdf_key \<notin> live_keys pdf_db0"
proof -
  have r: "reachable pdf_db0" unfolding pdf_db0_def by (rule reachable.step [OF reachable.init store_step.operator])
  have p: "ids_plain pdf_db0" by (simp add: ids_plain_def pdf_db0_def CreateAccount_def empty_db_def)
  obtain t d' where t: "handleCreateUpload (with_s3 demo_service demo_s3 (\<lambda>_. None) Map.empty 10) 10 ''U1'' (Some demo_claims) pdf_db0 (Some pdf_request)
      = ((201, B_Ticket t), d')"
    by (simp add: pdf_db0_def handleCreateUpload_def scopeCheck_def HasScope_def
      demo_claims_def with_s3_def s3_storage_def pdf_request_def demo_service_def PresignPut_def put_object_input_def
      demo_s3_def demo_aws_def CreateUpload_def CreateAccount_def empty_db_def table_defs has_account_def upload_of_request_def
      new_upload_key_def account_def nullStr_def str_of_def Let_def second_def)
  have k: "new_upload_key (cl_account demo_claims) ''U1'' (ur_Rendition pdf_request) = pdf_key"
    by (simp add: new_upload_key_def pdf_request_def demo_claims_def pdf_key_def)
  have "(if sv_uploadTTL demo_service \<le> 0 then 3600 * second else sv_uploadTTL demo_service) = 3600 * second"
    "ur_ContentType pdf_request = ''application/pdf''"
    by (simp_all add: demo_service_def pdf_request_def)
  moreover have "CHR ''/'' \<notin> set ''U1''" by simp
  ultimately show ?thesis using upload_ticket_bound [OF r p _ t] t unfolding k by auto
qed

end
