(* ===== verification/Throttle.thy ===== *)
theory Throttle
  imports Checksum_Props Authored Command_Props
begin

text \<open>
  The rate cap of the checksum pass in time (internal/worker/checksum.go, throttledReader and hash):
  a read is cut when it passes the time limit of an object, and the cap itself makes a read slow.
  What the cap guarantees, and which objects it keeps from ever being hashed.
\<close>

section \<open>A throttled read\<close>

text \<open>When the bytes read so far are due, in nanoseconds after the start.\<close>

definition due_at :: "int \<Rightarrow> int \<Rightarrow> int" where
  "due_at rate sofar = int64_of (fmul (fdiv (float_of sofar) (float_of rate)) (float_of 1000000000))"

text \<open>
  The copy loop: the reads of the body yield chunks, each with its size and how long it took, until
  the end of the body. A body whose context has ended fails; a wait that would pass the end of the
  context fails there. The result is whether the end was reached, the bytes and the time taken.
\<close>

fun throttled_copy :: "int \<Rightarrow> int \<Rightarrow> (nat \<times> nat) list \<Rightarrow> int \<Rightarrow> int \<Rightarrow> bool \<times> int \<times> int" where
  "throttled_copy rate limit [] sofar t = (True, sofar, t)"
| "throttled_copy rate limit ((n, took) # rest) sofar t =
     (let t1 = t + int took; sofar1 = sofar + int n in
      if t1 > limit then (False, sofar, limit)
      else let wait = throttle_wait rate (int n) sofar1 t1 in
        if t1 + wait > limit then (False, sofar1, limit)
        else throttled_copy rate limit rest sofar1 (t1 + wait))"

definition hash_timed :: "outside \<Rightarrow> checksummer \<Rightarrow> objects \<Rightarrow> (nat \<times> nat) list \<Rightarrow> string \<Rightarrow> string option \<times> int" where
  "hash_timed io c obs chunks key =
     (case fetch io obs key of
        None \<Rightarrow> (None, 0)
      | Some bytes \<Rightarrow>
          (case throttled_copy (ck_rate c) (ck_perObject c) chunks 0 0 of
             (True, n, t) \<Rightarrow> (Some (ChecksumPrefix @ io_sha256 io bytes), n)
           | (False, n, t) \<Rightarrow> (None, n)))"

definition chunk_total :: "(nat \<times> nat) list \<Rightarrow> nat" where
  "chunk_total chunks = sum_list (map fst chunks)"

lemma throttle_wait_due: "0 < rate \<Longrightarrow> 0 < n \<Longrightarrow> throttle_wait rate n sofar t = max 0 (due_at rate sofar - t)"
  by (simp add: throttle_wait_def due_at_def Let_def)

lemma throttle_wait_none: "n = 0 \<Longrightarrow> throttle_wait rate n sofar t = 0"
  by (simp add: throttle_wait_def)

text \<open>A read that comes to its end has kept the cap and the limit.\<close>

lemma copy_end:
  assumes "throttled_copy rate limit chunks sofar t = (True, n, t')" "0 < rate" "t \<le> limit"
  shows "n = sofar + int (chunk_total chunks) \<and> t' \<le> limit \<and> (0 < chunk_total chunks \<longrightarrow> due_at rate n \<le> t')"
  using assms(1,3)
proof (induction chunks arbitrary: sofar t)
  case Nil then show ?case by (simp add: chunk_total_def)
next
  case (Cons c rest)
  obtain k d where c: "c = (k, d)" by (cases c)
  let ?t1 = "t + int d" and ?s = "sofar + int k"
  let ?w = "throttle_wait rate (int k) ?s ?t1"
  have run: "throttled_copy rate limit rest ?s (?t1 + ?w) = (True, n, t')" and ok: "?t1 + ?w \<le> limit"
    using Cons.prems(1) by (simp_all add: c Let_def split: if_splits)
  note ih = Cons.IH [OF run ok]
  have tot: "chunk_total (c # rest) = k + chunk_total rest" by (simp add: c chunk_total_def)
  show ?case
  proof (cases "chunk_total rest = 0")
    case True
    have later: "?t1 + ?w \<le> t'"
    proof -
      have "t \<le> t'" if "throttled_copy rate limit cs s t = (True, n, t')" for cs s t
        using that by (induction cs arbitrary: s t) (fastforce simp: Let_def throttle_wait_def split: if_splits prod.splits)+
      then show ?thesis using run .
    qed
    have "due_at rate n \<le> t'" if "0 < k"
      using that later ih True throttle_wait_due [of rate "int k" ?s ?t1] assms(2) by simp
    then show ?thesis using ih True by (auto simp: tot)
  next
    case False
    then have "0 < chunk_total rest" by simp
    then have due: "due_at rate n \<le> t'" and lim: "t' \<le> limit" using ih by blast+
    have "n = sofar + int (chunk_total (c # rest))" using ih by (simp add: tot)
    then show ?thesis using due lim by blast
  qed
qed

text \<open>The timed read is the read of the pass, in an environment where exactly the cut reads break.\<close>

lemma hash_timed_object:
  assumes "\<And>bytes. fetch io obs key = Some bytes \<Longrightarrow> chunk_total chunks = length bytes" "0 < ck_rate c" "0 \<le> ck_perObject c"
    "throttled_copy (ck_rate c) (ck_perObject c) chunks 0 0 = (ok, n, t)" "pe_broken e k = (if ok then None else Some n)"
  shows "hash_timed io c obs chunks key = hash_object io e obs k key"
proof (cases "fetch io obs key")
  case (Some bytes)
  have "n = int (length bytes)" if "ok"
    using copy_end [of "ck_rate c" "ck_perObject c" chunks 0 0 n t] assms(1) [OF Some] assms(2-4) that by simp
  then show ?thesis using Some assms(4,5) by (cases ok) (simp_all add: hash_timed_def hash_object_def)
qed (simp add: hash_timed_def hash_object_def)

section \<open>Objects that are never hashed\<close>

text \<open>The rounded due time, bounded below by the exact one.\<close>

lemma due_at_slow:
  assumes "0 < rate" "rate < 2 ^ 53" "0 < n" "n < 2 ^ 53" "0 \<le> limit"
    "(limit + 1) * rate * (2 ^ 50 + 1) \<le> n * 1000000000 * 2 ^ 50" "n * 1000000000 < rate * 2 ^ 62"
  shows "limit < due_at rate n"
proof -
  let ?x = "of_int n / of_int rate :: rat"
  have f: "float_of n = of_int n" "float_of rate = of_int rate" "float_of 1000000000 = 1000000000"
    using assms float_of_exact [of n] float_of_exact [of rate] float_of_exact [of 1000000000] by simp_all
  have x: "0 < ?x" using assms by simp
  have a: "?x * (1 - 1 / 2 ^ 53) \<le> fl ?x" "fl ?x \<le> ?x * (1 + 1 / 2 ^ 53)" using fl_bounds [OF x] by blast+
  have xl: "(of_int limit + 1) * (1 + 1 / 2 ^ 50) \<le> ?x * 1000000000"
  proof -
    have "(of_int ((limit + 1) * rate * (2 ^ 50 + 1)) :: rat) \<le> of_int (n * 1000000000 * 2 ^ 50)"
      using assms(6) by (simp only: of_int_le_iff)
    then show ?thesis using assms(1) by (simp add: field_simps)
  qed
  have xu: "?x * 1000000000 < 2 ^ 62"
  proof -
    have "(of_int (n * 1000000000) :: rat) < of_int (rate * 2 ^ 62)" using assms(7) by (simp only: of_int_less_iff)
    then show ?thesis using assms(1) by (simp add: field_simps)
  qed
  have pos: "0 < fl ?x * 1000000000"
  proof -
    have "0 < ?x * (1 - 1 / 2 ^ 53)" using x by simp
    then show ?thesis using a(1) by simp
  qed
  define y where "y = fl (fl ?x * 1000000000)"
  have b: "fl ?x * 1000000000 * (1 - 1 / 2 ^ 53) \<le> y" "y \<le> fl ?x * 1000000000 * (1 + 1 / 2 ^ 53)"
    using fl_bounds [OF pos] by (simp_all add: y_def)
  define z where "z = ?x * 1000000000"
  have z: "(of_int limit + 1) * (1 + 1 / 2 ^ 50) \<le> z" "z < 2 ^ 62" "0 < z"
    unfolding z_def using xl xu mult_pos_pos [OF x, of 1000000000] by simp_all
  have lo: "z * (1 - 1 / 2 ^ 53) * (1 - 1 / 2 ^ 53) \<le> y"
    using b(1) mult_right_mono [OF a(1), of "1000000000 * (1 - 1 / 2 ^ 53)"] by (simp add: z_def mult.assoc mult.commute mult.left_commute)
  have hi: "y \<le> z * (1 + 1 / 2 ^ 53) * (1 + 1 / 2 ^ 53)"
    using b(2) mult_right_mono [OF a(2), of "1000000000 * (1 + 1 / 2 ^ 53)"] by (simp add: z_def mult.assoc mult.commute mult.left_commute)
  have "of_int limit + 1 \<le> y"
  proof -
    have "(of_int limit + 1) * 1 \<le> (of_int limit + 1) * ((1 + 1 / 2 ^ 50) * ((1 - 1 / 2 ^ 53) * (1 - 1 / 2 ^ 53)) :: rat)"
      using assms(5) by (intro mult_left_mono) simp_all
    also have "\<dots> = (of_int limit + 1) * (1 + 1 / 2 ^ 50) * ((1 - 1 / 2 ^ 53) * (1 - 1 / 2 ^ 53))" by (simp only: mult.assoc)
    also have "\<dots> \<le> z * ((1 - 1 / 2 ^ 53) * (1 - 1 / 2 ^ 53))" by (rule mult_right_mono [OF z(1)]) simp
    finally show ?thesis using lo by (simp only: mult.assoc mult_1_right)
  qed
  moreover have "y < 2 ^ 63"
  proof -
    have "z * (1 + 1 / 2 ^ 53) * (1 + 1 / 2 ^ 53) \<le> z * 2" using z(3) by simp
    then show ?thesis using hi z(2) by simp
  qed
  moreover have "limit + 1 \<le> \<lfloor>y\<rfloor>" using calculation(1) by (simp add: le_floor_iff)
  ultimately have "int64_of y = \<lfloor>y\<rfloor>" "limit < \<lfloor>y\<rfloor>" using assms(5) int64_of_pos [of y] by simp_all
  then show ?thesis by (simp add: due_at_def fdiv_def fmul_def f y_def)
qed

text \<open>A low rate cap keeps large originals from ever being verified. The worker's sweep gives every object
  one hour, whatever PLATE_CHECKSUM_RATE_MBPS is, and the cap counts against it: a healthy read of an
  object of an hour's bytes or more is cut before its end however the storage delivers it, so it
  counts as failed and is tried again for ever. The limit is documented to stop only hung reads.\<close>
theorem slow_rate_never_hashes:
  assumes "checksum_sweep env = Some (c, every)" "0 < ck_rate c" "fetch io obs key = Some bytes"
    "chunk_total chunks = length bytes" "3601 * ck_rate c \<le> int (length bytes)"
    "int (length bytes) < 4000000000 * ck_rate c" "length bytes < 2 ^ 53"
  shows "ck_perObject c = 3600 * second \<and> fst (hash_timed io c obs chunks key) = None"
proof -
  let ?n = "int (length bytes)" and ?r = "ck_rate c" and ?limit = "3600000000000 :: int"
  have limit: "ck_perObject c = ?limit"
    using assms(1) by (auto simp: checksum_sweep_def NewChecksummer_def minute_def Let_def split: if_splits)
  have "?n < int (2 ^ 53)" using assms(7) by (simp only: of_nat_less_iff)
  moreover have "int (2 ^ 53) = 2 ^ 53" by simp
  ultimately have n: "0 < ?n" "?n < 2 ^ 53" "?r < 2 ^ 53" using assms(2,5) by linarith+
  have "(?limit + 1) * ?r * (2 ^ 50 + 1) = ((?limit + 1) * (2 ^ 50 + 1)) * ?r" by (simp only: ac_simps)
  also have "\<dots> \<le> (3601 * 1000000000 * 2 ^ 50) * ?r" using assms(2) by (intro mult_right_mono) simp_all
  also have "\<dots> = 1000000000 * 2 ^ 50 * (3601 * ?r)" by simp
  also have "\<dots> \<le> 1000000000 * 2 ^ 50 * ?n" using assms(5) by (intro mult_left_mono) simp_all
  finally have big: "(?limit + 1) * ?r * (2 ^ 50 + 1) \<le> ?n * 1000000000 * 2 ^ 50" by (simp only: ac_simps)
  have "?n * 1000000000 < ?r * 2 ^ 62" using assms(2,6) by simp
  then have due: "?limit < due_at ?r ?n" using due_at_slow [OF assms(2) n(3,1,2) _ big] by simp
  obtain ok k t where copy: "throttled_copy ?r ?limit chunks 0 0 = (ok, k, t)" by (metis prod_cases3)
  have "\<not> ok"
  proof
    assume ok
    then have run: "throttled_copy ?r ?limit chunks 0 0 = (True, k, t)" using copy by simp
    note e = copy_end [OF run assms(2)]
    have k: "k = ?n" using conjunct1 [OF e] assms(4) by simp
    have "t \<le> ?limit" using conjunct1 [OF conjunct2 [OF e]] by simp
    moreover have "due_at ?r k \<le> t" using mp [OF conjunct2 [OF conjunct2 [OF e]]] assms(4) n(1) by simp
    ultimately have "due_at ?r ?n \<le> ?limit" unfolding k by (rule order_trans [rotated])
    then show False using due by simp
  qed
  then show ?thesis using copy assms(3) by (simp add: limit hash_timed_def second_def)
qed

definition slow_env :: environment where
  "slow_env k = (if k = ''PLATE_CHECKSUM_RATE_MBPS'' then ''1'' else [])"

lemma slow_sweep: "checksum_sweep slow_env = Some (\<lparr>ck_rate = 2 ^ 20, ck_retryAfter = 6 * 60 * minute, ck_perObject = 60 * minute\<rparr>, minute)"
proof -
  have one: "dec_nat (Suc 0) = ''1''" by (simp add: dec_nat.simps digit_char_def)
  have s: "Sscanf_g ''1'' = Some (Fin 1)"
    using Sscanf_g_digits [OF dec_nat_nonempty dec_nat_all, of "[]" "Suc 0"] convertFloat_dec [of "Suc 0"] by (simp add: one)
  have f: "float_of 1048576 = 1048576" using float_of_exact [of 1048576] by simp
  have e: "fl 1048576 = 1048576" using fl_int [of 1048576] by simp
  have "(1048576 :: rat) < float_range" by (rule less_trans [OF _ float_range_big]) simp
  then have m: "gf_mul (Fin 1) (float_of 1048576) = Fin 1048576" by (simp add: gf_mul_def fmul_def f e)
  have i: "gf_int64 (Fin 1048576) = 1048576" by (simp add: gf_int64_def int_of_def)
  have "parseMiBpsEnv slow_env ''PLATE_CHECKSUM_RATE_MBPS'' DefaultChecksumRate = 2 ^ 20"
    by (simp add: parseMiBpsEnv_def slow_env_def s gf_nonneg_def m i)
  then show ?thesis
    by (simp add: checksum_sweep_def NewChecksummer_def parseDurationEnv_def slow_env_def minute_def)
qed

lemma slow_rate_never_hashes_witness:
  "fst (hash_timed demo_outside \<lparr>ck_rate = 2 ^ 20, ck_retryAfter = 6 * 60 * minute, ck_perObject = 60 * minute\<rparr>
     [''vault/a/b'' \<mapsto> replicate (2 ^ 32) CHR ''x''] (replicate (2 ^ 17) (2 ^ 15, 0)) ''vault/a/b'') = None"
proof -
  have f: "fetch demo_outside [''vault/a/b'' \<mapsto> replicate (2 ^ 32) CHR ''x''] ''vault/a/b'' = Some (replicate (2 ^ 32) CHR ''x'')"
    by (simp add: fetch_def demo_outside_def)
  have t: "chunk_total (replicate (2 ^ 17) (2 ^ 15, 0)) = length (replicate (2 ^ 32) CHR ''x'')"
    by (simp add: chunk_total_def map_replicate sum_list_replicate)
  show ?thesis
    using slow_rate_never_hashes [OF slow_sweep _ f t] by (simp)
qed

end
