(* ===== verification/Failed_Jobs.thy ===== *)
theory Failed_Jobs
  imports Delivered_Bytes Delivery_Api
begin

text \<open>
  What the delivery side learns of a job that has failed for good: nothing. The failure is
  recorded in the job alone (store/queue.go, FailJob), the delivery resolution reads renditions
  alone (service/handlers.go), and no later turn of the worker writes one.
\<close>

section \<open>A derivation that is given up\<close>

inductive turn :: "objects \<times> db \<Rightarrow> objects \<times> db \<Rightarrow> bool" where
  turn: "run_turn io w t now obs d = (e, obs', d') \<Longrightarrow> turn (obs, d) (obs', d')"

definition job_for :: "string \<Rightarrow> intent \<Rightarrow> job_row \<Rightarrow> bool" where
  "job_for i n r \<longleftrightarrow> jr_asset r = i \<and> jr_intent r = n"

definition live_row :: "string \<Rightarrow> string \<Rightarrow> media_kind \<Rightarrow> asset_row \<Rightarrow> bool" where
  "live_row A i k x \<longleftrightarrow> asset_is A i x \<and> ar_kind x = k \<and> ar_deleted x = None"

text \<open>
  The asset is live, the job \<open>jr\<close> and every other job for the intent has failed, there is no
  rendition; the second form is the state while a worker runs the job \<open>j\<close> of something else.
\<close>

definition alive :: "string \<Rightarrow> string \<Rightarrow> media_kind \<Rightarrow> db \<Rightarrow> bool" where
  "alive A i k d \<longleftrightarrow> distinct (map ar_id (db_assets d)) \<and> (\<exists>x \<in> set (db_assets d). live_row A i k x)"

definition given_up :: "string \<Rightarrow> string \<Rightarrow> media_kind \<Rightarrow> intent \<Rightarrow> job_row \<Rightarrow> db \<Rightarrow> bool" where
  "given_up A i k n jr d \<longleftrightarrow>
     alive A i k d \<and> distinct (map jr_id (db_jobs d))
     \<and> jr \<in> set (db_jobs d) \<and> job_for i n jr
     \<and> (\<forall>r \<in> set (db_jobs d). job_for i n r \<longrightarrow> jr_status r = JobFailed)
     \<and> (\<forall>r \<in> set (db_renditions d). \<not> rend_is i n r)"

definition busy :: "string \<Rightarrow> intent \<Rightarrow> string \<Rightarrow> db \<Rightarrow> bool" where
  "busy i n j d \<longleftrightarrow> (\<forall>r \<in> set (db_jobs d). jr_id r = j \<longrightarrow> \<not> job_for i n r)"

lemma alive_update:
  assumes "alive A i k d" "\<And>x. ar_id (f x) = ar_id x" "\<And>x. ar_account (f x) = ar_account x"
    "\<And>x. ar_kind (f x) = ar_kind x" "\<And>x. ar_deleted (f x) = ar_deleted x"
  shows "alive A i k (d\<lparr>db_assets := update_where p f (db_assets d)\<rparr>)"
proof -
  have live: "live_row A i k (f x) = live_row A i k x" for x using assms(2-5) by (simp add: live_row_def asset_is_def)
  obtain x where x: "x \<in> set (db_assets d)" "live_row A i k x" using assms(1) by (auto simp: alive_def)
  then have "\<exists>y \<in> set (update_where p f (db_assets d)). live_row A i k y"
    using live unfolding set_update_where by (cases "p x") blast+
  then show ?thesis using assms(1) map_update_where [of ar_id f p "db_assets d"] assms(2) by (simp add: alive_def)
qed

lemma alive_checksum: "alive A i k d \<Longrightarrow> alive A i k (recordChecksum d a s m v)"
  by (auto simp: recordChecksum_def MarkChecksumVerified_def set_checksum_def Let_def intro!: alive_update split: if_splits)

text \<open>What precedes the work of a job touches asset rows only, and keeps assets live.\<close>

lemma before_work_tables:
  assumes "before_work io job d d'"
  shows "db_jobs d' = db_jobs d \<and> db_renditions d' = db_renditions d \<and> (alive A i k d \<longrightarrow> alive A i k d')"
proof -
  have c: "db_jobs (recordChecksum d a s m v) = db_jobs d \<and> db_renditions (recordChecksum d a s m v) = db_renditions d"
    for a s m v by (simp add: recordChecksum_def MarkChecksumVerified_def Let_def)
  have "alive A i k (MarkProbeFailed d1 a)" "alive A i k (BackfillVaultProbe d1 a v)" if "alive A i k d1" for d1 a v
    using that by (auto simp: MarkProbeFailed_def BackfillVaultProbe_def backfill_row_def intro!: alive_update)
  then show ?thesis using assms c alive_checksum [of A i k d]
    by (auto simp: before_work_def Let_def MarkProbeFailed_def BackfillVaultProbe_def)
qed

lemma given_up_jobs:
  assumes "given_up A i k n jr d" "busy i n j d" "\<And>r. jr_id (f r) = jr_id r" "\<And>r. job_for i n (f r) = job_for i n r"
  shows "given_up A i k n jr (d\<lparr>db_jobs := update_where (\<lambda>r. jr_id r = j) f (db_jobs d)\<rparr>)
    \<and> busy i n j (d\<lparr>db_jobs := update_where (\<lambda>r. jr_id r = j) f (db_jobs d)\<rparr>)"
proof -
  have "jr \<in> set (update_where (\<lambda>r. jr_id r = j) f (db_jobs d))"
    using assms(1,2) by (auto simp: given_up_def busy_def set_update_where)
  then show ?thesis
    using assms map_update_where [of jr_id f "\<lambda>r. jr_id r = j" "db_jobs d"]
    by (auto simp: given_up_def busy_def set_update_where alive_def)
qed

lemma given_up_renditions:
  assumes "given_up A i k n jr d" "\<And>x. rr_asset (f x) = rr_asset x" "\<And>x. rr_intent (f x) = rr_intent x" "\<not> rend_is i n r"
  shows "given_up A i k n jr (d\<lparr>db_renditions := upsert_row p f r (db_renditions d)\<rparr>)"
  using assms by (auto simp: given_up_def alive_def upsert_row_def set_update_where insert_row_def rend_is_def split: if_splits)

lemma busy_same: "db_jobs d' = db_jobs d \<Longrightarrow> busy i n j d' = busy i n j d"
  by (simp add: busy_def)

section \<open>Other jobs leave it so\<close>

abbreviation spared :: "string \<Rightarrow> string \<Rightarrow> media_kind \<Rightarrow> intent \<Rightarrow> job_row \<Rightarrow> string \<Rightarrow> db \<Rightarrow> bool" where
  "spared A i k n jr j d \<equiv> given_up A i k n jr d \<and> busy i n j d"

lemma spared_before: "spared A i k n jr j d \<Longrightarrow> before_work io job d d' \<Longrightarrow> spared A i k n jr j d'"
  using before_work_tables [of io job d d' A i k] by (simp add: given_up_def busy_def)

lemma spared_refuse:
  assumes "spared A i k n jr (cj_ID job) d" "\<not> (cj_Asset job = i \<and> cj_Intent job = n)"
    "refuse obs d now job reason err = (e, obs', d')"
  shows "spared A i k n jr (cj_ID job) d'"
proof -
  have r: "\<not> rend_is i n (bare_rendition (cj_Asset job) (cj_Intent job) RS_Failed (Some reason))"
    using assms(2) by (auto simp: rend_is_def bare_rendition_def)
  have "spared A i k n jr (cj_ID job) (d\<lparr>db_renditions := upsert_row (rend_is (cj_Asset job) (cj_Intent job))
      (\<lambda>x. x\<lparr>rr_status := RS_Failed, rr_reason := Some reason\<rparr>)
      (bare_rendition (cj_Asset job) (cj_Intent job) RS_Failed (Some reason)) (db_renditions d)\<rparr>)" (is "spared A i k n jr _ ?d")
    using assms(1) given_up_renditions [OF conjunct1 [OF assms(1)] _ _ r] by (simp add: busy_def)
  moreover have "spared A i k n jr (cj_ID job) (CompleteJobNoRendition ?d now (cj_ID job))" if "spared A i k n jr (cj_ID job) ?d"
    unfolding CompleteJobNoRendition_def
    using given_up_jobs [OF conjunct1 [OF that] conjunct2 [OF that], of "succeed_row now"]
    by (simp add: succeed_row_def job_for_def)
  ultimately show ?thesis using assms(1,3) by (auto simp: refuse_def FailedRenditionForCeiling_def split: if_splits)
qed

lemma spared_complete:
  assumes "spared A i k n jr (cj_ID job) d" "complete io obs d now job rec = (e, obs', d')"
  shows "spared A i k n jr (cj_ID job) d'"
proof (cases "CompleteJob d now (cj_ID job) rec")
  case (Inl x) then show ?thesis using assms by (simp add: complete_def)
next
  case (Inr y)
  then obtain r where r: "get_row (\<lambda>r. jr_id r = cj_ID job \<and> jr_status r = JobRunning) (db_jobs d) = Some r"
    by (auto simp: CompleteJob_def split: option.splits)
  then have "\<not> job_for i n r" using get_row_Some_iff [OF r] assms(1) by (simp add: busy_def)
  then have s: "\<not> rend_is i n (ready_row (jr_asset r) (jr_intent r) rec)" by (auto simp: rend_is_def ready_row_def job_for_def)
  let ?d = "d\<lparr>db_renditions := upsert_row (rend_is (jr_asset r) (jr_intent r))
                   (\<lambda>x. x\<lparr>rr_status := RS_Ready, rr_width := rc_Width rec, rr_height := rc_Height rec,
                          rr_dur := rc_DurationS rec, rr_audio := rc_HasAudio rec, rr_key := Some (rc_Key rec),
                          rr_mode := Some (rc_Mode rec), rr_reason := None\<rparr>)
                   (ready_row (jr_asset r) (jr_intent r) rec) (db_renditions d)\<rparr>"
  have "spared A i k n jr (cj_ID job) ?d"
    using assms(1) given_up_renditions [OF conjunct1 [OF assms(1)] _ _ s] by (simp add: busy_def)
  then have "spared A i k n jr (cj_ID job) (?d\<lparr>db_jobs := update_where (\<lambda>x. jr_id x = cj_ID job) (succeed_row now) (db_jobs ?d)\<rparr>)"
    using given_up_jobs [of A i k n jr ?d "cj_ID job" "succeed_row now"] by (simp add: succeed_row_def job_for_def)
  then show ?thesis using assms(2) r by (simp add: complete_def CompleteJob_def)
qed

lemma spared_process:
  assumes "spared A i k n jr (cj_ID job) d" "\<not> (cj_Asset job = i \<and> cj_Intent job = n)"
    "process io w now job obs d = (e, obs', d')"
  shows "spared A i k n jr (cj_ID job) d'"
  using assms(3)
proof (cases rule: process_shape)
  case (1 d1) then show ?thesis using spared_before [OF assms(1)] by simp
next
  case (2 d1 reason err) show ?thesis by (rule spared_refuse [OF spared_before [OF assms(1) 2(1)] assms(2) 2(2)])
next
  case (3 d1 out rec) show ?thesis by (rule spared_complete [OF spared_before [OF assms(1) 3(1)] 3(3)])
qed

lemma spared_fail:
  assumes "spared A i k n jr j d" "FailJob d now j m reason err = Inr (d', u)"
  shows "spared A i k n jr j d'"
proof -
  have "spared A i k n jr j (d\<lparr>db_jobs := update_where (\<lambda>r. jr_id r = j) (requeue_row now err) (db_jobs d)\<rparr>)"
    "spared A i k n jr j (d\<lparr>db_jobs := update_where (\<lambda>r. jr_id r = j) (fail_row now reason err) (db_jobs d)\<rparr>)"
    using given_up_jobs [OF conjunct1 [OF assms(1)] conjunct2 [OF assms(1)], of "requeue_row now err"]
      given_up_jobs [OF conjunct1 [OF assms(1)] conjunct2 [OF assms(1)], of "fail_row now reason err"]
    by (simp_all add: requeue_row_def fail_row_def job_for_def)
  then show ?thesis using assms(2) by (auto simp: FailJob_def split: option.splits if_splits)
qed

lemma spared_run:
  assumes "spared A i k n jr (cj_ID job) d" "\<not> (cj_Asset job = i \<and> cj_Intent job = n)"
    "runOne io w now job obs d = (obs', d')"
  shows "given_up A i k n jr d'"
proof -
  obtain e obs1 d1 where p: "process io w now job obs d = (e, obs1, d1)" by (cases "process io w now job obs d") auto
  note s = spared_process [OF assms(1,2) p]
  show ?thesis
  proof (cases e)
    case None then show ?thesis using assms(3) p s by (simp add: runOne_def)
  next
    case (Some err)
    then show ?thesis using assms(3) p s spared_fail [OF s]
      by (cases "FailJob d1 now (cj_ID job) (wk_maxAttempts w) RC_Failed err") (auto simp: runOne_def)
  qed
qed

text \<open>A claim takes no failed job, so it takes a job of something else.\<close>

lemma claim_spares:
  assumes "given_up A i k n jr d" "ClaimNextJob d t ttl = (d', res)"
  shows "given_up A i k n jr d'
    \<and> (\<forall>job. res = Inr job \<longrightarrow> spared A i k n jr (cj_ID job) d' \<and> \<not> (cj_Asset job = i \<and> cj_Intent job = n))"
proof (cases "pick_job d (t - ttl)")
  case None then show ?thesis using assms by (auto simp: ClaimNextJob_def Let_def)
next
  case (Some r)
  have r: "r \<in> set (db_jobs d)" "runnable (t - ttl) r" by (rule pick_job_Some [OF Some])+
  then have other: "\<not> job_for i n r" using assms(1) by (auto simp: given_up_def runnable_def)
  then have b: "busy i n (jr_id r) d"
    using r assms(1) distinct_key_eq [of jr_id "db_jobs d" _ r] by (auto simp: busy_def given_up_def)
  have "spared A i k n jr (jr_id r) (d\<lparr>db_jobs := update_where (\<lambda>x. jr_id x = jr_id r) (claim_row t) (db_jobs d)\<rparr>)"
    using given_up_jobs [OF assms(1) b, of "claim_row t"] by (simp add: claim_row_def job_for_def)
  then show ?thesis using assms(2) Some other
    by (auto simp: ClaimNextJob_def Let_def job_for_def claim_row_def split: option.splits)
qed

lemma turn_given_up: "turn p q \<Longrightarrow> given_up A i k n jr (snd p) \<Longrightarrow> given_up A i k n jr (snd q)"
proof (induction rule: turn.induct)
  case (turn io w t now obs d e obs' d')
  obtain d1 res where c: "ClaimNextJob d t (wk_leaseTTL w) = (d1, res)" by (cases "ClaimNextJob d t (wk_leaseTTL w)")
  have g: "given_up A i k n jr d" using turn(2) by simp
  note s = claim_spares [OF g c]
  show ?case
  proof (cases res)
    case (Inl x) then show ?thesis using turn(1) c s by (simp add: run_turn_def)
  next
    case (Inr job)
    then have "runOne io w now job obs d1 = (obs', d')" using turn(1) c by (simp add: run_turn_def split: prod.splits)
    then show ?thesis using spared_run s Inr by (metis snd_conv)
  qed
qed

lemma turns_given_up: "turn\<^sup>*\<^sup>* p q \<Longrightarrow> given_up A i k n jr (snd p) \<Longrightarrow> given_up A i k n jr (snd q)"
  by (induction rule: rtranclp_induct) (auto dest: turn_given_up)

section \<open>What the owner is told\<close>

definition needed :: "media_kind \<Rightarrow> intent \<Rightarrow> intent" where
  "needed k q = (if k = Video \<and> isImageLadderIntent q then Poster else q)"

lemma given_up_asset:
  assumes "given_up A i k n jr d"
  obtains a where "GetAsset d A i = Inr a" "asset_Kind a = k" "asset_DeletedAt a = None" "findRendition a n = None"
proof -
  obtain x where x: "x \<in> set (db_assets d)" "live_row A i k x" and key: "distinct (map ar_id (db_assets d))"
    using assms by (auto simp: given_up_def alive_def)
  then have g: "get_row (asset_is A i) (db_assets d) = Some x"
    by (intro get_row_by_key [of ar_id]) (auto simp: live_row_def asset_is_def)
  have "findRendition (scanAssetRow d x\<lparr>asset_Renditions := renditionsFor d i\<rparr>) n = None"
    using assms by (auto simp: findRendition_def find_None_iff renditionsFor_def rendition_of_row_def given_up_def rend_is_def)
  then show thesis using that g x(2) by (simp add: GetAsset_def scanAsset_def scanAssetRow_def Let_def live_row_def asset_is_def)
qed

lemma given_up_pending:
  assumes "given_up A i k (needed k q) jr d" "k = Video \<or> k = Audio" "q \<noteq> Original"
    "scopeCheck cl ''assets:read''" "account cl = A" "parseDevice dev = Some device"
  shows "handleResolveDeliveryURL s now cl d c i (intent_str q) dev [] = ((200, B_Resolution (refusal q (Some RC_Pending))), c)"
proof -
  obtain a where a: "GetAsset d A i = Inr a" "asset_Kind a = k" "asset_DeletedAt a = None" "findRendition a (needed k q) = None"
    using given_up_asset [OF assms(1)] .
  have "resolveNonOriginal s q device a = refusal q (Some RC_Pending)"
    using a(2-4) assms(2) by (auto simp: resolveNonOriginal_def needed_def renditionStateResolution_def av_resolution_find
        findRendition_def split: if_splits)
  moreover have "validIntent (intent_str q)" by (cases q) (simp_all add: validIntent_def)
  ultimately show ?thesis using a(1,3) assms(3-6) by (simp add: handleResolveDeliveryURL_def)
qed

lemma given_up_job:
  "given_up A i k n jr d \<Longrightarrow> GetJob d (jr_account jr) (jr_id jr) = Inr (job_of_row jr)"
  using get_row_by_key [of jr_id "db_jobs d" jr "\<lambda>r. jr_account r = jr_account jr \<and> jr_id r = jr_id jr"]
  by (simp add: GetJob_def given_up_def)

text \<open>The last attempt: a run that fails leaves jobs and renditions alone, and the job is closed.\<close>

lemma failed_run:
  assumes "process io w now job obs d = (Some err, obs', d')"
  shows "before_work io job d d'"
  using assms
proof (cases rule: process_shape)
  case (1 d1) then show ?thesis by simp
next
  case (2 d1 reason e)
  then have "d' = d1" by (auto simp: refuse_def split: sum.splits)
  then show ?thesis using 2(1) by simp
next
  case (3 d1 out rec)
  then have "d' = d1" by (auto simp: complete_def split: sum.splits)
  then show ?thesis using 3(1) by simp
qed

lemma last_attempt:
  assumes "reachable d" "alive A i k d" "ClaimNextJob d t ttl = (d1, Inr job)" "cj_Asset job = i" "cj_Intent job = n"
    "wk_maxAttempts w \<le> cj_Attempts job" "process io w now job obs d1 = (Some err, obs2, d2)"
    "\<forall>r \<in> set (db_jobs d). job_for i n r \<longrightarrow> jr_id r = cj_ID job \<or> jr_status r = JobFailed"
    "\<forall>r \<in> set (db_renditions d). \<not> rend_is i n r"
  obtains jr where "given_up A i k n jr (snd (runOne io w now job obs d1))" "jr_account jr = A" "jr_id jr = cj_ID job"
    "jr_reason jr = Some RC_Failed" "jr_status jr = JobFailed"
proof -
  obtain r0 where p: "pick_job d (t - ttl) = Some r0" using assms(3) by (auto simp: ClaimNextJob_def Let_def split: option.splits)
  note r0 = pick_job_Some(1,2) [OF p]
  let ?r = "claim_row t r0"
  have keys: "distinct (map jr_id (db_jobs d))" using reachable_keys [OF assms(1)] by (simp add: keys_ok_def)
  have d1: "d1 = d\<lparr>db_jobs := update_where (\<lambda>x. jr_id x = jr_id r0) (claim_row t) (db_jobs d)\<rparr>"
    and job: "cj_ID job = jr_id r0" "cj_Asset job = jr_asset r0" "cj_Intent job = jr_intent r0" "cj_Attempts job = jr_retries ?r"
    and own: "get_row (asset_is (jr_account r0) (jr_asset r0)) (db_assets d) \<noteq> None"
    using assms(3) p by (auto simp: ClaimNextJob_def Let_def claim_row_def split: option.splits)
  have acct: "jr_account r0 = A"
  proof -
    obtain x y where "x \<in> set (db_assets d)" "asset_is (jr_account r0) i x" "y \<in> set (db_assets d)" "asset_is A i y"
      "distinct (map ar_id (db_assets d))"
      using own assms(2,4) job(2) by (auto simp: alive_def live_row_def dest!: get_row_Some_iff)
    then show ?thesis using distinct_key_eq [of ar_id "db_assets d" x y] by (auto simp: asset_is_def)
  qed
  let ?fail = "fail_row now RC_Failed err"
  have b: "before_work io job d1 d2" by (rule failed_run [OF assms(7)])
  have t2: "db_jobs d2 = db_jobs d1" "db_renditions d2 = db_renditions d1" "alive A i k d2"
    using before_work_tables [OF b, of A i k] assms(2) d1 by (simp_all add: alive_def)
  have "distinct (map jr_id (db_jobs d1))" using keys d1 map_update_where [of jr_id "claim_row t"] by (simp add: claim_row_def)
  moreover have in1: "?r \<in> set (db_jobs d1)" using r0 d1 by (auto simp: set_update_where)
  ultimately have g: "get_row (\<lambda>x. jr_id x = cj_ID job) (db_jobs d2) = Some ?r"
    and k1: "distinct (map jr_id (db_jobs d1))"
    using get_row_by_key [of jr_id "db_jobs d1" ?r "\<lambda>x. jr_id x = cj_ID job"] job t2(1) by (simp_all add: claim_row_def)
  let ?d3 = "d2\<lparr>db_jobs := update_where (\<lambda>x. jr_id x = cj_ID job) ?fail (db_jobs d2)\<rparr>"
  have run: "snd (runOne io w now job obs d1) = ?d3" using assms(6,7) g job by (simp add: runOne_def FailJob_def)
  have "jr_status r = JobFailed" if r: "r \<in> set (db_jobs ?d3)" "job_for i n r" for r
    using r assms(8) job by (auto simp: t2 d1 set_update_where fail_row_def claim_row_def job_for_def)
  moreover have "?fail ?r \<in> set (db_jobs ?d3)" using in1 t2 job by (auto simp: set_update_where claim_row_def)
  moreover have "distinct (map jr_id (db_jobs ?d3))" using k1 t2 map_update_where [of jr_id ?fail] by (simp add: fail_row_def)
  moreover have "job_for i n (?fail ?r)" using job assms(4,5) by (simp add: job_for_def fail_row_def claim_row_def)
  ultimately have "given_up A i k n (?fail ?r) ?d3" using t2 assms(9) d1 by (simp add: given_up_def alive_def)
  then show thesis using that [of "?fail ?r"] run acct job by (simp add: fail_row_def claim_row_def)
qed

text \<open>C40: A job that fails for good is not visible to delivery. When the last attempt of a video or audio
  job fails, and its intent has no rendition and no other job that has not failed, the job is
  closed with the reason failed, but no rendition records it: the delivery endpoint answers pending
  for every intent that depends on it, right then and after any number of further whole turns of
  workers, on any jobs, with storage and engines answering as they may. (Turns run one after
  another here; a worker that had lost its lease on this very job could still refuse or complete
  it.) The contract keeps pending for renditions that are coming and says that the job's reason is
  what delivery surfaces.\<close>
theorem failed_job_pends:
  assumes "reachable d" "GetAsset d A i = Inr a" "asset_Kind a = Video \<or> asset_Kind a = Audio" "asset_DeletedAt a = None"
    "ClaimNextJob d t (wk_leaseTTL w) = (d1, Inr job)" "cj_Asset job = i" "cj_Intent job = needed (asset_Kind a) q"
    "wk_maxAttempts w \<le> cj_Attempts job" "process io w now job obs d1 = (Some err, obs2, d2)"
    "\<forall>r \<in> set (db_jobs d). job_for i (cj_Intent job) r \<longrightarrow> jr_id r = cj_ID job \<or> jr_status r = JobFailed"
    "\<forall>r \<in> set (db_renditions d). \<not> rend_is i (cj_Intent job) r"
    "turn\<^sup>*\<^sup>* (runOne io w now job obs d1) (obs', d')"
    "scopeCheck cl ''assets:read''" "account cl = A" "parseDevice dev = Some device" "q \<noteq> Original"
  shows "(\<exists>j. GetJob d' A (cj_ID job) = Inr j \<and> job_Status j = JobFailed \<and> job_Reason j = Some RC_Failed)
    \<and> handleResolveDeliveryURL s now' cl d' c i (intent_str q) dev [] = ((200, B_Resolution (refusal q (Some RC_Pending))), c)"
proof -
  obtain x where "get_row (asset_is A i) (db_assets d) = Some x" "ar_kind x = asset_Kind a" "ar_deleted x = None"
    using assms(2,4) by (auto simp: GetAsset_def scanAsset_def scanAssetRow_def Let_def split: option.splits)
  then have alive: "alive A i (asset_Kind a) d"
    using reachable_keys [OF assms(1)] get_row_Some_iff [of "asset_is A i" "db_assets d" x] by (auto simp: alive_def live_row_def keys_ok_def)
  obtain jr where jr: "given_up A i (asset_Kind a) (cj_Intent job) jr (snd (runOne io w now job obs d1))" "jr_account jr = A"
      "jr_id jr = cj_ID job" "jr_reason jr = Some RC_Failed" "jr_status jr = JobFailed"
    by (rule last_attempt [OF assms(1) alive assms(5,6) refl assms(8-11)])
  then have g: "given_up A i (asset_Kind a) (cj_Intent job) jr d'" using turns_given_up [OF assms(12)] by simp
  show ?thesis
    using given_up_job [OF g] given_up_pending [OF g [unfolded assms(7)] assms(3,16,13-15)] jr(2-5) by (simp add: job_of_row_def)
qed

definition film_claims :: claims where
  "film_claims = \<lparr>cl_account = ''alice'', cl_scope = [''assets:read''], cl_keyName = LegacyKeyName, cl_binding = None\<rparr>"

definition one_shot :: worker where
  "one_shot = demo_worker\<lparr>wk_maxAttempts := 1\<rparr>"

lemma failed_job_pends_witness:
  "\<exists>d'. run_turn demo_outside demo_worker 2000 2010 film_objects
       (snd (runOne (demo_outside\<lparr>io_work := None\<rparr>) one_shot 60 claimed film_objects running_db)) = (Some ErrNoJob, film_objects, d')
     \<and> fst (handleResolveDeliveryURL demo_service 3000 (Some film_claims) d' Map.empty ''A1'' ''loop'' [] [])
       = (200, B_Resolution (refusal Loop (Some RC_Pending)))"
proof -
  let ?io = "demo_outside\<lparr>io_work := None\<rparr>"
  have p: "process ?io one_shot 60 claimed film_objects running_db = (Some ''scratch dir: '', film_objects, running_db)"
    by (simp add: process_def demo_outside_def)
  have run: "runOne ?io one_shot 60 claimed film_objects running_db
      = (film_objects, running_db\<lparr>db_jobs := [fail_row 60 RC_Failed ''scratch dir: '' (claim_row 50 loop_job)]\<rparr>)"
    using p by (simp add: runOne_def FailJob_def running_db_def claimed_def one_shot_def table_defs claim_row_def loop_job_def queued_row_def)
  let ?d = "running_db\<lparr>db_jobs := [fail_row 60 RC_Failed ''scratch dir: '' (claim_row 50 loop_job)]\<rparr>"
  have t: "run_turn demo_outside demo_worker 2000 2010 film_objects ?d = (Some ErrNoJob, film_objects, ?d)"
    by (simp add: run_turn_def ClaimNextJob_def pick_job_def runnable_def fail_row_def Let_def)
  let ?a = "scanAssetRow queued_db film\<lparr>asset_Renditions := []\<rparr>"
  have a: "GetAsset queued_db ''alice'' ''A1'' = Inr ?a"
    by (simp add: GetAsset_def scanAsset_def scanAssetRow_def renditionsFor_def queued_db_eval film_db_eval demo_db_eval demo_db0_eval
        empty_db_def table_defs asset_is_def film_def demo_asset_def Let_def)
  have k: "asset_Kind ?a = Video" "asset_DeletedAt ?a = None" by (simp_all add: scanAssetRow_def film_def demo_asset_def)
  have ttl: "wk_leaseTTL one_shot = 900" by (simp add: one_shot_def demo_worker_def new_worker_def)
  have only: "\<forall>r \<in> set (db_jobs queued_db). job_for ''A1'' (cj_Intent claimed) r \<longrightarrow> jr_id r = cj_ID claimed \<or> jr_status r = JobFailed"
    by (simp add: queued_db_eval loop_job_def queued_row_def claimed_def)
  have none: "\<forall>r \<in> set (db_renditions queued_db). \<not> rend_is ''A1'' (cj_Intent claimed) r"
    by (simp add: queued_db_eval film_db_eval demo_db_eval demo_db0_eval empty_db_def)
  have turns: "turn\<^sup>*\<^sup>* (runOne ?io one_shot 60 claimed film_objects running_db) (film_objects, ?d)"
    unfolding run by (rule r_into_rtranclp) (rule turn.turn [OF t])
  have c: "scopeCheck (Some film_claims) ''assets:read''" "account (Some film_claims) = ''alice''"
    by (simp_all add: scopeCheck_def HasScope_def account_def film_claims_def)
  have "handleResolveDeliveryURL demo_service 3000 (Some film_claims) ?d Map.empty ''A1'' (intent_str Loop) [] []
      = ((200, B_Resolution (refusal Loop (Some RC_Pending))), Map.empty)"
    using failed_job_pends [OF queued_reachable a disjI1 [OF k(1)] k(2) claim_eval [folded ttl] _ _ _ p only none turns c,
        of Loop "[]" Mobile demo_service 3000 Map.empty]
    by (simp add: claimed_def k needed_def isImageLadderIntent_def imageLadderIntents_def one_shot_def parseDevice_def)
  then show ?thesis unfolding run using t by simp
qed

end
