(* ===== verification/Acceptance.thy ===== *)
theory Acceptance
  imports Failed_Jobs Image_Ladder
begin

text \<open>
  The seams of the acceptance tests (test/support/budget.go, resolver.go): the decoded-memory budgets
  and the choice of a device class, and the reference resolver of the duration ceiling, which the
  service was written to replace. What the service and the worker do is compared with them.
\<close>

section \<open>Device classes and budgets (budget.go)\<close>

definition MobileDecodedBudget :: int where "MobileDecodedBudget = 24 * 1024 * 1024"
definition DesktopDecodedBudget :: int where "DesktopDecodedBudget = 96 * 1024 * 1024"
definition smallViewportThreshold :: int where "smallViewportThreshold = 768"

record client_hints =
  ch_DeviceParam :: string
  ch_DeviceMemoryPresent :: bool
  ch_DeviceMemoryGiB :: float64
  ch_ViewportWidth :: int

definition ResolveDeviceClass :: "client_hints \<Rightarrow> device_class" where
  "ResolveDeviceClass h =
     (if ch_DeviceParam h = device_str Mobile then Mobile
      else if ch_DeviceParam h = device_str Desktop then Desktop
      else if ch_ViewportWidth h > 0 \<and> ch_ViewportWidth h \<le> smallViewportThreshold then Mobile
      else if ch_DeviceMemoryPresent h \<and> ch_DeviceMemoryGiB h > 0 \<and> ch_DeviceMemoryGiB h < 4 then Mobile
      else if ch_ViewportWidth h > smallViewportThreshold then Desktop
      else Mobile)"

definition DecodedBudgetFor :: "device_class \<Rightarrow> int" where
  "DecodedBudgetFor c = (if c = Desktop then DesktopDecodedBudget else MobileDecodedBudget)"

text \<open>The larger budget is given only on evidence: the parameter, or a wide viewport without a report of
  little memory.\<close>

lemma desktop_needs_evidence:
  "ResolveDeviceClass h = Desktop \<longleftrightarrow> ch_DeviceParam h = ''desktop''
     \<or> ch_DeviceParam h \<noteq> ''mobile'' \<and> 768 < ch_ViewportWidth h
       \<and> \<not> (ch_DeviceMemoryPresent h \<and> 0 < ch_DeviceMemoryGiB h \<and> ch_DeviceMemoryGiB h < 4)"
  by (auto simp: ResolveDeviceClass_def smallViewportThreshold_def)

text \<open>The endpoint has the parameter alone; what it takes is the class of the hints without any other.\<close>

definition param_hints :: "string \<Rightarrow> client_hints" where
  "param_hints v = \<lparr>ch_DeviceParam = v, ch_DeviceMemoryPresent = False, ch_DeviceMemoryGiB = 0, ch_ViewportWidth = 0\<rparr>"

lemma parseDevice_class: "parseDevice v = Some device \<Longrightarrow> device = ResolveDeviceClass (param_hints v)"
  by (auto simp: parseDevice_def ResolveDeviceClass_def param_hints_def smallViewportThreshold_def split: if_splits)

section \<open>The ceiling of the detail intent (resolver.go)\<close>

definition NewCeilingResolver :: "float64 \<Rightarrow> float64" where "NewCeilingResolver ceilingS = ceilingS"

definition ResolveDetail :: "float64 \<Rightarrow> float64 \<Rightarrow> delivery_resolution" where
  "ResolveDetail ceilingS measured =
     (if measured > ceilingS
      then \<lparr>dr_Delivery = None,
            dr_Detail = Some \<lparr>rd_CeilingBytes = None, rd_CeilingS = Some ceilingS, rd_Codec = None, rd_Container = None,
              rd_DurationS = Some measured, rd_SizeBytes = None\<rparr>,
            dr_Intent = Detail, dr_Reason = Some RC_ExceededDurationCeiling\<rparr>
      else \<lparr>dr_Delivery = Some \<lparr>dl_Expires = None, dl_Height = None, dl_Mode = Signed, dl_Url = ''stub://detail'',
              dl_Width = None\<rparr>,
            dr_Detail = None, dr_Intent = Detail, dr_Reason = None\<rparr>)"

text \<open>An asset that is answered has the rows of its renditions.\<close>

lemma found_row:
  assumes "GetAsset d A i = Inr a"
  shows "(case findRendition a n of None \<Rightarrow> \<forall>row \<in> set (db_renditions d). \<not> rend_is i n row
    | Some r \<Rightarrow> \<exists>row \<in> set (db_renditions d). rend_is i n row \<and> r = rendition_of_row row)"
proof -
  obtain x where x: "get_row (asset_is A i) (db_assets d) = Some x"
    and a: "a = (scanAssetRow d x)\<lparr>asset_Renditions := renditionsFor d (asset_Id (scanAssetRow d x))\<rparr>"
    using assms by (auto simp: GetAsset_def scanAsset_def Let_def split: option.splits)
  have "asset_Id (scanAssetRow d x) = i" using get_row_Some_iff [OF x] by (simp add: asset_is_def scanAssetRow_def)
  then have r: "asset_Renditions a = renditionsFor d i" by (simp add: a)
  show ?thesis
  proof (cases "findRendition a n")
    case None
    then have "\<forall>row \<in> set (db_renditions d). \<not> rend_is i n row"
      by (auto simp: findRendition_def r renditionsFor_def find_None_iff rend_is_def rendition_of_row_def)
    then show ?thesis using None by simp
  next
    case (Some q)
    then have "q \<in> set (renditionsFor d i)" "rend_Intent q = n" by (auto simp: findRendition_def r find_Some_iff)
    then have "\<exists>row \<in> set (db_renditions d). rend_is i n row \<and> q = rendition_of_row row"
      by (auto simp: renditionsFor_def rend_is_def rendition_of_row_def)
    then show ?thesis using Some by simp
  qed
qed

lemma alive_asset:
  assumes "alive A i k d"
  obtains a where "GetAsset d A i = Inr a" "asset_Kind a = k" "asset_DeletedAt a = None"
proof -
  obtain x where x: "x \<in> set (db_assets d)" "live_row A i k x" and key: "distinct (map ar_id (db_assets d))"
    using assms by (auto simp: alive_def)
  then have "get_row (asset_is A i) (db_assets d) = Some x"
    by (intro get_row_by_key [of ar_id]) (auto simp: live_row_def asset_is_def)
  then show thesis using that x(2) by (simp add: GetAsset_def scanAsset_def scanAssetRow_def Let_def live_row_def)
qed

lemma alive_has_asset: "alive A i k d \<Longrightarrow> has_asset_id d i"
  by (auto simp: alive_def live_row_def asset_is_def has_asset_id_def has_row_iff)

lemma detail_resolution:
  assumes "k = Video \<or> k = Audio" "asset_Kind a = k" "asset_DeletedAt a = None"
  shows "resolveNonOriginal s Detail device a = av_resolution s Detail a (asset_Renditions a)"
  using assms by (auto simp: resolveNonOriginal_def isImageLadderIntent_def imageLadderIntents_def)

text \<open>A failed row with a reason is the answer, whatever other columns it has.\<close>

lemma refused_resolution:
  assumes "alive A i k d" "k = Video \<or> k = Audio" "\<exists>row \<in> set (db_renditions d). rend_is i Detail row"
    "\<forall>row \<in> set (db_renditions d). rend_is i Detail row \<longrightarrow> rr_status row = RS_Failed \<and> rr_reason row = Some reason"
  shows "\<exists>a. GetAsset d A i = Inr a \<and> resolveNonOriginal s Detail device a = refusal Detail (Some reason)"
proof -
  obtain a where a: "GetAsset d A i = Inr a" "asset_Kind a = k" "asset_DeletedAt a = None" using alive_asset [OF assms(1)] .
  obtain r where "findRendition a Detail = Some r" "rend_Status r = RS_Failed" "rend_Reason r = Some reason"
    using found_row [OF a(1), of Detail] assms(3,4) by (auto simp: rendition_of_row_def split: option.splits)
  then show ?thesis using a detail_resolution [OF assms(2) a(2,3)] by (auto simp: av_resolution_find findRendition_def)
qed

lemma unrefused_resolution:
  assumes "alive A i k d" "k = Video \<or> k = Audio"
    "\<forall>row \<in> set (db_renditions d). rend_is i Detail row \<longrightarrow> rr_status row = RS_Ready"
  shows "\<exists>a. GetAsset d A i = Inr a \<and> dr_Reason (resolveNonOriginal s Detail device a) \<noteq> Some RC_ExceededDurationCeiling"
proof -
  obtain a where a: "GetAsset d A i = Inr a" "asset_Kind a = k" "asset_DeletedAt a = None" using alive_asset [OF assms(1)] .
  have "rend_Status r = RS_Ready" if "find (\<lambda>r. rend_Intent r = Detail) (asset_Renditions a) = Some r" for r
    using found_row [OF a(1), of Detail] assms(3) that by (auto simp: findRendition_def rendition_of_row_def)
  then show ?thesis using a detail_resolution [OF assms(2) a(2,3)]
    by (auto simp: av_resolution_find refusal_def split: option.splits sum.splits dest!: Resolve_Inr)
qed

text \<open>A run changes assets and renditions as its work does; failing the job touches neither.\<close>

lemma run_tables:
  assumes "process io w now job obs d = (e, obs', d')"
  shows "db_assets (snd (runOne io w now job obs d)) = db_assets d'
    \<and> db_renditions (snd (runOne io w now job obs d)) = db_renditions d'"
  using assms by (cases e) (auto simp: runOne_def FailJob_def split: sum.splits option.splits if_splits)

lemma ceiling_refusal:
  assumes "alive A i k d" "cj_Asset job = i" "cj_Intent job = Detail" "refuse obs d now job reason err = (e, obs', d')"
  shows "db_assets d' = db_assets d \<and> (\<exists>row \<in> set (db_renditions d'). rend_is i Detail row)
    \<and> (\<forall>row \<in> set (db_renditions d'). rend_is i Detail row \<longrightarrow> rr_status row = RS_Failed \<and> rr_reason row = Some reason)"
proof -
  let ?rows = "upsert_row (rend_is i Detail) (\<lambda>x. x\<lparr>rr_status := RS_Failed, rr_reason := Some reason\<rparr>)
      (bare_rendition i Detail RS_Failed (Some reason)) (db_renditions d)"
  have "db_assets d' = db_assets d" "db_renditions d' = ?rows"
    using assms(2-4) alive_has_asset [OF assms(1)]
    by (auto simp: refuse_def FailedRenditionForCeiling_def CompleteJobNoRendition_def)
  moreover have "\<exists>row \<in> set ?rows. rend_is i Detail row"
  proof (cases "has_row (rend_is i Detail) (db_renditions d)")
    case True
    then obtain x where "x \<in> set (db_renditions d)" "rend_is i Detail x" by (auto simp: has_row_iff)
    then have "rend_is i Detail (x\<lparr>rr_status := RS_Failed, rr_reason := Some reason\<rparr>)"
      "x\<lparr>rr_status := RS_Failed, rr_reason := Some reason\<rparr> \<in> set ?rows"
      using True by (auto simp: upsert_row_def set_update_where rend_is_def)
    then show ?thesis by blast
  qed (simp add: upsert_row_def insert_row_def rend_is_def bare_rendition_def)
  moreover have "\<forall>row \<in> set ?rows. rend_is i Detail row \<longrightarrow> rr_status row = RS_Failed \<and> rr_reason row = Some reason"
    by (auto simp: upsert_row_def set_update_where insert_row_def bare_rendition_def has_row_iff)
  ultimately show ?thesis by simp
qed

lemma within_ceiling:
  assumes "process io w now job obs d = (e, obs', d')" "io_work io \<noteq> None" "cj_Mode job = Derive" "cj_Asset job = i" "cj_Intent job = Detail"
    "fetch io obs (cj_VaultKey job) = Some bytes" "io_probe_av io bytes = Some pr" "\<not> pr_DurationS pr > wk_detailMaxDurationS w"
    "\<forall>row \<in> set (db_renditions d). \<not> rend_is i Detail row" "alive A i k d"
  shows "alive A i k d' \<and> (\<forall>row \<in> set (db_renditions d'). rend_is i Detail row \<longrightarrow> rr_status row = RS_Ready)"
proof -
  obtain work where work: "io_work io = Some work" using assms(2) by blast
  have derive: "cj_Mode job \<noteq> Remux" using assms(3) by simp
  let ?d2 = "BackfillVaultProbe (recordChecksum d (cj_Asset job) (ChecksumPrefix @ io_sha256 io bytes) (int (length bytes)) (cj_VaultSize job))
      (cj_Asset job) (vaultRecordFromProbe pr)"
  have "before_work io job d ?d2" by (auto simp: before_work_def Let_def)
  then have t: "db_renditions ?d2 = db_renditions d" "alive A i k ?d2"
    using before_work_tables [of io job d ?d2 A i k] assms(10) by simp_all
  have e: "(case Transcode io (wk_preset w) (cj_Intent job) (work @ ''/source'') (work @ ''/rendition'' @ outputExt (cj_Intent job)) bytes of
        None \<Rightarrow> (Some (io_error io), obs, ?d2)
      | Some out \<Rightarrow> (case probeRendition io (cj_Intent job) out of
          None \<Rightarrow> (Some (''probe rendition: '' @ io_error io), obs, ?d2)
        | Some rend \<Rightarrow> if \<not> io_put io (rendition_of job) then (Some (''put rendition: '' @ io_error io), obs, ?d2)
            else complete io (obs(rendition_of job \<mapsto> out)) ?d2 now job
              (rend\<lparr>rc_Key := rendition_of job, rc_Mode := mode_str Public\<rparr>))) = (e, obs', d')"
    using assms(1) unfolding process_def Let_def rendition_of_def using work derive assms(6-8) by (simp del: de_Morgan_conj)
  have "d' = ?d2 \<or> (\<exists>o1 rec. complete io o1 ?d2 now job rec = (e, obs', d'))"
    using e by (auto split: option.splits if_splits)
  then show ?thesis
  proof (elim disjE exE)
    assume "d' = ?d2" then show ?thesis using t assms(9) by simp
  next
    fix o1 rec assume "complete io o1 ?d2 now job rec = (e, obs', d')"
    then show ?thesis using t assms(9)
      by (auto simp: complete_def CompleteJob_def upsert_row_def set_update_where insert_row_def rend_is_def ready_row_def alive_def
          split: option.splits if_splits)
  qed
qed

text \<open>C34: The worker and the delivery endpoint together do what the reference resolver of the acceptance
  tests does with the measured duration, for a detail job the worker derives (an authored one has
  no duration limit) of a live video or audio asset that has no detail rendition yet, under a
  positive ceiling, which every configured worker has: over the ceiling the intent is refused with
  the reason the resolver gives, and nothing else; within it the intent is never refused for its
  duration. What the resolver and the contract's example have beside, the machine-readable numbers
  of the refusal, the service never sends.\<close>
theorem detail_ceiling_conformance:
  assumes "reachable d" "GetAsset d A i = Inr a" "asset_Kind a = Video \<or> asset_Kind a = Audio" "asset_DeletedAt a = None"
    "cj_Mode job = Derive" "cj_Asset job = i" "cj_Intent job = Detail" "io_work io \<noteq> None" "fetch io obs (cj_VaultKey job) = Some bytes"
    "io_probe_av io bytes = Some pr" "0 < wk_detailMaxDurationS w" "\<forall>row \<in> set (db_renditions d). \<not> rend_is i Detail row"
  shows "let reference = ResolveDetail (NewCeilingResolver (wk_detailMaxDurationS w)) (pr_DurationS pr);
      d' = snd (runOne io w now job obs d)
    in \<exists>a'. GetAsset d' A i = Inr a'
      \<and> (if dr_Delivery reference = None then resolveNonOriginal s Detail device a' = reference\<lparr>dr_Detail := None\<rparr>
         else dr_Reason (resolveNonOriginal s Detail device a') \<noteq> Some RC_ExceededDurationCeiling)"
proof -
  obtain x where "get_row (asset_is A i) (db_assets d) = Some x" "ar_kind x = asset_Kind a" "ar_deleted x = None"
    using assms(2,4) by (auto simp: GetAsset_def scanAsset_def scanAssetRow_def Let_def split: option.splits)
  then have alive: "alive A i (asset_Kind a) d"
    using reachable_keys [OF assms(1)] get_row_Some_iff [of "asset_is A i" "db_assets d" x] by (auto simp: alive_def live_row_def keys_ok_def)
  obtain e obs1 d1 where p: "process io w now job obs d = (e, obs1, d1)" by (cases "process io w now job obs d") auto
  note run = run_tables [OF p]
  let ?d' = "snd (runOne io w now job obs d)"
  show ?thesis
  proof (cases "pr_DurationS pr > wk_detailMaxDurationS w")
    case True
    let ?d2 = "BackfillVaultProbe (recordChecksum d i (ChecksumPrefix @ io_sha256 io bytes) (int (length bytes)) (cj_VaultSize job))
      i (vaultRecordFromProbe pr)"
    have "before_work io job d ?d2" using assms(6) by (auto simp: before_work_def Let_def)
    then have alive2: "alive A i (asset_Kind a) ?d2" using before_work_tables [of io job d ?d2 A i "asset_Kind a"] alive by simp
    have "refuse obs ?d2 now job RC_ExceededDurationCeiling (''write ceiling-refusal rendition: '' @ io_error io) = (e, obs1, d1)"
      using p assms(5-11) True by (auto simp: process_def Let_def)
    note c = ceiling_refusal [OF alive2 assms(6,7) this]
    have "alive A i (asset_Kind a) ?d'" using alive2 c run by (simp add: alive_def)
    then have "\<exists>a. GetAsset ?d' A i = Inr a \<and> resolveNonOriginal s Detail device a = refusal Detail (Some RC_ExceededDurationCeiling)"
      using refused_resolution [of A i "asset_Kind a" ?d'] assms(3) c run by simp
    then show ?thesis using True by (simp add: Let_def ResolveDetail_def NewCeilingResolver_def refusal_def)
  next
    case False
    note c = within_ceiling [OF p assms(8,5-7,9,10) False assms(12) alive]
    have "alive A i (asset_Kind a) ?d'" using c run by (simp add: alive_def)
    then have "\<exists>a. GetAsset ?d' A i = Inr a \<and> dr_Reason (resolveNonOriginal s Detail device a) \<noteq> Some RC_ExceededDurationCeiling"
      using unrefused_resolution [of A i "asset_Kind a" ?d'] assms(3) c run by simp
    then show ?thesis using False by (simp add: Let_def ResolveDetail_def NewCeilingResolver_def)
  qed
qed

lemma running_reachable: "reachable running_db"
proof -
  have "running_db = run_worker 50 (W_Claim 900) queued_db" using claim_eval by simp
  then show ?thesis using reachable.step [OF queued_reachable store_step.worker] by metis
qed

lemma detail_ceiling_conformance_witness:
  "\<exists>a. GetAsset (snd (runOne demo_outside (demo_worker\<lparr>wk_detailMaxDurationS := 3\<rparr>) 60 (claimed\<lparr>cj_Intent := Detail\<rparr>) film_objects running_db))
       ''alice'' ''A1'' = Inr a
     \<and> resolveNonOriginal demo_service Detail Mobile a = refusal Detail (Some RC_ExceededDurationCeiling)"
proof -
  let ?a = "scanAssetRow running_db film\<lparr>asset_Renditions := []\<rparr>"
  have a: "GetAsset running_db ''alice'' ''A1'' = Inr ?a"
    by (simp add: GetAsset_def scanAsset_def scanAssetRow_def renditionsFor_def running_db_def queued_db_eval film_db_eval demo_db_eval
        demo_db0_eval empty_db_def table_defs asset_is_def film_def demo_asset_def Let_def)
  have k: "asset_Kind ?a = Video" "asset_DeletedAt ?a = None" by (simp_all add: scanAssetRow_def film_def demo_asset_def)
  have j: "cj_Mode (claimed\<lparr>cj_Intent := Detail\<rparr>) = Derive" "cj_Asset (claimed\<lparr>cj_Intent := Detail\<rparr>) = ''A1''"
    "cj_Intent (claimed\<lparr>cj_Intent := Detail\<rparr>) = Detail" by (simp_all add: claimed_def)
  have f: "fetch demo_outside film_objects (cj_VaultKey (claimed\<lparr>cj_Intent := Detail\<rparr>)) = Some ''raw bytes!''" "io_work demo_outside \<noteq> None"
    "io_probe_av demo_outside ''raw bytes!'' = Some film_probe"
    by (simp_all add: fetch_def demo_outside_def film_objects_def claimed_def film_probe_def)
  have none: "\<forall>row \<in> set (db_renditions running_db). \<not> rend_is ''A1'' Detail row"
    by (simp add: running_db_def queued_db_eval film_db_eval demo_db_eval demo_db0_eval empty_db_def)
  show ?thesis
    using detail_ceiling_conformance [OF running_reachable a disjI1 [OF k(1)] k(2) j f(2,1,3) _ none,
        of "demo_worker\<lparr>wk_detailMaxDurationS := 3\<rparr>" 60 demo_service Mobile]
    by (simp add: ResolveDetail_def NewCeilingResolver_def film_probe_def refusal_def)
qed

section \<open>Served images fit the device\<close>

lemma same_asset:
  assumes "keys_ok d" "GetAsset d A i = Inr a" "GetAsset d B i = Inr b"
  shows "b = a"
proof -
  obtain x y where x: "get_row (asset_is A i) (db_assets d) = Some x" and y: "get_row (asset_is B i) (db_assets d) = Some y"
    using assms(2,3) by (auto simp: GetAsset_def scanAsset_def Let_def split: option.splits)
  have "distinct (map ar_id (db_assets d))" using assms(1) by (simp add: keys_ok_def)
  then have "x = y" using get_row_Some_iff [OF x] get_row_Some_iff [OF y] distinct_key_eq [of ar_id "db_assets d" x y]
    by (simp add: asset_is_def)
  then show ?thesis using assms(2,3) x y by (simp add: GetAsset_def scanAsset_def)
qed

lemma refused_read: "mapStoreErr e \<noteq> (200, x)"
  by (cases e) (simp_all add: denyNotFound_def)

text \<open>An image on either path: the owner's public URL and the granted one are signed for the preset of the
  device of the request, and the announced size is what that preset yields.\<close>

lemma endpoint_image:
  assumes "keys_ok d" "GetAsset d A i = Inr a" "asset_Kind a = Image" "n \<noteq> Original"
    "fst (handleResolveDeliveryURL s now cl d c i (intent_str n) dev grantID) = (200, B_Resolution res)" "dr_Delivery res = Some dl"
  obtains device expiry where "parseDevice dev = Some device"
    "signedImageURL s (imagePreset n device (vo_Width (asset_Vault a)) (vo_Height (asset_Vault a))) (vo_Key (asset_Vault a)) expiry = Some (dl_Url dl)"
    "dl_Width dl = map_option fst (fitOutputDims (vo_Width (asset_Vault a)) (vo_Height (asset_Vault a))
       (imagePreset n device (vo_Width (asset_Vault a)) (vo_Height (asset_Vault a))))"
    "dl_Height dl = map_option snd (fitOutputDims (vo_Width (asset_Vault a)) (vo_Height (asset_Vault a))
       (imagePreset n device (vo_Width (asset_Vault a)) (vo_Height (asset_Vault a))))"
proof -
  obtain device where dev: "parseDevice dev = Some device" using assms(5)
    by (auto simp: handleResolveDeliveryURL_def lacks_scope_def split: if_splits option.splits)
  let ?pre = "imagePreset n device (vo_Width (asset_Vault a)) (vo_Height (asset_Vault a))"
  have public: "signedImageURL s ?pre (vo_Key (asset_Vault a)) None = Some (dl_Url q)
      \<and> dl_Width q = map_option fst (fitOutputDims (vo_Width (asset_Vault a)) (vo_Height (asset_Vault a)) ?pre)
      \<and> dl_Height q = map_option snd (fitOutputDims (vo_Width (asset_Vault a)) (vo_Height (asset_Vault a)) ?pre)"
    if "dr_Delivery (resolveNonOriginal s n device a) = Some q" for q
    using that assms(3) by (auto simp: resolveNonOriginal_def public_image_def refusal_def Let_def split: if_splits option.splits)
  show thesis
  proof (cases "grantID = []")
    case True
    then obtain b where "GetAsset d (account cl) i = Inr b"
      using assms(4-6) by (auto simp: handleResolveDeliveryURL_def lacks_scope_def refused_read split: if_splits option.splits sum.splits)
    then have "GetAsset d (account cl) i = Inr a" using same_asset [OF assms(1,2)] by blast
    then have "res = resolveNonOriginal s n device a"
      using assms(4-6) dev True by (auto simp: handleResolveDeliveryURL_def lacks_scope_def refusal_def split: if_splits)
    then show thesis using that [OF dev] public assms(6) by blast
  next
    case False
    then have "fst (resolveGranted s now d c grantID i n device) = (200, B_Resolution res)"
      using assms(5) dev by (auto simp: handleResolveDeliveryURL_def lacks_scope_def split: if_splits)
    then obtain B b q where b: "GetAsset d B i = Inr b" "dr_Delivery (resolveNonOriginal s n device b) = Some q"
      "enforceGranted s now q b grantID n device = Some dl"
      using assms(4,6) by (auto simp: resolveGranted_def unauthorized_def refusal_def Let_def split: if_splits option.splits sum.splits prod.splits)
    have ba: "b = a" by (rule same_asset [OF assms(1,2) b(1)])
    have g: "signedImageURL s ?pre (vo_Key (asset_Vault a)) (Some (now + sv_grantURLTTL s)) = Some (dl_Url dl)"
      "dl_Width dl = dl_Width q" "dl_Height dl = dl_Height q"
      using b(3) assms(3) unfolding ba by (auto simp: enforceGranted_def Let_def split: option.splits)
    from public [OF b(2) [unfolded ba]] g that [OF dev] show thesis by metis
  qed
qed

text \<open>C26: What the delivery endpoint announces for an image fits the memory of the device, on every path. For
  every live image asset with a recorded size, every image intent, every device parameter the
  endpoint accepts, and an owner's request as well as one under a grant, the URL of the answer is
  signed for a preset whose output has the announced size, and the decoded RGBA frame of that size
  keeps the budget of the class the acceptance resolver gives for the parameter: 24 MiB without
  one or on a phone, 96 MiB on a desktop, where the frame has at most 24,000,981 pixels.\<close>
theorem served_image_fits_device:
  assumes "reachable d" "GetAsset d A i = Inr a" "asset_Kind a = Image" "vo_Width (asset_Vault a) = Some w" "vo_Height (asset_Vault a) = Some h"
    "0 < w" "w < 2 ^ 31" "0 < h" "h < 2 ^ 31" "image_intent n"
    "fst (handleResolveDeliveryURL s now cl d c i (intent_str n) dev grantID) = (200, B_Resolution res)" "dr_Delivery res = Some dl"
  shows "\<exists>preset expiry w' h'. signedImageURL s preset (vo_Key (asset_Vault a)) expiry = Some (dl_Url dl)
    \<and> fitOutputDims (Some w) (Some h) preset = Some (w', h') \<and> dl_Width dl = Some w' \<and> dl_Height dl = Some h' \<and> w' * h' \<le> 24000981
    \<and> w' * h' * 4 \<le> DecodedBudgetFor (ResolveDeviceClass (param_hints dev))"
proof -
  have n: "n \<noteq> Original" using assms(10) by (auto simp: image_intent_def)
  obtain device expiry where o: "parseDevice dev = Some device"
    "signedImageURL s (imagePreset n device (Some w) (Some h)) (vo_Key (asset_Vault a)) expiry = Some (dl_Url dl)"
    "dl_Width dl = map_option fst (fitOutputDims (Some w) (Some h) (imagePreset n device (Some w) (Some h)))"
    "dl_Height dl = map_option snd (fitOutputDims (Some w) (Some h) (imagePreset n device (Some w) (Some h)))"
    by (rule endpoint_image [OF reachable_keys [OF assms(1)] assms(2,3) n assms(11,12), unfolded assms(4,5)])
  obtain w' h' where fit: "fitOutputDims (Some w) (Some h) (imagePreset n device (Some w) (Some h)) = Some (w', h')"
    "if device = Mobile then 4 * w' * h' \<le> 24 * 1024 * 1024 else w' * h' \<le> 24000981"
    using image_pixel_budget [OF assms(10,6-9), of device] by (auto split: option.splits prod.splits)
  have "w' * h' \<le> 24000981 \<and> w' * h' * 4 \<le> DecodedBudgetFor device"
    using fit(2) by (cases device) (auto simp: DecodedBudgetFor_def MobileDecodedBudget_def DesktopDecodedBudget_def mult.commute mult.left_commute)
  then show ?thesis using o fit(1) parseDevice_class [OF o(1)] by auto
qed

definition photo_record :: vault_record where
  "photo_record = demo_vault\<lparr>vr_Width := Some 12000, vr_Height := Some 8000\<rparr>"

definition photo_db :: db where
  "photo_db = run_worker 50 (W_Backfill ''A1'' photo_record) demo_db"

lemma photo_reachable: "reachable photo_db"
  unfolding photo_db_def by (rule reachable.step [OF demo_reachable store_step.worker])

lemma photo_db_eval: "photo_db = demo_db\<lparr>db_assets := [backfill_row photo_record demo_asset]\<rparr>"
  by (simp add: photo_db_def BackfillVaultProbe_def demo_db_eval demo_asset_def table_defs)

lemma served_image_fits_device_witness:
  "\<exists>res dl w' h'. fst (handleResolveDeliveryURL demo_service 60 (Some film_claims) photo_db Map.empty ''A1'' ''zoom_2'' [] [])
        = (200, B_Resolution res) \<and> dr_Delivery res = Some dl \<and> dl_Width dl = Some w' \<and> dl_Height dl = Some h' \<and> w' * h' * 4 \<le> 25165824"
proof -
  let ?a = "scanAssetRow photo_db (backfill_row photo_record demo_asset)\<lparr>asset_Renditions := []\<rparr>"
  let ?r = "resolveNonOriginal demo_service Zoom2 Mobile ?a"
  have a: "GetAsset photo_db ''alice'' ''A1'' = Inr ?a"
    by (simp add: GetAsset_def scanAsset_def scanAssetRow_def renditionsFor_def photo_db_eval demo_db_eval demo_db0_eval empty_db_def
        table_defs asset_is_def demo_asset_def backfill_row_def Let_def)
  have k: "asset_Kind ?a = Image" "vo_Width (asset_Vault ?a) = Some 12000" "vo_Height (asset_Vault ?a) = Some 8000" "asset_DeletedAt ?a = None"
    by (simp_all add: scanAssetRow_def demo_asset_def backfill_row_def photo_record_def)
  have c: "account (Some film_claims) = ''alice''" by (simp add: account_def film_claims_def)
  have r: "fst (handleResolveDeliveryURL demo_service 60 (Some film_claims) photo_db Map.empty ''A1'' (intent_str Zoom2) [] []) = (200, B_Resolution ?r)"
    using a k intent_of_str [of Zoom2] by (simp add: handleResolveDeliveryURL_def scopeCheck_def HasScope_def film_claims_def account_def validIntent_def parseDevice_def)
  obtain dl where dl: "dr_Delivery ?r = Some dl"
    using k by (auto simp: resolveNonOriginal_def signedImageURL_def imgproxySource_def demo_service_def public_image_def Let_def)
  obtain w' h' where "dl_Width dl = Some w'" "dl_Height dl = Some h'" "w' * h' * 4 \<le> DecodedBudgetFor (ResolveDeviceClass (param_hints []))"
    using served_image_fits_device [OF photo_reachable a k(1-3) _ _ _ _ _ r dl] by (auto simp: image_intent_def)
  then show ?thesis using r dl by (auto simp: mult.commute [of w'] DecodedBudgetFor_def ResolveDeviceClass_def param_hints_def smallViewportThreshold_def MobileDecodedBudget_def)
qed

end
