(* ===== verification/Mp4_Atoms.thy ===== *)
theory Mp4_Atoms
  imports Plate_Prelude
begin

text \<open>
  The artifact verifier of the test suite for progressive MP4 (test/harness/mp4.go): the walk over the
  top-level boxes of a file, and what it says of their order. Offsets and sizes are 64-bit words
  read as signed numbers, as in the code; a file is its bytes.
\<close>

section \<open>The walk\<close>

type_synonym int64 = "64 word"

record atom =
  at_Type :: string
  at_Offset :: int
  at_Size :: int

datatype atom_error = AE_Open | AE_Read | AE_EOF | AE_Malformed string int int | AE_NoMoov | AE_NoMdat

definition be_value :: "string \<Rightarrow> nat" where
  "be_value bs = foldl (\<lambda>n c. n * 256 + of_char c) 0 bs"

text \<open>\<open>ReadAt\<close> of a buffer's length: all of it, or the end of the file, or a refused offset.\<close>

datatype read_result = RR_Bytes string | RR_EOF | RR_Error

definition ReadAt :: "string \<Rightarrow> int64 \<Rightarrow> nat \<Rightarrow> read_result" where
  "ReadAt data off n =
     (if sint off < 0 then RR_Error
      else let bs = take n (drop (nat (sint off)) data) in if length bs < n then RR_EOF else RR_Bytes bs)"

text \<open>The size field: a 64-bit size follows when it is 1, the box runs to the end when it is 0.\<close>

datatype framing = FR_Error atom_error | FR_ToEnd | FR_Size int64

definition framing_at :: "string \<Rightarrow> int64 \<Rightarrow> string \<Rightarrow> framing" where
  "framing_at data off hdr =
     (let sz = be_value (take 4 hdr) in
      if sz = 1 then
        (case ReadAt data (off + 8) 8 of
           RR_Bytes b \<Rightarrow> FR_Size (of_nat (be_value b)) | RR_EOF \<Rightarrow> FR_Error AE_EOF | RR_Error \<Rightarrow> FR_Error AE_Read)
      else if sz = 0 then FR_ToEnd
      else FR_Size (of_nat sz))"

text \<open>The offset advances by eight at least, or wraps to a negative one, which the next read refuses.\<close>

lemma advance_cases:
  fixes off sz :: int64
  assumes "0 \<le> sint off" "0 \<le> sint sz"
  shows "sint (off + sz) = sint off + sint sz \<and> sint off + sint sz < 2 ^ 63 \<or> sint (off + sz) < 0 \<and> 2 ^ 63 \<le> sint off + sint sz"
proof -
  have r: "sint off < 2 ^ 63" "sint sz < 2 ^ 63" using sint_lt [of off] sint_lt [of sz] by simp_all
  have s: "sint (off + sz) = signed_take_bit 63 (sint off + sint sz)" by (simp add: sint_word_ariths)
  show ?thesis
  proof (cases "sint off + sint sz < 2 ^ 63")
    case True
    then show ?thesis using assms s by (simp add: signed_take_bit_int_eq_self)
  next
    case False
    have "signed_take_bit 63 (sint off + sint sz) = sint off + sint sz - 2 ^ 64"
    proof -
      let ?y = "sint off + sint sz + 2 ^ 63" and ?m = "2 ^ 64 :: int"
      have "(?y - ?m) mod ?m = ?y - ?m" using False r by (intro mod_pos_pos_trivial) simp_all
      then have "?y mod ?m = ?y - ?m" by (simp only: minus_mod_self2)
      then show ?thesis by (simp add: signed_take_bit_eq_take_bit_shift take_bit_eq_mod)
    qed
    then show ?thesis using False r s by simp
  qed
qed

function atoms_from :: "string \<Rightarrow> int64 \<Rightarrow> atom list \<Rightarrow> atom_error + atom list" where
  "atoms_from data off atoms =
     (if \<not> sint off < int (length data) then Inr atoms
      else case ReadAt data off 8 of
        RR_EOF \<Rightarrow> Inr atoms
      | RR_Error \<Rightarrow> Inl AE_Read
      | RR_Bytes hdr \<Rightarrow>
          let typ = drop 4 hdr in
          (case framing_at data off hdr of
             FR_Error e \<Rightarrow> Inl e
           | FR_ToEnd \<Rightarrow> Inr (atoms @ [\<lparr>at_Type = typ, at_Offset = sint off, at_Size = int (length data) - sint off\<rparr>])
           | FR_Size sz \<Rightarrow>
               if sint sz < 8 then Inl (AE_Malformed typ (sint off) (sint sz))
               else atoms_from data (off + sz) (atoms @ [\<lparr>at_Type = typ, at_Offset = sint off, at_Size = sint sz\<rparr>])))"
  by pat_completeness auto

termination
proof (relation "measure (\<lambda>(data, off, atoms). if sint off < 0 then 0 else Suc (length data - nat (sint off)))", goal_cases)
  case 1 then show ?case by simp
next
  case (2 data off atoms hdr ty sz)
  have off: "0 \<le> sint off" using 2(2) by (auto simp: ReadAt_def split: if_splits)
  have sz: "8 \<le> sint sz" using 2(5) by simp
  show ?case using advance_cases [of off sz] off sz 2(1) by auto
qed

declare atoms_from.simps [simp del]

text \<open>A file that cannot be opened is \<open>None\<close>.\<close>

definition TopLevelAtoms :: "string option \<Rightarrow> atom_error + atom list" where
  "TopLevelAtoms f = (case f of None \<Rightarrow> Inl AE_Open | Some data \<Rightarrow> atoms_from data 0 [])"

fun AtomOffset :: "atom list \<Rightarrow> string \<Rightarrow> int" where
  "AtomOffset [] typ = -1"
| "AtomOffset (a # as) typ = (if at_Type a = typ then at_Offset a else AtomOffset as typ)"

definition IsFaststart :: "string option \<Rightarrow> atom_error + bool" where
  "IsFaststart f =
     (case TopLevelAtoms f of
        Inl e \<Rightarrow> Inl e
      | Inr atoms \<Rightarrow>
          let moov = AtomOffset atoms ''moov''; mdat = AtomOffset atoms ''mdat'' in
          if moov < 0 then Inl AE_NoMoov else if mdat < 0 then Inl AE_NoMdat else Inr (moov < mdat))"

section \<open>The file format\<close>

text \<open>A box with a 32-bit or a 64-bit size, and the last box, whose size is left open, if there is one.\<close>

datatype mp4_box = Box32 (box_type: string) (payload: string) | Box64 (box_type: string) (payload: string)

fun be_bytes :: "nat \<Rightarrow> nat \<Rightarrow> string" where
  "be_bytes 0 v = []"
| "be_bytes (Suc n) v = be_bytes n (v div 256) @ [char_of (v mod 256)]"

fun enc_box :: "mp4_box \<Rightarrow> string" where
  "enc_box (Box32 t p) = be_bytes 4 (8 + length p) @ t @ p"
| "enc_box (Box64 t p) = be_bytes 4 1 @ t @ be_bytes 8 (16 + length p) @ p"

fun enc_file :: "mp4_box list \<Rightarrow> (string \<times> string) option \<Rightarrow> string" where
  "enc_file [] None = []"
| "enc_file [] (Some (t, p)) = be_bytes 4 0 @ t @ p"
| "enc_file (b # bs) e = enc_box b @ enc_file bs e"

fun box_ok :: "mp4_box \<Rightarrow> bool" where
  "box_ok (Box32 t p) = (length t = 4 \<and> 8 + length p < 2 ^ 32)"
| "box_ok (Box64 t p) = (length t = 4)"

fun end_ok :: "(string \<times> string) option \<Rightarrow> bool" where
  "end_ok None = True"
| "end_ok (Some (t, p)) = (length t = 4)"

fun layout_of :: "nat \<Rightarrow> mp4_box list \<Rightarrow> (string \<times> string) option \<Rightarrow> atom list" where
  "layout_of off [] None = []"
| "layout_of off [] (Some (t, p)) = [\<lparr>at_Type = t, at_Offset = int off, at_Size = int (8 + length p)\<rparr>]"
| "layout_of off (b # bs) e =
     \<lparr>at_Type = box_type b, at_Offset = int off, at_Size = int (length (enc_box b))\<rparr> # layout_of (off + length (enc_box b)) bs e"

lemma be_bytes_length [simp]: "length (be_bytes n v) = n"
  by (induction n arbitrary: v) simp_all

lemma be_bytes_split: "be_bytes (m + n) v = be_bytes m (v div 256 ^ n) @ be_bytes n v"
  by (induction n arbitrary: v) (simp_all add: div_mult2_eq)

lemma foldl_be:
  "foldl (\<lambda>n c. n * 256 + of_char c) a ys = a * 256 ^ length ys + foldl (\<lambda>n c. n * 256 + of_char c) (0::nat) ys"
proof (induction ys arbitrary: a)
  case (Cons y ys)
  show ?case
    by (simp only: foldl_Cons Cons.IH [of "a * 256 + of_char y"] Cons.IH [of "0 * 256 + of_char y"]) (simp add: algebra_simps)
qed simp

lemma be_value_append: "be_value (xs @ ys) = be_value xs * 256 ^ length ys + be_value ys"
  by (simp add: be_value_def foldl_be [of "foldl _ _ xs"])

lemma be_value_bytes: "v < 256 ^ n \<Longrightarrow> be_value (be_bytes n v) = v"
proof (induction n arbitrary: v)
  case 0 then show ?case by (simp add: be_value_def)
next
  case (Suc n)
  have "v div 256 < 256 ^ n" using Suc.prems by (simp add: less_mult_imp_div_less mult.commute)
  then have "be_value (be_bytes n (v div 256)) = v div 256" by (rule Suc.IH)
  moreover have "be_value [char_of (v mod 256)] = v mod 256" by (simp add: be_value_def of_char_of)
  ultimately show ?case by (simp add: be_value_append)
qed

section \<open>Reading back what is written\<close>

lemma sint_of_nat:
  assumes "n < 2 ^ 63"
  shows "sint (of_nat n :: int64) = int n"
proof -
  have "int n < 2 ^ 63" using assms by simp
  then show ?thesis by (simp add: signed_of_nat signed_take_bit_int_eq_self)
qed

lemma read_after:
  assumes "length (pre @ bs @ rest) < 2 ^ 63"
  shows "ReadAt (pre @ bs @ rest) (of_nat (length pre)) (length bs) = RR_Bytes bs"
  using assms by (simp add: ReadAt_def sint_of_nat Let_def)

text \<open>One box: its header is read as written, and the walk goes on behind it.\<close>

lemma header_read:
  assumes "length t = 4" "length (pre @ (be_bytes 4 v @ t) @ rest) < 2 ^ 63"
  shows "ReadAt (pre @ be_bytes 4 v @ t @ rest) (of_nat (length pre)) 8 = RR_Bytes (be_bytes 4 v @ t)"
  using read_after [of pre "be_bytes 4 v @ t" rest] assms by simp

lemma framing_32:
  assumes "length t = 4" "8 \<le> v" "v < 2 ^ 32"
  shows "framing_at data off (be_bytes 4 v @ t) = FR_Size (of_nat v)"
  using assms be_value_bytes [of v 4] by (simp add: framing_at_def)

lemma framing_64:
  assumes "length t = 4" "v < 2 ^ 63" "length (pre @ be_bytes 4 1 @ t @ be_bytes 8 v @ rest) < 2 ^ 63"
  shows "framing_at (pre @ be_bytes 4 1 @ t @ be_bytes 8 v @ rest) (of_nat (length pre)) (be_bytes 4 1 @ t) = FR_Size (of_nat v)"
proof -
  have "ReadAt ((pre @ be_bytes 4 1 @ t) @ be_bytes 8 v @ rest) (of_nat (length (pre @ be_bytes 4 1 @ t))) (length (be_bytes 8 v)) = RR_Bytes (be_bytes 8 v)"
    by (rule read_after) (use assms in simp)
  then have "ReadAt (pre @ be_bytes 4 1 @ t @ be_bytes 8 v @ rest) (of_nat (length pre) + 8) 8 = RR_Bytes (be_bytes 8 v)"
    using assms(1) by (simp add: add.commute)
  then show ?thesis using be_value_bytes [of 1 4] be_value_bytes [of v 8] assms(1,2) by (simp add: framing_at_def)
qed

lemma framing_open:
  assumes "length t = 4"
  shows "framing_at data off (be_bytes 4 0 @ t) = FR_ToEnd"
  using assms be_value_bytes [of 0 4] by (simp add: framing_at_def)

lemma walk_box:
  assumes "box_ok b" "length (pre @ enc_box b @ rest) < 2 ^ 63"
  shows "atoms_from (pre @ enc_box b @ rest) (of_nat (length pre)) atoms
    = atoms_from (pre @ enc_box b @ rest) (of_nat (length (pre @ enc_box b)))
        (atoms @ [\<lparr>at_Type = box_type b, at_Offset = int (length pre), at_Size = int (length (enc_box b))\<rparr>])"
proof -
  let ?data = "pre @ enc_box b @ rest"
  have off: "sint (of_nat (length pre) :: int64) = int (length pre)" by (rule sint_of_nat) (use assms(2) in simp)
  have size: "sint (of_nat (length (enc_box b)) :: int64) = int (length (enc_box b))" by (rule sint_of_nat) (use assms(2) in simp)
  have big: "8 \<le> length (enc_box b)" using assms(1) by (cases b) simp_all
  have "\<exists>v. ReadAt ?data (of_nat (length pre)) 8 = RR_Bytes (be_bytes 4 v @ box_type b)
      \<and> framing_at ?data (of_nat (length pre)) (be_bytes 4 v @ box_type b) = FR_Size (of_nat (length (enc_box b)))"
  proof (cases b)
    case (Box32 t p)
    then show ?thesis
      using header_read [of t pre "8 + length p" "p @ rest"] framing_32 [of t "8 + length p" ?data "of_nat (length pre)"] assms
      by (intro exI [of _ "8 + length p"]) simp
  next
    case (Box64 t p)
    then show ?thesis
      using header_read [of t pre 1 "be_bytes 8 (16 + length p) @ p @ rest"] framing_64 [of t "16 + length p" pre "p @ rest"] assms
      by (intro exI [of _ 1]) simp
  qed
  then obtain v where v: "ReadAt ?data (of_nat (length pre)) 8 = RR_Bytes (be_bytes 4 v @ box_type b)"
    "framing_at ?data (of_nat (length pre)) (be_bytes 4 v @ box_type b) = FR_Size (of_nat (length (enc_box b)))" by blast
  have "int (length pre) < int (length ?data)" using big by simp
  then show ?thesis using v off size big by (subst atoms_from.simps) (simp add: Let_def)
qed

lemma walk_end:
  assumes "end_ok e" "length (pre @ enc_file [] e) < 2 ^ 63"
  shows "atoms_from (pre @ enc_file [] e) (of_nat (length pre)) atoms = Inr (atoms @ layout_of (length pre) [] e)"
proof (cases e)
  case None
  then show ?thesis using sint_of_nat [of "length pre"] assms(2) by (subst atoms_from.simps) simp
next
  case (Some q)
  obtain t p where q: "q = (t, p)" by (cases q)
  have off: "sint (of_nat (length pre) :: int64) = int (length pre)" by (rule sint_of_nat) (use assms(2) in simp)
  have "ReadAt (pre @ be_bytes 4 0 @ t @ p) (of_nat (length pre)) 8 = RR_Bytes (be_bytes 4 0 @ t)"
    using header_read [of t pre 0 p] assms Some q by simp
  then show ?thesis using framing_open [of t] assms(1) Some q off by (subst atoms_from.simps) (simp add: Let_def)
qed

lemma walk_file:
  assumes "list_all box_ok bs" "end_ok e" "length (pre @ enc_file bs e) < 2 ^ 63"
  shows "atoms_from (pre @ enc_file bs e) (of_nat (length pre)) atoms = Inr (atoms @ layout_of (length pre) bs e)"
  using assms
proof (induction bs arbitrary: pre atoms)
  case Nil then show ?case using walk_end by simp
next
  case (Cons b bs)
  show ?case
    using walk_box [of b pre "enc_file bs e" atoms] Cons.IH [of "pre @ enc_box b"] Cons.prems by simp
qed

lemma read_back:
  assumes "list_all box_ok bs" "end_ok e" "length (enc_file bs e) < 2 ^ 63"
  shows "TopLevelAtoms (Some (enc_file bs e)) = Inr (layout_of 0 bs e)"
  using walk_file [of bs e "[]" "[]"] assms by (simp add: TopLevelAtoms_def)

section \<open>The order of boxes\<close>

fun types_of :: "mp4_box list \<Rightarrow> (string \<times> string) option \<Rightarrow> string list" where
  "types_of bs None = map box_type bs"
| "types_of bs (Some (t, p)) = map box_type bs @ [t]"

lemma types_of_Cons [simp]: "types_of (b # bs) e = box_type b # types_of bs e"
  by (cases e) auto

lemma enc_box_pos: "4 \<le> length (enc_box b)"
  by (cases b) simp_all

lemma offset_absent: "AtomOffset (layout_of off bs e) t = -1 \<longleftrightarrow> t \<notin> set (types_of bs e)"
  by (induction off bs e rule: layout_of.induct) auto

lemma offset_present: "t \<in> set (types_of bs e) \<Longrightarrow> int off \<le> AtomOffset (layout_of off bs e) t"
  by (induction off bs e rule: layout_of.induct) force+

text \<open>The first box of one type stands before the first of another.\<close>

definition precedes :: "string \<Rightarrow> string \<Rightarrow> string list \<Rightarrow> bool" where
  "precedes t u ts = (t \<in> set (takeWhile (\<lambda>x. x \<noteq> u) ts))"

lemma offsets_ordered:
  assumes "t \<noteq> u" "t \<in> set (types_of bs e)" "u \<in> set (types_of bs e)"
  shows "AtomOffset (layout_of off bs e) t < AtomOffset (layout_of off bs e) u \<longleftrightarrow> precedes t u (types_of bs e)"
  using assms
proof (induction off bs e rule: layout_of.induct)
  case (3 off b bs e)
  let ?off = "off + length (enc_box b)"
  have below: "int off < AtomOffset (layout_of ?off bs e) x" if "x \<in> set (types_of bs e)" for x
    using offset_present [OF that, of ?off] enc_box_pos [of b] by simp
  consider "box_type b = t" | "box_type b = u" | "box_type b \<noteq> t" "box_type b \<noteq> u" by blast
  then show ?case
  proof cases
    case 1 then show ?thesis using 3 below [of u] by (simp add: precedes_def)
  next
    case 2 then show ?thesis using 3 below [of t] by (simp add: precedes_def)
  next
    case 3: 3
    then show ?thesis using "3.IH" "3.prems" by (simp add: precedes_def)
  qed
qed (auto simp: precedes_def)

text \<open>The verifier of the acceptance tests reads the real layout. For every file written as a sequence
  of boxes, with 32-bit or 64-bit sizes and possibly a last box of open size, the walk returns
  each box once, in order, with its type, its offset and its size; and the file is reported
  progressive exactly when the first moov box stands before the first mdat box, as an error when
  one of them is missing.\<close>
theorem mp4_layout_read_back:
  assumes "list_all box_ok bs" "end_ok e" "length (enc_file bs e) < 2 ^ 63"
  shows "TopLevelAtoms (Some (enc_file bs e)) = Inr (layout_of 0 bs e)
    \<and> IsFaststart (Some (enc_file bs e)) =
      (if ''moov'' \<notin> set (types_of bs e) then Inl AE_NoMoov
       else if ''mdat'' \<notin> set (types_of bs e) then Inl AE_NoMdat
       else Inr (precedes ''moov'' ''mdat'' (types_of bs e)))"
proof -
  have neg: "AtomOffset (layout_of 0 bs e) t < 0 \<longleftrightarrow> t \<notin> set (types_of bs e)" for t
    using offset_absent [of 0 bs e t] offset_present [of t bs e 0] by auto
  show ?thesis
    using read_back [OF assms] neg offsets_ordered [of "''moov''" "''mdat''" bs e 0] by (simp add: IsFaststart_def Let_def)
qed

lemma mp4_layout_read_back_witness:
  "IsFaststart (Some (enc_file [Box32 ''ftyp'' ''isom'', Box64 ''moov'' [], Box32 ''free'' []] (Some (''mdat'', ''frames'')))) = Inr True"
  using mp4_layout_read_back [of "[Box32 ''ftyp'' ''isom'', Box64 ''moov'' [], Box32 ''free'' []]" "Some (''mdat'', ''frames'')"]
  by (simp add: precedes_def)

text \<open>What is returned for any file tiles it from its start; offsets never wrap.\<close>

fun tiles :: "string \<Rightarrow> int \<Rightarrow> atom list \<Rightarrow> bool" where
  "tiles data off [] = True"
| "tiles data off (a # as) = (0 \<le> off \<and> at_Offset a = off \<and> at_Type a = take 4 (drop (nat off + 4) data)
     \<and> 8 \<le> at_Size a \<and> tiles data (off + at_Size a) as)"

lemma read_bytes: "ReadAt data off n = RR_Bytes bs \<Longrightarrow> 0 \<le> sint off \<and> bs = take n (drop (nat (sint off)) data) \<and> length bs = n"
  by (auto simp: ReadAt_def Let_def split: if_splits)

lemma walk_tiles: "atoms_from data off acc = Inr atoms \<Longrightarrow> \<exists>more. atoms = acc @ more \<and> tiles data (sint off) more"
proof (induction data off acc rule: atoms_from.induct)
  case (1 data off acc)
  show ?case
  proof (cases "sint off < int (length data)")
    case False then show ?thesis using "1.prems" by (subst (asm) atoms_from.simps) simp
  next
    case inside: True
    show ?thesis
    proof (cases "ReadAt data off 8")
      case (RR_Bytes hdr)
      note r = read_bytes [OF RR_Bytes]
      have ty: "drop 4 hdr = take 4 (drop (nat (sint off) + 4) data)" using r by (simp add: drop_take add.commute)
      have room: "8 \<le> int (length data) - sint off" using r by auto
      show ?thesis
      proof (cases "framing_at data off hdr")
        case (FR_Error e) then show ?thesis using "1.prems" inside RR_Bytes by (subst (asm) atoms_from.simps) simp
      next
        case FR_ToEnd
        then have "atoms = acc @ [\<lparr>at_Type = drop 4 hdr, at_Offset = sint off, at_Size = int (length data) - sint off\<rparr>]"
          using "1.prems" inside RR_Bytes by (subst (asm) atoms_from.simps) simp
        then show ?thesis using r ty room by simp
      next
        case (FR_Size sz)
        let ?a = "\<lparr>at_Type = drop 4 hdr, at_Offset = sint off, at_Size = sint sz\<rparr>"
        have go: "\<not> sint sz < 8" "atoms_from data (off + sz) (acc @ [?a]) = Inr atoms"
          using "1.prems" inside RR_Bytes FR_Size by (subst (asm) atoms_from.simps, simp add: Let_def split: if_splits)+
        obtain more where more: "atoms = (acc @ [?a]) @ more" "tiles data (sint (off + sz)) more"
          using "1.IH" inside RR_Bytes FR_Size go by blast
        have "\<not> sint (off + sz) < 0"
        proof
          assume "sint (off + sz) < 0"
          then have "atoms_from data (off + sz) (acc @ [?a]) = Inl AE_Read" by (subst atoms_from.simps) (simp add: ReadAt_def)
          then show False using go by simp
        qed
        then have "sint (off + sz) = sint off + sint sz" using advance_cases [of off sz] r go by auto
        then show ?thesis using more ty r go by simp
      qed
    qed (use "1.prems" inside in \<open>subst (asm) atoms_from.simps, simp\<close>)+
  qed
qed

text \<open>A 64-bit size is only compared with 8, not with the sixteen bytes of its own header: a box that
  claims to be shorter is accepted, and its size field is read again as the next box.\<close>

lemma short_large_size_accepted:
  "TopLevelAtoms (Some (be_bytes 4 1 @ ''ftyp'' @ be_bytes 8 8))
     = Inr [\<lparr>at_Type = ''ftyp'', at_Offset = 0, at_Size = 8\<rparr>, \<lparr>at_Type = be_bytes 4 8, at_Offset = 8, at_Size = 8\<rparr>]"
proof -
  let ?pre = "be_bytes 4 1 @ ''ftyp''"
  let ?a = "\<lparr>at_Type = ''ftyp'', at_Offset = 0, at_Size = 8\<rparr>"
  have split: "be_bytes 8 8 = be_bytes 4 0 @ be_bytes 4 8" using be_bytes_split [of 4 4 8] by simp
  have h: "ReadAt (?pre @ be_bytes 8 8) 0 8 = RR_Bytes ?pre" using header_read [of "''ftyp''" "[]" 1 "be_bytes 8 8"] by simp
  have f: "framing_at (?pre @ be_bytes 8 8) 0 ?pre = FR_Size 8" using framing_64 [of "''ftyp''" 8 "[]" "[]"] by simp
  have "atoms_from (?pre @ be_bytes 8 8) 8 [?a] = Inr [?a, \<lparr>at_Type = be_bytes 4 8, at_Offset = 8, at_Size = 8\<rparr>]"
    using walk_end [of "Some (be_bytes 4 8, [])" ?pre "[?a]"] by (simp add: split)
  then show ?thesis using h f unfolding TopLevelAtoms_def by (subst atoms_from.simps) (simp add: Let_def)
qed

end
