(* ===== verification/Harness.thy ===== *)
theory Harness
  imports Probe Env_Config Acceptance Mp4_Atoms
begin

text \<open>
  The rest of the acceptance harness that is plain code: the engines' command lines and the reading
  of their answers (test/harness/ffmpeg.go), the requests to the image engine (imgproxy.go), the
  gates that skip or fail a test, and the reference resolver of intents with its check for raw
  originals (test/support/intent.go). Running engines and containers happens outside.
\<close>

section \<open>Engines (ffmpeg.go)\<close>

definition ffmpegBin :: "environment \<Rightarrow> string" where
  "ffmpegBin env = (let p = env ''PLATE_FFMPEG_PATH'' in if p \<noteq> [] then p else ''ffmpeg'')"

definition ffprobeBin :: "environment \<Rightarrow> string" where
  "ffprobeBin env = (let p = env ''PLATE_FFPROBE_PATH'' in if p \<noteq> [] then p else ''ffprobe'')"

definition harness_TranscodeDetail :: "string \<Rightarrow> string \<Rightarrow> string list" where
  "harness_TranscodeDetail src dst = DetailArgs src dst ''ultrafast''"

definition harness_TranscodeLoop :: "string \<Rightarrow> string \<Rightarrow> string list" where
  "harness_TranscodeLoop src dst = LoopArgs src dst ''ultrafast''"

definition harness_RemuxCopy :: "string \<Rightarrow> string \<Rightarrow> string list" where
  "harness_RemuxCopy src dst = RemuxCopyArgs src dst"

text \<open>The harness measures what the worker runs: its command lines are the worker's, up to the encoder preset.\<close>

lemma harness_runs_worker_args:
  "transcode_args ''ultrafast'' Detail src dst = Some (harness_TranscodeDetail src dst)"
  "transcode_args ''ultrafast'' Loop src dst = Some (harness_TranscodeLoop src dst)"
  "remux io src dst bytes = io_ffmpeg io (harness_RemuxCopy src dst) bytes"
  by (simp_all add: transcode_args_def harness_TranscodeDetail_def harness_TranscodeLoop_def harness_RemuxCopy_def remux_def)

record harness_probe =
  hp_DurationS :: float64
  hp_Width :: int
  hp_Height :: int
  hp_Codec :: string
  hp_Container :: string

definition harness_probe_args :: "string \<Rightarrow> string list" where
  "harness_probe_args path = [''-hide_banner'', ''-v'', ''error'',
     ''-show_entries'', ''format=duration,format_name'',
     ''-show_entries'', ''stream=codec_name,width,height,codec_type'',
     ''-of'', ''json'', path]"

definition harness_Probe :: "ffprobe_answer \<Rightarrow> harness_probe" where
  "harness_Probe a =
     (let d = (if fa_Duration a \<noteq> [] then (case ParseFloat (fa_Duration a) of Some d \<Rightarrow> d | None \<Rightarrow> 0) else 0) in
      case first_stream ''video'' (fa_Streams a) of
        None \<Rightarrow> \<lparr>hp_DurationS = d, hp_Width = 0, hp_Height = 0, hp_Codec = [], hp_Container = fa_FormatName a\<rparr>
      | Some s \<Rightarrow> \<lparr>hp_DurationS = d, hp_Width = fs_Width s, hp_Height = fs_Height s, hp_Codec = fs_CodecName s,
          hp_Container = fa_FormatName a\<rparr>)"

text \<open>On a file with a video stream the harness reads what the service's probe records.\<close>

lemma harness_probe_agrees:
  assumes "pr_Kind (ProbeAV a) = Video"
  shows "harness_Probe a = \<lparr>hp_DurationS = pr_DurationS (ProbeAV a), hp_Width = pr_Width (ProbeAV a), hp_Height = pr_Height (ProbeAV a),
    hp_Codec = pr_Codec (ProbeAV a), hp_Container = pr_Container (ProbeAV a)\<rparr>"
  using assms by (auto simp: harness_Probe_def ProbeAV_def probed_duration_def Let_def split: option.splits)

definition blank :: "char \<Rightarrow> bool" where
  "blank c = (c = CHR '' '' \<or> c = CHR 0x0A \<or> c = CHR 0x0D \<or> c = CHR 0x09)"

definition bytesTrimSpace :: "string \<Rightarrow> string" where
  "bytesTrimSpace b = rev (dropWhile blank (rev (dropWhile blank b)))"

definition HasAudioStream :: "string \<Rightarrow> bool" where
  "HasAudioStream out = (length (bytesTrimSpace out) > 0)"

lemma has_audio_stream: "HasAudioStream out \<longleftrightarrow> (\<exists>c \<in> set out. \<not> blank c)"
  by (simp add: HasAudioStream_def bytesTrimSpace_def dropWhile_eq_Nil_conv dropWhile_eq_Cons_conv)
     (metis dropWhile_eq_Nil_conv hd_dropWhile list.set_sel(1) set_dropWhileD)

section \<open>Gates\<close>

definition FFmpegAvailable :: "environment \<Rightarrow> (string \<Rightarrow> bool) \<Rightarrow> bool" where
  "FFmpegAvailable env LookPath = list_all LookPath [ffmpegBin env, ffprobeBin env]"

datatype gate = Runs | Skips | Fails

definition RequireFFmpeg :: "environment \<Rightarrow> (string \<Rightarrow> bool) \<Rightarrow> gate" where
  "RequireFFmpeg env LookPath =
     (if FFmpegAvailable env LookPath then Runs else if env ''CI'' \<noteq> [] then Fails else Skips)"

definition dockerAvailable :: "environment \<Rightarrow> bool \<Rightarrow> bool \<Rightarrow> bool" where
  "dockerAvailable env provider healthy = (if env ''PLATE_TEST_NO_DOCKER'' \<noteq> [] then False else provider \<and> healthy)"

definition RequireDocker :: "environment \<Rightarrow> bool \<Rightarrow> bool \<Rightarrow> gate" where
  "RequireDocker env provider healthy = (if dockerAvailable env provider healthy then Runs else Skips)"

text \<open>In continuous integration a missing engine is never a skip; a missing Docker daemon is.\<close>

lemma ci_gates:
  "env ''CI'' \<noteq> [] \<Longrightarrow> RequireFFmpeg env LookPath \<noteq> Skips"
  "RequireDocker env provider healthy \<noteq> Fails"
  by (simp_all add: RequireFFmpeg_def RequireDocker_def)

section \<open>The image engine (imgproxy.go)\<close>

definition imgproxy_env :: "(string \<times> string) list" where
  "imgproxy_env = [(''IMGPROXY_ALLOW_UNSAFE_URL'', ''1''), (''IMGPROXY_ONLY_PRESETS'', ''1''), (''IMGPROXY_PRESETS'', PresetDefs),
     (''IMGPROXY_LOCAL_FILESYSTEM_ROOT'', ''/imgs''), (''IMGPROXY_MAX_SRC_RESOLUTION'', ''100''),
     (''IMGPROXY_MAX_RESULT_DIMENSION'', dec MaxResultDimension)]"

definition imgproxyImage :: "environment \<Rightarrow> string" where
  "imgproxyImage env = (let v = env ''PLATE_TEST_IMGPROXY_IMAGE'' in if v \<noteq> [] then v else ''darthsim/imgproxy:latest'')"

definition render_url :: "string \<Rightarrow> string \<Rightarrow> string \<Rightarrow> string" where
  "render_url baseURL preset fixtureName = baseURL @ ''/unsafe/'' @ preset @ ''/plain/local:///'' @ fixtureName @ ''@jpg''"

definition SynthImage_args :: "string \<Rightarrow> int \<Rightarrow> int \<Rightarrow> string list" where
  "SynthImage_args path w h = [''-hide_banner'', ''-y'', ''-f'', ''lavfi'', ''-i'',
     ''testsrc=size='' @ dec w @ ''x'' @ dec h @ '':duration=1:rate=1'', ''-frames:v'', ''1'', path]"

section \<open>The reference resolver of intents (intent.go)\<close>

definition Contains :: "string \<Rightarrow> string \<Rightarrow> bool" where
  "Contains s t = sublist t s"

definition reference_Resolve :: "string \<Rightarrow> time \<Rightarrow> intent \<Rightarrow> delivery_resolution" where
  "reference_Resolve vaultKey now i =
     (if i = Original
      then \<lparr>dr_Delivery = Some \<lparr>dl_Expires = Some (now + 5 * minute), dl_Height = None, dl_Mode = Signed,
              dl_Url = ''https://plate.example/v1/download/'' @ vaultKey @ ''?sig='' @ [CHR 0xE2, CHR 0x80, CHR 0xA6], dl_Width = None\<rparr>,
            dr_Detail = None, dr_Intent = Original, dr_Reason = None\<rparr>
      else \<lparr>dr_Delivery = Some \<lparr>dl_Expires = None, dl_Height = None, dl_Mode = Public,
              dl_Url = ''https://cdn.example/rendition/'' @ intent_str i @ ''/asset.jpg'', dl_Width = None\<rparr>,
            dr_Detail = None, dr_Intent = i, dr_Reason = None\<rparr>)"

definition IsRawOriginalURL :: "string \<Rightarrow> string \<Rightarrow> bool" where
  "IsRawOriginalURL url vaultKey =
     (if Contains url ''tr:orig-true'' then True
      else if Contains url (''cdn.example/'' @ vaultKey) then True
      else if Contains url ''/orig/'' \<or> has_suffix url ''@orig'' then True
      else False)"

text \<open>The resolver keeps originals off the public host: of the intents only \<open>original\<close> leaves it, signed and expiring.\<close>

lemma no_marker:
  "\<not> sublist ''tr:orig-true'' (''https://cdn.example/rendition/'' @ intent_str i @ ''/asset.jpg'')"
  "\<not> sublist ''cdn.example/vault/'' (''https://cdn.example/rendition/'' @ intent_str i @ ''/asset.jpg'')"
  "\<not> sublist ''/orig/'' (''https://cdn.example/rendition/'' @ intent_str i @ ''/asset.jpg'')"
  by (cases i; simp add: sublist_Cons_right)+

lemma reference_not_raw:
  assumes "i \<noteq> Original" "dr_Delivery (reference_Resolve (VaultKey a x) now i) = Some dl"
  shows "\<not> IsRawOriginalURL (dl_Url dl) (VaultKey a x)"
proof -
  have url: "dl_Url dl = ''https://cdn.example/rendition/'' @ intent_str i @ ''/asset.jpg''"
    using assms by (auto simp: reference_Resolve_def)
  have "\<not> Contains (dl_Url dl) (''cdn.example/'' @ VaultKey a x)"
  proof
    assume "Contains (dl_Url dl) (''cdn.example/'' @ VaultKey a x)"
    then obtain l r where "dl_Url dl = l @ ''cdn.example/vault/'' @ (a @ ''/'' @ x) @ r"
      by (auto simp: Contains_def VaultKey_def VaultPrefix_def sublist_def)
    then have "sublist ''cdn.example/vault/'' (dl_Url dl)" unfolding sublist_def by blast
    then show False using no_marker(2) url by simp
  qed
  moreover have "\<not> has_suffix (dl_Url dl) ''@orig''" unfolding url by (cases i) (simp_all add: has_suffix_def)
  ultimately show ?thesis using no_marker(1,3) url by (simp add: IsRawOriginalURL_def Contains_def)
qed

end
