(* ===== verification/Drain.thy ===== *)
theory Drain
  imports Failed_Jobs Asset_Api
begin

text \<open>
  The loop of the worker (worker/worker.go, Run and RunOnceForTest): a claim, a run, and a sleep when
  there is nothing to claim, until the context ends. What it does to the queue as a whole: every
  turn uses up an attempt or ends a job, so the queue is drained after a number of turns that is
  known beforehand, whatever the engines and the storage answer.
\<close>

section \<open>The loop\<close>

definition RunOnceForTest :: "outside \<Rightarrow> worker \<Rightarrow> time \<Rightarrow> time \<Rightarrow> objects \<Rightarrow> db \<Rightarrow> (store_error option) \<times> objects \<times> db" where
  "RunOnceForTest io w t now obs d =
     (case ClaimNextJob d t (wk_leaseTTL w) of
        (d', Inl e) \<Rightarrow> (Some e, obs, d')
      | (d', Inr job) \<Rightarrow> (let (obs', d'') = runOne io w now job obs d' in (None, obs', d'')))"

text \<open>What one turn of the loop meets: whether the context has ended before it, the outside world, the
  times of the claim and of the end of the job, and whether a sleep runs to its end.\<close>

record tick =
  tk_done :: bool
  tk_io :: outside
  tk_claim :: time
  tk_end :: time
  tk_slept :: bool

text \<open>The result says whether the loop has returned; the list of ticks may end before that.\<close>

fun Run :: "worker \<Rightarrow> tick list \<Rightarrow> objects \<times> db \<Rightarrow> bool \<times> objects \<times> db" where
  "Run w [] s = (False, s)"
| "Run w (k # ks) (obs, d) =
     (if tk_done k then (True, obs, d)
      else case run_turn (tk_io k) w (tk_claim k) (tk_end k) obs d of
        (Some e, obs', d') \<Rightarrow> if \<not> tk_slept k then (True, obs', d') else Run w ks (obs', d')
      | (None, obs', d') \<Rightarrow> Run w ks (obs', d'))"

lemma run_once_is_a_turn: "RunOnceForTest = run_turn"
  by (simp add: fun_eq_iff RunOnceForTest_def run_turn_def)

section \<open>What one run does to the jobs\<close>

definition closed_job :: "job_row \<Rightarrow> bool" where
  "closed_job r \<longleftrightarrow> jr_status r = JobSucceeded \<or> jr_status r = JobFailed"

text \<open>The turns a job can still take: its attempts, at least one.\<close>

definition attempts_left :: "int \<Rightarrow> job_row \<Rightarrow> nat" where
  "attempts_left m r = (if closed_job r then 0 else nat (max 1 (m - jr_retries r)))"

definition work_left :: "int \<Rightarrow> db \<Rightarrow> nat" where
  "work_left m d = sum_list (map (attempts_left m) (db_jobs d))"

lemma job_status_cases: "jr_status r = JobQueued \<or> jr_status r = JobRunning \<or> closed_job r"
  by (cases "jr_status r") (simp_all add: closed_job_def)

lemma succeeded_run:
  assumes "process io w now job obs d = (None, obs', d')"
  shows "db_jobs d' = update_where (\<lambda>x. jr_id x = cj_ID job) (succeed_row now) (db_jobs d)"
proof -
  have c: "db_jobs d2 = update_where (\<lambda>x. jr_id x = cj_ID job) (succeed_row now) (db_jobs d1)"
    if "complete io o1 d1 now job rec = (None, o2, d2)" for o1 o2 d1 d2 rec
    using that by (auto simp: complete_def CompleteJob_def split: sum.splits option.splits)
  have r: "db_jobs d2 = update_where (\<lambda>x. jr_id x = cj_ID job) (succeed_row now) (db_jobs d1)"
    if "refuse o1 d1 now job reason err = (None, o2, d2)" for o1 o2 d1 d2 reason err
    using that by (auto simp: refuse_def FailedRenditionForCeiling_def CompleteJobNoRendition_def split: if_splits)
  show ?thesis using assms
    by (auto simp: process_def processRemux_def Let_def recordChecksum_def MarkChecksumVerified_def BackfillVaultProbe_def
        split: option.splits if_splits dest!: c r)
qed

lemma run_jobs:
  assumes "runOne io w now job obs d = (obs', d')"
    "get_row (\<lambda>x. jr_id x = cj_ID job) (db_jobs d) = Some r"
  shows "\<exists>g. db_jobs d' = update_where (\<lambda>x. jr_id x = cj_ID job) g (db_jobs d) \<and> (\<forall>x. jr_id (g x) = jr_id x)
    \<and> (closed_job (g r) \<or> jr_status (g r) = JobQueued \<and> jr_retries (g r) = jr_retries r \<and> jr_retries r < wk_maxAttempts w)"
proof -
  obtain e obs1 d1 where p: "process io w now job obs d = (e, obs1, d1)" by (cases "process io w now job obs d") auto
  show ?thesis
  proof (cases e)
    case None
    then have "db_jobs d' = update_where (\<lambda>x. jr_id x = cj_ID job) (succeed_row now) (db_jobs d)"
      using succeeded_run p assms(1) by (simp add: runOne_def)
    then show ?thesis by (intro exI [of _ "succeed_row now"]) (simp add: succeed_row_def closed_job_def)
  next
    case (Some err)
    have j: "db_jobs d1 = db_jobs d" using before_work_tables [OF failed_run [OF p [unfolded Some]]] by blast
    let ?g = "if jr_retries r < wk_maxAttempts w then requeue_row now err else fail_row now RC_Failed err"
    have "db_jobs d' = update_where (\<lambda>x. jr_id x = cj_ID job) ?g (db_jobs d)"
      using p Some assms j by (auto simp: runOne_def FailJob_def)
    then show ?thesis by (intro exI [of _ ?g]) (simp add: requeue_row_def fail_row_def closed_job_def)
  qed
qed

section \<open>Turns are steps of the store machine\<close>

lemma refuse_reachable: "refuse obs d now job reason err = (e, obs', d') \<Longrightarrow> reachable d \<Longrightarrow> reachable d'"
  using refuse_steps plain_steps_store store_steps_reachable by blast

lemma complete_reachable:
  assumes "complete io obs d now job rec = (e, obs', d')" "reachable d"
  shows "reachable d'"
proof -
  have "d' = d \<or> d' = run_worker now (W_Complete (cj_ID job) rec) d"
    using assms(1) by (auto simp: complete_def commit_def split: sum.splits)
  then show ?thesis using assms(2) reachable.step [OF assms(2) store_step.worker [of d now "W_Complete (cj_ID job) rec"]] by blast
qed

lemma run_reachable:
  assumes "runOne io w now job obs d = (obs', d')" "reachable d"
  shows "reachable d'"
proof -
  obtain e obs1 d1 where p: "process io w now job obs d = (e, obs1, d1)" by (cases "process io w now job obs d") auto
  note before = before_work_steps [THEN plain_steps_store, THEN store_steps_reachable, OF _ assms(2)]
  have d1: "reachable d1" using p
  proof (cases rule: process_shape)
    case (1 d2) then show ?thesis using before by blast
  next
    case (2 d2 reason err) then show ?thesis using before refuse_reachable by blast
  next
    case (3 d2 out rec) then show ?thesis using before complete_reachable by blast
  qed
  show ?thesis
  proof (cases e)
    case None then show ?thesis using assms(1) p d1 by (simp add: runOne_def)
  next
    case (Some err)
    then have "d' = run_worker now (W_Fail (cj_ID job) (wk_maxAttempts w) RC_Failed err) d1"
      using assms(1) p by (auto simp: runOne_def commit_def)
    then show ?thesis using reachable.step [OF d1 store_step.worker] by metis
  qed
qed

lemma claim_reachable: "ClaimNextJob d t ttl = (d', res) \<Longrightarrow> reachable d \<Longrightarrow> reachable d'"
  using reachable.step [of d, OF _ store_step.worker [of d t "W_Claim ttl"]] by simp

text \<open>A claim that finds a job of a reachable database finds its asset too.\<close>

lemma claim_takes:
  assumes "reachable d" "pick_job d (t - ttl) = Some r0"
  obtains job where "ClaimNextJob d t ttl = (d\<lparr>db_jobs := update_where (\<lambda>x. jr_id x = jr_id r0) (claim_row t) (db_jobs d)\<rparr>, Inr job)"
    "cj_ID job = jr_id r0"
proof -
  have "r0 \<in> set (db_jobs d)" by (rule pick_job_Some(1) [OF assms(2)])
  then obtain a where a: "a \<in> set (db_assets d)" "asset_is (jr_account r0) (jr_asset r0) a" using reachable_job_asset [OF assms(1)] by blast
  then have "get_row (asset_is (jr_account r0) (jr_asset r0)) (db_assets d) \<noteq> None" by (auto simp: get_row_None_iff)
  then show thesis using that assms(2) by (auto simp: ClaimNextJob_def Let_def claim_row_def)
qed

section \<open>A turn uses up work\<close>

lemma get_job_row:
  assumes "distinct (map jr_id t)" "r \<in> set t" "\<And>x. jr_id (f x) = jr_id x"
  shows "get_row (\<lambda>x. jr_id x = jr_id r) (update_where (\<lambda>x. jr_id x = jr_id r) f t) = Some (f r)"
  using get_row_by_key [of jr_id t r "\<lambda>x. jr_id x = jr_id r"] assms get_row_update_where [of "\<lambda>x. jr_id x = jr_id r" f t] by simp

lemma update_where_twice:
  assumes "\<And>x. p (f x) = p x"
  shows "update_where p g (update_where p f t) = update_where p (\<lambda>x. g (f x)) t"
  using assms by (simp add: update_where_def)

lemma turn_job:
  assumes "reachable d" "run_turn io w t now obs d = (None, obs', d')"
  obtains r0 g where "r0 \<in> set (db_jobs d)" "runnable (t - wk_leaseTTL w) r0"
    "db_jobs d' = update_where (\<lambda>x. jr_id x = jr_id r0) g (db_jobs d)" "\<forall>x. jr_id (g x) = jr_id x"
    "closed_job (g r0) \<or> jr_status (g r0) = JobQueued \<and> jr_retries (g r0) = jr_retries r0 + 1 \<and> jr_retries r0 + 1 < wk_maxAttempts w"
proof (cases "pick_job d (t - wk_leaseTTL w)")
  case None
  then show thesis using assms(2) by (simp add: run_turn_def ClaimNextJob_def Let_def)
next
  case (Some r0)
  obtain job where c: "ClaimNextJob d t (wk_leaseTTL w)
      = (d\<lparr>db_jobs := update_where (\<lambda>x. jr_id x = jr_id r0) (claim_row t) (db_jobs d)\<rparr>, Inr job)" "cj_ID job = jr_id r0"
    using claim_takes [OF assms(1) Some] .
  let ?d1 = "d\<lparr>db_jobs := update_where (\<lambda>x. jr_id x = jr_id r0) (claim_row t) (db_jobs d)\<rparr>"
  have keys: "distinct (map jr_id (db_jobs d))" using reachable_keys [OF assms(1)] by (simp add: keys_ok_def)
  have run: "runOne io w now job obs ?d1 = (obs', d')" using assms(2) c by (simp add: run_turn_def split: prod.splits)
  have ids: "jr_id (claim_row t x) = jr_id x" for x by (simp add: claim_row_def)
  have g: "get_row (\<lambda>x. jr_id x = cj_ID job) (db_jobs ?d1) = Some (claim_row t r0)"
    using get_job_row [OF keys pick_job_Some(1) [OF Some] ids] c(2) by simp
  obtain g where h: "db_jobs d' = update_where (\<lambda>x. jr_id x = cj_ID job) g (db_jobs ?d1)" "\<forall>x. jr_id (g x) = jr_id x"
    "closed_job (g (claim_row t r0)) \<or> jr_status (g (claim_row t r0)) = JobQueued
       \<and> jr_retries (g (claim_row t r0)) = jr_retries (claim_row t r0) \<and> jr_retries (claim_row t r0) < wk_maxAttempts w"
    using run_jobs [OF run g] by blast
  have "db_jobs d' = update_where (\<lambda>x. jr_id x = jr_id r0) (\<lambda>x. g (claim_row t x)) (db_jobs d)"
    using h(1) c(2) update_where_twice [of "\<lambda>x. jr_id x = jr_id r0" "claim_row t" g] ids by simp
  then show thesis using that [OF pick_job_Some(1) [OF Some] pick_job_Some(2) [OF Some]] h(2,3) by (simp add: claim_row_def)
qed

lemma sum_update_where:
  assumes "distinct (map k t)" "r \<in> set t"
  shows "sum_list (map f (update_where (\<lambda>x. k x = k r) g t)) + f r = sum_list (map f t) + (f (g r) :: nat)"
  using assms
proof (induction t)
  case (Cons x t)
  show ?case
  proof (cases "k x = k r")
    case True
    then have "x = r" using Cons.prems by (auto simp: image_iff)
    moreover have "k r \<notin> k ` set t" using Cons.prems(1) True by simp
    then have "update_where (\<lambda>y. k y = k r) g t = t" by (intro update_where_idle) (auto simp: image_iff)
    ultimately show ?thesis by (simp add: update_where_def)
  next
    case False
    then show ?thesis using Cons by (auto simp: update_where_def)
  qed
qed simp

lemma turn_uses_work:
  assumes "reachable d" "run_turn io w t now obs d = (None, obs', d')"
  shows "work_left (wk_maxAttempts w) d' < work_left (wk_maxAttempts w) d"
proof -
  let ?m = "wk_maxAttempts w"
  obtain r0 g where t: "r0 \<in> set (db_jobs d)" "runnable (t - wk_leaseTTL w) r0"
    "db_jobs d' = update_where (\<lambda>x. jr_id x = jr_id r0) g (db_jobs d)" "\<forall>x. jr_id (g x) = jr_id x"
    "closed_job (g r0) \<or> jr_status (g r0) = JobQueued \<and> jr_retries (g r0) = jr_retries r0 + 1 \<and> jr_retries r0 + 1 < ?m"
    by (rule turn_job [OF assms])
  have "distinct (map jr_id (db_jobs d))" using reachable_keys [OF assms(1)] by (simp add: keys_ok_def)
  note s = sum_update_where [OF this t(1), of "attempts_left ?m" g]
  have "\<not> closed_job r0" using t(2) by (auto simp: runnable_def closed_job_def)
  then have before: "attempts_left ?m r0 = nat (max 1 (?m - jr_retries r0))" by (simp add: attempts_left_def)
  have "attempts_left ?m (g r0) < attempts_left ?m r0" using t(5)
  proof (elim disjE conjE)
    assume "closed_job (g r0)" then show ?thesis using before by (simp add: attempts_left_def)
  next
    assume q: "jr_status (g r0) = JobQueued" "jr_retries (g r0) = jr_retries r0 + 1" "jr_retries r0 + 1 < ?m"
    then have "attempts_left ?m (g r0) = nat (?m - jr_retries r0 - 1)" by (simp add: attempts_left_def closed_job_def)
    then show ?thesis using before q(3) by simp
  qed
  then show ?thesis using s t(3) by (simp add: work_left_def)
qed

section \<open>The queue is drained\<close>

definition idle_at :: "worker \<Rightarrow> tick \<Rightarrow> db \<Rightarrow> bool" where
  "idle_at w k d \<longleftrightarrow> pick_job d (tk_claim k - wk_leaseTTL w) = None"

text \<open>Nothing is left of a set of jobs but those that others hold under a lease.\<close>

definition settled :: "worker \<Rightarrow> tick \<Rightarrow> job_row set \<Rightarrow> db \<Rightarrow> bool" where
  "settled w k J d \<longleftrightarrow> (\<forall>r \<in> set (db_jobs d). closed_job r
     \<or> r \<in> J \<and> jr_status r = JobRunning \<and> \<not> runnable (tk_claim k - wk_leaseTTL w) r)"

lemma turn_idle:
  assumes "reachable d" "run_turn io w t now obs d = (Some e, obs', d')"
  shows "pick_job d (t - wk_leaseTTL w) = None"
proof (rule ccontr)
  assume "pick_job d (t - wk_leaseTTL w) \<noteq> None"
  then obtain r0 where "pick_job d (t - wk_leaseTTL w) = Some r0" by blast
  then obtain job d1 where "ClaimNextJob d t (wk_leaseTTL w) = (d1, Inr job)" using claim_takes [OF assms(1)] by metis
  then show False using assms(2) by (simp add: run_turn_def split: prod.splits)
qed

lemma turn_reachable: "run_turn io w t now obs d = (e, obs', d') \<Longrightarrow> reachable d \<Longrightarrow> reachable d'"
  using claim_reachable run_reachable
  by (cases "ClaimNextJob d t (wk_leaseTTL w)") (auto simp: run_turn_def split: sum.splits prod.splits)

lemma idle_settled:
  assumes "\<forall>r \<in> set (db_jobs d). closed_job r \<or> jr_status r = JobQueued \<or> r \<in> J" "idle_at w k d"
  shows "settled w k J d"
proof -
  have "\<forall>r \<in> set (db_jobs d). \<not> runnable (tk_claim k - wk_leaseTTL w) r"
    using assms(2) by (simp add: idle_at_def pick_job_None)
  then show ?thesis using assms(1) job_status_cases unfolding settled_def runnable_def by blast
qed

lemma run_drains:
  assumes "reachable d" "\<forall>r \<in> set (db_jobs d). closed_job r \<or> jr_status r = JobQueued \<or> r \<in> J"
    "work_left (wk_maxAttempts w) d < length ks" "list_all (\<lambda>k. \<not> tk_done k) ks"
  shows "\<exists>n obs' d'. n \<le> work_left (wk_maxAttempts w) d \<and> Run w (take n ks) (obs, d) = (False, obs', d') \<and> reachable d'
    \<and> map jr_id (db_jobs d') = map jr_id (db_jobs d) \<and> idle_at w (ks ! n) d' \<and> settled w (ks ! n) J d'"
  using assms
proof (induction ks arbitrary: obs d)
  case (Cons k ks)
  obtain e obs1 d1 where t: "run_turn (tk_io k) w (tk_claim k) (tk_end k) obs d = (e, obs1, d1)"
    by (cases "run_turn (tk_io k) w (tk_claim k) (tk_end k) obs d") auto
  show ?case
  proof (cases e)
    case (Some err)
    have "idle_at w k d" using turn_idle [OF Cons.prems(1) t [unfolded Some]] by (simp add: idle_at_def)
    then show ?thesis using idle_settled [OF Cons.prems(2)] Cons.prems(1) by (intro exI [of _ 0]) simp
  next
    case None
    note t = t [unfolded None]
    obtain r0 g where j: "r0 \<in> set (db_jobs d)" "runnable (tk_claim k - wk_leaseTTL w) r0"
      "db_jobs d1 = update_where (\<lambda>x. jr_id x = jr_id r0) g (db_jobs d)" "\<forall>x. jr_id (g x) = jr_id x"
      "closed_job (g r0) \<or> jr_status (g r0) = JobQueued \<and> jr_retries (g r0) = jr_retries r0 + 1 \<and> jr_retries r0 + 1 < wk_maxAttempts w"
      by (rule turn_job [OF Cons.prems(1) t])
    have keys: "distinct (map jr_id (db_jobs d))" using reachable_keys [OF Cons.prems(1)] by (simp add: keys_ok_def)
    have "\<forall>r \<in> set (db_jobs d1). closed_job r \<or> jr_status r = JobQueued \<or> r \<in> J"
      using Cons.prems(2) j distinct_key_eq [OF keys _ j(1)] by (auto simp: set_update_where)
    moreover have "work_left (wk_maxAttempts w) d1 < length ks" using turn_uses_work [OF Cons.prems(1) t] Cons.prems(3) by simp
    ultimately obtain n obs' d' where n: "n \<le> work_left (wk_maxAttempts w) d1" "Run w (take n ks) (obs1, d1) = (False, obs', d')" "reachable d'"
        "map jr_id (db_jobs d') = map jr_id (db_jobs d1)" "idle_at w (ks ! n) d'" "settled w (ks ! n) J d'"
      using Cons.IH [of d1 obs1] turn_reachable [OF t Cons.prems(1)] Cons.prems(4) by auto
    have "map jr_id (db_jobs d1) = map jr_id (db_jobs d)" using j(3,4) map_update_where [of jr_id g] by simp
    then show ?thesis
      using n t Cons.prems(4) turn_uses_work [OF Cons.prems(1) t] by (intro exI [of _ "Suc n"] exI [of _ obs'] exI [of _ d']) simp
  qed
qed simp

text \<open>C6: A worker drains the queue. From every reachable database, whatever the storage, the engines and the
  probes answer in each turn, the loop comes to a turn that finds nothing to claim, after at most as
  many turns as the jobs have attempts left (one for each job that has used them up). No job is lost,
  none is left queued: each has succeeded or failed, or is untouched and held by another worker
  under a lease that is still fresh.\<close>
theorem worker_drains_queue:
  assumes "reachable d" "work_left (wk_maxAttempts w) d < length ks" "list_all (\<lambda>k. \<not> tk_done k) ks"
  shows "\<exists>n obs' d'. n \<le> work_left (wk_maxAttempts w) d \<and> Run w (take n ks) (obs, d) = (False, obs', d')
    \<and> fst (ClaimNextJob d' (tk_claim (ks ! n)) (wk_leaseTTL w)) = d' \<and> snd (ClaimNextJob d' (tk_claim (ks ! n)) (wk_leaseTTL w)) = Inl ErrNoJob
    \<and> map jr_id (db_jobs d') = map jr_id (db_jobs d) \<and> settled w (ks ! n) (set (db_jobs d)) d'"
proof -
  obtain n obs' d' where n: "n \<le> work_left (wk_maxAttempts w) d" "Run w (take n ks) (obs, d) = (False, obs', d')"
    "map jr_id (db_jobs d') = map jr_id (db_jobs d)" "idle_at w (ks ! n) d'" "settled w (ks ! n) (set (db_jobs d)) d'"
    using run_drains [OF assms(1) _ assms(2,3), of "set (db_jobs d)"] by blast
  have "ClaimNextJob d' (tk_claim (ks ! n)) (wk_leaseTTL w) = (d', Inl ErrNoJob)" using n(4) by (simp add: idle_at_def ClaimNextJob_def)
  then show ?thesis using n by (intro exI [of _ n] exI [of _ obs'] exI [of _ d']) simp
qed

definition broken_tick :: tick where
  "broken_tick = \<lparr>tk_done = False, tk_io = demo_outside\<lparr>io_ffmpeg := \<lambda>args bytes. None\<rparr>, tk_claim = 50, tk_end = 60, tk_slept = True\<rparr>"

lemma worker_drains_queue_witness:
  "\<exists>n obs' d'. n \<le> 3 \<and> Run demo_worker (replicate n broken_tick) (film_objects, queued_db) = (False, obs', d')
     \<and> map jr_id (db_jobs d') = [''J1''] \<and> list_all closed_job (db_jobs d')"
proof -
  have jobs: "db_jobs queued_db = [loop_job]" by (simp add: queued_db_eval)
  have q: "jr_id loop_job = ''J1''" "jr_status loop_job = JobQueued" "jr_retries loop_job = 0" by (simp_all add: loop_job_def queued_row_def)
  have w: "work_left (wk_maxAttempts demo_worker) queued_db = 3"
    by (simp add: work_left_def attempts_left_def closed_job_def jobs q demo_worker_def new_worker_def)
  have ok: "list_all (\<lambda>k. \<not> tk_done k) (replicate 4 broken_tick)" by (simp add: list_all_iff broken_tick_def)
  obtain n obs' d' where n: "n \<le> 3" "Run demo_worker (take n (replicate 4 broken_tick)) (film_objects, queued_db) = (False, obs', d')"
    "map jr_id (db_jobs d') = map jr_id (db_jobs queued_db)" "settled demo_worker (replicate 4 broken_tick ! n) (set (db_jobs queued_db)) d'"
    using worker_drains_queue [OF queued_reachable _ ok, of demo_worker film_objects] w by auto
  have "list_all closed_job (db_jobs d')" using n(4) jobs q(2) by (auto simp: settled_def list_all_iff)
  moreover have "take n (replicate 4 broken_tick) = replicate n broken_tick" using n(1) by simp
  ultimately show ?thesis using n(1-3) jobs q(1) by (intro exI [of _ n] exI [of _ obs'] exI [of _ d']) simp
qed

section \<open>Jobs whose worker dies\<close>

text \<open>A worker that dies during a run leaves its claim behind; the job is taken again when the lease is
  over. The number of attempts is only compared when a failure is reported, so such a job never fails.\<close>

fun deaths :: "nat \<Rightarrow> time \<Rightarrow> time \<Rightarrow> db \<Rightarrow> db" where
  "deaths 0 t ttl d = d"
| "deaths (Suc n) t ttl d = deaths n (t + ttl + 1) ttl (fst (ClaimNextJob d t ttl))"

lemma deadly_job_never_fails:
  assumes "db_jobs d = [r]" "jr_status r = JobQueued \<or> jr_status r = JobRunning \<and> (\<exists>h. jr_heartbeat_at r = Some h \<and> h < t - ttl)"
  shows "\<exists>r'. db_jobs (deaths n t ttl d) = [r'] \<and> jr_retries r' = jr_retries r + int n \<and> \<not> closed_job r'"
  using assms
proof (induction n arbitrary: t d r)
  case 0 then show ?case by (auto simp: closed_job_def)
next
  case (Suc n)
  have p: "pick_job d (t - ttl) = Some r" using Suc.prems by (auto simp: pick_job_def runnable_def)
  let ?d = "fst (ClaimNextJob d t ttl)"
  have j: "db_jobs ?d = [claim_row t r]"
    using p Suc.prems(1) by (simp add: ClaimNextJob_def Let_def update_where_def split: option.split)
  have "\<exists>r'. db_jobs (deaths n (t + ttl + 1) ttl ?d) = [r'] \<and> jr_retries r' = jr_retries (claim_row t r) + int n \<and> \<not> closed_job r'"
    by (rule Suc.IH [OF j]) (simp add: claim_row_def)
  then show ?case by (simp add: claim_row_def ac_simps)
qed

section \<open>Jobs that cannot succeed\<close>

text \<open>The transcoder knows three intents; a derivation of any other fails in every world, at every attempt.\<close>

lemma no_transcoder_fails:
  assumes "cj_Mode job = Derive" "cj_Intent job \<notin> {Detail, Loop, Poster}"
  shows "\<exists>e d'. process io w now job obs d = (Some e, obs, d')"
proof -
  have "Transcode io preset (cj_Intent job) src dst bytes = None" for preset src dst bytes
    using assms(2) by (cases "cj_Intent job") (simp_all add: Transcode_def transcode_args_def)
  then show ?thesis using assms by (auto simp: process_def Let_def split: option.split)
qed

text \<open>Such jobs are accepted all the same: the request endpoint looks at the kind image alone.\<close>

lemma impossible_rendition_accepted:
  assumes "scopeCheck cl ''renditions:generate''" "GetAsset d (account cl) i = Inr a" "asset_Kind a \<noteq> Image" "n \<noteq> Original"
    "existing_rendition (asset_Renditions a) n = None"
  shows "handleRequestRendition now jobID cl d i (Some (intent_str n)) = reply_write d 202 B_Job (EnqueueJob d now jobID (account cl) i n)"
proof -
  have "AssetOwnedBy d (account cl) i"
    using assms(2) by (auto simp: GetAsset_def scanAsset_def AssetOwnedBy_def has_row_iff split: option.splits dest!: get_row_Some_iff)
  moreover have "validIntent (intent_str n)" "intent_of (intent_str n) = Some n"
    by (cases n; simp add: validIntent_def intent_Valid_def intent_of_def all_intents_def)+
  ultimately show ?thesis using assms by (simp add: handleRequestRendition_def)
qed

end
