(* ===== verification/Housekeeping.thy ===== *)
theory Housekeeping
  imports Sweep_Props
begin

text \<open>
  The loops of the worker's housekeeping (worker/reconcile.go, heartbeat.go, checksum.go): each runs its
  step at once and then at every tick, until the context ends. While storage answers, the sweeps
  catch up: batches are taken oldest first, so what was due at some time is gone after a number
  of passes that is known beforehand.
\<close>

section \<open>The loops\<close>

text \<open>A tick: the outside world and the clock of the pass, and whether the context ends after it.\<close>

record sweep_tick =
  st_io :: outside
  st_now :: time
  st_done :: bool

definition sweep_every :: "int \<Rightarrow> int" where
  "sweep_every every = (if every \<le> 0 then 15 * minute else every)"

text \<open>The loop over objects, database and the time of the last sweep; the first component says whether it has returned.\<close>

fun SweepLoop :: "reconciler \<Rightarrow> sweep_tick list \<Rightarrow> objects \<times> db \<times> time option \<Rightarrow> bool \<times> objects \<times> db \<times> time option" where
  "SweepLoop r [] s = (False, s)"
| "SweepLoop r (k # ks) (obs, d, swept) =
     (let (obs', d', t) = sweepBoth (st_io k) r (st_now k) obs d in
      if st_done k then (True, obs', d', Some t) else SweepLoop r ks (obs', d', Some t))"

definition LastSweep :: "objects \<times> db \<times> time option \<Rightarrow> time option" where
  "LastSweep s = snd (snd s)"

text \<open>The heart beat of the worker: a beat that fails leaves the row for the next one.\<close>

fun HeartbeatLoop :: "string \<Rightarrow> string \<Rightarrow> (time \<times> time option \<times> bool \<times> bool) list \<Rightarrow> db \<Rightarrow> bool \<times> db" where
  "HeartbeatLoop workerID version [] d = (False, d)"
| "HeartbeatLoop workerID version ((now, lastSweep, ok, stop) # ks) d =
     (let d' = (if ok then worker_beat now workerID version lastSweep d else d) in
      if stop then (True, d') else HeartbeatLoop workerID version ks d')"

text \<open>The checksum loop: passes without a limit on the number of objects, each with its fuel.\<close>

fun checksum_Loop :: "checksummer \<Rightarrow> (outside \<times> pass_env \<times> objects \<times> nat \<times> bool) list \<Rightarrow> db \<Rightarrow> (bool \<times> db) option" where
  "checksum_Loop c [] d = Some (False, d)"
| "checksum_Loop c ((io, e, obs, fuel, stop) # ks) d =
     (case RunPass io e c obs 0 fuel d of
        None \<Rightarrow> None
      | Some (res, how, d') \<Rightarrow> if stop then Some (True, d') else checksum_Loop c ks d')"

section \<open>Batches oldest first\<close>

lemma sorted_filter_takeWhile:
  fixes key :: "'r \<Rightarrow> int"
  shows "sorted (map key S) \<Longrightarrow> filter (\<lambda>r. key r < c) S = takeWhile (\<lambda>r. key r < c) S"
proof (induction S)
  case (Cons a S)
  show ?case
  proof (cases "key a < c")
    case False
    then have "\<forall>r \<in> set S. \<not> key r < c" using Cons.prems by auto
    then show ?thesis using False by (simp add: filter_empty_conv)
  qed (use Cons in simp)
qed simp

lemma length_filter_sort_key: "length (filter P (sort_key key t)) = length (filter P t)"
  by (metis mset_filter mset_sort size_mset)

lemma takeWhile_take: "takeWhile P (take n xs) = take n (takeWhile P xs)"
proof (induction xs arbitrary: n)
  case (Cons x xs) then show ?case by (cases n) simp_all
qed simp

text \<open>A batch of the \<open>n\<close> oldest rows that are due at \<open>c\<close> takes \<open>n\<close> of the rows due at an earlier \<open>c0\<close>, if there are as many.\<close>

lemma batch_progress:
  fixes key :: "'r \<Rightarrow> int"
  assumes "distinct (map ident t)" "c0 \<le> c"
    and batch: "batch = take n (sort_key key (filter (\<lambda>r. Q r \<and> key r < c) t))"
  shows "length (filter (\<lambda>r. ident r \<notin> ident ` set batch) (filter (\<lambda>r. Q r \<and> key r < c0) t)) = length (filter (\<lambda>r. Q r \<and> key r < c0) t) - n"
proof -
  let ?due = "filter (\<lambda>r. Q r \<and> key r < c0) t"
  let ?S = "sort_key key (filter (\<lambda>r. Q r \<and> key r < c) t)"
  let ?early = "filter (\<lambda>r. key r < c0) ?S"
  have S0: "takeWhile (\<lambda>r. key r < c0) ?S = ?early" by (rule sorted_filter_takeWhile [symmetric]) simp
  have len: "length ?early = length ?due"
    using assms(2) by (simp add: length_filter_sort_key) (metis (no_types, lifting) less_le_trans)
  have "filter (\<lambda>r. key r < c0) batch = takeWhile (\<lambda>r. key r < c0) batch"
    unfolding batch by (rule sorted_filter_takeWhile) (simp add: sorted_wrt_take flip: take_map)
  also have "\<dots> = take n (takeWhile (\<lambda>r. key r < c0) ?S)" unfolding batch by (rule takeWhile_take)
  also have "\<dots> = take n ?early" by (simp only: S0)
  finally have taken: "length (filter (\<lambda>r. key r < c0) batch) = min n (length ?due)" by (simp add: len)
  have inj: "inj_on ident (set t)" and dist: "distinct t" using assms(1) by (simp_all add: distinct_map)
  have sub: "set batch \<subseteq> set (filter (\<lambda>r. Q r \<and> key r < c) t)" unfolding batch using set_take_subset by fastforce
  have "length (filter (\<lambda>r. ident r \<in> ident ` set batch) ?due) = card {r \<in> set ?due. ident r \<in> ident ` set batch}"
    using distinct_card [of "filter (\<lambda>r. ident r \<in> ident ` set batch) ?due"] dist by (simp only: distinct_filter set_filter)
  also have "{r \<in> set ?due. ident r \<in> ident ` set batch} = set (filter (\<lambda>r. key r < c0) batch)"
    using sub inj by (auto simp: inj_on_def)
  also have "card \<dots> = min n (length ?due)"
    using distinct_card [of "filter (\<lambda>r. key r < c0) batch"] taken dist by (simp only: distinct_filter distinct_take distinct_sort batch)
  finally have "length (filter (\<lambda>r. ident r \<in> ident ` set batch) ?due) = min n (length ?due)" .
  moreover have "length (filter (\<lambda>r. ident r \<notin> ident ` set batch) ?due) + length (filter (\<lambda>r. ident r \<in> ident ` set batch) ?due) = length ?due"
    using sum_length_filter_compl [of "\<lambda>r. ident r \<in> ident ` set batch" ?due] by simp
  ultimately show ?thesis by simp
qed

section \<open>One pass\<close>

definition orphans :: "time \<Rightarrow> db \<Rightarrow> upload_row list" where
  "orphans c d = filter (\<lambda>r. (uw_finalized r = None \<and> uw_swept r = None) \<and> uw_created r < c) (db_uploads d)"

definition deleted_at :: "asset_row \<Rightarrow> time" where
  "deleted_at r = (case ar_deleted r of None \<Rightarrow> 0 | Some t \<Rightarrow> t)"

definition dead_assets :: "time \<Rightarrow> db \<Rightarrow> asset_row list" where
  "dead_assets c d = filter (\<lambda>r. ar_deleted r \<noteq> None \<and> deleted_at r < c) (db_assets d)"

lemma swept_rows:
  "sweep_uploads io now us n obs d = (m, obs', d') \<Longrightarrow> \<forall>k. io_delete io k
    \<Longrightarrow> db_uploads d' = map (\<lambda>r. if uw_id r \<in> u_ID ` set us then r\<lparr>uw_swept := Some now\<rparr> else r) (db_uploads d)"
proof (induction us arbitrary: n obs d)
  case (Cons u us)
  then have "sweep_uploads io now us (Suc n) (obs(u_Key u := None)) (MarkUploadSwept d now (u_ID u)) = (m, obs', d')" by simp
  from Cons.IH [OF this Cons.prems(2)] show ?case by (auto simp: MarkUploadSwept_def update_where_def)
qed simp

lemma purged_rows:
  "sweep_deleted io as n obs d = (m, obs', d') \<Longrightarrow> \<forall>k. io_delete io k
    \<Longrightarrow> db_assets d' = filter (\<lambda>r. \<not> (ar_id r \<in> da_ID ` set as \<and> ar_deleted r \<noteq> None)) (db_assets d) \<and> db_uploads d' = db_uploads d"
proof (induction as arbitrary: n obs d)
  case (Cons a as)
  then have "sweep_deleted io as (Suc n) (obs(da_VaultKey a := None)) (PurgeDeletedAsset d (da_ID a)) = (m, obs', d')" by simp
  note ih = Cons.IH [OF this Cons.prems(2)]
  have "db_assets (PurgeDeletedAsset d (da_ID a)) = filter (\<lambda>r. \<not> (ar_id r = da_ID a \<and> ar_deleted r \<noteq> None)) (db_assets d)
      \<and> db_uploads (PurgeDeletedAsset d (da_ID a)) = db_uploads d"
    by (auto simp: PurgeDeletedAsset_def delete_where_def has_row_iff filter_id_conv intro!: filter_cong)
  then show ?case using ih by (auto simp: intro!: filter_cong)
qed simp

lemma reclaimed_uploads:
  assumes "0 < b"
  shows "ReclaimableUploads d c b = map (\<lambda>r. \<lparr>u_ID = uw_id r, u_Account = uw_account r, u_Key = uw_key r,
      u_ContentType = uw_ctype r, u_SizeBytes = uw_size r, u_Filename = str_of (uw_filename r), u_SkipDerivations = False,
      u_RenditionAsset = [], u_RenditionIntent = [], u_SweptAt = None\<rparr>) (take (nat b) (sort_key uw_created (orphans c d)))"
  using assms by (simp add: ReclaimableUploads_def orphans_def conj_assoc)

lemma upload_pass:
  assumes "SweepOnce io r now obs d = (n, obs', d')" "\<forall>k. io_delete io k" "0 < rn_batchSize r" "c0 \<le> now - rn_grace r"
    "distinct (map uw_id (db_uploads d))"
  shows "db_assets d' = db_assets d \<and> map uw_id (db_uploads d') = map uw_id (db_uploads d)"
    "length (orphans c0 d') = length (orphans c0 d) - nat (rn_batchSize r)"
    "obs k = None \<Longrightarrow> obs' k = None" "x \<in> set (orphans c0 d) \<Longrightarrow> x \<in> set (orphans c0 d') \<or> obs' (uw_key x) = None"
proof -
  let ?c = "now - rn_grace r" and ?b = "nat (rn_batchSize r)"
  define batch where "batch = take ?b (sort_key uw_created (orphans ?c d))"
  let ?us = "ReclaimableUploads d ?c (rn_batchSize r)"
  have ids: "u_ID ` set ?us = uw_id ` set batch" and keys: "u_Key ` set ?us = uw_key ` set batch"
    using reclaimed_uploads [OF assms(3), of d ?c] by (simp_all add: batch_def image_image)
  have run: "sweep_uploads io now ?us 0 obs d = (n, obs', d')" using assms(1) by (simp add: SweepOnce_def)
  have rows: "db_uploads d' = map (\<lambda>r. if uw_id r \<in> uw_id ` set batch then r\<lparr>uw_swept := Some now\<rparr> else r) (db_uploads d)"
    using swept_rows [OF run assms(2)] ids by simp
  show "db_assets d' = db_assets d \<and> map uw_id (db_uploads d') = map uw_id (db_uploads d)"
    using sweep_uploads_assets [OF run] rows by (simp add: if_distrib)
  have left: "orphans c0 d' = filter (\<lambda>r. uw_id r \<notin> uw_id ` set batch) (orphans c0 d)"
  proof -
    have "filter (\<lambda>r. (uw_finalized r = None \<and> uw_swept r = None) \<and> uw_created r < c0)
        (map (\<lambda>r. if Q r then r\<lparr>uw_swept := Some now\<rparr> else r) t)
      = filter (\<lambda>r. \<not> Q r) (filter (\<lambda>r. (uw_finalized r = None \<and> uw_swept r = None) \<and> uw_created r < c0) t)" for Q t
      by (induction t) simp_all
    then show ?thesis unfolding orphans_def rows .
  qed
  have "length (filter (\<lambda>r. uw_id r \<notin> uw_id ` set batch) (orphans c0 d)) = length (orphans c0 d) - ?b"
    unfolding orphans_def by (rule batch_progress [OF assms(5,4) batch_def [unfolded orphans_def]])
  then show "length (orphans c0 d') = length (orphans c0 d) - ?b" by (simp only: left)
  show "obs k = None \<Longrightarrow> obs' k = None" by (rule upload_sweep.stays_gone [OF run])
  show "x \<in> set (orphans c0 d) \<Longrightarrow> x \<in> set (orphans c0 d') \<or> obs' (uw_key x) = None"
  proof (cases "uw_id x \<in> uw_id ` set batch")
    case True
    assume x: "x \<in> set (orphans c0 d)"
    obtain y where y: "y \<in> set batch" "uw_id y = uw_id x" using True by force
    have "y \<in> set (db_uploads d)" using y(1) by (auto simp: batch_def orphans_def dest!: in_set_takeD)
    then have "x = y" using x y(2) distinct_key_eq [OF assms(5)] by (auto simp: orphans_def)
    then have "uw_key x \<in> u_Key ` set ?us" using y(1) keys by auto
    from upload_sweep.deletes [OF run this spec [OF assms(2)]] show ?thesis ..
  qed (simp add: left)
qed

lemma reclaimed_assets:
  assumes "0 < b"
  shows "ReclaimableDeletedAssets d c b = map (\<lambda>r. \<lparr>da_ID = ar_id r, da_Account = ar_account r, da_VaultKey = ar_vault_key r\<rparr>)
      (take (nat b) (sort_key deleted_at (dead_assets c d)))"
proof -
  have "(\<lambda>r. case ar_deleted r of None \<Rightarrow> False | Some t \<Rightarrow> t < c) = (\<lambda>r. ar_deleted r \<noteq> None \<and> deleted_at r < c)"
    by (auto simp: fun_eq_iff deleted_at_def split: option.split)
  moreover have "(\<lambda>r. case ar_deleted r of None \<Rightarrow> 0 | Some t \<Rightarrow> t) = deleted_at" by (simp add: fun_eq_iff deleted_at_def)
  ultimately show ?thesis using assms by (simp add: ReclaimableDeletedAssets_def dead_assets_def)
qed

lemma asset_pass:
  assumes "SweepDeletedAssets io r now obs d = (n, obs', d')" "\<forall>k. io_delete io k" "0 < rn_batchSize r" "c0 \<le> now - rn_grace r"
    "distinct (map ar_id (db_assets d))"
  shows "db_uploads d' = db_uploads d \<and> distinct (map ar_id (db_assets d'))"
    "length (dead_assets c0 d') = length (dead_assets c0 d) - nat (rn_batchSize r)"
    "obs k = None \<Longrightarrow> obs' k = None" "x \<in> set (dead_assets c0 d) \<Longrightarrow> x \<in> set (dead_assets c0 d') \<or> obs' (ar_vault_key x) = None"
proof -
  let ?c = "now - rn_grace r" and ?b = "nat (rn_batchSize r)"
  define batch where "batch = take ?b (sort_key deleted_at (dead_assets ?c d))"
  let ?as = "ReclaimableDeletedAssets d ?c (rn_batchSize r)"
  have ids: "da_ID ` set ?as = ar_id ` set batch" and keys: "da_VaultKey ` set ?as = ar_vault_key ` set batch"
    using reclaimed_assets [OF assms(3), of d ?c] by (simp_all add: batch_def image_image)
  have run: "sweep_deleted io ?as 0 obs d = (n, obs', d')" using assms(1) by (simp add: SweepDeletedAssets_def)
  have rows: "db_assets d' = filter (\<lambda>r. \<not> (ar_id r \<in> ar_id ` set batch \<and> ar_deleted r \<noteq> None)) (db_assets d)" "db_uploads d' = db_uploads d"
    using purged_rows [OF run assms(2)] ids by simp_all
  show "db_uploads d' = db_uploads d \<and> distinct (map ar_id (db_assets d'))"
    using rows assms(5) by (simp add: distinct_map_filter)
  have left: "dead_assets c0 d' = filter (\<lambda>r. ar_id r \<notin> ar_id ` set batch) (dead_assets c0 d)"
    by (auto simp: dead_assets_def rows(1) intro!: filter_cong)
  have "length (filter (\<lambda>r. ar_id r \<notin> ar_id ` set batch) (dead_assets c0 d)) = length (dead_assets c0 d) - ?b"
    unfolding dead_assets_def by (rule batch_progress [OF assms(5,4) batch_def [unfolded dead_assets_def]])
  then show "length (dead_assets c0 d') = length (dead_assets c0 d) - ?b" by (simp only: left)
  show "obs k = None \<Longrightarrow> obs' k = None" by (rule deleted_sweep.stays_gone [OF run])
  show "x \<in> set (dead_assets c0 d) \<Longrightarrow> x \<in> set (dead_assets c0 d') \<or> obs' (ar_vault_key x) = None"
  proof (cases "ar_id x \<in> ar_id ` set batch")
    case True
    assume x: "x \<in> set (dead_assets c0 d)"
    obtain y where y: "y \<in> set batch" "ar_id y = ar_id x" using True by force
    have "y \<in> set (db_assets d)" using y(1) by (auto simp: batch_def dead_assets_def dest!: in_set_takeD)
    then have "x = y" using x y(2) distinct_key_eq [OF assms(5)] by (auto simp: dead_assets_def)
    then have "ar_vault_key x \<in> da_VaultKey ` set ?as" using y(1) keys by auto
    from deleted_sweep.deletes [OF run this spec [OF assms(2)]] show ?thesis ..
  qed (simp add: left)
qed

section \<open>The loop catches up\<close>

lemma both_passes:
  assumes "sweepBoth io r now obs d = (obs', d', t)" "\<forall>k. io_delete io k" "0 < rn_batchSize r" "c0 \<le> now - rn_grace r"
    "distinct (map uw_id (db_uploads d))" "distinct (map ar_id (db_assets d))"
  shows "distinct (map uw_id (db_uploads d'))" "distinct (map ar_id (db_assets d'))"
    "length (orphans c0 d') = length (orphans c0 d) - nat (rn_batchSize r)"
    "length (dead_assets c0 d') = length (dead_assets c0 d) - nat (rn_batchSize r)"
    "obs k = None \<Longrightarrow> obs' k = None"
    "x \<in> set (orphans c0 d) \<Longrightarrow> x \<in> set (orphans c0 d') \<or> obs' (uw_key x) = None"
    "y \<in> set (dead_assets c0 d) \<Longrightarrow> y \<in> set (dead_assets c0 d') \<or> obs' (ar_vault_key y) = None"
proof -
  obtain n obs1 d1 where u: "SweepOnce io r now obs d = (n, obs1, d1)" by (metis prod_cases3)
  obtain m where a: "SweepDeletedAssets io r now obs1 d1 = (m, obs', d')"
    using assms(1) u by (auto simp: sweepBoth_def Let_def split: prod.splits)
  note up = upload_pass [OF u assms(2-5)]
  have d1: "distinct (map ar_id (db_assets d1))" "dead_assets c0 d1 = dead_assets c0 d"
    using up(1) assms(6) by (simp_all add: dead_assets_def)
  note ap = asset_pass [OF a assms(2-4) d1(1)]
  have o: "orphans c0 d' = orphans c0 d1" using ap(1) by (simp add: orphans_def)
  show "distinct (map uw_id (db_uploads d'))" "distinct (map ar_id (db_assets d'))" using up(1) ap(1) assms(5) by simp_all
  show "length (orphans c0 d') = length (orphans c0 d) - nat (rn_batchSize r)" using up(2) o by simp
  show "length (dead_assets c0 d') = length (dead_assets c0 d) - nat (rn_batchSize r)" using ap(2) d1(2) by simp
  show "obs k = None \<Longrightarrow> obs' k = None" using up(3) ap(3) by blast
  show "x \<in> set (orphans c0 d) \<Longrightarrow> x \<in> set (orphans c0 d') \<or> obs' (uw_key x) = None" using up(4) ap(3) o by metis
  show "y \<in> set (dead_assets c0 d) \<Longrightarrow> y \<in> set (dead_assets c0 d') \<or> obs' (ar_vault_key y) = None" using ap(4) d1(2) by simp
qed

text \<open>A tick whose deletes are answered, not before \<open>t0\<close>, and that is not the last of the loop.\<close>

definition healthy_tick :: "time \<Rightarrow> sweep_tick \<Rightarrow> bool" where
  "healthy_tick t0 k \<longleftrightarrow> (\<forall>o'. io_delete (st_io k) o') \<and> t0 \<le> st_now k \<and> \<not> st_done k"

lemma loop_passes:
  assumes "SweepLoop r ks (obs, d, s) = (stopped, obs', d', s')" "list_all (healthy_tick t0) ks" "0 < rn_batchSize r"
    "distinct (map uw_id (db_uploads d))" "distinct (map ar_id (db_assets d))"
  defines "c0 \<equiv> t0 - rn_grace r" and "b \<equiv> nat (rn_batchSize r)"
  shows "length (orphans c0 d') = length (orphans c0 d) - length ks * b
    \<and> length (dead_assets c0 d') = length (dead_assets c0 d) - length ks * b
    \<and> (\<forall>k. obs k = None \<longrightarrow> obs' k = None)
    \<and> (\<forall>x \<in> set (orphans c0 d). x \<in> set (orphans c0 d') \<or> obs' (uw_key x) = None)
    \<and> (\<forall>y \<in> set (dead_assets c0 d). y \<in> set (dead_assets c0 d') \<or> obs' (ar_vault_key y) = None)"
  using assms(1,2,4,5)
proof (induction ks arbitrary: obs d s)
  case (Cons k ks)
  obtain obs1 d1 t where p: "sweepBoth (st_io k) r (st_now k) obs d = (obs1, d1, t)" by (metis prod_cases3)
  have "healthy_tick t0 k" and ks: "list_all (healthy_tick t0) ks" using Cons.prems(2) by simp_all
  then have h: "\<forall>o'. io_delete (st_io k) o'" "c0 \<le> st_now k - rn_grace r" "\<not> st_done k"
    by (simp_all add: healthy_tick_def c0_def)
  note pass = both_passes [OF p h(1) assms(3) h(2) Cons.prems(3,4)]
  have run: "SweepLoop r ks (obs1, d1, Some t) = (stopped, obs', d', s')" using Cons.prems(1) p h(3) by simp
  note ih = Cons.IH [OF run ks pass(1,2)]
  have later: "\<forall>k. obs1 k = None \<longrightarrow> obs' k = None" using ih by blast
  show ?case
  proof (intro conjI allI ballI impI)
    show "length (orphans c0 d') = length (orphans c0 d) - length (k # ks) * b"
      "length (dead_assets c0 d') = length (dead_assets c0 d) - length (k # ks) * b"
      using ih pass(3,4) by (simp_all add: b_def)
    show "obs' j = None" if "obs j = None" for j using later pass(5) [OF that] by blast
    show "x \<in> set (orphans c0 d') \<or> obs' (uw_key x) = None" if "x \<in> set (orphans c0 d)" for x
      using ih later pass(6) [OF that] by auto
    show "y \<in> set (dead_assets c0 d') \<or> obs' (ar_vault_key y) = None" if "y \<in> set (dead_assets c0 d)" for y
      using ih later pass(7) [OF that] by auto
  qed
qed simp

text \<open>What is under the delivery prefix, no pass touches.\<close>

lemma both_public:
  assumes "sweepBoth io r now obs d = (obs', d', t)" "reachable d"
  shows "reachable d'" "\<not> private_key k \<Longrightarrow> obs' k = obs k"
proof -
  obtain n obs1 d1 where u: "SweepOnce io r now obs d = (n, obs1, d1)" by (metis prod_cases3)
  obtain m where a: "SweepDeletedAssets io r now obs1 d1 = (m, obs', d')"
    using assms(1) u by (auto simp: sweepBoth_def Let_def split: prod.splits)
  have marked: "reachable (MarkUploadSwept e now i)" if "reachable e" for e i
    using reachable.step [OF that store_step.worker [of _ now "W_MarkSwept i"]] by simp
  have purged: "reachable (PurgeDeletedAsset e i)" if "reachable e" for e i
    using reachable.step [OF that store_step.worker [of _ now "W_Purge i"]] by simp
  have r1: "reachable d1" by (rule upload_sweep.rows [where P = reachable, OF u [unfolded SweepOnce_def] assms(2)]) (rule marked)
  show "reachable d'" by (rule deleted_sweep.rows [where P = reachable, OF a [unfolded SweepDeletedAssets_def] r1]) (rule purged)
  assume k: "\<not> private_key k"
  then have "k \<notin> u_Key ` set (ReclaimableUploads d (now - rn_grace r) (rn_batchSize r))"
    "k \<notin> da_VaultKey ` set (ReclaimableDeletedAssets d1 (now - rn_grace r) (rn_batchSize r))"
    using reclaimable_private [OF assms(2)] deleted_private [OF r1] by auto
  then show "obs' k = obs k"
    using upload_sweep.other [OF u [unfolded SweepOnce_def]] deleted_sweep.other [OF a [unfolded SweepDeletedAssets_def]] by simp
qed

lemma loop_public:
  "SweepLoop r ks (obs, d, s) = (stopped, obs', d', s') \<Longrightarrow> reachable d \<Longrightarrow> \<not> private_key k \<Longrightarrow> obs' k = obs k"
proof (induction ks arbitrary: obs d s)
  case (Cons t ks)
  obtain obs1 d1 u where p: "sweepBoth (st_io t) r (st_now t) obs d = (obs1, d1, u)" by (metis prod_cases3)
  note b = both_public [OF p Cons.prems(2)]
  show ?case
  proof (cases "st_done t")
    case True then show ?thesis using Cons.prems(1) p b(2) [OF Cons.prems(3)] by simp
  next
    case False
    then have "SweepLoop r ks (obs1, d1, Some u) = (stopped, obs', d', s')" using Cons.prems(1) p by simp
    from Cons.IH [OF this b(1) Cons.prems(3)] b(2) [OF Cons.prems(3)] show ?thesis by simp
  qed
qed simp

text \<open>C7: The sweeps catch up. Take any reachable database and a time; while the storage answers deletes,
  after as many passes of the loop as there are batches in what was overdue at that time, no upload
  that was an orphan then is left unswept and its object is gone, and no asset that was deleted then
  is left and its original's bytes are gone: batches are taken oldest first, so newer work does not
  delay older work. Renditions are outside of it: every object under the delivery prefix, those of
  the purged assets included, is what it was before.\<close>
theorem housekeeping_catches_up:
  assumes "reachable d" "0 < rn_batchSize r" "list_all (healthy_tick t0) ks"
    "length (orphans (t0 - rn_grace r) d) \<le> length ks * nat (rn_batchSize r)"
    "length (dead_assets (t0 - rn_grace r) d) \<le> length ks * nat (rn_batchSize r)"
    "SweepLoop r ks (obs, d, s) = (stopped, obs', d', s')"
  shows "orphans (t0 - rn_grace r) d' = [] \<and> dead_assets (t0 - rn_grace r) d' = []
    \<and> (\<forall>u \<in> set (orphans (t0 - rn_grace r) d). obs' (uw_key u) = None)
    \<and> (\<forall>a \<in> set (dead_assets (t0 - rn_grace r) d). obs' (ar_vault_key a) = None)
    \<and> (\<forall>k. has_prefix k DeliveryPrefix \<longrightarrow> obs' k = obs k)"
proof -
  have "distinct (map uw_id (db_uploads d))" "distinct (map ar_id (db_assets d))"
    using reachable_keys [OF assms(1)] by (simp_all add: keys_ok_def)
  from loop_passes [OF assms(6,3,2) this] assms(4,5) loop_public [OF assms(6,1)] show ?thesis by (auto simp: private_key_def)
qed

lemma housekeeping_catches_up_witness:
  "\<exists>obs' d' s'. SweepLoop \<lparr>rn_grace = 10, rn_batchSize = 100\<rparr> [\<lparr>st_io = demo_outside, st_now = 100, st_done = False\<rparr>]
       (film_objects, demo_db1, None) = (False, obs', d', s')
     \<and> orphans 90 demo_db1 \<noteq> [] \<and> orphans 90 d' = [] \<and> obs' (VaultKey ''alice'' ''A1'') = None"
proof -
  let ?r = "\<lparr>rn_grace = 10, rn_batchSize = 100\<rparr>" and ?ks = "[\<lparr>st_io = demo_outside, st_now = 100, st_done = False\<rparr>]"
  obtain stopped obs' d' s' where run: "SweepLoop ?r ?ks (film_objects, demo_db1, None) = (stopped, obs', d', s')" by (metis prod_cases4)
  have o: "map uw_key (orphans 90 demo_db1) = [VaultKey ''alice'' ''A1'']" and l: "length (orphans 90 demo_db1) \<le> 100" "dead_assets 90 demo_db1 = []"
    by (simp_all add: orphans_def dead_assets_def demo_db1_eval demo_db0_eval empty_db_def)
  have h: "list_all (healthy_tick 100) ?ks" by (simp add: healthy_tick_def demo_outside_def)
  have "orphans 90 d' = [] \<and> (\<forall>u \<in> set (orphans 90 demo_db1). obs' (uw_key u) = None)"
    using housekeeping_catches_up [OF demo_reachable1 _ h _ _ run] l by simp
  moreover have "\<exists>u \<in> set (orphans 90 demo_db1). uw_key u = VaultKey ''alice'' ''A1''" using o by (cases "orphans 90 demo_db1") auto
  moreover have "\<not> stopped" using run by (auto split: prod.splits)
  ultimately show ?thesis using run by auto
qed

text \<open>A batch none of whose objects can be deleted stops the sweep: the oldest rows stay the oldest, and
  nothing behind them is ever reached.\<close>

lemma stuck_batch:
  assumes "\<forall>u \<in> set (ReclaimableUploads d (now - rn_grace r) (rn_batchSize r)). \<not> io_delete io (u_Key u)"
  shows "SweepOnce io r now obs d = (0, obs, d)"
proof -
  have "sweep_uploads io now us n obs d = (n, obs, d)" if "\<forall>u \<in> set us. \<not> io_delete io (u_Key u)" for us n
    using that by (induction us) auto
  then show ?thesis using assms by (simp add: SweepOnce_def)
qed

lemma later_batch:
  assumes "c \<le> c'" "nat b \<le> length (orphans c d)"
  shows "take (nat b) (sort_key uw_created (orphans c' d)) = take (nat b) (sort_key uw_created (orphans c d))"
proof -
  let ?S = "sort_key uw_created (orphans c' d)"
  have early: "filter (\<lambda>r. uw_created r < c) (orphans c' d) = orphans c d" using assms(1) by (auto simp: orphans_def intro!: filter_cong)
  have "sort_key uw_created (orphans c d) = filter (\<lambda>r. uw_created r < c) ?S"
  proof (rule properties_for_sort_key)
    show "mset (filter (\<lambda>r. uw_created r < c) ?S) = mset (orphans c d)" by (simp flip: early)
    show "filter (\<lambda>x. uw_created k = uw_created x) (filter (\<lambda>r. uw_created r < c) ?S) = filter (\<lambda>x. uw_created k = uw_created x) (orphans c d)"
      if "k \<in> set (filter (\<lambda>r. uw_created r < c) ?S)" for k
    proof -
      have "filter (\<lambda>x. uw_created k = uw_created x) ?S = filter (\<lambda>x. uw_created k = uw_created x) (orphans c' d)"
        using sort_key_stable [of uw_created "uw_created k" "orphans c' d"] by (simp add: eq_commute)
      then have "filter (\<lambda>r. uw_created r < c) (filter (\<lambda>x. uw_created k = uw_created x) ?S)
          = filter (\<lambda>r. uw_created r < c) (filter (\<lambda>x. uw_created k = uw_created x) (orphans c' d))" by simp
      then show ?thesis by (simp add: conj_commute flip: early)
    qed
    show "sorted (map uw_created (filter (\<lambda>r. uw_created r < c) ?S))" by (simp add: sorted_filter)
  qed
  also have "\<dots> = takeWhile (\<lambda>r. uw_created r < c) ?S" by (rule sorted_filter_takeWhile) simp
  finally have eq: "sort_key uw_created (orphans c d) = takeWhile (\<lambda>r. uw_created r < c) ?S" .
  then have "nat b \<le> length (takeWhile (\<lambda>r. uw_created r < c) ?S)" using assms(2) by (metis length_sort)
  moreover have "take n (xs @ ys) = take n xs" if "n \<le> length xs" for n and xs ys :: "upload_row list" using that by simp
  ultimately have "take (nat b) (takeWhile (\<lambda>r. uw_created r < c) ?S @ dropWhile (\<lambda>r. uw_created r < c) ?S)
      = take (nat b) (takeWhile (\<lambda>r. uw_created r < c) ?S)" by blast
  then show ?thesis by (simp only: eq takeWhile_dropWhile_id)
qed

text \<open>So a full batch of rows whose objects cannot be deleted is taken again at every later pass.\<close>

lemma stuck_for_ever:
  assumes "0 < rn_batchSize r" "nat (rn_batchSize r) \<le> length (orphans (now - rn_grace r) d)"
    "\<forall>u \<in> set (ReclaimableUploads d (now - rn_grace r) (rn_batchSize r)). \<not> io_delete io (u_Key u)" "now \<le> now'"
  shows "SweepOnce io r now' obs d = (0, obs, d)"
proof (rule stuck_batch)
  have "ReclaimableUploads d (now' - rn_grace r) (rn_batchSize r) = ReclaimableUploads d (now - rn_grace r) (rn_batchSize r)"
    using later_batch [of "now - rn_grace r" "now' - rn_grace r" "rn_batchSize r" d] assms(1,2,4) by (simp add: reclaimed_uploads)
  then show "\<forall>u \<in> set (ReclaimableUploads d (now' - rn_grace r) (rn_batchSize r)). \<not> io_delete io (u_Key u)" using assms(3) by simp
qed

end
