(* ===== verification/Staged_Files.thy ===== *)
theory Staged_Files
  imports Housekeeping Asset_Api
begin

text \<open>
  The staged file of an authored upload between finalize (service/upload.go, handleFinalizeUpload)
  and the remux job that copies it: the row stays without a finalize time, so the sweep
  (worker/reconcile.go, SweepOnce) takes it for an orphan.
\<close>

section \<open>The batch of the sweep\<close>

lemma oldest_in_batch:
  fixes key :: "'r \<Rightarrow> int"
  assumes "u \<in> set xs" "length (filter (\<lambda>x. key x \<le> key u) xs) \<le> n"
  shows "u \<in> set (take n (sort_key key xs))"
proof -
  let ?S = "sort_key key xs" and ?P = "\<lambda>x. key x < key u + 1"
  have eq: "filter ?P ?S = takeWhile ?P ?S" by (rule sorted_filter_takeWhile) simp
  have "length (takeWhile ?P ?S) = length (filter ?P xs)" by (simp only: eq [symmetric] length_filter_sort_key)
  then have "length (takeWhile ?P ?S) \<le> n" using assms(2) by simp
  moreover have "u \<in> set (takeWhile ?P ?S)" unfolding eq [symmetric] using assms(1) by simp
  ultimately show ?thesis by (metis set_take_subset_set_take subsetD takeWhile_eq_take)
qed

lemma swept_orphan:
  assumes "SweepOnce io r now obs d = (n, obs', d')" "u \<in> set (orphans (now - rn_grace r) d)" "io_delete io (uw_key u)"
    "length (filter (\<lambda>x. uw_created x \<le> uw_created u) (orphans (now - rn_grace r) d)) \<le> nat (rn_batchSize r)"
  shows "obs' (uw_key u) = None"
proof -
  let ?us = "ReclaimableUploads d (now - rn_grace r) (rn_batchSize r)"
  have "filter (\<lambda>x. uw_created x \<le> uw_created u) (orphans (now - rn_grace r) d) \<noteq> []"
    using assms(2) by (auto simp: filter_empty_conv)
  then have "0 < length (filter (\<lambda>x. uw_created x \<le> uw_created u) (orphans (now - rn_grace r) d))" by (rule length_greater_0_conv [THEN iffD2])
  then have b: "0 < rn_batchSize r" using assms(4) by linarith
  have "u \<in> set (take (nat (rn_batchSize r)) (sort_key uw_created (orphans (now - rn_grace r) d)))"
    by (rule oldest_in_batch [OF assms(2,4)])
  then have "uw_key u \<in> u_Key ` set ?us" by (auto simp: reclaimed_uploads [OF b] image_image)
  then show ?thesis using upload_sweep.deletes [OF assms(1) [unfolded SweepOnce_def]] assms(3) by blast
qed

lemma swept_jobs: "SweepOnce io r now obs d = (n, obs', d') \<Longrightarrow> db_jobs d' = db_jobs d"
  by (rule upload_sweep.rows [where P = "\<lambda>e. db_jobs e = db_jobs d"]) (auto simp: SweepOnce_def MarkUploadSwept_def)

lemma swept_younger:
  assumes "SweepOnce io r now obs d = (n, obs', d')" "distinct (map uw_id (db_uploads d))" "v \<in> set (db_uploads d)"
    "now - rn_grace r \<le> uw_created v"
  shows "v \<in> set (db_uploads d')"
proof (rule sweep_uploads_rows [OF assms(1) [unfolded SweepOnce_def] assms(3)])
  show "uw_id v \<notin> u_ID ` set (ReclaimableUploads d (now - rn_grace r) (rn_batchSize r))"
  proof
    assume "uw_id v \<in> u_ID ` set (ReclaimableUploads d (now - rn_grace r) (rn_batchSize r))"
    then obtain x where "x \<in> set (db_uploads d)" "uw_id x = uw_id v" "uw_created x < now - rn_grace r"
      using reclaimable_uploads by fastforce
    then show False using distinct_key_eq [OF assms(2), of x v] assms(3,4) by simp
  qed
qed

section \<open>Finalizing an authored upload\<close>

text \<open>The handler enqueues the remux job and leaves the upload alone.\<close>

lemma remux_enqueued:
  assumes "EnqueueRemuxJob d t jid A i n src = Inr (d', j)"
  shows "db_uploads d' = db_uploads d \<and> (\<exists>q \<in> set (db_jobs d'). jr_id q = job_Id j \<and> jr_mode q = Remux \<and> jr_source_key q = Some src)"
proof -
  have new: ?thesis if "insert_job d (queued_row t jid A i n Remux (Some src)) = Inr (d', j)"
    using that by (auto simp: insert_job_def insert_row_def scanJobBasic_def queued_row_def split: if_splits)
  show ?thesis
  proof (cases "latest_job d A i n")
    case None then show ?thesis using assms new by (simp add: EnqueueRemuxJob_def)
  next
    case (Some r)
    then have "r \<in> set (db_jobs d)" using latest_job_Some by blast
    then have "repoint t src r \<in> set (update_where (\<lambda>x. jr_id x = jr_id r) (repoint t src) (db_jobs d))" by (auto simp: set_update_where)
    moreover have "jr_id (repoint t src r) = jr_id r \<and> jr_mode (repoint t src r) = Remux \<and> jr_source_key (repoint t src r) = Some src"
      by (simp add: repoint_def)
    ultimately show ?thesis using assms new Some
      by (cases "jr_status r = JobFailed") (auto simp: EnqueueRemuxJob_def reused_job_def)
  qed
qed

lemma authored_finalized:
  assumes "handleFinalizeUpload s t jid cl d i req = ((202, B_Job j), d')"
  obtains u b where "u \<in> set (db_uploads d)" "uw_id u = i" "uw_account u = account cl" "uw_rasset u = Some b" "uw_swept u = None"
    "db_uploads d' = db_uploads d" "\<exists>q \<in> set (db_jobs d'). jr_id q = job_Id j \<and> jr_mode q = Remux \<and> jr_source_key q = Some (uw_key u)"
proof -
  have refused: "mapStoreErr e \<noteq> (202, B_Job j)" for e by (cases e) (simp_all add: denyNotFound_def)
  have original: "after_finalize t jid A up k e i a \<noteq> ((202, B_Job j), e')" for A up k e a e'
    by (auto simp: after_finalize_def Let_def split: prod.splits sum.splits)
  have probed: "vault_record_of st c up info = Inl x \<Longrightarrow> x \<noteq> (202, B_Job j)" for st c up info x
    by (auto simp: vault_record_of_def Let_def split: option.splits if_splits prod.splits media_kind.splits)
  obtain up n where up: "GetUpload d (account cl) i = Inr up" "u_SweptAt up = None" "u_RenditionAsset up \<noteq> []"
    and q: "EnqueueRemuxJob d t jid (account cl) (u_RenditionAsset up) n (u_Key up) = Inr (d', j)"
    using assms refused original probed
    by (auto simp: handleFinalizeUpload_def lacks_scope_def split: option.splits sum.splits if_splits)
  obtain u where u: "get_row (\<lambda>r. uw_account r = account cl \<and> uw_id r = i) (db_uploads d) = Some u" "up = upload_of_row u"
    using up(1) by (auto simp: GetUpload_def split: option.splits)
  have "uw_rasset u \<noteq> None" using up(3) u(2) by (cases "uw_rasset u") (simp_all add: upload_of_row_def str_of_def)
  then show thesis using that [of u] get_row_Some_iff [OF u(1)] up(2) u(2) remux_enqueued [OF q] by (auto simp: upload_of_row_def)
qed

text \<open>C37: Finalizing an authored upload does not keep its file. The finalize answers that the remux job is
  accepted, and the job points at the staged object; but the upload's row is left as it was, so at
  the first sweep after the grace period that reaches it (at most a batch of orphans is as old as
  it is, and storage answers the delete) the staged object is deleted while the job still waits for it. Every upload for that
  asset and intent shares the key: a newer file that has just been put there goes with it, while
  its own row still counts as good.\<close>
theorem sweep_takes_staged_files:
  assumes "reachable d" "handleFinalizeUpload s t jid cl d i req = ((202, B_Job j), d1)"
    "u \<in> set (db_uploads d)" "uw_id u = i" "uw_created u < now - rn_grace r" "io_delete io (uw_key u)"
    "length (filter (\<lambda>x. uw_created x \<le> uw_created u) (orphans (now - rn_grace r) d)) \<le> nat (rn_batchSize r)"
    "SweepOnce io r now obs d1 = (n, obs', d2)"
  shows "obs' (uw_key u) = None
    \<and> (\<exists>q \<in> set (db_jobs d2). jr_id q = job_Id j \<and> jr_mode q = Remux \<and> jr_source_key q = Some (uw_key u))
    \<and> (\<forall>v \<in> set (db_uploads d). uw_key v = uw_key u \<and> now - rn_grace r \<le> uw_created v \<longrightarrow> obs' (uw_key v) = None \<and> v \<in> set (db_uploads d2))"
proof -
  obtain x b where x: "x \<in> set (db_uploads d)" "uw_id x = i" "uw_rasset x = Some b" "uw_swept x = None"
    and d1: "db_uploads d1 = db_uploads d"
    and q: "\<exists>q \<in> set (db_jobs d1). jr_id q = job_Id j \<and> jr_mode q = Remux \<and> jr_source_key q = Some (uw_key x)"
    using authored_finalized [OF assms(2)] by metis
  have keys: "distinct (map uw_id (db_uploads d))" using reachable_keys [OF assms(1)] by (simp add: keys_ok_def)
  have xu: "x = u" using distinct_key_eq [OF keys x(1) assms(3)] x(2) assms(4) by simp
  have o: "orphans c d1 = orphans c d" for c by (simp add: orphans_def d1)
  have "uw_finalized u = None" using authored_never_finalized [OF assms(1,3)] x(3) xu by simp
  then have "u \<in> set (orphans (now - rn_grace r) d1)" using assms(3,5) x(4) xu by (simp add: orphans_def d1)
  then have gone: "obs' (uw_key u) = None" by (rule swept_orphan [OF assms(8) _ assms(6)]) (use assms(7) in \<open>simp only: o\<close>)
  moreover have "v \<in> set (db_uploads d2)" if "v \<in> set (db_uploads d)" "now - rn_grace r \<le> uw_created v" for v
    by (rule swept_younger [OF assms(8)]) (use keys that in \<open>simp_all add: d1\<close>)
  ultimately show ?thesis using q swept_jobs [OF assms(8)] by (auto simp: xu)
qed

definition authored_upload :: "string \<Rightarrow> upload" where
  "authored_upload i = demo_upload\<lparr>u_ID := i, u_Key := StagingKey ''alice'' ''A1'' ''loop'', u_RenditionAsset := ''A1'',
     u_RenditionIntent := ''loop''\<rparr>"

definition authored_row :: "string \<Rightarrow> time \<Rightarrow> upload_row" where
  "authored_row i t = \<lparr>uw_id = i, uw_account = ''alice'', uw_key = StagingKey ''alice'' ''A1'' ''loop'', uw_ctype = ''image/png'',
      uw_size = 10, uw_filename = None, uw_created = t, uw_finalized = None, uw_swept = None, uw_skip = False,
      uw_rasset = Some ''A1'', uw_rintent = Some ''loop''\<rparr>"

definition staged_db :: db where
  "staged_db = run_request (10 ^ 14) ''alice'' (R_CreateUpload (authored_upload ''U2''))
     (run_request 40 ''alice'' (R_CreateUpload (authored_upload ''U1'')) demo_db)"

lemma first_staged: "run_request 40 ''alice'' (R_CreateUpload (authored_upload ''U1'')) demo_db
    = demo_db\<lparr>db_uploads := db_uploads demo_db @ [authored_row ''U1'' 40]\<rparr>"
  by (simp add: CreateUpload_def demo_db_eval demo_db0_eval empty_db_def table_defs has_account_def authored_upload_def
      demo_upload_def authored_row_def nullStr_def)

lemma staged_db_eval: "staged_db = demo_db\<lparr>db_uploads := db_uploads demo_db @ [authored_row ''U1'' 40, authored_row ''U2'' (10 ^ 14)]\<rparr>"
  unfolding staged_db_def first_staged
  by (simp add: CreateUpload_def demo_db_eval demo_db0_eval empty_db_def table_defs has_account_def authored_upload_def
      demo_upload_def authored_row_def nullStr_def)

lemma staged_reachable: "reachable staged_db"
proof -
  have ok: "request_ok d ''alice'' (R_CreateUpload (authored_upload i))"
    if "\<not> has_asset_id d i" "AssetOwnedBy d ''alice'' ''A1''" for d i
    using that by (simp add: authored_upload_def)
  have r1: "reachable (run_request 40 ''alice'' (R_CreateUpload (authored_upload ''U1'')) demo_db)"
    by (rule reachable.step [OF demo_reachable store_step.request], rule ok)
       (simp_all add: demo_db_eval has_asset_id_def AssetOwnedBy_def table_defs demo_asset_def asset_is_def)
  show ?thesis unfolding staged_db_def
    by (rule reachable.step [OF r1 store_step.request], rule ok, unfold first_staged)
       (simp_all add: demo_db_eval has_asset_id_def AssetOwnedBy_def table_defs demo_asset_def asset_is_def)
qed

definition staging_service :: service where
  "staging_service = demo_service\<lparr>sv_storage := Some \<lparr>st_PresignGet = \<lambda>key ttl. None, st_PresignPut = \<lambda>key ct n ttl. None,
     st_Head = \<lambda>key. Some \<lparr>oi_Size = 10, oi_ContentType = ''video/mp4'', oi_ETag = [], oi_Exists = True\<rparr>,
     st_ProbeImage = \<lambda>key. None\<rparr>\<rparr>"

definition writer :: claims where
  "writer = \<lparr>cl_account = ''alice'', cl_scope = [''assets:write''], cl_keyName = LegacyKeyName, cl_binding = None\<rparr>"

lemma sweep_takes_staged_files_witness:
  "\<exists>j d1 n obs' d2. handleFinalizeUpload staging_service 50 ''J7'' (Some writer) staged_db ''U1'' (Some ''sha256:x'') = ((202, B_Job j), d1)
     \<and> SweepOnce demo_outside (NewReconciler 0 0) (10 ^ 14 + 1) (Map.empty(StagingKey ''alice'' ''A1'' ''loop'' \<mapsto> ''new file'')) d1 = (n, obs', d2)
     \<and> obs' (StagingKey ''alice'' ''A1'' ''loop'') = None \<and> authored_row ''U2'' (10 ^ 14) \<in> set (db_uploads d2)"
proof -
  let ?obs = "Map.empty(StagingKey ''alice'' ''A1'' ''loop'' \<mapsto> ''new file'') :: objects"
  have "\<exists>j d1. handleFinalizeUpload staging_service 50 ''J7'' (Some writer) staged_db ''U1'' (Some ''sha256:x'') = ((202, B_Job j), d1)"
    by (simp add: handleFinalizeUpload_def scopeCheck_def HasScope_def writer_def staging_service_def account_def GetUpload_def
        staged_db_eval authored_row_def demo_db_eval demo_db0_eval empty_db_def table_defs upload_of_row_def str_of_def intent_of_def
        all_intents_def EnqueueRemuxJob_def latest_job_def insert_job_def queued_row_def has_account_def has_asset_id_def demo_asset_def)
  then obtain j d1 where f: "handleFinalizeUpload staging_service 50 ''J7'' (Some writer) staged_db ''U1'' (Some ''sha256:x'') = ((202, B_Job j), d1)"
    by blast
  obtain n obs' d2 where s: "SweepOnce demo_outside (NewReconciler 0 0) (10 ^ 14 + 1) ?obs d1 = (n, obs', d2)" by (metis prod_cases3)
  have u: "authored_row ''U1'' 40 \<in> set (db_uploads staged_db)" "uw_id (authored_row ''U1'' 40) = ''U1''"
    "authored_row ''U2'' (10 ^ 14) \<in> set (db_uploads staged_db)"
    by (simp_all add: staged_db_eval demo_db_eval authored_row_def)
  have r: "uw_created (authored_row ''U1'' 40) < 10 ^ 14 + 1 - rn_grace (NewReconciler 0 0)" "io_delete demo_outside (uw_key (authored_row ''U1'' 40))"
    "uw_key (authored_row ''U2'' (10 ^ 14)) = uw_key (authored_row ''U1'' 40)"
    "10 ^ 14 + 1 - rn_grace (NewReconciler 0 0) \<le> uw_created (authored_row ''U2'' (10 ^ 14))"
    by (simp_all add: authored_row_def NewReconciler_def minute_def demo_outside_def)
  let ?c = "10 ^ 14 + 1 - rn_grace (NewReconciler 0 0)"
  have "length (filter (\<lambda>x. uw_created x \<le> uw_created (authored_row ''U1'' 40)) (orphans ?c staged_db)) \<le> length (orphans ?c staged_db)"
    by (rule length_filter_le)
  also have "\<dots> \<le> length (db_uploads staged_db)" unfolding orphans_def by (rule length_filter_le)
  also have "\<dots> \<le> nat (rn_batchSize (NewReconciler 0 0))" by (simp add: staged_db_eval demo_db_eval NewReconciler_def)
  finally have b: "length (filter (\<lambda>x. uw_created x \<le> uw_created (authored_row ''U1'' 40)) (orphans ?c staged_db))
    \<le> nat (rn_batchSize (NewReconciler 0 0))" .
  note h = sweep_takes_staged_files [OF staged_reachable f u(1,2) r(1,2) b s]
  have "obs' (uw_key (authored_row ''U2'' (10 ^ 14))) = None \<and> authored_row ''U2'' (10 ^ 14) \<in> set (db_uploads d2)"
    using h u(3) r(3,4) by blast
  then show ?thesis using f s by (auto simp: authored_row_def)
qed

end
