(* ===== verification/Deletion.thy ===== *)
theory Deletion
  imports Store_Api Store_Props
begin

text \<open>
  What becomes of capabilities over an asset once it is deleted, through any later run of the store:
  grant and export rows keep their frozen sets, a set is always over ids of its own account, and a
  deleted asset never comes back to life.
\<close>

section \<open>The capability tables\<close>

definition export_kept :: "export_row \<Rightarrow> export_row \<Rightarrow> bool" where
  "export_kept r s \<longleftrightarrow> xw_id s = xw_id r \<and> xw_account s = xw_account r \<and> xw_assets s = xw_assets r"

fun issues :: "request \<Rightarrow> bool" where
  "issues (R_CreateGrant g req) = True"
| "issues (R_RevokeGrant g) = True"
| "issues (R_CreateExport x req) = True"
| "issues (R_RevokeExport x) = True"
| "issues _ = False"

lemma other_request_capabilities:
  "\<not> issues r \<Longrightarrow> db_grants (run_request now A r d) = db_grants d \<and> db_exports (run_request now A r d) = db_exports d"
  by (cases r) (auto simp: commit_def MarkAssetDeleted_def ProvisionAccount_def CreateUpload_def MarkNotDerived_def
      EnqueueJob_def EnqueueRemuxJob_def insert_job_def FinalizeUpload_def Let_def split: sum.splits option.splits if_splits)

lemma worker_exports: "db_exports (run_worker now w d) = db_exports d"
  by (cases w) (auto simp: ClaimNextJob_def Heartbeat_def CompleteJob_def CompleteJobNoRendition_def FailJob_def
      PurgeDeletedAsset_def BackfillVaultProbe_def MarkProbeFailed_def FailedRenditionForCeiling_def
      ClaimChecksumCandidate_def ReleaseChecksumClaim_def MarkChecksumVerified_def MarkUploadSwept_def
      UpsertWorkerHeartbeat_def Let_def commit_def split: option.splits sum.splits)

text \<open>A row after a step was there before, or was issued in it: a grant over ids its account owns or owned,
  an export over live ones.\<close>

lemma step_grant_row:
  assumes "store_step d d'" "s \<in> set (db_grants d')"
  shows "(\<exists>r \<in> set (db_grants d). grant_kept r s) \<or> (\<forall>i \<in> set (gw_assets s). classify d (gw_account s) i \<noteq> ClassRefused)"
proof -
  have stays: ?thesis if "s \<in> set (db_grants d)" using that by (auto simp: grant_kept_def)
  show ?thesis using assms(1)
  proof (cases rule: store_step.cases)
    case (request A q now)
    have s: "s \<in> set (db_grants (run_request now A q d))" using assms(2) request(1) by simp
    have other: ?thesis if "\<not> issues q" using other_request_capabilities [OF that] s by (intro stays) simp
    show ?thesis
    proof (cases q)
      case (R_CreateGrant g req)
      show ?thesis
      proof (cases "s \<in> set (db_grants d)")
        case False
        then have "gw_account s = A \<and> gw_assets s = grr_Assets req \<and> (\<forall>i \<in> set (grr_Assets req). classify d A i \<noteq> ClassRefused)"
          using s R_CreateGrant classes_refused_iff [of d A "grr_Assets req"]
          by (auto simp: CreateGrant_def grant_gone_eval commit_def insert_row_def Let_def split: sum.splits if_splits)
        then show ?thesis by simp
      qed (rule stays)
    next
      case (R_RevokeGrant g)
      then have "s \<in> set (db_grants d) \<or> (\<exists>r \<in> set (db_grants d). s = revoke_grant_row now r)"
        using s by (auto simp: RevokeGrant_def Let_def commit_def set_update_where split: sum.splits)
      then show ?thesis by (auto simp: grant_kept_def revoke_grant_row_def)
    next
      case (R_CreateExport x req)
      then have "s \<in> set (db_grants d)" using s by (auto simp: commit_def CreateExport_def Let_def split: sum.splits if_splits)
      then show ?thesis by (rule stays)
    next
      case (R_RevokeExport x)
      then have "s \<in> set (db_grants d)" using s by (auto simp: commit_def RevokeExport_def Let_def split: sum.splits)
      then show ?thesis by (rule stays)
    qed (rule other, simp)+
  next
    case (worker now w)
    then show ?thesis using stays assms(2) by (simp only: worker_grants)
  next
    case (operator now a bucket pre)
    then show ?thesis using stays assms(2) by (simp add: CreateAccount_def)
  qed
qed

lemma step_export_row:
  assumes "store_step d d'" "s \<in> set (db_exports d')"
  shows "(\<exists>r \<in> set (db_exports d). export_kept r s) \<or> (\<forall>i \<in> set (xw_assets s). classify d (xw_account s) i = ClassLive)"
proof -
  have stays: ?thesis if "s \<in> set (db_exports d)" using that by (auto simp: export_kept_def)
  show ?thesis using assms(1)
  proof (cases rule: store_step.cases)
    case (request A q now)
    have s: "s \<in> set (db_exports (run_request now A q d))" using assms(2) request(1) by simp
    have other: ?thesis if "\<not> issues q" using other_request_capabilities [OF that] s by (intro stays) simp
    show ?thesis
    proof (cases q)
      case (R_CreateExport x req)
      let ?live = "filter (\<lambda>i. map_of (classifyAssetSet d A (exr_Assets req)) i = Some ClassLive) (dedup_seen [] (exr_Assets req))"
      show ?thesis
      proof (cases "s \<in> set (db_exports d)")
        case False
        then have "xw_account s = A \<and> xw_assets s = ?live"
          using s R_CreateExport by (auto simp: CreateExport_def commit_def insert_row_def Let_def split: sum.splits if_splits)
        then show ?thesis using pg_live_ids [of d A "exr_Assets req"] by auto
      qed (rule stays)
    next
      case (R_RevokeExport x)
      then have "s \<in> set (db_exports d) \<or> (\<exists>r \<in> set (db_exports d). s = revoke_export_row now r)"
        using s by (auto simp: RevokeExport_def Let_def commit_def set_update_where split: sum.splits)
      then show ?thesis by (auto simp: export_kept_def revoke_export_row_def)
    next
      case (R_CreateGrant g req)
      then have "s \<in> set (db_exports d)" using s by (auto simp: commit_def CreateGrant_def Let_def split: sum.splits if_splits)
      then show ?thesis by (rule stays)
    next
      case (R_RevokeGrant g)
      then have "s \<in> set (db_exports d)" using s by (auto simp: commit_def RevokeGrant_def Let_def split: sum.splits)
      then show ?thesis by (rule stays)
    qed (rule other, simp)+
  next
    case (worker now w)
    then show ?thesis using stays assms(2) by (simp only: worker_exports)
  next
    case (operator now a bucket pre)
    then show ?thesis using stays assms(2) by (simp add: CreateAccount_def)
  qed
qed

section \<open>Capabilities are over ids of their own account\<close>

definition covers_own :: "db \<Rightarrow> bool" where
  "covers_own d \<longleftrightarrow> (\<forall>g \<in> set (db_grants d). \<forall>i \<in> set (gw_assets g). ever_owned d (gw_account g) i)
     \<and> (\<forall>x \<in> set (db_exports d). \<forall>i \<in> set (xw_assets x). ever_owned d (xw_account x) i)"

lemma reachable_covers_own: "reachable d \<Longrightarrow> covers_own d"
proof (induction rule: reachable.induct)
  case init then show ?case by (simp add: covers_own_def empty_db_def)
next
  case (step d d')
  have later: "classify d A i \<noteq> ClassRefused \<Longrightarrow> ever_owned d' A i" "ever_owned d A i \<Longrightarrow> ever_owned d' A i" for A i
    using ever_owned_step [OF step.hyps] classify_refused_iff [OF step.hyps(1)] by blast+
  have g: "ever_owned d' (gw_account s) i" if "s \<in> set (db_grants d')" "i \<in> set (gw_assets s)" for s i
    using step_grant_row [OF step.hyps(2) that(1)] that(2) step.IH later by (fastforce simp: covers_own_def grant_kept_def)
  have x: "ever_owned d' (xw_account s) i" if "s \<in> set (db_exports d')" "i \<in> set (xw_assets s)" for s i
    using step_export_row [OF step.hyps(2) that(1)] that(2) step.IH later by (fastforce simp: covers_own_def export_kept_def)
  show ?case using g x by (simp add: covers_own_def)
qed

lemma live_capability_owner:
  assumes "reachable d"
  shows "Live (ResolveGrantForDelivery d now c i) \<Longrightarrow> ever_owned d (vd_Account (ResolveGrantForDelivery d now c i)) i"
    "Live (ResolveExportForDelivery d now c i) \<Longrightarrow> ever_owned d (vd_Account (ResolveExportForDelivery d now c i)) i"
  using reachable_covers_own [OF assms]
  by (auto simp: ResolveGrantForDelivery_def ResolveExportForDelivery_def not_found_verdict_def Live_def covers_own_def
      split: option.splits dest!: get_row_Some_iff)

section \<open>A deleted asset stays dead\<close>

definition dead_asset :: "string \<Rightarrow> string \<Rightarrow> db \<Rightarrow> bool" where
  "dead_asset A i d \<longleftrightarrow> reachable d \<and> ever_owned d A i \<and> (\<forall>a \<in> set (db_assets d). ar_id a = i \<longrightarrow> ar_deleted a \<noteq> None)"

lemma dead_step:
  assumes "store_step d d'" "dead_asset A i d"
  shows "dead_asset A i d'"
proof -
  have d: "reachable d" "ever_owned d A i" and dead: "\<And>a. a \<in> set (db_assets d) \<Longrightarrow> ar_id a = i \<Longrightarrow> ar_deleted a \<noteq> None"
    using assms(2) by (auto simp: dead_asset_def)
  have "ar_deleted s \<noteq> None" if s: "s \<in> set (db_assets d')" "ar_id s = i" for s
  proof -
    obtain r where "r \<in> set (db_assets d)" "asset_kept r s" using step_assets [OF d(1) assms(1) s(1)] d(2) s(2) by blast
    then show ?thesis using dead [of r] s(2) by (simp add: asset_kept_def asset_key_def)
  qed
  then show ?thesis using reachable.step [OF d(1) assms(1)] ever_owned_step [OF d(1) assms(1) d(2)] by (simp add: dead_asset_def)
qed

lemma dead_run: "store_step\<^sup>*\<^sup>* d d' \<Longrightarrow> dead_asset A i d \<Longrightarrow> dead_asset A i d'"
  by (induction rule: rtranclp_induct) (auto intro: dead_step)

lemma dead_not_live: "dead_asset A i d \<Longrightarrow> classify d B i \<noteq> ClassLive"
  using classify_live_iff [of d B i] by (auto simp: dead_asset_def asset_is_def)

lemma deleted_is_dead:
  assumes "reachable d" "MarkAssetDeleted d t A i = Inr (d1, a)"
  shows "dead_asset A i d1"
proof -
  have r: "reachable d1" by (rule pg_reachable(1) [OF assms])
  have "known_id Postgres d1 A i" "\<not> live_id Postgres d1 A i"
    using postgres.deleted_is_gone [of d t A i d1 a] assms(2) by (simp_all add: postgres_methods)
  then have own: "ever_owned d1 A i" and c: "classify d1 A i \<noteq> ClassLive" using pg_known [OF r] pg_live [OF r] by simp_all
  have "ar_deleted s \<noteq> None" if s: "s \<in> set (db_assets d1)" "ar_id s = i" for s
  proof -
    have "AssetOwnedBy d1 (ar_account s) i" using s by (auto simp: AssetOwnedBy_def has_row_iff asset_is_def)
    then have "ar_account s = A" using pg_one_owner [OF r _ own] owned_ever_owned [OF r] by blast
    then show ?thesis using c classify_live_iff [OF r] s by (auto simp: asset_is_def)
  qed
  then show ?thesis using r own by (simp add: dead_asset_def)
qed

lemma late_export_spares:
  assumes "store_step\<^sup>*\<^sup>* d d'" "dead_asset A i d" "x \<in> set (db_exports d')" "i \<in> set (xw_assets x)"
  shows "\<exists>x0 \<in> set (db_exports d). export_kept x0 x"
  using assms(1,3,4)
proof (induction arbitrary: x rule: rtranclp_induct)
  case base then show ?case by (auto simp: export_kept_def)
next
  case (step y z)
  have "dead_asset A i y" by (rule dead_run [OF step.hyps(1) assms(2)])
  then obtain r where "r \<in> set (db_exports y)" "export_kept r x"
    using step_export_row [OF step.hyps(2) step.prems(1)] step.prems(2) dead_not_live by blast
  then show ?case using step.IH [of r] step.prems(2) by (auto simp: export_kept_def)
qed

section \<open>Deletion and capabilities\<close>

lemma grant_after_deletion:
  assumes "MarkAssetDeleted d t A i = Inr (d1, a)" "store_step\<^sup>*\<^sup>* d1 d2" "vd_Found (ResolveGrantForDelivery d now g j)"
  shows "Live (ResolveGrantForDelivery d2 now g j)
    \<longleftrightarrow> Live (ResolveGrantForDelivery d now g j) \<and> \<not> vd_Revoked (ResolveGrantForDelivery d2 now g j)"
proof -
  obtain r where r: "get_row (\<lambda>x. gw_id x = g) (db_grants d) = Some r"
    using assms(3) by (auto simp: ResolveGrantForDelivery_def not_found_verdict_def split: option.splits)
  then have "get_row (\<lambda>x. gw_id x = g) (db_grants d1) = Some r" using pg_deleted(2) [OF assms(1)] by simp
  then obtain s where s: "get_row (\<lambda>x. gw_id x = g) (db_grants d2) = Some s" "grant_kept r s"
    using steps_keep_grant [OF assms(2)] by blast
  then show ?thesis using r by (auto simp: ResolveGrantForDelivery_def Live_def grant_kept_def)
qed

text \<open>C20: What deletion means for capabilities, from the deletion on and through any later run of the store
  (requests of all accounts, worker operations, operator commands, in any order): the verdict of a grant issued
  before stays what it was until it expires or is revoked; a grant issued later over the id is
  issued and names it as gone; an export issued later never has a live verdict for it, and one over
  nothing else is refused because all is gone; no other account reads the asset or gets a grant or
  an export over its id, and every live verdict for it is of the owner.\<close>
theorem deleted_asset_in_capabilities:
  assumes "reachable d" "MarkAssetDeleted d t A i = Inr (d1, a)" "store_step\<^sup>*\<^sup>* d1 d2"
  shows "(\<forall>g now. vd_Found (ResolveGrantForDelivery d now g i) \<longrightarrow> (Live (ResolveGrantForDelivery d2 now g i)
        \<longleftrightarrow> Live (ResolveGrantForDelivery d now g i) \<and> \<not> vd_Revoked (ResolveGrantForDelivery d2 now g i)))
    \<and> (\<forall>t2 g req d3 gr. CreateGrant d2 t2 g A req = Inr (d3, gr) \<longrightarrow> i \<in> set (grr_Assets req) \<longrightarrow> i \<in> set (gone_of (gr_GoneAssets gr)))
    \<and> (\<forall>x now. \<not> vd_Found (ResolveExportForDelivery d1 now x i) \<longrightarrow> \<not> Live (ResolveExportForDelivery d2 now x i))
    \<and> (\<forall>t2 x e n. CreateExport d2 t2 x A \<lparr>exr_Assets = [i], exr_Expires = e, exr_Note = n\<rparr> = Inl ErrAssetsGone)
    \<and> (\<forall>B t2 c greq xreq. B \<noteq> A \<longrightarrow> GetAsset d2 B i = Inl ErrNotFound
        \<and> (i \<in> set (grr_Assets greq) \<longrightarrow> CreateGrant d2 t2 c B greq = Inl ErrForeignAsset)
        \<and> (i \<in> set (exr_Assets xreq) \<longrightarrow> CreateExport d2 t2 c B xreq = Inl ErrForeignAsset))
    \<and> (\<forall>c now. (Live (ResolveGrantForDelivery d2 now c i) \<longrightarrow> vd_Account (ResolveGrantForDelivery d2 now c i) = A)
        \<and> (Live (ResolveExportForDelivery d2 now c i) \<longrightarrow> vd_Account (ResolveExportForDelivery d2 now c i) = A))"
proof (intro conjI allI impI)
  have dead1: "dead_asset A i d1" by (rule deleted_is_dead [OF assms(1,2)])
  have dead: "dead_asset A i d2" by (rule dead_run [OF assms(3) dead1])
  then have ok: "reachable d2" and own: "ever_owned d2 A i" by (simp_all add: dead_asset_def)
  have gone: "known_id Postgres d2 A i" "\<not> live_id Postgres d2 A i" using own dead_not_live [OF dead] pg_known [OF ok] pg_live [OF ok] by simp_all
  show "Live (ResolveGrantForDelivery d2 now g i) \<longleftrightarrow> Live (ResolveGrantForDelivery d now g i) \<and> \<not> vd_Revoked (ResolveGrantForDelivery d2 now g i)"
    if "vd_Found (ResolveGrantForDelivery d now g i)" for g now by (rule grant_after_deletion [OF assms(2,3) that])
  show "i \<in> set (gone_of (gr_GoneAssets gr))" if "CreateGrant d2 t2 g A req = Inr (d3, gr)" "i \<in> set (grr_Assets req)" for t2 g req d3 gr
    using pg_granted [OF ok that(1)] that(2) dead_not_live [OF dead] by blast
  show "\<not> Live (ResolveExportForDelivery d2 now x i)" if "\<not> vd_Found (ResolveExportForDelivery d1 now x i)" for x now
  proof
    assume "Live (ResolveExportForDelivery d2 now x i)"
    then obtain r where r: "r \<in> set (db_exports d2)" "xw_id r = x" "i \<in> set (xw_assets r)"
      by (auto simp: ResolveExportForDelivery_def not_found_verdict_def Live_def split: option.splits dest!: get_row_Some_iff)
    obtain r0 where "r0 \<in> set (db_exports d1)" "export_kept r0 r" using late_export_spares [OF assms(3) dead1 r(1,3)] by blast
    then have "r0 \<in> set (db_exports d1)" "xw_id r0 = x" using r(2) by (simp_all add: export_kept_def)
    then show False using that by (auto simp: ResolveExportForDelivery_def get_row_None_iff not_found_verdict_def split: option.splits)
  qed
  show "CreateExport d2 t2 x A \<lparr>exr_Assets = [i], exr_Expires = e, exr_Note = n\<rparr> = Inl ErrAssetsGone" for t2 x e n
    by (rule postgres.export_gone [OF ok, unfolded postgres_methods]) (use gone in simp)
  note foreign = postgres.foreigner [OF ok gone(1), unfolded postgres_methods]
  show "GetAsset d2 B i = Inl ErrNotFound" if "B \<noteq> A" for B by (rule foreign(1) [OF that])
  show "CreateGrant d2 t2 c B greq = Inl ErrForeignAsset" if "B \<noteq> A" "i \<in> set (grr_Assets greq)" for B t2 c greq by (rule foreign(4) [OF that])
  show "CreateExport d2 t2 c B xreq = Inl ErrForeignAsset" if "B \<noteq> A" "i \<in> set (exr_Assets xreq)" for B t2 c xreq by (rule foreign(5) [OF that])
  show "vd_Account (ResolveGrantForDelivery d2 now c i) = A" if "Live (ResolveGrantForDelivery d2 now c i)" for c now
    by (rule pg_one_owner [OF ok live_capability_owner(1) [OF ok that] own])
  show "vd_Account (ResolveExportForDelivery d2 now c i) = A" if "Live (ResolveExportForDelivery d2 now c i)" for c now
    by (rule pg_one_owner [OF ok live_capability_owner(2) [OF ok that] own])
qed

definition shared_db :: db where
  "shared_db = demo_db\<lparr>db_grants := [\<lparr>gw_id = ''G1'', gw_account = ''alice'', gw_assets = [''A1''], gw_recipient = None,
     gw_created = 40, gw_expires = 100, gw_revoked = None\<rparr>]\<rparr>"

lemma shared_eval: "\<exists>gr. CreateGrant demo_db 40 ''G1'' ''alice'' \<lparr>grr_Assets = [''A1''], grr_Expires = 100, grr_Recipient = None\<rparr> = Inr (shared_db, gr)"
proof -
  have known: "classify demo_db ''alice'' ''A1'' = ClassLive"
    by (simp add: classify_def AssetPurged_def demo_db_eval demo_db0_eval empty_db_def has_asset_id_def table_defs asset_is_def demo_asset_def)
  have none: "db_grants demo_db = []" by (simp add: demo_db_eval demo_db0_eval empty_db_def)
  show ?thesis
    by (simp add: CreateGrant_def grant_gone_eval classifyAssetSet_def known demo_has_account scanGrantRow_def
        shared_db_def insert_row_def has_row_def none distinct_sorted_def Let_def)
qed

text \<open>Alice shares her asset, deletes it, and bob tries to export it afterwards.\<close>

lemma deleted_asset_in_capabilities_witness:
  "\<exists>d1 a. MarkAssetDeleted shared_db 50 ''alice'' ''A1'' = Inr (d1, a)
     \<and> Live (ResolveGrantForDelivery (run_worker 55 (W_Beat ''w'' ''v'' None) d1) 60 ''G1'' ''A1'')
     \<and> CreateExport (run_worker 55 (W_Beat ''w'' ''v'' None) d1) 60 ''E1'' ''alice''
         \<lparr>exr_Assets = [''A1''], exr_Expires = 100, exr_Note = None\<rparr> = Inl ErrAssetsGone
     \<and> CreateExport (run_worker 55 (W_Beat ''w'' ''v'' None) d1) 60 ''E1'' ''bob''
         \<lparr>exr_Assets = [''A1''], exr_Expires = 100, exr_Note = None\<rparr> = Inl ErrForeignAsset"
proof -
  obtain gr where g: "CreateGrant demo_db 40 ''G1'' ''alice'' \<lparr>grr_Assets = [''A1''], grr_Expires = 100, grr_Recipient = None\<rparr> = Inr (shared_db, gr)"
    using shared_eval by blast
  have r: "reachable shared_db" by (rule pg_reachable(2) [OF demo_reachable g])
  have "db_assets shared_db = [demo_asset]" by (simp add: shared_db_def demo_db_eval)
  then obtain d1 a where m: "MarkAssetDeleted shared_db 50 ''alice'' ''A1'' = Inr (d1, a)"
    by (simp add: MarkAssetDeleted_def scanAsset_def set_deleted_def table_defs asset_is_def demo_asset_def Let_def)
  let ?d2 = "run_worker 55 (W_Beat ''w'' ''v'' None) d1"
  have run: "store_step\<^sup>*\<^sup>* d1 ?d2" by (rule r_into_rtranclp) (rule store_step.worker)
  have g1: "db_grants ?d2 = db_grants shared_db" using pg_deleted(2) [OF m] worker_grants [of 55 "W_Beat ''w'' ''v'' None" d1] by simp
  have v: "ResolveGrantForDelivery d 60 ''G1'' ''A1''
      = \<lparr>vd_Found = True, vd_Covers = True, vd_Revoked = False, vd_Expired = False, vd_Account = ''alice''\<rparr>"
    if "db_grants d = db_grants shared_db" for d
    using that by (simp add: ResolveGrantForDelivery_def shared_db_def table_defs)
  note h = deleted_asset_in_capabilities [OF r m run]
  have "Live (ResolveGrantForDelivery ?d2 60 ''G1'' ''A1'')" using conjunct1 [OF h] v [of shared_db] v [OF g1] by (simp add: Live_def)
  then show ?thesis using h m by auto
qed

end
