(* ===== verification/Spec2Isabelle.thy ===== *)
theory Spec2Isabelle
  imports Auth_Token Grant_Cache Image_Ladder Service_Run Download_Edge Checksum_Props Authored Readiness_Props Boot_Props
    Command_Props Store_Types Store_Api Http_Front Ingest Conformance Throttle Harness
    Drain Housekeeping Staged_Files Deletion
begin

text \<open>
  A verification development of Plate, a media vault with an HTTP API (\<open>plate serve\<close>) and a
  transcoding worker (\<open>plate work\<close>) over one Postgres database and one S3 bucket.

  A client asks the API for a presigned upload, puts the bytes, and finalizes the upload into an
  asset. The original is private, under \<open>vault/\<close>; what is public is renditions, under
  \<open>delivery/\<close>, made by the worker from queued jobs, and image variants made by an imgproxy that
  reads the vault. Originals leave through signed, expiring URLs: of the owner, of a grant, of an
  export. Every request acts for the one account its token names.

  \<^bold>\<open>Theories and what they model (sources under src/internal).\<close>

  \<^item> Plate_Prelude, Go_Strings, Go_Strconv, Go_Url, Go_Float, Go_Parse_Float, Go_Scan, Go_Time, Go_Base64:
    shared vocabulary (tables as lists of rows with lookup, update, insert, upsert and their
    algebra; the locale \<open>tenant_table\<close> of a table whose rows belong to accounts) and the parts of
    Go's standard library the program computes with: strings, base 10, base 64, URL escaping and
    parsing, durations, \<open>Sscanf\<close> and the parsing of flags' numbers, float64 as rationals rounded to 53
    bits.
  \<^item> Media_Types: the contract's enums and structs (plate/plate.gen.go).
  \<^item> Plate_Id: identifiers and storage keys (id/id.go), with the key parsers of the handlers.
  \<^item> Auth_Binding, Auth_Token: key to account binding and token verification (auth/binding.go,
    auth/token.go). The JWT library is a record of functions.
  \<^item> Db, Store_Read, Store_Write, Queue, Checksum_Store: the database as a record of tables and
    one definition per store method (store/postgres.go, queue.go, checksum.go, health.go). A
    method is one transaction: \<open>Inl\<close> is its error and leaves the database unchanged.
  \<^item> Store_Machine: the store as a step relation (requests with the guards the handlers
    establish, worker operations, operator commands), its invariant, its refinement to a skeleton
    of keys and owners. Tenant: account isolation of the store. Capabilities: grants and exports
    as two interpretations of one interface (locale \<open>capability\<close>: frozen sets, no way back from
    revocation or expiry). Queue_Props, Store_Props: claims, leases, failure, enqueueing,
    finalize, purge, pagination, checksums. Store_Types: the keys and references of the schema and
    the shapes of rows, in every reachable database. Store_Api: the interface the service has of its
    store (store/store.go) as a record of operations, the promises of its comments as the laws of the
    locale \<open>store_contract\<close>, and Postgres as an interpretation on every reachable database. Deletion: what
    becomes of capabilities over an asset through any run of the store after its deletion.
  \<^item> Mediaspec, Image_Ladder: ffmpeg arguments, imgproxy presets, zoom bands and output sizes
    (mediaspec/mediaspec.go, service/handlers.go) in rounded arithmetic.
  \<^item> Sign, Grant_Cache, Delivery: URL signing (service/sign.go), the cache of grant verdicts
    (grantcache.go), the routing allowlist and the resolution of an intent (delivery.go,
    handlers.go). HMAC is a function, the S3 client a record of functions.
  \<^item> Delivery_Api, Asset_Api, Router: one definition per HTTP handler (handlers.go, upload.go,
    exports.go, accounts.go) with its validation order, scope checks and store calls, and the
    router with the token middleware (router.go). A response is a status and a body.
  \<^item> Service_Run: runs of the whole service as a step relation over database and cache. Wire: how
    request bodies are read from JSON into the request types, instants included. Http_Front: the two
    muxes of the router, from the method, path, query, header and body of a request to its handler.
    Download_Edge: the URLs the service mints against the endpoint that answers them.
  \<^item> Readiness, Readiness_Props: the probe behind \<open>/readyz\<close> (service/health.go) and what it sees of
    the store. Env_Config, Boot_Props: the configuration from the environment with every refusal to
    boot (service/config.go), the construction of service and storage (service.go, storage/s3.go),
    the boot of \<open>plate serve\<close>; the two parsers of named entries are interpretations of one locale
    (\<open>entry_list\<close>).
  \<^item> Worker, Sweeps, Probe: the worker (worker/worker.go, transcode.go, reconcile.go, heartbeat.go,
    checksum.go) over explicit objects, a map from keys to bytes; ffmpeg, SHA-256 and the answers of
    the storage are a record of functions; the reading of an ffprobe answer (probe/probe.go). The
    two sweeps are interpretations of one locale (\<open>sweep_pass\<close>).
  \<^item> Worker_Props, Delivered_Bytes, Sweep_Props, Checksum_Props, Authored: the worker's jobs as
    steps of the store machine, the joint system of database, objects, clients, workers and
    sweeps, the checksum pass, the ceilings of authored files. Throttle: the rate cap of the checksum
    pass in time, and the objects it keeps from ever being hashed. Failed_Jobs: a job that has failed
    for good, the worker's further turns, and what delivery says of it. Drain, Housekeeping: the loops of the
    worker (Run, SweepLoop, HeartbeatLoop, the checksum loop): the queue is drained and the sweeps
    catch up after a number of turns known beforehand, and the inputs that keep them from it. Staged_Files:
    an authored upload between its finalize and its remux job, and the sweep.
  \<^item> Object_Store: every call on the object store (storage/s3.go, errors.go) over the AWS client, a
    record of operations on a world of buckets, and the interface it gives the handlers. Ingest: the
    deployment around the originals, with requests through that interface and sweeps split into
    single listings, deletions and marks.
  \<^item> Command_Line, Command_Props: the commands of the binary (cmd/plate/main.go) as functions of
    arguments, environment and what they read: tokens, key pairs, accounts, checksums, the set-up of
    the worker.
  \<^item> Conformance: the isolation suite (test/support/isolation.go) as a specification that every
    reachable database meets, and what an upload ticket is good for. Acceptance, Mp4_Atoms, Harness:
    the seams and verifiers of the acceptance tests (test/support, test/harness): device budgets, the
    reference resolvers, the walk over MP4 boxes, the engines' command lines.

  \<^bold>\<open>What the theorems show.\<close> Isolation: the store machine's invariant gives every asset to the
  account in whose key space it lies, requests of others do not change an account's answers, and
  the handlers establish the guards the invariant assumes (refinement of the store machine by the
  router); over HTTP the database changes only by steps of the account the token names, and three doors
  are open without one. Capabilities lose power only; deleting an asset leaves grants over it alone, keeps it out of later
  exports and gives nobody else a right; a verdict is cached for a bounded time; signatures bind
  path, intent (free of NUL), capability and expiry. Delivery: no public answer names the vault, an A/V answer
  names an object that is there in every interleaving and is never taken away, a minted URL is
  answered exactly until it expires or its capability or asset ends, announced image sizes fit the
  device with and without a grant, and the original of a live asset is there, as long as no upload is
  finalized that a sweep has listed. Tokens: what the operator's commands mint is accepted by a
  booted server exactly under the stated conditions. Queue: a claim takes the first runnable job, a fresh lease is
  exclusive against everything but a failure report on the job itself, completion is atomic, the loop drains the queue and the sweeps catch up after a number of
  turns that is known beforehand (rendition objects are never swept). Boot and health: configured bindings and keys are exactly those
  in force, URL windows are capped, a dead worker degrades and never downs. Bounds: image sizes and
  pixel budgets, authored sizes. The
  theorems of kind error state what the code does where it departs from its comments.

  \<^bold>\<open>Bounds and fuel.\<close> The checksum pass has fuel because its loop ends only when the store has no
  candidate: one more than the number of assets is enough (checksum_pass_correct). ParseDuration has
  the length of its text as fuel, each term consuming some (parse_terms_fuel). The loops of the worker and the sweeps
  are lists of ticks, what each turn meets; how many are enough is part of the theorems. All other loops
  are structural or have a measure. Times are integers of nanoseconds (seconds in signed URLs);
  identifiers and random bytes are arguments, with freshness a guard.

  \<^bold>\<open>Not modelled.\<close> Logging and the text commands print for people; the text of JSON (a
  request body is the value it denotes or \<open>None\<close>, a response body the typed value); Postgres itself (a transaction is atomic, lock waits are not
  visible); the inside of the AWS client and of the JWT library, goose migrations, tickers,
  goroutines and signals (a tick is a step the environment schedules). ParseFloat of environment
  variables reads decimal text only, flags also hexadecimal and special values.
\<close>

end
